(* ===== verification/Smap_Prelude.thy ===== *)
theory Smap_Prelude
  imports Main "HOL-Library.Word" "HOL-Library.Monad_Syntax"
begin

unbundle bit_operations_syntax

text \<open>
  Shared vocabulary of the Smap development: error codes, flag words, the
  arithmetic of \<open>size_t\<close>, the memory and string primitives of the C library
  that the sources use, and the collections of rewrite rules the component
  theories build on.

  Conventions.
  \<^item> A C byte is a HOL \<^typ>\<open>char\<close>; a byte array or a NUL-terminated string is a
    \<^typ>\<open>string\<close> (the terminating NUL is not part of the list).
  \<^item> A function that may fail to return (an access outside an array, a call to
    \<open>abort\<close>, an endless loop) has a result of type \<open>'a option\<close>, and \<open>None\<close>
    means that the call does not return normally.
  \<^item> An error code that the function returns is a value of type \<open>errno\<close>.
\<close>

named_theorems flag_simps \<open>membership of a bit in a flag word after an update\<close>
named_theorems mem_simps \<open>reading back what was stored in a byte array\<close>

subsection \<open>Error codes\<close>

text \<open>\<open>E0\<close> is the code 0 (success); \<open>EERR n\<close> stands for any other code.\<close>

datatype errno =
    E0 | EAGAIN | EINPROGRESS | ENOSYS | EACCES | ENOMEM | ERANGE | EINVAL
  | EIO | ESPIPE | EOVERFLOW | EPROTO | EERR nat

subsection \<open>Flag words\<close>

type_synonym flagword = "32 word"

definition hasfl :: "flagword \<Rightarrow> flagword \<Rightarrow> bool" where
  "hasfl f m \<longleftrightarrow> f AND m \<noteq> 0"

definition setfl :: "flagword \<Rightarrow> flagword \<Rightarrow> flagword" where
  "setfl f m = f OR m"

definition clrfl :: "flagword \<Rightarrow> flagword \<Rightarrow> flagword" where
  "clrfl f m = f AND NOT m"

subsection \<open>The arithmetic of size_t\<close>

text \<open>The width of \<open>size_t\<close> is 64 bits; the subtraction wraps around.\<close>

definition SIZE_MAX :: nat where
  "SIZE_MAX = 18446744073709551615"

definition size_sub :: "nat \<Rightarrow> nat \<Rightarrow> nat" where
  "size_sub a b = (if b \<le> a then a - b else a + (SIZE_MAX + 1) - b)"

subsection \<open>Memory and string primitives\<close>

text \<open>
  \<open>memchr c bs\<close> is the offset of the first occurrence of \<open>c\<close>; on a
  NUL-terminated string it is also \<open>strchr\<close> (for a character other than NUL).
  \<open>memcpy_at mem pos bs\<close> stores \<open>bs\<close> at offset \<open>pos\<close> of the array \<open>mem\<close>; a store
  that reaches beyond the array does not return normally.
\<close>

fun memchr :: "char \<Rightarrow> string \<Rightarrow> nat option" where
  "memchr c [] = None"
| "memchr c (x # xs) = (if x = c then Some 0 else map_option Suc (memchr c xs))"

definition memcpy_at :: "string \<Rightarrow> nat \<Rightarrow> string \<Rightarrow> string option" where
  "memcpy_at mem pos bs =
     (if pos + length bs \<le> length mem
      then Some (take pos mem @ bs @ drop (pos + length bs) mem) else None)"

abbreviation NL :: char where
  "NL \<equiv> CHR 0x0A"

subsection \<open>Character classes and numbers of the C library\<close>

text \<open>The classes are those of the C locale.  \<open>strtoul s base\<close> is the value and the
  rest of the string; an overflow saturates, and a minus sign negates modulo
  two to the 64.\<close>

definition isspace :: "char \<Rightarrow> bool" where
  "isspace c \<longleftrightarrow> c \<in> set [CHR '' '', CHR 0x09, CHR 0x0A, CHR 0x0B, CHR 0x0C, CHR 0x0D]"

definition is_digit :: "char \<Rightarrow> bool" where
  "is_digit c \<longleftrightarrow> 48 \<le> (of_char c :: nat) \<and> (of_char c :: nat) \<le> 57"

definition ispunct :: "char \<Rightarrow> bool" where
  "ispunct c \<longleftrightarrow> (let n = (of_char c :: nat) in
     33 \<le> n \<and> n \<le> 47 \<or> 58 \<le> n \<and> n \<le> 64 \<or> 91 \<le> n \<and> n \<le> 96 \<or> 123 \<le> n \<and> n \<le> 126)"

definition digit_val :: "char \<Rightarrow> nat" where
  "digit_val c = (let n = (of_char c :: nat) in
     if 48 \<le> n \<and> n \<le> 57 then n - 48
     else if 97 \<le> n \<and> n \<le> 122 then n - 87
     else if 65 \<le> n \<and> n \<le> 90 then n - 55
     else 36)"

definition number_of :: "nat \<Rightarrow> string \<Rightarrow> nat" where
  "number_of base ds = foldl (\<lambda>v c. v * base + digit_val c) 0 ds"

definition strtoul_digits :: "nat \<Rightarrow> string \<Rightarrow> (nat \<times> string) option" where
  "strtoul_digits base r =
     (let ds = takeWhile (\<lambda>c. digit_val c < base) r in
      if ds = [] then None else Some (number_of base ds, drop (length ds) r))"

definition strtoul_base :: "nat \<Rightarrow> string \<Rightarrow> (nat \<times> string) option" where
  "strtoul_base base r =
     (case r of
        z # x # h # _ \<Rightarrow>
          if (base = 0 \<or> base = 16) \<and> z = CHR ''0'' \<and> x \<in> set ''xX'' \<and> digit_val h < 16
          then strtoul_digits 16 (drop 2 r)
          else strtoul_digits (if base = 0 then if z = CHR ''0'' then 8 else 10 else base) r
      | _ \<Rightarrow> strtoul_digits (if base = 0 then if r \<noteq> [] \<and> hd r = CHR ''0'' then 8 else 10 else base) r)"

definition strtoul :: "string \<Rightarrow> nat \<Rightarrow> nat \<times> string" where
  "strtoul s base =
     (let r = dropWhile isspace s;
          neg = (r \<noteq> [] \<and> hd r = CHR ''-'');
          r' = (if r \<noteq> [] \<and> hd r \<in> set ''+-'' then tl r else r)
      in case strtoul_base base r' of
           None \<Rightarrow> (0, s)
         | Some (v, rest) \<Rightarrow>
             (if v > SIZE_MAX then SIZE_MAX
              else if neg then (SIZE_MAX + 1 - v) mod (SIZE_MAX + 1) else v, rest))"

text \<open>\<open>strtol\<close> saturates at the bounds of a 64 bit \<open>long\<close>.\<close>

definition strtol :: "string \<Rightarrow> nat \<Rightarrow> int \<times> string" where
  "strtol s base =
     (let r = dropWhile isspace s;
          neg = (r \<noteq> [] \<and> hd r = CHR ''-'');
          r' = (if r \<noteq> [] \<and> hd r \<in> set ''+-'' then tl r else r)
      in case strtoul_base base r' of
           None \<Rightarrow> (0, s)
         | Some (v, rest) \<Rightarrow>
             (if neg then max (- (2 ^ 63)) (- int v) else min (2 ^ 63 - 1) (int v), rest))"

text \<open>\<open>strncmp (a, b, n) == 0\<close> and \<open>strcspn\<close> for one character.\<close>

definition strncmp_eq :: "string \<Rightarrow> string \<Rightarrow> nat \<Rightarrow> bool" where
  "strncmp_eq a b n \<longleftrightarrow> take n a = take n b"

definition strcspn1 :: "string \<Rightarrow> char \<Rightarrow> nat" where
  "strcspn1 s c = length (takeWhile (\<lambda>x. x \<noteq> c) s)"

subsection \<open>Lemmas\<close>

lemma hasfl_setfl [flag_simps]: "hasfl (setfl f m) m' \<longleftrightarrow> hasfl f m' \<or> hasfl m m'"
  unfolding hasfl_def setfl_def
  by (simp only: and.commute [of _ m'] bit.conj_disj_distrib or_eq_0_iff de_Morgan_conj)

lemma hasfl_clrfl [flag_simps]: "hasfl (clrfl f m) m' \<longleftrightarrow> hasfl f (m' AND NOT m)"
  unfolding hasfl_def clrfl_def by (simp add: ac_simps)

lemma hasfl_0 [flag_simps]: "\<not> hasfl 0 m" "\<not> hasfl f 0"
  unfolding hasfl_def by simp_all

lemma hasfl_numeral [flag_simps]:
  "hasfl (numeral a) (numeral b) \<longleftrightarrow> (numeral a AND numeral b :: flagword) \<noteq> 0"
  "hasfl 1 (numeral b) \<longleftrightarrow> (1 AND numeral b :: flagword) \<noteq> 0"
  "hasfl (numeral a) 1 \<longleftrightarrow> (numeral a AND 1 :: flagword) \<noteq> 0"
  "hasfl 1 1"
  unfolding hasfl_def by simp_all

text \<open>Two flag words that differ at most in the bits of a mask.\<close>

definition flags_upto :: "flagword \<Rightarrow> flagword \<Rightarrow> flagword \<Rightarrow> bool" where
  "flags_upto m f f' \<longleftrightarrow> clrfl f m = clrfl f' m"

lemma flags_upto_refl [simp]: "flags_upto m f f"
  by (simp add: flags_upto_def)

lemma flags_upto_trans: "flags_upto m f g \<Longrightarrow> flags_upto m g h \<Longrightarrow> flags_upto m f h"
  by (simp add: flags_upto_def)

lemma flags_upto_setfl:
  assumes "b AND NOT m = 0"
  shows "flags_upto m f (setfl f b)"
  using assms by (simp add: flags_upto_def clrfl_def setfl_def bit.conj_disj_distrib2)

lemma flags_upto_clrfl:
  assumes "b AND NOT m = 0"
  shows "flags_upto m f (clrfl f b)"
proof -
  have "NOT b AND NOT m = NOT m"
  proof (rule bit_eqI)
    fix n
    from assms have "\<not> bit (b AND NOT m) n" by simp
    then show "bit (NOT b AND NOT m) n = bit (NOT m) n" by (auto simp: bit_simps)
  qed
  then show ?thesis by (simp add: flags_upto_def clrfl_def and.assoc)
qed

lemma flags_upto_hasfl:
  assumes "flags_upto m f f'" "k AND NOT m = k"
  shows "hasfl f' k = hasfl f k"
proof -
  have "hasfl (clrfl f' m) k = hasfl (clrfl f m) k"
    using assms(1) by (simp add: flags_upto_def)
  with assms(2) show ?thesis by (simp add: hasfl_clrfl)
qed

lemma size_sub_le [simp]: "b \<le> a \<Longrightarrow> size_sub a b = a - b"
  by (simp add: size_sub_def)

lemma memchr_None: "memchr c bs = None \<longleftrightarrow> c \<notin> set bs"
  by (induction bs) auto

lemma memchr_Some: "memchr c bs = Some i \<Longrightarrow> i < length bs \<and> bs ! i = c \<and> c \<notin> set (take i bs)"
  by (induction bs arbitrary: i) (auto split: if_splits)

lemma memchr_append_notin:
  "c \<notin> set xs \<Longrightarrow> memchr c (xs @ ys) = map_option ((+) (length xs)) (memchr c ys)"
  by (induction xs) (auto simp: map_option_case split: option.split)

lemma memchr_hit [simp]: "c \<notin> set xs \<Longrightarrow> memchr c (xs @ c # ys) = Some (length xs)"
  by (simp add: memchr_append_notin)

lemma memcpy_at_length [mem_simps]: "memcpy_at mem pos bs = Some mem' \<Longrightarrow> length mem' = length mem"
  by (auto simp: memcpy_at_def split: if_splits)

lemma memcpy_at_ok: "pos + length bs \<le> length mem \<Longrightarrow> \<exists>mem'. memcpy_at mem pos bs = Some mem'"
  by (simp add: memcpy_at_def)

text \<open>What lies behind a window that ends where the store begins.\<close>

lemma memcpy_at_window [mem_simps]:
  assumes "memcpy_at mem (a + n) bs = Some mem'"
  shows "take (n + length bs) (drop a mem') = take n (drop a mem) @ bs"
proof -
  from assms have le: "a + n + length bs \<le> length mem"
    and mem': "mem' = take (a + n) mem @ bs @ drop (a + n + length bs) mem"
    by (auto simp: memcpy_at_def split: if_splits)
  from le have "drop a (take (a + n) mem) = take n (drop a mem)"
    by (simp add: drop_take)
  with le show ?thesis by (simp add: mem')
qed

text \<open>The string that a pointer to bytes stands for.\<close>

definition cstr :: "string \<Rightarrow> string" where
  "cstr s = takeWhile (\<lambda>c. c \<noteq> CHR 0x00) s"

lemma cstr_same: "CHR 0x00 \<notin> set s \<Longrightarrow> cstr s = s"
  by (auto simp: cstr_def takeWhile_eq_all_conv)

text \<open>An \<open>unsigned long\<close> converted to \<open>int\<close>.\<close>

lemma sint_of_nat: "sint (word_of_nat n :: 32 word) = signed_take_bit 31 (int n)"
  by transfer simp

lemma sint_int_back:
  assumes "- (2 ^ 31) \<le> i" "i < 2 ^ 31" "i mod 2 ^ 64 = int n"
  shows "sint (word_of_nat n :: 32 word) = i"
proof -
  have "signed_take_bit 31 (take_bit 64 i) = signed_take_bit 31 i" by (simp add: signed_take_bit_take_bit)
  also have "\<dots> = i" using assms(1,2) by (intro signed_take_bit_int_eq_self) simp_all
  finally show ?thesis using assms(3) by (simp add: sint_of_nat take_bit_eq_mod)
qed

lemma sint_range32: "- (2 ^ 31) \<le> sint (w :: 32 word)" "sint w < 2 ^ 31"
  using sint_greater_eq [of w] sint_less [of w] by simp_all

lemma sint_small:
  assumes n: "n < 2 ^ 32"
  shows "sint (word_of_nat n :: 32 word) = (if n < 2 ^ 31 then int n else int n - 2 ^ 32)"
proof -
  have "n < 2 ^ 31 \<Longrightarrow> sint (word_of_nat n :: 32 word) = int n"
    by (rule sint_int_back) (simp_all)
  moreover have "signed_take_bit 31 (take_bit 32 (int n - 2^32)) = int n - 2^32" if "\<not> n < 2 ^ 31"
    using n that by (simp add: signed_take_bit_take_bit signed_take_bit_int_eq_self)
  moreover have "take_bit 32 (int n - 2^32) = int n" using n by (simp add: take_bit_eq_mod)
  ultimately show ?thesis by (auto simp: sint_of_nat)
qed

end
