(* ===== verification/Smap_Stream.thy ===== *)
theory Smap_Stream
  imports Smap_Prelude
begin

text \<open>
  The buffered stream layer (\<open>lib/stream.c\<close>, \<open>include/smap/stream.h\<close>,
  \<open>include/smap/streamdef.h\<close>).

  \<open>'d smap_stream\<close> is \<open>struct _smap_stream\<close>: the fields keep their names behind
  the prefix \<open>str_\<close>; \<open>str_buffer\<close> is the allocated array (\<open>None\<close> for the null
  pointer), \<open>str_cur\<close> the distance of \<open>cur\<close> from its beginning, and \<open>str_dev\<close>
  the part a concrete stream adds to the structure.  The method pointers are
  the record \<open>'d stream_ops\<close>, an argument of every operation; a method sees
  what the methods of the package touch, the added part and the flag word.

  Two more fields of \<open>'d stream_ops\<close> stand for the environment: \<open>op_alloc n\<close>
  tells whether the allocator grants \<open>n\<close> bytes, and \<open>op_junk\<close> is what an
  uninitialised \<open>size_t\<close> variable happens to hold.
\<close>

section \<open>Types\<close>

datatype smap_buffer_type = smap_buffer_none | smap_buffer_line | smap_buffer_full

record 'd smap_stream =
  str_ref_count :: int
  str_buftype :: smap_buffer_type
  str_bufsize :: nat
  str_buffer :: "string option"
  str_level :: nat
  str_cur :: nat
  str_flags :: flagword
  str_offset :: int
  str_bytes_in :: int
  str_bytes_out :: int
  str_last_err :: errno
  str_dev :: 'd

text \<open>The argument of an \<open>ioctl\<close>: null, an integer, strings.\<close>

datatype ioctl_arg =
    ArgNull | ArgInt int | ArgStr string | ArgPair string string | ArgStrs "string list"

text \<open>
  A read method gets the size of the caller's array and returns the code, the
  bytes it stored there and the count it assigned; a write method gets the
  bytes and returns the code and the count.
\<close>

record 'd stream_ops =
  op_read :: "('d \<Rightarrow> flagword \<Rightarrow> nat \<Rightarrow> ('d \<times> flagword \<times> errno \<times> string \<times> nat) option) option"
  op_readdelim ::
    "('d \<Rightarrow> flagword \<Rightarrow> nat \<Rightarrow> char \<Rightarrow> ('d \<times> flagword \<times> errno \<times> string \<times> nat) option) option"
  op_write :: "('d \<Rightarrow> string \<Rightarrow> ('d \<times> errno \<times> nat) option) option"
  op_flush :: "('d \<Rightarrow> ('d \<times> errno) option) option"
  op_open :: "('d \<Rightarrow> ('d \<times> errno) option) option"
  op_close :: "('d \<Rightarrow> flagword \<Rightarrow> ('d \<times> errno) option) option"
  op_done :: "('d \<Rightarrow> flagword \<Rightarrow> 'd option) option"
  op_seek :: "('d \<Rightarrow> int \<Rightarrow> ('d \<times> errno \<times> int) option) option"
  op_size :: "('d \<Rightarrow> ('d \<times> errno \<times> int) option) option"
  op_ctl :: "('d \<Rightarrow> int \<Rightarrow> ioctl_arg \<Rightarrow> ('d \<times> errno) option) option"
  op_wait :: "('d \<Rightarrow> flagword \<Rightarrow> nat option \<Rightarrow> ('d \<times> errno \<times> flagword) option) option"
  op_truncate :: "('d \<Rightarrow> int \<Rightarrow> ('d \<times> errno) option) option"
  op_shutdown :: "('d \<Rightarrow> int \<Rightarrow> ('d \<times> errno) option) option"
  op_strerror :: "('d \<Rightarrow> errno \<Rightarrow> string) option"
  op_alloc :: "nat \<Rightarrow> bool"
  op_junk :: nat

subsection \<open>Flag bits\<close>

abbreviation (input) SMAP_STREAM_READ :: flagword where "SMAP_STREAM_READ \<equiv> 0x1"
abbreviation (input) SMAP_STREAM_WRITE :: flagword where "SMAP_STREAM_WRITE \<equiv> 0x2"
abbreviation (input) SMAP_STREAM_SEEK :: flagword where "SMAP_STREAM_SEEK \<equiv> 0x4"
abbreviation (input) SMAP_STREAM_NO_CLOSE :: flagword where "SMAP_STREAM_NO_CLOSE \<equiv> 0x40"
abbreviation (input) SMAP_STREAM_EXPBUF :: flagword where "SMAP_STREAM_EXPBUF \<equiv> 0x80"
abbreviation (input) STR_DIRTY :: flagword where "STR_DIRTY \<equiv> 0x01000"
abbreviation (input) STR_WRT :: flagword where "STR_WRT \<equiv> 0x02000"
abbreviation (input) STR_ERR :: flagword where "STR_ERR \<equiv> 0x04000"
abbreviation (input) STR_EOF :: flagword where "STR_EOF \<equiv> 0x08000"
abbreviation (input) STR_MORESPC :: flagword where "STR_MORESPC \<equiv> 0x10000"
abbreviation (input) STR_INTERN_MASK :: flagword where "STR_INTERN_MASK \<equiv> 0xff000"
abbreviation (input) SMAP_STREAM_READY_RD :: flagword where "SMAP_STREAM_READY_RD \<equiv> 0x1"

section \<open>Operations\<close>

subsection \<open>Access to the buffer\<close>

definition bufmem :: "'d smap_stream \<Rightarrow> string" where
  "bufmem s = (case str_buffer s of None \<Rightarrow> [] | Some b \<Rightarrow> b)"

text \<open>The \<open>level\<close> bytes at \<open>cur\<close>.\<close>

definition window :: "'d smap_stream \<Rightarrow> string" where
  "window s = take (str_level s) (drop (str_cur s) (bufmem s))"

definition buf_store :: "'d smap_stream \<Rightarrow> nat \<Rightarrow> string \<Rightarrow> 'd smap_stream option" where
  "buf_store s pos bs =
     (case memcpy_at (bufmem s) pos bs of
        None \<Rightarrow> None
      | Some mem \<Rightarrow> Some (if bs = [] then s else s\<lparr>str_buffer := Some mem\<rparr>))"

definition stream_advance_buffer :: "'d smap_stream \<Rightarrow> nat \<Rightarrow> 'd smap_stream" where
  "stream_advance_buffer s n =
     s\<lparr>str_cur := str_cur s + n, str_level := size_sub (str_level s) n\<rparr>"

definition set_flag :: "flagword \<Rightarrow> 'd smap_stream \<Rightarrow> 'd smap_stream" where
  "set_flag m s = s\<lparr>str_flags := setfl (str_flags s) m\<rparr>"

definition clr_flag :: "flagword \<Rightarrow> 'd smap_stream \<Rightarrow> 'd smap_stream" where
  "clr_flag m s = s\<lparr>str_flags := clrfl (str_flags s) m\<rparr>"

abbreviation has_flag :: "'d smap_stream \<Rightarrow> flagword \<Rightarrow> bool" where
  "has_flag s m \<equiv> hasfl (str_flags s) m"

subsection \<open>Error state\<close>

definition stream_seterror :: "'d smap_stream \<Rightarrow> errno \<Rightarrow> bool \<Rightarrow> 'd smap_stream" where
  "stream_seterror s code perm =
     (let s = s\<lparr>str_last_err := code\<rparr> in
      case code of
        E0 \<Rightarrow> s
      | EAGAIN \<Rightarrow> s
      | EINPROGRESS \<Rightarrow> s
      | _ \<Rightarrow> if perm then set_flag STR_ERR s else s)"

definition smap_stream_err :: "'d smap_stream \<Rightarrow> bool" where
  "smap_stream_err s = has_flag s STR_ERR"

definition smap_stream_last_error :: "'d smap_stream \<Rightarrow> errno" where
  "smap_stream_last_error s = str_last_err s"

definition smap_stream_clearerr :: "'d smap_stream \<Rightarrow> 'd smap_stream" where
  "smap_stream_clearerr s = clr_flag STR_ERR (s\<lparr>str_last_err := E0\<rparr>)"

definition smap_stream_eof :: "'d smap_stream \<Rightarrow> bool" where
  "smap_stream_eof s = has_flag s STR_EOF"

definition smap_stream_strerror ::
  "(errno \<Rightarrow> string) \<Rightarrow> 'd stream_ops \<Rightarrow> 'd smap_stream \<Rightarrow> errno \<Rightarrow> string" where
  "smap_stream_strerror strerror ops s rc =
     (case op_strerror ops of Some f \<Rightarrow> f (str_dev s) rc | None \<Rightarrow> strerror rc)"

subsection \<open>Unbuffered input and output\<close>

text \<open>The loop of a full read; the size is the number of bytes still wanted.\<close>

partial_function (option) read_full_loop ::
  "('d \<Rightarrow> flagword \<Rightarrow> nat \<Rightarrow> ('d \<times> flagword \<times> errno \<times> string \<times> nat) option) \<Rightarrow>
   'd smap_stream \<Rightarrow> nat \<Rightarrow> string \<Rightarrow> nat \<Rightarrow> ('d smap_stream \<times> errno \<times> string \<times> nat \<times> nat) option"
where
  "read_full_loop rd s sz acc nread =
     (if sz = 0 then Some (s, E0, acc, nread, 0)
      else do {
        (d, f, rc, bs, n) \<leftarrow> rd (str_dev s) (str_flags s) sz;
        let s = s\<lparr>str_dev := d, str_flags := f\<rparr>;
        if rc \<noteq> E0 then Some (s, rc, acc @ bs, nread, sz)
        else if n = 0 then Some (set_flag STR_EOF s, E0, acc @ bs, nread, sz)
        else read_full_loop rd (s\<lparr>str_bytes_in := str_bytes_in s + int n\<rparr>)
               (size_sub sz n) (acc @ bs) (nread + n)
      })"

definition smap_stream_read_unbuffered ::
  "'d stream_ops \<Rightarrow> 'd smap_stream \<Rightarrow> nat \<Rightarrow> bool \<Rightarrow>
   ('d smap_stream \<times> errno \<times> string \<times> nat option) option" where
  "smap_stream_read_unbuffered ops s sz full_read =
     (case op_read ops of
        None \<Rightarrow> Some (stream_seterror s ENOSYS False, ENOSYS, [], None)
      | Some rd \<Rightarrow>
          if \<not> has_flag s SMAP_STREAM_READ then
            Some (stream_seterror s EACCES True, EACCES, [], None)
          else if has_flag s STR_ERR then Some (s, str_last_err s, [], None)
          else if has_flag s STR_EOF \<or> sz = 0 then Some (s, E0, [], Some 0)
          else if full_read then do {
            (s, rc, bs, nread, left) \<leftarrow> read_full_loop rd s sz [] 0;
            let s = (if left \<noteq> 0 \<and> rc \<noteq> E0 then stream_seterror s rc False else s);
            Some (s\<lparr>str_offset := str_offset s + int nread\<rparr>, rc, bs, Some nread)
          }
          else do {
            (d, f, rc, bs, nread) \<leftarrow> rd (str_dev s) (str_flags s) sz;
            let s = s\<lparr>str_dev := d, str_flags := f\<rparr>;
            let s = (if rc = E0 then
                       (if nread = 0 then set_flag STR_EOF s else s)
                         \<lparr>str_bytes_in := str_bytes_in s + int nread\<rparr>
                     else s);
            let s = stream_seterror s rc (rc \<noteq> E0);
            Some (s\<lparr>str_offset := str_offset s + int nread\<rparr>, rc, bs, Some nread)
          })"

text \<open>A method that claims to have taken more than it was given makes the loop
  run past the caller's array.\<close>

partial_function (option) write_full_loop ::
  "('d \<Rightarrow> string \<Rightarrow> ('d \<times> errno \<times> nat) option) \<Rightarrow>
   'd smap_stream \<Rightarrow> string \<Rightarrow> nat \<Rightarrow> ('d smap_stream \<times> errno \<times> nat) option"
where
  "write_full_loop wr s buf nwritten =
     (if buf = [] then Some (s, E0, nwritten)
      else do {
        (d, rc, n) \<leftarrow> wr (str_dev s) buf;
        let s = s\<lparr>str_dev := d\<rparr>;
        if rc \<noteq> E0 then Some (s, rc, nwritten)
        else if n = 0 then Some (s, EIO, nwritten)
        else if length buf < n then None
        else write_full_loop wr (s\<lparr>str_bytes_out := str_bytes_out s + int n\<rparr>)
               (drop n buf) (nwritten + n)
      })"

definition smap_stream_write_unbuffered ::
  "'d stream_ops \<Rightarrow> 'd smap_stream \<Rightarrow> string \<Rightarrow> bool \<Rightarrow>
   ('d smap_stream \<times> errno \<times> nat option) option" where
  "smap_stream_write_unbuffered ops s buf full_write =
     (case op_write ops of
        None \<Rightarrow> Some (stream_seterror s ENOSYS False, ENOSYS, None)
      | Some wr \<Rightarrow>
          if \<not> has_flag s SMAP_STREAM_WRITE then
            Some (stream_seterror s EACCES True, EACCES, None)
          else if has_flag s STR_ERR then Some (s, str_last_err s, None)
          else if buf = [] then Some (s, E0, Some 0)
          else do {
            (s, rc, nwritten) \<leftarrow>
              (if full_write then write_full_loop wr s buf 0
               else do {
                 (d, rc, n) \<leftarrow> wr (str_dev s) buf;
                 let s = s\<lparr>str_dev := d\<rparr>;
                 Some (if rc = E0 then s\<lparr>str_bytes_out := str_bytes_out s + int n\<rparr> else s, rc, n)
               });
            let s = set_flag STR_WRT s;
            let s = s\<lparr>str_offset := str_offset s + int nwritten\<rparr>;
            Some (stream_seterror s rc (rc \<noteq> E0), rc, Some nwritten)
          })"

subsection \<open>Buffer management\<close>

definition stream_realloc_buffer ::
  "'d stream_ops \<Rightarrow> 'd smap_stream \<Rightarrow> nat \<Rightarrow> 'd smap_stream \<times> errno" where
  "stream_realloc_buffer ops s newsize =
     (if str_bufsize s = SIZE_MAX then (s, ENOMEM)
      else
        let newsize =
              (if newsize = 0 then
                 let n = (2 * str_bufsize s) mod (SIZE_MAX + 1)
                 in if n < str_bufsize s then SIZE_MAX else n
               else newsize)
        in if \<not> op_alloc ops newsize then (s, ENOMEM)
           else (s\<lparr>str_buffer := Some (take newsize (bufmem s) @
                                   replicate (newsize - length (bufmem s)) (CHR 0x00)),
                  str_bufsize := newsize\<rparr>, E0))"

partial_function (option) stream_fill_full_loop ::
  "'d stream_ops \<Rightarrow> 'd smap_stream \<Rightarrow> ('d smap_stream \<times> errno) option" where
  "stream_fill_full_loop ops s = do {
     (s, rc, bs, pn) \<leftarrow>
       smap_stream_read_unbuffered ops (clr_flag STR_MORESPC s)
         (size_sub (str_bufsize s) (str_level s)) False;
     let nrd = (case pn of None \<Rightarrow> 0 | Some n \<Rightarrow> n);
     s \<leftarrow> buf_store s (str_level s) bs;
     if rc = ERANGE \<and> has_flag s STR_MORESPC then
       (case stream_realloc_buffer ops (smap_stream_clearerr s) nrd of
          (s, rc) \<Rightarrow> if rc \<noteq> E0 then Some (s, rc) else stream_fill_full_loop ops s)
     else Some (s\<lparr>str_level := str_level s + nrd\<rparr>, rc)
   }"

definition stream_fill_full_buffered ::
  "'d stream_ops \<Rightarrow> 'd smap_stream \<Rightarrow> ('d smap_stream \<times> errno) option" where
  "stream_fill_full_buffered ops s = stream_fill_full_loop ops (s\<lparr>str_level := 0\<rparr>)"

partial_function (option) stream_fill_line_loop ::
  "'d stream_ops \<Rightarrow> 'd smap_stream \<Rightarrow> nat \<Rightarrow> errno \<Rightarrow> ('d smap_stream \<times> nat \<times> errno) option" where
  "stream_fill_line_loop ops s n rc =
     (if \<not> n < str_bufsize s then Some (s, n, rc)
      else do {
        (s, rc, bs, pn) \<leftarrow> smap_stream_read_unbuffered ops s 1 False;
        if rc \<noteq> E0 \<or> pn = Some 0 then Some (s, n, rc)
        else (case bs of
                [] \<Rightarrow> None
              | c # _ \<Rightarrow> do {
                  s \<leftarrow> buf_store s n [c];
                  let n = Suc n;
                  if c = NL then Some (s, n, rc)
                  else if n = str_bufsize s \<and> has_flag s SMAP_STREAM_EXPBUF then
                    (case stream_realloc_buffer ops s 0 of
                       (s, rc) \<Rightarrow> if rc \<noteq> E0 then Some (s, n, rc)
                                  else stream_fill_line_loop ops s n rc)
                  else stream_fill_line_loop ops s n rc
                })
      })"

definition stream_fill_line_buffered ::
  "'d stream_ops \<Rightarrow> 'd smap_stream \<Rightarrow> ('d smap_stream \<times> errno) option" where
  "stream_fill_line_buffered ops s = do {
     (s, n, rc) \<leftarrow> stream_fill_line_loop ops s 0 E0;
     Some (s\<lparr>str_level := n\<rparr>, rc)
   }"

definition stream_fill_buffer ::
  "'d stream_ops \<Rightarrow> 'd smap_stream \<Rightarrow> ('d smap_stream \<times> errno) option" where
  "stream_fill_buffer ops s =
     (case str_buftype s of
        smap_buffer_none \<Rightarrow> Some (s, E0)
      | smap_buffer_full \<Rightarrow> do {
          (s, rc) \<leftarrow> stream_fill_full_buffered ops s;
          Some (s\<lparr>str_cur := 0\<rparr>, rc) }
      | smap_buffer_line \<Rightarrow> do {
          (s, rc) \<leftarrow> stream_fill_line_buffered ops s;
          Some (s\<lparr>str_cur := 0\<rparr>, rc) })"

definition BUFFER_FULL_P :: "'d smap_stream \<Rightarrow> bool" where
  "BUFFER_FULL_P s \<longleftrightarrow> str_cur s + str_level s = str_bufsize s"

definition stream_buffer_full_p :: "'d smap_stream \<Rightarrow> bool" where
  "stream_buffer_full_p s =
     (case str_buftype s of
        smap_buffer_none \<Rightarrow> False
      | smap_buffer_line \<Rightarrow> BUFFER_FULL_P s \<or> memchr NL (window s) \<noteq> None
      | smap_buffer_full \<Rightarrow> BUFFER_FULL_P s)"

definition force_flush_buffer ::
  "'d stream_ops \<Rightarrow> 'd smap_stream \<Rightarrow> ('d smap_stream \<times> errno) option" where
  "force_flush_buffer ops s = do {
     (s, rc, _) \<leftarrow> smap_stream_write_unbuffered ops s (window s) True;
     Some (if rc = E0 then stream_advance_buffer s (str_level s) else s, rc)
   }"

text \<open>
  The seek to the stream's own offset that a flush starts with.  It calls
  \<open>smap_stream_seek\<close>, which in turn calls the flush; for a buffered stream the
  inner call is not reached, since the position is inside the buffer, and for
  an unbuffered one the two functions call each other for ever.  Lemma
  \<open>stream_seek_self_eq\<close> relates it to \<open>smap_stream_seek\<close>.
\<close>

definition stream_seek_self ::
  "'d stream_ops \<Rightarrow> 'd smap_stream \<Rightarrow> ('d smap_stream \<times> errno) option" where
  "stream_seek_self ops s =
     (if op_seek ops = None then Some (stream_seterror s ENOSYS False, ENOSYS)
      else if \<not> has_flag s SMAP_STREAM_SEEK then Some (stream_seterror s EACCES True, EACCES)
      else if str_buftype s = smap_buffer_none then None
      else Some (s, E0))"

partial_function (option) flush_lines ::
  "'d stream_ops \<Rightarrow> 'd smap_stream \<Rightarrow> ('d smap_stream \<times> errno) option" where
  "flush_lines ops s =
     (case memchr NL (window s) of
        None \<Rightarrow> Some (s, E0)
      | Some i \<Rightarrow> do {
          (s, rc, _) \<leftarrow> smap_stream_write_unbuffered ops s (take (i + 1) (window s)) True;
          if rc \<noteq> E0 then Some (s, rc)
          else flush_lines ops (stream_advance_buffer s (i + 1))
        })"

text \<open>The end of a flush: what is left moves to the beginning of the buffer.\<close>

definition flush_finish :: "'d smap_stream \<Rightarrow> ('d smap_stream \<times> errno) option" where
  "flush_finish s = do {
     s \<leftarrow> (if str_level s \<noteq> 0
            then (if 0 < str_cur s then buf_store s 0 (window s) else Some s)
            else Some ((clr_flag STR_DIRTY s)\<lparr>str_level := 0\<rparr>));
     Some (s\<lparr>str_cur := 0\<rparr>, E0)
   }"

definition stream_flush_buffer ::
  "'d stream_ops \<Rightarrow> 'd smap_stream \<Rightarrow> bool \<Rightarrow> ('d smap_stream \<times> errno) option" where
  "stream_flush_buffer ops s all =
     (if has_flag s STR_DIRTY then do {
        (s, rc) \<leftarrow> (if has_flag s SMAP_STREAM_SEEK then stream_seek_self ops s else Some (s, E0));
        if rc \<noteq> E0 then Some (s, rc)
        else (case str_buftype s of
            smap_buffer_none \<Rightarrow> None
          | smap_buffer_full \<Rightarrow> do {
              (s, rc, _) \<leftarrow> smap_stream_write_unbuffered ops s (window s) True;
              if rc \<noteq> E0 then Some (s, rc)
              else flush_finish (if all then stream_advance_buffer s (str_level s) else s) }
          | smap_buffer_line \<Rightarrow>
              if str_level s = 0 then flush_finish s
              else do {
                (s, rc) \<leftarrow> flush_lines ops s;
                if rc \<noteq> E0 then Some (s, rc)
                else if str_level s \<noteq> 0 then
                  (if all then do {
                     (s, rc) \<leftarrow> force_flush_buffer ops s;
                     if rc \<noteq> E0 then Some (s, rc) else flush_finish s }
                   else if BUFFER_FULL_P s then
                     (if has_flag s SMAP_STREAM_EXPBUF then Some (stream_realloc_buffer ops s 0)
                      else do {
                        (s, rc) \<leftarrow> force_flush_buffer ops s;
                        if rc \<noteq> E0 then Some (s, rc) else flush_finish s })
                   else flush_finish s)
                else flush_finish s
              })
      }
      else flush_finish (if all then stream_advance_buffer s (str_level s) else s))"


subsection \<open>Size and seek\<close>

text \<open>The third component is what was assigned through the pointer argument.\<close>

definition smap_stream_size ::
  "'d stream_ops \<Rightarrow> 'd smap_stream \<Rightarrow> ('d smap_stream \<times> errno \<times> int option) option" where
  "smap_stream_size ops s =
     (case op_size ops of
        None \<Rightarrow> Some (stream_seterror s ENOSYS False, ENOSYS, None)
      | Some f \<Rightarrow> do {
          (d, rc, n) \<leftarrow> f (str_dev s);
          Some (stream_seterror (s\<lparr>str_dev := d\<rparr>) rc (rc \<noteq> E0), rc, Some n) })"

abbreviation (input) SMAP_SEEK_SET :: nat where "SMAP_SEEK_SET \<equiv> 0"
abbreviation (input) SMAP_SEEK_CUR :: nat where "SMAP_SEEK_CUR \<equiv> 1"
abbreviation (input) SMAP_SEEK_END :: nat where "SMAP_SEEK_END \<equiv> 2"

text \<open>\<open>pres\<close> tells whether the caller passed a place for the result.\<close>

definition seek_to ::
  "'d stream_ops \<Rightarrow> ('d \<Rightarrow> int \<Rightarrow> ('d \<times> errno \<times> int) option) \<Rightarrow> 'd smap_stream \<Rightarrow> int \<Rightarrow> bool \<Rightarrow>
   ('d smap_stream \<times> errno \<times> int option) option" where
  "seek_to ops sk s off pres =
     (if str_buftype s = smap_buffer_none \<or> off < str_offset s
         \<or> off > str_offset s + int (str_cur s)
      then do {
        (s, rc) \<leftarrow> stream_flush_buffer ops s True;
        if rc \<noteq> E0 then Some (s, rc, None)
        else do {
          (d, rc, n) \<leftarrow> sk (str_dev s) off;
          let s = s\<lparr>str_dev := d, str_offset := n\<rparr>;
          if rc \<noteq> E0 then Some (stream_seterror s rc True, rc, None)
          else (let s = clr_flag STR_EOF s in
                Some (s, E0, if pres then Some (str_offset s + int (str_cur s)) else None))
        } }
      else Some (s, E0, if pres then Some (str_offset s + int (str_cur s)) else None))"

definition smap_stream_seek ::
  "'d stream_ops \<Rightarrow> 'd smap_stream \<Rightarrow> int \<Rightarrow> nat \<Rightarrow> bool \<Rightarrow>
   ('d smap_stream \<times> errno \<times> int option) option" where
  "smap_stream_seek ops s off whence pres =
     (case op_seek ops of
        None \<Rightarrow> Some (stream_seterror s ENOSYS False, ENOSYS, None)
      | Some sk \<Rightarrow>
          if \<not> has_flag s SMAP_STREAM_SEEK then
            Some (stream_seterror s EACCES True, EACCES, None)
          else if whence = SMAP_SEEK_SET then seek_to ops sk s off pres
          else if whence = SMAP_SEEK_CUR then
            (if off = 0 then
               (if pres then Some (s, E0, Some (str_offset s + int (str_cur s))) else None)
             else seek_to ops sk s (off + str_offset s) pres)
          else if whence = SMAP_SEEK_END then do {
            (s, rc, sz) \<leftarrow> smap_stream_size ops s;
            if rc \<noteq> E0 then Some (stream_seterror s rc True, rc, None)
            else (case sz of
                    None \<Rightarrow> None
                  | Some n \<Rightarrow> seek_to ops sk s (off + n) pres) }
          else Some (stream_seterror s EINVAL True, EINVAL, None))"

text \<open>On a dirty stream, the only place where it is used, \<open>stream_seek_self\<close> is the call in the source.\<close>

lemma stream_seek_self_eq:
  assumes "has_flag s STR_DIRTY"
  shows "stream_seek_self ops s
    = map_option (\<lambda>(s, rc, _). (s, rc)) (smap_stream_seek ops s (str_offset s) SMAP_SEEK_SET False)"
  using assms
  by (auto simp: stream_seek_self_def smap_stream_seek_def seek_to_def stream_flush_buffer_def split: option.split)

subsection \<open>Flush and close\<close>

definition smap_stream_flush ::
  "'d stream_ops \<Rightarrow> 'd smap_stream \<Rightarrow> ('d smap_stream \<times> errno) option" where
  "smap_stream_flush ops s = do {
     (s, rc) \<leftarrow> stream_flush_buffer ops s True;
     if rc \<noteq> E0 then Some (s, rc)
     else (case (if has_flag s STR_WRT then op_flush ops else None) of
             Some f \<Rightarrow> do { (d, rc) \<leftarrow> f (str_dev s); Some (s\<lparr>str_dev := d\<rparr>, rc) }
           | None \<Rightarrow> Some (clr_flag STR_WRT s, E0))
   }"

definition smap_stream_close ::
  "'d stream_ops \<Rightarrow> 'd smap_stream \<Rightarrow> ('d smap_stream \<times> errno) option" where
  "smap_stream_close ops s = do {
     (s, _) \<leftarrow> smap_stream_flush ops s;
     if str_ref_count s > 1 then Some (s, E0)
     else (case op_close ops of
             None \<Rightarrow> Some (s, E0)
           | Some f \<Rightarrow> do { (d, rc) \<leftarrow> f (str_dev s) (str_flags s); Some (s\<lparr>str_dev := d\<rparr>, rc) })
   }"

subsection \<open>Creation, reference counting, flags\<close>

text \<open>\<open>granted\<close> is the outcome of the allocation; the structure is zeroed.\<close>

definition smap_stream_ref :: "'d smap_stream \<Rightarrow> 'd smap_stream" where
  "smap_stream_ref s = s\<lparr>str_ref_count := str_ref_count s + 1\<rparr>"

definition smap_stream_create :: "bool \<Rightarrow> flagword \<Rightarrow> 'd \<Rightarrow> 'd smap_stream option" where
  "smap_stream_create granted fl d =
     (if granted then
        Some (smap_stream_ref
          \<lparr>str_ref_count = 0, str_buftype = smap_buffer_none, str_bufsize = 0,
           str_buffer = None, str_level = 0, str_cur = 0, str_flags = fl, str_offset = 0,
           str_bytes_in = 0, str_bytes_out = 0, str_last_err = E0, str_dev = d\<rparr>)
      else None)"

text \<open>The second component tells whether the structure was released (and the
  caller's pointer reset).\<close>

definition smap_stream_destroy ::
  "'d stream_ops \<Rightarrow> 'd smap_stream \<Rightarrow> ('d smap_stream \<times> bool) option" where
  "smap_stream_destroy ops s =
     (let s = (if str_ref_count s = 0 then s else s\<lparr>str_ref_count := str_ref_count s - 1\<rparr>) in
      if str_ref_count s = 0 then do {
        (s, _) \<leftarrow> smap_stream_close ops s;
        d \<leftarrow> (case op_done ops of None \<Rightarrow> Some (str_dev s) | Some f \<Rightarrow> f (str_dev s) (str_flags s));
        Some (s\<lparr>str_dev := d\<rparr>, True)
      }
      else Some (s, False))"

definition smap_stream_get_flags :: "'d smap_stream \<Rightarrow> flagword" where
  "smap_stream_get_flags s = str_flags s AND NOT STR_INTERN_MASK"

definition smap_stream_set_flags :: "'d smap_stream \<Rightarrow> flagword \<Rightarrow> 'd smap_stream" where
  "smap_stream_set_flags s fl = set_flag (fl AND NOT STR_INTERN_MASK) s"

definition smap_stream_clr_flags :: "'d smap_stream \<Rightarrow> flagword \<Rightarrow> 'd smap_stream" where
  "smap_stream_clr_flags s fl = clr_flag (fl AND NOT STR_INTERN_MASK) s"

definition smap_stream_open ::
  "'d stream_ops \<Rightarrow> 'd smap_stream \<Rightarrow> ('d smap_stream \<times> errno) option" where
  "smap_stream_open ops s = do {
     (s, rc) \<leftarrow> (case op_open ops of
                   None \<Rightarrow> Some (s, E0)
                 | Some f \<Rightarrow> do { (d, rc) \<leftarrow> f (str_dev s); Some (s\<lparr>str_dev := d\<rparr>, rc) });
     if rc \<noteq> E0 then Some (stream_seterror s rc True, rc)
     else Some (s\<lparr>str_bytes_in := 0, str_bytes_out := 0\<rparr>, E0)
   }"

text \<open>A buffer that has been set before is flushed (its result ignored) and released.\<close>

definition smap_stream_set_buffer ::
  "'d stream_ops \<Rightarrow> 'd smap_stream \<Rightarrow> smap_buffer_type \<Rightarrow> nat \<Rightarrow>
   ('d smap_stream \<times> errno) option" where
  "smap_stream_set_buffer ops s ty sz = do {
     let ty = (if sz = 0 then smap_buffer_none else ty);
     s \<leftarrow> (if str_buffer s \<noteq> None
            then map_option fst (smap_stream_flush ops s) else Some s);
     let s = s\<lparr>str_buftype := ty\<rparr>;
     if ty = smap_buffer_none then Some (s\<lparr>str_buffer := None\<rparr>, E0)
     else if \<not> op_alloc ops sz then
       Some (stream_seterror (s\<lparr>str_buffer := None, str_buftype := smap_buffer_none\<rparr>) ENOMEM True,
             ENOMEM)
     else Some (s\<lparr>str_buffer := Some (replicate sz (CHR 0x00)), str_bufsize := sz,
                  str_cur := 0, str_level := 0\<rparr>, E0)
   }"

subsection \<open>Reading\<close>

text \<open>The loop of a buffered read: wanted bytes, bytes copied so far.\<close>

partial_function (option) stream_read_loop ::
  "'d stream_ops \<Rightarrow> 'd smap_stream \<Rightarrow> nat \<Rightarrow> string \<Rightarrow> ('d smap_stream \<times> errno \<times> string) option"
where
  "stream_read_loop ops s sz acc =
     (if sz = 0 then Some (s, E0, acc)
      else do {
        (s, rc) \<leftarrow> (if str_level s = 0 then stream_fill_buffer ops s else Some (s, E0));
        if rc \<noteq> E0 then Some (s, if acc \<noteq> [] then E0 else rc, acc)
        else if str_level s = 0 then Some (s, E0, acc)
        else let n = min sz (str_level s); bs = take n (window s);
                 s = stream_advance_buffer s n in
             if length bs < n then None
             else if str_buftype s = smap_buffer_line \<and> last bs = NL then Some (s, E0, acc @ bs)
             else stream_read_loop ops s (sz - n) (acc @ bs)
      })"

text \<open>\<open>pread\<close> tells whether the caller passed a place for the count.\<close>

definition smap_stream_read ::
  "'d stream_ops \<Rightarrow> 'd smap_stream \<Rightarrow> nat \<Rightarrow> bool \<Rightarrow>
   ('d smap_stream \<times> errno \<times> string \<times> nat option) option" where
  "smap_stream_read ops s sz pread =
     (if str_buftype s = smap_buffer_none then smap_stream_read_unbuffered ops s sz (\<not> pread)
      else do {
        (s, rc, bs) \<leftarrow> stream_read_loop ops s sz [];
        Some (s, rc, bs, if rc = E0 then Some (length bs) else None)
      })"

partial_function (option) scandelim_loop ::
  "'d stream_ops \<Rightarrow> 'd smap_stream \<Rightarrow> nat \<Rightarrow> char \<Rightarrow> string \<Rightarrow>
   ('d smap_stream \<times> errno \<times> string) option" where
  "scandelim_loop ops s sz delim acc =
     (if sz = 0 then Some (s, E0, acc)
      else do {
        (s, rc) \<leftarrow> (if str_level s = 0 then stream_fill_buffer ops s else Some (s, E0));
        if rc \<noteq> E0 \<or> str_level s = 0 then Some (s, rc, acc)
        else let p = memchr delim (window s);
                 len = (case p of Some i \<Rightarrow> i + 1 | None \<Rightarrow> str_level s);
                 len = min len sz; bs = take len (window s);
                 s = stream_advance_buffer s len in
             if length bs < len then None
             else if p \<noteq> None then Some (s, E0, acc @ bs)
             else scandelim_loop ops s (sz - len) delim (acc @ bs)
      })"

definition stream_scandelim ::
  "'d stream_ops \<Rightarrow> 'd smap_stream \<Rightarrow> nat \<Rightarrow> char \<Rightarrow>
   ('d smap_stream \<times> errno \<times> string \<times> nat option) option" where
  "stream_scandelim ops s sz delim =
     (let sz = size_sub sz 1 in
      if sz = 0 then Some (s, EOVERFLOW, [], None)
      else do {
        (s, rc, bs) \<leftarrow> scandelim_loop ops s sz delim [];
        Some (s, rc, bs, Some (length bs))
      })"

partial_function (option) readdelim_loop ::
  "'d stream_ops \<Rightarrow> 'd smap_stream \<Rightarrow> nat \<Rightarrow> char \<Rightarrow> string \<Rightarrow> errno \<Rightarrow>
   ('d smap_stream \<times> errno \<times> string) option" where
  "readdelim_loop ops s sz delim acc rc =
     (if \<not> length acc < sz then Some (s, rc, acc)
      else do {
        (s, rc, bs, rdn) \<leftarrow> smap_stream_read ops s 1 True;
        if rc \<noteq> E0 \<or> rdn = Some 0 then Some (s, rc, acc)
        else (case bs of
                [] \<Rightarrow> None
              | c # _ \<Rightarrow> if c = delim then Some (s, rc, acc @ [c])
                         else readdelim_loop ops s sz delim (acc @ [c]) rc)
      })"

definition stream_readdelim ::
  "'d stream_ops \<Rightarrow> 'd smap_stream \<Rightarrow> nat \<Rightarrow> char \<Rightarrow>
   ('d smap_stream \<times> errno \<times> string \<times> nat option) option" where
  "stream_readdelim ops s sz delim =
     (let sz = size_sub sz 1 in
      if sz = 0 then Some (s, EOVERFLOW, [], None)
      else do {
        (s, rc, bs) \<leftarrow> readdelim_loop ops s sz delim [] E0;
        Some (s, rc, bs, Some (length bs))
      })"

definition method_readdelim ::
  "('d \<Rightarrow> flagword \<Rightarrow> nat \<Rightarrow> char \<Rightarrow> ('d \<times> flagword \<times> errno \<times> string \<times> nat) option) \<Rightarrow>
   'd smap_stream \<Rightarrow> nat \<Rightarrow> char \<Rightarrow> ('d smap_stream \<times> errno \<times> string \<times> nat option) option" where
  "method_readdelim f s sz delim = do {
     (d, fl, rc, bs, n) \<leftarrow> f (str_dev s) (str_flags s) sz delim;
     Some (s\<lparr>str_dev := d, str_flags := fl\<rparr>, rc, bs, Some n)
   }"

definition smap_stream_readdelim ::
  "'d stream_ops \<Rightarrow> 'd smap_stream \<Rightarrow> nat \<Rightarrow> char \<Rightarrow>
   ('d smap_stream \<times> errno \<times> string \<times> nat option) option" where
  "smap_stream_readdelim ops s sz delim =
     (if sz = 0 then Some (s, EINVAL, [], None)
      else case op_readdelim ops of
             Some f \<Rightarrow> method_readdelim f s sz delim
           | None \<Rightarrow>
               if str_buftype s \<noteq> smap_buffer_none then stream_scandelim ops s sz delim
               else stream_readdelim ops s sz delim)"

definition smap_stream_readline ::
  "'d stream_ops \<Rightarrow> 'd smap_stream \<Rightarrow> nat \<Rightarrow>
   ('d smap_stream \<times> errno \<times> string \<times> nat option) option" where
  "smap_stream_readline ops s sz = smap_stream_readdelim ops s sz NL"

text \<open>
  \<open>getdelim\<close> keeps the line read so far (\<open>lineptr\<close>, \<open>cur_len\<close> bytes of it) and
  the size \<open>n\<close> of the array it is in.  The largest size is \<open>SSIZE_MAX + 1\<close>.
\<close>

definition getdelim_grow :: "'d stream_ops \<Rightarrow> nat \<Rightarrow> nat \<Rightarrow> errno \<times> nat" where
  "getdelim_grow ops cur_len n =
     (if cur_len + 1 \<ge> n then
        let needed = min (9223372036854775808) ((2 * n + 1) mod (SIZE_MAX + 1)) in
        if cur_len + 1 \<ge> needed then (EOVERFLOW, n)
        else if \<not> op_alloc ops needed then (ENOMEM, n)
        else (E0, needed)
      else (E0, n))"

definition getdelim_read ::
  "'d stream_ops \<Rightarrow> 'd smap_stream \<Rightarrow> nat \<Rightarrow> char \<Rightarrow>
   ('d smap_stream \<times> errno \<times> string \<times> nat option) option" where
  "getdelim_read ops s room delim =
     (case op_readdelim ops of
        Some f \<Rightarrow> method_readdelim f s room delim
      | None \<Rightarrow>
          if str_buftype s \<noteq> smap_buffer_none then stream_scandelim ops s room delim
          else smap_stream_read ops s 1 True)"

partial_function (option) getdelim_loop ::
  "'d stream_ops \<Rightarrow> 'd smap_stream \<Rightarrow> string \<Rightarrow> nat \<Rightarrow> char \<Rightarrow>
   ('d smap_stream \<times> errno \<times> string \<times> nat) option" where
  "getdelim_loop ops s line n delim =
     (case getdelim_grow ops (length line) n of
        (rc, n) \<Rightarrow>
          if rc \<noteq> E0 then Some (s, rc, line, n)
          else do {
            (s, rc, bs, rdn) \<leftarrow> getdelim_read ops s (n - length line) delim;
            if rc \<noteq> E0 \<or> rdn = Some 0 then Some (s, rc, line, n)
            else if line @ bs \<noteq> [] \<and> last (line @ bs) = delim then Some (s, E0, line @ bs, n)
            else getdelim_loop ops s (line @ bs) n delim
          })"

text \<open>\<open>psize\<close> is the size of the caller's array, 0 when there is none yet.\<close>

definition smap_stream_getdelim ::
  "'d stream_ops \<Rightarrow> 'd smap_stream \<Rightarrow> nat \<Rightarrow> char \<Rightarrow>
   ('d smap_stream \<times> errno \<times> string \<times> nat) option" where
  "smap_stream_getdelim ops s psize delim =
     (if psize = 0 then
        (if \<not> op_alloc ops 120 then Some (s, ENOMEM, [], psize)
         else getdelim_loop ops s [] 120 delim)
      else getdelim_loop ops s [] psize delim)"

definition smap_stream_getline ::
  "'d stream_ops \<Rightarrow> 'd smap_stream \<Rightarrow> nat \<Rightarrow> ('d smap_stream \<times> errno \<times> string \<times> nat) option" where
  "smap_stream_getline ops s psize = smap_stream_getdelim ops s psize NL"

text \<open>
  Skipping input.  The count of an unbuffered read that fails is whatever the
  variable held before, and so is the code when the loop is not entered.
\<close>

definition junk_rc :: "'d stream_ops \<Rightarrow> errno" where
  "junk_rc ops = (if op_junk ops = 0 then E0 else EERR (op_junk ops))"

partial_function (option) skip_unbuffered_loop ::
  "'d stream_ops \<Rightarrow> 'd smap_stream \<Rightarrow> errno \<Rightarrow> int \<Rightarrow> int \<Rightarrow> ('d smap_stream \<times> errno \<times> int) option"
where
  "skip_unbuffered_loop ops s rc pos count =
     (if \<not> pos < count then Some (s, rc, pos)
      else do {
        (s, rc, _, pn) \<leftarrow> smap_stream_read ops s 1 True;
        let nrd = (case pn of None \<Rightarrow> op_junk ops | Some n \<Rightarrow> n);
        let rc = (if nrd = 0 then ESPIPE else rc);
        if rc \<noteq> E0 then Some (s, rc, pos)
        else skip_unbuffered_loop ops s rc (pos + 1) count
      })"

text \<open>The last component tells that the function returns at once with the code
  of a failed flush.\<close>

partial_function (option) skip_buffered_loop ::
  "'d stream_ops \<Rightarrow> 'd smap_stream \<Rightarrow> int \<Rightarrow> int \<Rightarrow>
   ('d smap_stream \<times> errno \<times> int \<times> bool) option" where
  "skip_buffered_loop ops s pos count = do {
     (s, rc) \<leftarrow> stream_flush_buffer ops s True;
     if rc \<noteq> E0 then Some (s, rc, pos, True)
     else do {
       (s, rc) \<leftarrow> (if str_level s = 0 then stream_fill_buffer ops s else Some (s, E0));
       if rc \<noteq> E0 then Some (s, rc, pos, False)
       else if str_level s = 0 then Some (s, ESPIPE, pos, False)
       else if pos \<le> count \<and> count < pos + int (str_level s) then
         Some (stream_advance_buffer s (nat (count - pos)), E0, count, False)
       else skip_buffered_loop ops s (pos + int (str_level s)) count
     }
   }"

definition smap_stream_skip_input_bytes ::
  "'d stream_ops \<Rightarrow> 'd smap_stream \<Rightarrow> int \<Rightarrow> ('d smap_stream \<times> errno \<times> int option) option" where
  "smap_stream_skip_input_bytes ops s count =
     (if \<not> has_flag s SMAP_STREAM_READ then Some (stream_seterror s EACCES True, EACCES, None)
      else do {
        (s, rc, pos, early) \<leftarrow>
          (if str_buftype s = smap_buffer_none then do {
             (s, rc, pos) \<leftarrow> skip_unbuffered_loop ops s (junk_rc ops) 0 count; Some (s, rc, pos, False) }
           else skip_buffered_loop ops s 0 count);
        if early then Some (s, rc, None)
        else (let s = s\<lparr>str_offset := str_offset s + pos\<rparr> in Some (s, rc, Some (str_offset s)))
      })"

subsection \<open>Writing\<close>

partial_function (option) stream_write_loop ::
  "'d stream_ops \<Rightarrow> 'd smap_stream \<Rightarrow> string \<Rightarrow> nat \<Rightarrow> ('d smap_stream \<times> errno \<times> nat) option"
where
  "stream_write_loop ops s buf nbytes = do {
     (s, rc) \<leftarrow> (if stream_buffer_full_p s then stream_flush_buffer ops s False else Some (s, E0));
     if rc \<noteq> E0 then Some (s, rc, nbytes)
     else if buf = [] then Some (s, E0, nbytes)
     else do {
       let n = min (size_sub (str_bufsize s) (str_level s)) (length buf);
       s \<leftarrow> buf_store s (str_cur s + str_level s) (take n buf);
       stream_write_loop ops (set_flag STR_DIRTY (s\<lparr>str_level := str_level s + n\<rparr>))
         (drop n buf) (nbytes + n)
     }
   }"

definition smap_stream_write ::
  "'d stream_ops \<Rightarrow> 'd smap_stream \<Rightarrow> string \<Rightarrow> bool \<Rightarrow>
   ('d smap_stream \<times> errno \<times> nat option) option" where
  "smap_stream_write ops s buf pnwritten =
     (if str_buftype s = smap_buffer_none
      then smap_stream_write_unbuffered ops s buf (\<not> pnwritten)
      else do {
        (s, rc, n) \<leftarrow> stream_write_loop ops s buf 0;
        Some (s, rc, Some n)
      })"

definition smap_stream_writeline ::
  "'d stream_ops \<Rightarrow> 'd smap_stream \<Rightarrow> string \<Rightarrow> ('d smap_stream \<times> errno) option" where
  "smap_stream_writeline ops s buf = do {
     (s, rc, _) \<leftarrow> smap_stream_write ops s buf False;
     if rc = E0 then do {
       (s, rc, _) \<leftarrow> smap_stream_write ops s [CHR 0x0D, CHR 0x0A] False;
       Some (s, rc) }
     else Some (s, rc)
   }"

subsection \<open>The remaining methods\<close>

definition smap_stream_ioctl ::
  "'d stream_ops \<Rightarrow> 'd smap_stream \<Rightarrow> int \<Rightarrow> ioctl_arg \<Rightarrow> ('d smap_stream \<times> errno) option" where
  "smap_stream_ioctl ops s code arg =
     (case op_ctl ops of
        None \<Rightarrow> Some (s, ENOSYS)
      | Some f \<Rightarrow> do { (d, rc) \<leftarrow> f (str_dev s) code arg; Some (s\<lparr>str_dev := d\<rparr>, rc) })"

definition smap_stream_wait ::
  "'d stream_ops \<Rightarrow> 'd smap_stream \<Rightarrow> flagword \<Rightarrow> nat option \<Rightarrow>
   ('d smap_stream \<times> errno \<times> flagword) option" where
  "smap_stream_wait ops s pflags tv =
     (let buffered = hasfl pflags SMAP_STREAM_READY_RD \<and> str_buftype s \<noteq> smap_buffer_none
                     \<and> str_level s > 0;
          flg = (if buffered then SMAP_STREAM_READY_RD else 0);
          pflags = (if buffered then clrfl pflags SMAP_STREAM_READY_RD else pflags)
      in case op_wait ops of
           None \<Rightarrow> Some (s, ENOSYS, pflags)
         | Some f \<Rightarrow> do {
             (d, rc, pflags) \<leftarrow> f (str_dev s) pflags tv;
             Some (s\<lparr>str_dev := d\<rparr>, rc, if rc = E0 then setfl pflags flg else pflags) })"

definition smap_stream_truncate ::
  "'d stream_ops \<Rightarrow> 'd smap_stream \<Rightarrow> int \<Rightarrow> ('d smap_stream \<times> errno) option" where
  "smap_stream_truncate ops s n =
     (case op_truncate ops of
        None \<Rightarrow> Some (s, ENOSYS)
      | Some f \<Rightarrow> do { (d, rc) \<leftarrow> f (str_dev s) n; Some (s\<lparr>str_dev := d\<rparr>, rc) })"

definition smap_stream_shutdown ::
  "'d stream_ops \<Rightarrow> 'd smap_stream \<Rightarrow> int \<Rightarrow> ('d smap_stream \<times> errno) option" where
  "smap_stream_shutdown ops s how =
     (case op_shutdown ops of
        None \<Rightarrow> Some (s, ENOSYS)
      | Some f \<Rightarrow> do { (d, rc) \<leftarrow> f (str_dev s) how; Some (s\<lparr>str_dev := d\<rparr>, rc) })"

text \<open>A table without any method, as a newly created stream has it.\<close>

definition no_ops :: "(nat \<Rightarrow> bool) \<Rightarrow> nat \<Rightarrow> 'd stream_ops" where
  "no_ops alloc junk =
     \<lparr>op_read = None, op_readdelim = None, op_write = None, op_flush = None, op_open = None,
      op_close = None, op_done = None, op_seek = None, op_size = None, op_ctl = None,
      op_wait = None, op_truncate = None, op_shutdown = None, op_strerror = None,
      op_alloc = alloc, op_junk = junk\<rparr>"


section \<open>Basic facts\<close>

lemma set_flag_fields [simp]:
  "str_ref_count (set_flag m s) = str_ref_count s"
  "str_buftype (set_flag m s) = str_buftype s"
  "str_bufsize (set_flag m s) = str_bufsize s"
  "str_buffer (set_flag m s) = str_buffer s"
  "str_level (set_flag m s) = str_level s"
  "str_cur (set_flag m s) = str_cur s"
  "str_flags (set_flag m s) = setfl (str_flags s) m"
  "str_offset (set_flag m s) = str_offset s"
  "str_last_err (set_flag m s) = str_last_err s"
  "str_dev (set_flag m s) = str_dev s"
  by (simp_all add: set_flag_def)

lemma clr_flag_fields [simp]:
  "str_ref_count (clr_flag m s) = str_ref_count s"
  "str_buftype (clr_flag m s) = str_buftype s"
  "str_bufsize (clr_flag m s) = str_bufsize s"
  "str_buffer (clr_flag m s) = str_buffer s"
  "str_level (clr_flag m s) = str_level s"
  "str_cur (clr_flag m s) = str_cur s"
  "str_flags (clr_flag m s) = clrfl (str_flags s) m"
  "str_offset (clr_flag m s) = str_offset s"
  "str_last_err (clr_flag m s) = str_last_err s"
  "str_dev (clr_flag m s) = str_dev s"
  by (simp_all add: clr_flag_def)

lemma stream_seterror_fields [simp]:
  "str_ref_count (stream_seterror s c p) = str_ref_count s"
  "str_buftype (stream_seterror s c p) = str_buftype s"
  "str_bufsize (stream_seterror s c p) = str_bufsize s"
  "str_buffer (stream_seterror s c p) = str_buffer s"
  "str_level (stream_seterror s c p) = str_level s"
  "str_cur (stream_seterror s c p) = str_cur s"
  "str_offset (stream_seterror s c p) = str_offset s"
  "str_last_err (stream_seterror s c p) = c"
  "str_dev (stream_seterror s c p) = str_dev s"
  by (simp_all add: stream_seterror_def Let_def split: errno.split)

lemma stream_seterror_E0 [simp]: "stream_seterror s E0 p = s\<lparr>str_last_err := E0\<rparr>"
  by (simp add: stream_seterror_def Let_def)

lemma stream_seterror_flags:
  "str_flags (stream_seterror s c p) =
     (if p \<and> c \<noteq> E0 \<and> c \<noteq> EAGAIN \<and> c \<noteq> EINPROGRESS then setfl (str_flags s) STR_ERR else str_flags s)"
  by (simp add: stream_seterror_def Let_def split: errno.split)

lemma stream_advance_fields [simp]:
  "str_buftype (stream_advance_buffer s n) = str_buftype s"
  "str_bufsize (stream_advance_buffer s n) = str_bufsize s"
  "str_buffer (stream_advance_buffer s n) = str_buffer s"
  "str_flags (stream_advance_buffer s n) = str_flags s"
  "str_dev (stream_advance_buffer s n) = str_dev s"
  "str_cur (stream_advance_buffer s n) = str_cur s + n"
  by (simp_all add: stream_advance_buffer_def)

lemma bufmem_cong: "str_buffer s = str_buffer s' \<Longrightarrow> bufmem s = bufmem s'"
  by (simp add: bufmem_def)

lemma window_cong:
  "str_buffer s = str_buffer s' \<Longrightarrow> str_level s = str_level s' \<Longrightarrow> str_cur s = str_cur s' \<Longrightarrow>
   window s = window s'"
  by (simp add: window_def bufmem_def)

lemma window_level_0 [simp]: "str_level s = 0 \<Longrightarrow> window s = []"
  by (simp add: window_def)

lemma window_advance:
  "n \<le> str_level s \<Longrightarrow> window (stream_advance_buffer s n) = drop n (window s)"
  by (simp add: window_def stream_advance_buffer_def bufmem_def drop_take add.commute)

lemma level_advance [simp]: "n \<le> str_level s \<Longrightarrow> str_level (stream_advance_buffer s n) = str_level s - n"
  by (simp add: stream_advance_buffer_def)

text \<open>
  The buffer invariant: a buffered stream has an array of \<open>bufsize\<close> bytes, not
  empty, whose size is a \<open>size_t\<close>, and the window lies inside it.
\<close>

definition stream_wf :: "'d smap_stream \<Rightarrow> bool" where
  "stream_wf s \<longleftrightarrow>
     (str_buftype s \<noteq> smap_buffer_none \<longrightarrow>
        str_buffer s \<noteq> None \<and> length (bufmem s) = str_bufsize s \<and> 0 < str_bufsize s
        \<and> str_bufsize s \<le> SIZE_MAX \<and> str_cur s + str_level s \<le> str_bufsize s)"

lemma stream_wfD:
  assumes "stream_wf s" "str_buftype s \<noteq> smap_buffer_none"
  shows "length (bufmem s) = str_bufsize s" "0 < str_bufsize s"
    "str_cur s + str_level s \<le> str_bufsize s" "length (window s) = str_level s" "str_buffer s \<noteq> None"
    "str_bufsize s \<le> SIZE_MAX"
  using assms by (auto simp: stream_wf_def window_def)

lemma stream_wf_cong:
  "stream_wf s \<Longrightarrow> str_buftype s' = str_buftype s \<Longrightarrow> str_buffer s' = str_buffer s \<Longrightarrow>
   str_bufsize s' = str_bufsize s \<Longrightarrow> str_cur s' + str_level s' \<le> str_cur s + str_level s \<Longrightarrow>
   stream_wf s'"
  by (auto simp: stream_wf_def bufmem_def)

lemma buf_store_fields [mem_simps]:
  assumes "buf_store s pos bs = Some s'"
  shows "str_ref_count s' = str_ref_count s" "str_buftype s' = str_buftype s"
    "str_bufsize s' = str_bufsize s" "str_level s' = str_level s"
    "str_cur s' = str_cur s" "str_flags s' = str_flags s" "str_last_err s' = str_last_err s"
    "str_dev s' = str_dev s" "length (bufmem s') = length (bufmem s)"
    "str_buffer s \<noteq> None \<Longrightarrow> str_buffer s' \<noteq> None"
  using assms
  by (auto simp: buf_store_def bufmem_def split: option.splits if_splits
      dest: memcpy_at_length)

lemma buf_store_ok:
  "pos + length bs \<le> length (bufmem s) \<Longrightarrow> \<exists>s'. buf_store s pos bs = Some s'"
  using memcpy_at_ok [of pos bs "bufmem s"] by (auto simp: buf_store_def)

lemma buf_store_window:
  assumes "buf_store s (c + n) bs = Some s'"
  shows "take (n + length bs) (drop c (bufmem s')) = take n (drop c (bufmem s)) @ bs"
proof (cases "bs = []")
  case True
  with assms have "s' = s" by (auto simp: buf_store_def split: option.splits)
  with True show ?thesis by simp
next
  case False
  from assms False obtain mem where
    "memcpy_at (bufmem s) (c + n) bs = Some mem" and "bufmem s' = mem"
    by (auto simp: buf_store_def bufmem_def split: option.splits if_splits)
  then show ?thesis using memcpy_at_window by blast
qed

lemma realloc_double:
  assumes "stream_realloc_buffer ops s 0 = (s', E0)" "stream_wf s" "str_buftype s \<noteq> smap_buffer_none"
  shows "window s' = window s" "stream_wf s'" "str_bufsize s < str_bufsize s'"
    "str_flags s' = str_flags s" "str_dev s' = str_dev s" "str_level s' = str_level s"
    "str_cur s' = str_cur s" "str_buftype s' = str_buftype s" "str_ref_count s' = str_ref_count s"
proof -
  note wf = stream_wfD [OF assms(2,3)]
  define n where "n = (2 * str_bufsize s) mod (SIZE_MAX + 1)"
  define m where "m = (if n < str_bufsize s then SIZE_MAX else n)"
  have ne: "str_bufsize s \<noteq> SIZE_MAX"
    using assms(1) by (auto simp: stream_realloc_buffer_def split: if_splits)
  have s': "s' = s\<lparr>str_buffer := Some (take m (bufmem s) @ replicate (m - length (bufmem s)) (CHR 0x00)),
                  str_bufsize := m\<rparr>"
    using assms(1) ne
    by (auto simp: stream_realloc_buffer_def Let_def m_def n_def split: if_splits)
  have lt: "str_bufsize s < m" "m \<le> SIZE_MAX"
  proof -
    have "n = (if 2 * str_bufsize s \<le> SIZE_MAX then 2 * str_bufsize s
               else 2 * str_bufsize s - (SIZE_MAX + 1))"
      unfolding n_def using wf(6) by (auto simp: mod_if)
    then show "str_bufsize s < m" "m \<le> SIZE_MAX" using wf ne by (auto simp: m_def)
  qed
  have mem: "bufmem s' = bufmem s @ replicate (m - str_bufsize s) (CHR 0x00)"
    using lt wf(1) by (simp add: s' bufmem_def)
  then show "window s' = window s"
    using wf by (simp add: window_def s')
  show "stream_wf s'" using mem lt wf by (simp add: stream_wf_def s')
  show "str_bufsize s < str_bufsize s'" using lt by (simp add: s')
qed (use assms(1) in \<open>auto simp: stream_realloc_buffer_def Let_def split: if_splits\<close>)

end
