(* ===== verification/Smap_Sockmap.thy ===== *)
theory Smap_Sockmap
  imports Smap_Stream
begin

text \<open>
  The sockmap streams (\<open>lib/sockmapstr.c\<close>): a packet is \<open>len:text,\<close> with the
  length in decimal.  The output stream turns each line written to it into a
  packet, the input stream turns each packet it receives into a line, and the
  third stream joins one of each over a socket.

  The socket is the environment.  Its receiving side is the list of what
  \<open>recv\<close> is going to deliver: blocks of bytes in the sizes in which the network
  delivers them (an empty block, or the end of the list, is the end of the
  input), and failures.  Its sending side is the list of the blocks that
  \<open>write\<close> took, with a list of failures to come (when it is empty, \<open>write\<close>
  takes everything).  The copies to the debugging and trace streams are not
  part of the model.
\<close>

section \<open>The socket\<close>

datatype sockev = SockData string | SockErr errno

datatype recv_res = RecvData string | RecvErr errno

fun sock_recv :: "sockev list \<Rightarrow> nat \<Rightarrow> sockev list \<times> recv_res" where
  "sock_recv [] k = ([], RecvData [])"
| "sock_recv (SockErr e # evs) k = (evs, RecvErr e)"
| "sock_recv (SockData bs # evs) k =
     (if length bs \<le> k then (evs, RecvData bs)
      else (SockData (drop k bs) # evs, RecvData (take k bs)))"

text \<open>\<open>WrShort k e\<close>: only \<open>k\<close> bytes were taken, and \<open>errno\<close> holds \<open>e\<close>;
  \<open>WrFail e\<close>: the call failed.\<close>

datatype wrev = WrAll | WrShort nat errno | WrFail errno

section \<open>The output stream\<close>

text \<open>\<open>SIZE_T_STRLEN_BOUND\<close> is \<open>64 * 146 / 485 + 1\<close>.\<close>

definition SIZE_T_STRLEN_BOUND :: nat where
  "SIZE_T_STRLEN_BOUND = 64 * 146 div 485 + 1"

record sockmap_output_stream =
  so_fd :: int
  so_bufsize :: nat
  so_debug_idx :: int
  so_debug_pfx :: "string option"
  so_wire :: "string list"
  so_events :: "wrev list"
  so_closed :: bool
  so_close_rc :: errno

definition digit_char :: "nat \<Rightarrow> char" where
  "digit_char n = char_of (48 + n)"

text \<open>The digits are stored backwards from the end of the array; \<open>room\<close> is the
  number of places left before its beginning.\<close>

fun format_len_loop :: "nat \<Rightarrow> nat \<Rightarrow> string \<Rightarrow> string option" where
  "format_len_loop room arg p =
     (if arg = 0 then Some p
      else if room = 0 then None
      else format_len_loop (room - 1) (arg div 10) (digit_char (arg mod 10) # p))"

definition format_len :: "nat \<Rightarrow> string option" where
  "format_len arg = format_len_loop (SIZE_T_STRLEN_BOUND - 1) arg []"

text \<open>The call of \<open>write\<close>: what was taken, and the code (\<open>E0\<close> if all was taken).\<close>

definition sock_write :: "sockmap_output_stream \<Rightarrow> string \<Rightarrow> sockmap_output_stream \<times> bool \<times> errno" where
  "sock_write d bs =
     (case so_events d of
        [] \<Rightarrow> (d\<lparr>so_wire := so_wire d @ [bs]\<rparr>, True, E0)
      | WrAll # evs \<Rightarrow> (d\<lparr>so_wire := so_wire d @ [bs], so_events := evs\<rparr>, True, E0)
      | WrShort k e # evs \<Rightarrow>
          (if k < length bs
           then (d\<lparr>so_wire := so_wire d @ [take k bs], so_events := evs\<rparr>, False, e)
           else (d\<lparr>so_wire := so_wire d @ [bs], so_events := evs\<rparr>, True, E0))
      | WrFail e # evs \<Rightarrow> (d\<lparr>so_events := evs\<rparr>, False, e))"

text \<open>The last argument but one is the block the stream layer passes; the count is
  \<open>junk\<close> where the function does not assign it.\<close>

definition sockmap_output_stream_write ::
  "(nat \<Rightarrow> bool) \<Rightarrow> nat \<Rightarrow> sockmap_output_stream \<Rightarrow> string \<Rightarrow>
   (sockmap_output_stream \<times> errno \<times> nat) option" where
  "sockmap_output_stream_write alloc junk sp buf = do {
     let len = size_sub (length buf) 1;
     p \<leftarrow> format_len len;
     let n = length p;
     let sz = n + 3 + len;
     if sz > so_bufsize sp \<and> \<not> alloc sz then Some (sp, ENOMEM, junk)
     else do {
       let sp = (if sz > so_bufsize sp then sp\<lparr>so_bufsize := sz\<rparr> else sp);
       (case sock_write sp (p @ '':'' @ take len buf @ '','') of
          (sp, ok, e) \<Rightarrow> if \<not> ok then Some (sp, e, junk) else Some (sp, E0, len + 1))
     }
   }"

definition sockmap_output_stream_close ::
  "sockmap_output_stream \<Rightarrow> flagword \<Rightarrow> (sockmap_output_stream \<times> errno) option" where
  "sockmap_output_stream_close sp fl =
     (if hasfl fl SMAP_STREAM_NO_CLOSE then Some (sp, E0)
      else Some (sp\<lparr>so_closed := True\<rparr>, so_close_rc sp))"

abbreviation (input) SMAP_IOCTL_SET_DEBUG_IDX :: int where "SMAP_IOCTL_SET_DEBUG_IDX \<equiv> 3"
abbreviation (input) SMAP_IOCTL_SET_DEBUG_PFX :: int where "SMAP_IOCTL_SET_DEBUG_PFX \<equiv> 4"

text \<open>An argument of another type than the request wants is not a call the sources
  make; it does not return normally.\<close>

definition sockmap_output_stream_ioctl ::
  "sockmap_output_stream \<Rightarrow> int \<Rightarrow> ioctl_arg \<Rightarrow> (sockmap_output_stream \<times> errno) option" where
  "sockmap_output_stream_ioctl sp code arg =
     (if code = SMAP_IOCTL_SET_DEBUG_IDX then
        (case arg of
           ArgNull \<Rightarrow> Some (sp, EINVAL)
         | ArgInt i \<Rightarrow> Some (sp\<lparr>so_debug_idx := i\<rparr>, E0)
         | _ \<Rightarrow> None)
      else if code = SMAP_IOCTL_SET_DEBUG_PFX then
        (case arg of
           ArgNull \<Rightarrow> Some (sp, EINVAL)
         | ArgStr p \<Rightarrow> Some (sp\<lparr>so_debug_pfx := Some p\<rparr>, E0)
         | _ \<Rightarrow> None)
      else Some (sp, EINVAL))"

text \<open>Memory that a method releases has no effect on the model.\<close>

definition sockmap_output_stream_destroy ::
  "sockmap_output_stream \<Rightarrow> flagword \<Rightarrow> sockmap_output_stream option" where
  "sockmap_output_stream_destroy sp fl = Some (sp\<lparr>so_bufsize := 0, so_debug_pfx := None\<rparr>)"

definition sockmap_out_ops :: "(nat \<Rightarrow> bool) \<Rightarrow> nat \<Rightarrow> sockmap_output_stream stream_ops" where
  "sockmap_out_ops alloc junk = (no_ops alloc junk)
     \<lparr>op_write := Some (sockmap_output_stream_write alloc junk),
      op_close := Some sockmap_output_stream_close,
      op_ctl := Some sockmap_output_stream_ioctl,
      op_done := Some sockmap_output_stream_destroy\<rparr>"

text \<open>\<open>wire\<close> and \<open>evs\<close>, \<open>crc\<close>: the state of the sending side of the socket.\<close>

definition smap_sockmap_output_stream_create ::
  "bool \<Rightarrow> int \<Rightarrow> flagword \<Rightarrow> wrev list \<Rightarrow> errno \<Rightarrow> sockmap_output_stream smap_stream option" where
  "smap_sockmap_output_stream_create granted fd fl evs crc =
     smap_stream_create granted (SMAP_STREAM_WRITE OR (fl AND SMAP_STREAM_NO_CLOSE))
       \<lparr>so_fd = fd, so_bufsize = 0, so_debug_idx = 0, so_debug_pfx = None,
        so_wire = [], so_events = evs, so_closed = False, so_close_rc = crc\<rparr>"

section \<open>The input stream\<close>

record sockmap_input_stream =
  si_nbuf :: string
  si_nlen :: nat
  si_cp :: nat
  si_reqsz :: nat
  si_fd :: int
  si_debug_idx :: int
  si_debug_pfx :: "string option"
  si_sock :: "sockev list"
  si_closed :: bool
  si_close_rc :: errno

datatype rpl_res = RplOk | RplEOF | RplErr errno

text \<open>
  The loop that reads the first segment of a packet: \<open>nbuf\<close> is what has been
  read so far.  Both the success and the error of a prefix that is too long
  store its length.
\<close>

partial_function (option) read_payload_length_loop ::
  "sockmap_input_stream \<Rightarrow> string \<Rightarrow> (sockmap_input_stream \<times> rpl_res) option" where
  "read_payload_length_loop sp nbuf =
     (if \<not> length nbuf < SIZE_T_STRLEN_BOUND then
        Some (sp\<lparr>si_nbuf := nbuf, si_nlen := length nbuf\<rparr>, RplErr EPROTO)
      else (case sock_recv (si_sock sp) (SIZE_T_STRLEN_BOUND - length nbuf) of
          (evs, RecvErr e) \<Rightarrow> Some (sp\<lparr>si_sock := evs, si_nbuf := nbuf\<rparr>, RplErr e)
        | (evs, RecvData bs) \<Rightarrow>
            (let sp = sp\<lparr>si_sock := evs\<rparr>; nbuf = nbuf @ bs in
             if bs = [] then Some (sp\<lparr>si_nbuf := nbuf\<rparr>, RplEOF)
             else (case memchr (CHR '':'') nbuf of
                     Some cp \<Rightarrow>
                       Some (sp\<lparr>si_nbuf := nbuf, si_nlen := length nbuf, si_cp := cp\<rparr>, RplOk)
                   | None \<Rightarrow> read_payload_length_loop sp nbuf))))"

definition read_payload_length ::
  "sockmap_input_stream \<Rightarrow> (sockmap_input_stream \<times> rpl_res) option" where
  "read_payload_length sp = read_payload_length_loop (sp\<lparr>si_cp := 0\<rparr>) []"

text \<open>The number before the colon; \<open>None\<close> if a character is not a digit.\<close>

fun parse_len :: "nat \<Rightarrow> string \<Rightarrow> nat option" where
  "parse_len reqsz [] = Some reqsz"
| "parse_len reqsz (c # cs) =
     (if is_digit c
      then parse_len ((reqsz * 10 + (of_char c - 48)) mod (SIZE_MAX + 1)) cs else None)"

text \<open>
  The loop that reads the rest of the packet: \<open>sz\<close> is the size of the caller's
  array, \<open>acc\<close> what has been stored in it.  The result of \<open>recv\<close> is kept in an
  unsigned variable, so that a failure counts as \<open>-1\<close> bytes received.
\<close>

partial_function (option) recv_loop ::
  "sockev list \<Rightarrow> nat \<Rightarrow> string \<Rightarrow> nat \<Rightarrow> (sockev list \<times> errno \<times> string) option" where
  "recv_loop evs sz acc reqsz =
     (if reqsz = 0 then Some (evs, E0, acc)
      else (case sock_recv evs reqsz of
          (evs, RecvErr e) \<Rightarrow>
            if acc = [] then None else recv_loop evs sz (butlast acc) (reqsz + 1)
        | (evs, RecvData bs) \<Rightarrow>
            if sz < length acc + length bs then None
            else if bs = [] then Some (evs, EIO, acc)
            else recv_loop evs sz (acc @ bs) (size_sub reqsz (length bs))))"

definition sockmap_read_payload ::
  "nat \<Rightarrow> sockmap_input_stream \<Rightarrow> flagword \<Rightarrow> nat \<Rightarrow>
   (sockmap_input_stream \<times> flagword \<times> errno \<times> string \<times> nat) option" where
  "sockmap_read_payload junk sp fl sz =
     (let reqsz = si_reqsz sp + 1 in
      if reqsz > sz then Some (sp, setfl fl STR_MORESPC, ERANGE, [], reqsz)
      else
        let rds = (if si_nlen sp > si_cp sp then drop (si_cp sp + 1) (si_nbuf sp) else []);
            reqsz = size_sub reqsz (length rds) in
        if sz < length rds then None
        else do {
          (evs, rc, bs) \<leftarrow> recv_loop (si_sock sp) sz rds reqsz;
          let sp = sp\<lparr>si_sock := evs\<rparr>;
          if rc \<noteq> E0 then Some (sp, fl, rc, bs, junk)
          else (let nret = si_reqsz sp + 1;
                    sp = sp\<lparr>si_nlen := 0, si_cp := 0, si_reqsz := 0\<rparr> in
                if bs = [] then None
                else if last bs = CHR '','' then Some (sp, fl, E0, butlast bs @ [NL], nret)
                else Some (sp, fl, EPROTO, bs, nret))
        })"

definition sockmap_input_stream_read ::
  "nat \<Rightarrow> sockmap_input_stream \<Rightarrow> flagword \<Rightarrow> nat \<Rightarrow>
   (sockmap_input_stream \<times> flagword \<times> errno \<times> string \<times> nat) option" where
  "sockmap_input_stream_read junk sp fl sz =
     (if si_nlen sp = 0 then do {
        (sp, res) \<leftarrow> read_payload_length sp;
        (case res of
           RplEOF \<Rightarrow> Some (sp, fl, E0, [], 0)
         | RplErr e \<Rightarrow> Some (sp, fl, e, [], junk)
         | RplOk \<Rightarrow>
             (case parse_len 0 (take (si_cp sp) (si_nbuf sp)) of
                None \<Rightarrow> Some (sp\<lparr>si_nlen := 0, si_cp := 0, si_reqsz := 0\<rparr>, fl, EPROTO, [], junk)
              | Some reqsz \<Rightarrow> sockmap_read_payload junk (sp\<lparr>si_reqsz := reqsz\<rparr>) fl sz))
      }
      else sockmap_read_payload junk sp fl sz)"

definition sockmap_input_stream_close ::
  "sockmap_input_stream \<Rightarrow> flagword \<Rightarrow> (sockmap_input_stream \<times> errno) option" where
  "sockmap_input_stream_close sp fl =
     (if hasfl fl SMAP_STREAM_NO_CLOSE then Some (sp, E0)
      else Some (sp\<lparr>si_closed := True\<rparr>, si_close_rc sp))"

definition sockmap_input_stream_destroy ::
  "sockmap_input_stream \<Rightarrow> flagword \<Rightarrow> sockmap_input_stream option" where
  "sockmap_input_stream_destroy sp fl = Some (sp\<lparr>si_debug_pfx := None\<rparr>)"

definition sockmap_input_stream_ioctl ::
  "sockmap_input_stream \<Rightarrow> int \<Rightarrow> ioctl_arg \<Rightarrow> (sockmap_input_stream \<times> errno) option" where
  "sockmap_input_stream_ioctl sp code arg =
     (if code = SMAP_IOCTL_SET_DEBUG_IDX then
        (case arg of
           ArgNull \<Rightarrow> Some (sp, EINVAL)
         | ArgInt i \<Rightarrow> Some (sp\<lparr>si_debug_idx := i\<rparr>, E0)
         | _ \<Rightarrow> None)
      else if code = SMAP_IOCTL_SET_DEBUG_PFX then
        (case arg of
           ArgNull \<Rightarrow> Some (sp, EINVAL)
         | ArgStr p \<Rightarrow> Some (sp\<lparr>si_debug_pfx := Some p\<rparr>, E0)
         | _ \<Rightarrow> None)
      else Some (sp, EINVAL))"

definition sockmap_in_ops :: "(nat \<Rightarrow> bool) \<Rightarrow> nat \<Rightarrow> sockmap_input_stream stream_ops" where
  "sockmap_in_ops alloc junk = (no_ops alloc junk)
     \<lparr>op_read := Some (sockmap_input_stream_read junk),
      op_close := Some sockmap_input_stream_close,
      op_ctl := Some sockmap_input_stream_ioctl,
      op_done := Some sockmap_input_stream_destroy\<rparr>"

definition smap_sockmap_input_stream_create ::
  "bool \<Rightarrow> int \<Rightarrow> flagword \<Rightarrow> sockev list \<Rightarrow> errno \<Rightarrow> sockmap_input_stream smap_stream option" where
  "smap_sockmap_input_stream_create granted fd fl evs crc =
     smap_stream_create granted (SMAP_STREAM_READ OR (fl AND SMAP_STREAM_NO_CLOSE))
       \<lparr>si_nbuf = [], si_nlen = 0, si_cp = 0, si_reqsz = 0, si_fd = fd, si_debug_idx = 0,
        si_debug_pfx = None, si_sock = evs, si_closed = False, si_close_rc = crc\<rparr>"

section \<open>The stream over a socket\<close>

record sockmap_stream =
  ss_fd :: int
  ss_in :: "sockmap_input_stream smap_stream"
  ss_out :: "sockmap_output_stream smap_stream"
  ss_closed :: bool
  ss_close_rc :: errno

definition sockmap_stream_write ::
  "(nat \<Rightarrow> bool) \<Rightarrow> nat \<Rightarrow> sockmap_stream \<Rightarrow> string \<Rightarrow> (sockmap_stream \<times> errno \<times> nat) option" where
  "sockmap_stream_write alloc junk sp buf = do {
     (o', rc, n) \<leftarrow> smap_stream_write (sockmap_out_ops alloc junk) (ss_out sp) buf True;
     Some (sp\<lparr>ss_out := o'\<rparr>, rc, case n of None \<Rightarrow> junk | Some n \<Rightarrow> n)
   }"

definition sockmap_stream_read ::
  "(nat \<Rightarrow> bool) \<Rightarrow> nat \<Rightarrow> sockmap_stream \<Rightarrow> flagword \<Rightarrow> nat \<Rightarrow>
   (sockmap_stream \<times> flagword \<times> errno \<times> string \<times> nat) option" where
  "sockmap_stream_read alloc junk sp fl sz = do {
     (i, rc, bs, n) \<leftarrow> smap_stream_read (sockmap_in_ops alloc junk) (ss_in sp) sz True;
     Some (sp\<lparr>ss_in := i\<rparr>, fl, rc, bs, case n of None \<Rightarrow> junk | Some n \<Rightarrow> n)
   }"

definition sockmap_stream_close ::
  "(nat \<Rightarrow> bool) \<Rightarrow> nat \<Rightarrow> sockmap_stream \<Rightarrow> flagword \<Rightarrow> (sockmap_stream \<times> errno) option" where
  "sockmap_stream_close alloc junk sp fl =
     (if hasfl fl SMAP_STREAM_NO_CLOSE then Some (sp, E0)
      else do {
        (i, _) \<leftarrow> smap_stream_close (sockmap_in_ops alloc junk) (ss_in sp);
        (o', _) \<leftarrow> smap_stream_close (sockmap_out_ops alloc junk) (ss_out sp);
        let sp = sp\<lparr>ss_in := i, ss_out := o'\<rparr>;
        if ss_fd sp \<noteq> -1 then Some (sp\<lparr>ss_closed := True\<rparr>, ss_close_rc sp)
        else Some (sp, E0)
      })"

definition sockmap_stream_done ::
  "(nat \<Rightarrow> bool) \<Rightarrow> nat \<Rightarrow> sockmap_stream \<Rightarrow> flagword \<Rightarrow> sockmap_stream option" where
  "sockmap_stream_done alloc junk sp fl =
     (if hasfl fl SMAP_STREAM_NO_CLOSE then Some sp
      else do {
        (i, _) \<leftarrow> smap_stream_destroy (sockmap_in_ops alloc junk) (ss_in sp);
        (o', _) \<leftarrow> smap_stream_destroy (sockmap_out_ops alloc junk) (ss_out sp);
        Some (sp\<lparr>ss_in := i, ss_out := o'\<rparr>)
      })"

definition sockmap_stream_ioctl ::
  "(nat \<Rightarrow> bool) \<Rightarrow> nat \<Rightarrow> sockmap_stream \<Rightarrow> int \<Rightarrow> ioctl_arg \<Rightarrow> (sockmap_stream \<times> errno) option" where
  "sockmap_stream_ioctl alloc junk sp code arg =
     (if code = SMAP_IOCTL_SET_DEBUG_IDX then
        (case arg of
           ArgNull \<Rightarrow> Some (sp, EINVAL)
         | _ \<Rightarrow> do {
             (i, _) \<leftarrow> smap_stream_ioctl (sockmap_in_ops alloc junk) (ss_in sp) code arg;
             (o', _) \<leftarrow> smap_stream_ioctl (sockmap_out_ops alloc junk) (ss_out sp) code arg;
             Some (sp\<lparr>ss_in := i, ss_out := o'\<rparr>, E0) })
      else if code = SMAP_IOCTL_SET_DEBUG_PFX then
        (case arg of
           ArgNull \<Rightarrow> Some (sp, EINVAL)
         | ArgPair p q \<Rightarrow> do {
             (i, _) \<leftarrow> smap_stream_ioctl (sockmap_in_ops alloc junk) (ss_in sp) code (ArgStr p);
             (o', _) \<leftarrow> smap_stream_ioctl (sockmap_out_ops alloc junk) (ss_out sp) code (ArgStr q);
             Some (sp\<lparr>ss_in := i, ss_out := o'\<rparr>, E0) }
         | _ \<Rightarrow> None)
      else Some (sp, EINVAL))"

definition sockmap_ops :: "(nat \<Rightarrow> bool) \<Rightarrow> nat \<Rightarrow> sockmap_stream stream_ops" where
  "sockmap_ops alloc junk = (no_ops alloc junk)
     \<lparr>op_read := Some (sockmap_stream_read alloc junk),
      op_write := Some (sockmap_stream_write alloc junk),
      op_close := Some (sockmap_stream_close alloc junk),
      op_ctl := Some (sockmap_stream_ioctl alloc junk),
      op_done := Some (sockmap_stream_done alloc junk)\<rparr>"

text \<open>
  \<open>granted\<close>: the outcomes of the three allocations of a structure.  When the
  input stream cannot be created, the function destroys a pointer of the
  structure it has just released: it does not return normally.
\<close>

definition smap_sockmap_stream_create2 ::
  "(nat \<Rightarrow> bool) \<Rightarrow> nat \<Rightarrow> bool \<times> bool \<times> bool \<Rightarrow> int \<times> int \<Rightarrow> flagword \<Rightarrow>
   sockev list \<Rightarrow> wrev list \<Rightarrow> errno \<Rightarrow> (errno \<times> sockmap_stream smap_stream option) option" where
  "smap_sockmap_stream_create2 alloc junk granted fd fl ievs oevs crc =
     (case granted of (g0, g1, g2) \<Rightarrow>
      if \<not> g0 then Some (ENOMEM, None)
      else
        let sflags = (if fst fd = snd fd then SMAP_STREAM_NO_CLOSE else 0) in
        (case smap_sockmap_output_stream_create g1 (snd fd) sflags oevs crc of
           None \<Rightarrow> Some (ENOMEM, None)
         | Some o' \<Rightarrow>
        (case smap_sockmap_input_stream_create g2 (fst fd) sflags ievs crc of
           None \<Rightarrow> None
         | Some i \<Rightarrow> do {
             (o', _) \<leftarrow> smap_stream_set_buffer (sockmap_out_ops alloc junk) o' smap_buffer_line 1024;
             let o' = smap_stream_set_flags o' SMAP_STREAM_EXPBUF;
             (i, _) \<leftarrow> smap_stream_set_buffer (sockmap_in_ops alloc junk) i smap_buffer_full 1024;
             let i = smap_stream_set_flags i SMAP_STREAM_EXPBUF;
             Some (E0, smap_stream_create True (SMAP_STREAM_READ OR SMAP_STREAM_WRITE OR fl)
               \<lparr>ss_fd = (if fst fd = snd fd then fst fd else -1), ss_in = i, ss_out = o',
                ss_closed = False, ss_close_rc = crc\<rparr>) })))"

definition smap_sockmap_stream_create ::
  "(nat \<Rightarrow> bool) \<Rightarrow> nat \<Rightarrow> bool \<times> bool \<times> bool \<Rightarrow> int \<Rightarrow> flagword \<Rightarrow>
   sockev list \<Rightarrow> wrev list \<Rightarrow> errno \<Rightarrow> (errno \<times> sockmap_stream smap_stream option) option" where
  "smap_sockmap_stream_create alloc junk granted fd fl ievs oevs crc =
     smap_sockmap_stream_create2 alloc junk granted (fd, fd) fl ievs oevs crc"

end
