(* ===== verification/Smap_Stream_Out.thy ===== *)
theory Smap_Stream_Out
  imports Smap_Stream
begin

text \<open>
  The output side of the stream layer: what a stream promises of the bytes
  written to it, relative to the device behind its \<open>write\<close> method.

  The locale \<open>out_device\<close> is the interface of that method: \<open>sent\<close> is the log of
  the bytes the device has taken, and \<open>accepts\<close> the blocks it takes unchanged.
  The locale \<open>reliable_device\<close> adds that such a block is never refused.  The
  lemmas of the two locales are about any stream over any such device; the
  theories of the concrete streams interpret them.
\<close>

section \<open>Frames\<close>

text \<open>What a write leaves alone.\<close>

lemma write_full_loop_frame:
  assumes "write_full_loop wr s buf k = Some (s', rc, m)"
  shows "s' = s\<lparr>str_dev := str_dev s', str_bytes_out := str_bytes_out s'\<rparr>"
  using assms
proof (induction "length buf" arbitrary: s buf k rule: less_induct)
  case less
  from less.prems show ?case
    by (subst (asm) write_full_loop.simps)
      (auto simp: bind_eq_Some_conv Let_def split: if_splits dest: less.hyps [rotated])
qed

text \<open>
  The relation between the states before and after output that succeeded: the
  flag words differ at most in \<open>STR_WRT\<close> and \<open>STR_DIRTY\<close>.
\<close>

abbreviation (input) OUT_BITS :: flagword where "OUT_BITS \<equiv> 0x03000"

definition out_frame :: "'d smap_stream \<Rightarrow> 'd smap_stream \<Rightarrow> bool" where
  "out_frame s s' \<longleftrightarrow>
     str_buftype s' = str_buftype s \<and> str_ref_count s' = str_ref_count s
     \<and> flags_upto OUT_BITS (str_flags s) (str_flags s')"

lemma out_frame_refl [simp]: "out_frame s s"
  by (simp add: out_frame_def)

lemma out_frame_trans [trans]: "out_frame s s' \<Longrightarrow> out_frame s' s'' \<Longrightarrow> out_frame s s''"
  unfolding out_frame_def using flags_upto_trans by fastforce

lemma out_frame_flags:
  assumes "out_frame s s'"
  shows "has_flag s' SMAP_STREAM_WRITE = has_flag s SMAP_STREAM_WRITE"
    "has_flag s' STR_ERR = has_flag s STR_ERR"
    "has_flag s' SMAP_STREAM_EXPBUF = has_flag s SMAP_STREAM_EXPBUF"
    "has_flag s' SMAP_STREAM_SEEK = has_flag s SMAP_STREAM_SEEK"
    "str_buftype s' = str_buftype s"
  using assms by (auto intro!: flags_upto_hasfl [of OUT_BITS] simp: out_frame_def)

text \<open>The buffer and what surrounds it, untouched.\<close>

definition same_buffer :: "'d smap_stream \<Rightarrow> 'd smap_stream \<Rightarrow> bool" where
  "same_buffer s s' \<longleftrightarrow>
     str_bufsize s' = str_bufsize s \<and> str_buffer s' = str_buffer s
     \<and> str_level s' = str_level s \<and> str_cur s' = str_cur s"

lemma same_bufferD:
  assumes "same_buffer s s'"
  shows "window s' = window s" "bufmem s' = bufmem s" "str_level s' = str_level s"
    "str_cur s' = str_cur s" "str_bufsize s' = str_bufsize s"
  using assms by (auto simp: same_buffer_def window_def bufmem_def)

lemma same_buffer_wf: "same_buffer s s' \<Longrightarrow> str_buftype s' = str_buftype s \<Longrightarrow> stream_wf s \<Longrightarrow> stream_wf s'"
  by (auto simp: same_buffer_def stream_wf_def bufmem_def)

lemma write_unbuffered_frame:
  assumes "smap_stream_write_unbuffered ops s buf full = Some (s', rc, p)"
  shows "same_buffer s s'" "rc = E0 \<Longrightarrow> \<not> has_flag s STR_ERR \<Longrightarrow> out_frame s s'"
    "rc = E0 \<Longrightarrow> \<not> has_flag s STR_ERR \<Longrightarrow> has_flag s' STR_DIRTY = has_flag s STR_DIRTY"
proof -
  have fl: "str_flags t' = str_flags t \<and> same_buffer t t' \<and> str_buftype t' = str_buftype t
       \<and> str_ref_count t' = str_ref_count t"
    if "write_full_loop wr t b k = Some (t', rc', m)" for wr and t t' :: "'a smap_stream" and b k rc' m
    by (subst (1 2 3 4) write_full_loop_frame [OF that]) (simp add: same_buffer_def)
  show "same_buffer s s'"
    using assms
    by (auto simp: smap_stream_write_unbuffered_def bind_eq_Some_conv Let_def same_buffer_def
        split: option.splits if_splits dest!: fl)
  assume rc: "rc = E0" and err: "\<not> has_flag s STR_ERR"
  show "out_frame s s'"
    using assms rc err
    by (auto simp: smap_stream_write_unbuffered_def bind_eq_Some_conv Let_def out_frame_def
        intro!: flags_upto_setfl split: option.splits if_splits dest!: fl)
  show "has_flag s' STR_DIRTY = has_flag s STR_DIRTY"
    using assms rc err
    by (auto simp: smap_stream_write_unbuffered_def bind_eq_Some_conv Let_def
        flag_simps split: option.splits if_splits dest!: fl)
qed


text \<open>
  The state of a stream that is being written to: open for writing, without a
  permanent error, every byte in the window is marked as not yet written, and
  the device satisfies its own invariant \<open>okd\<close>.
\<close>

definition out_ok :: "('d \<Rightarrow> bool) \<Rightarrow> 'd smap_stream \<Rightarrow> bool" where
  "out_ok okd s \<longleftrightarrow> okd (str_dev s) \<and> stream_wf s \<and> has_flag s SMAP_STREAM_WRITE \<and> \<not> has_flag s STR_ERR
     \<and> (str_level s \<noteq> 0 \<longrightarrow> has_flag s STR_DIRTY)"

lemma out_okD:
  assumes "out_ok okd s"
  shows "stream_wf s" "has_flag s SMAP_STREAM_WRITE" "\<not> has_flag s STR_ERR"
    "str_level s \<noteq> 0 \<Longrightarrow> has_flag s STR_DIRTY" "okd (str_dev s)"
  using assms by (auto simp: out_ok_def)

lemma flush_finish_spec:
  assumes "flush_finish s = Some (s', rc)" "stream_wf s" "str_buftype s \<noteq> smap_buffer_none"
  shows "rc = E0" "window s' = window s" "str_cur s' = 0" "str_level s' = str_level s"
    "str_dev s' = str_dev s" "out_frame s s'" "stream_wf s'" "str_bufsize s' = str_bufsize s"
    "str_level s \<noteq> 0 \<Longrightarrow> str_flags s' = str_flags s"
proof -
  note wf = stream_wfD [OF assms(2,3)]
  have win: "take (length (window s)) (bufmem t) = window s"
    if "buf_store s 0 (window s) = Some t" for t
    using buf_store_window [of s 0 0 "window s" t] that by simp
  show "rc = E0" "str_cur s' = 0" "str_level s' = str_level s" "str_bufsize s' = str_bufsize s"
    "str_dev s' = str_dev s"
    using assms(1) by (auto simp: flush_finish_def bind_eq_Some_conv mem_simps split: if_splits)
  show "str_level s \<noteq> 0 \<Longrightarrow> str_flags s' = str_flags s"
    using assms(1) by (auto simp: flush_finish_def bind_eq_Some_conv mem_simps split: if_splits)
  show "window s' = window s"
    using assms(1) win wf
    by (auto simp: flush_finish_def bind_eq_Some_conv window_def bufmem_def mem_simps split: if_splits)
  show "out_frame s s'"
    using assms(1)
    by (auto simp: flush_finish_def bind_eq_Some_conv out_frame_def mem_simps
        intro!: flags_upto_clrfl split: if_splits)
  have len: "length (bufmem s') = length (bufmem s)" and nn: "str_buffer s' \<noteq> None"
    and ty: "str_buftype s' = str_buftype s"
    using assms(1) wf
    by (auto simp: flush_finish_def bind_eq_Some_conv mem_simps bufmem_def split: if_splits
        dest: buf_store_fields(9,10))
  then show "stream_wf s'"
    using \<open>str_cur s' = 0\<close> \<open>str_level s' = str_level s\<close> \<open>str_bufsize s' = str_bufsize s\<close> wf
    by (simp add: stream_wf_def)
qed

lemma flush_finish_ok:
  assumes "stream_wf s" "str_buftype s \<noteq> smap_buffer_none"
  shows "\<exists>s'. flush_finish s = Some (s', E0)"
proof -
  have "\<exists>t. buf_store s 0 (window s) = Some t"
    using stream_wfD [OF assms] by (intro buf_store_ok) simp
  then show ?thesis by (auto simp: flush_finish_def)
qed

section \<open>The device interface\<close>

locale out_device =
  fixes ops :: "'d stream_ops"
    and wr :: "'d \<Rightarrow> string \<Rightarrow> ('d \<times> errno \<times> nat) option"
    and sent :: "'d \<Rightarrow> string"
    and accepts :: "string \<Rightarrow> bool"
    and okd :: "'d \<Rightarrow> bool"
  assumes op_write_wr: "op_write ops = Some wr"
    and wr_sent: "wr d buf = Some (d', E0, n) \<Longrightarrow> accepts buf \<Longrightarrow> okd d \<Longrightarrow>
      n \<le> length buf \<and> sent d' = sent d @ take n buf \<and> (n < length buf \<longrightarrow> accepts (drop n buf))
      \<and> okd d'"
    and accepts_line: "NL \<notin> set xs \<Longrightarrow> accepts (xs @ [NL])"
begin

text \<open>What the stream has delivered and what it still holds.\<close>

definition total :: "'d smap_stream \<Rightarrow> string" where
  "total s = sent (str_dev s) @ window s"

lemma write_full_loop_sent:
  assumes "write_full_loop wr s buf k = Some (s', E0, m)" "accepts buf" "okd (str_dev s)"
  shows "sent (str_dev s') = sent (str_dev s) @ buf \<and> m = k + length buf \<and> okd (str_dev s')"
  using assms
proof (induction "length buf" arbitrary: s buf k rule: less_induct)
  case less
  show ?case
  proof (cases "buf = []")
    case True
    with less.prems show ?thesis by (subst (asm) write_full_loop.simps) simp
  next
    case False
    with less.prems(1) obtain d n where w: "wr (str_dev s) buf = Some (d, E0, n)"
      and n: "0 < n" "n \<le> length buf"
      and rec: "write_full_loop wr (s\<lparr>str_dev := d, str_bytes_out := str_bytes_out s + int n\<rparr>)
                  (drop n buf) (k + n) = Some (s', E0, m)"
      by (subst (asm) write_full_loop.simps) (auto simp: bind_eq_Some_conv Let_def split: if_splits)
    from wr_sent [OF w less.prems(2,3)] have snt: "sent d = sent (str_dev s) @ take n buf"
      and acc: "n < length buf \<longrightarrow> accepts (drop n buf)" and okd: "okd d" by auto
    show ?thesis
    proof (cases "n < length buf")
      case True
      have "sent (str_dev s') = sent d @ drop n buf \<and> m = k + n + length (drop n buf)
          \<and> okd (str_dev s')"
        using less.hyps [OF _ rec] acc True n okd by simp
      with snt n show ?thesis by simp
    next
      case False
      with n have nb: "drop n buf = []" "n = length buf" by auto
      from rec have "s' = s\<lparr>str_dev := d, str_bytes_out := str_bytes_out s + int n\<rparr>" "m = k + n"
        by (auto simp: nb(1) write_full_loop.simps)
      with snt nb(2) okd show ?thesis by simp
    qed
  qed
qed

lemma write_unbuffered_sent:
  assumes "smap_stream_write_unbuffered ops s buf True = Some (s', E0, p)"
    and "accepts buf \<or> buf = []" "\<not> has_flag s STR_ERR" "has_flag s SMAP_STREAM_WRITE"
    and "okd (str_dev s)"
  shows "sent (str_dev s') = sent (str_dev s) @ buf" "p = Some (length buf)" "okd (str_dev s')"
  using assms write_full_loop_sent [of s buf 0]
  by (auto simp: smap_stream_write_unbuffered_def op_write_wr bind_eq_Some_conv Let_def
      split: if_splits)

lemma write_window_prefix:
  assumes w: "smap_stream_write_unbuffered ops s (take n (window s)) True = Some (s1, E0, p)"
    and ok: "out_ok okd s" and n: "n \<le> str_level s"
    and acc: "accepts (take n (window s)) \<or> n = 0"
    and s': "s' = stream_advance_buffer s1 n"
  shows "total s' = total s" "window s' = drop n (window s)" "out_ok okd s'" "out_frame s s'"
    "str_level s' = str_level s - n" "str_cur s' = str_cur s + n" "str_bufsize s' = str_bufsize s"
    "str_buffer s' = str_buffer s" "has_flag s' STR_DIRTY = has_flag s STR_DIRTY"
proof -
  note fr = write_unbuffered_frame [OF w]
  note sb = same_bufferD [OF fr(1)]
  have of1: "out_frame s s1" and d1: "has_flag s1 STR_DIRTY = has_flag s STR_DIRTY"
    using fr(2,3) out_okD(3) [OF ok] by simp_all
  have snt: "sent (str_dev s1) = sent (str_dev s) @ take n (window s)" and okd1: "okd (str_dev s1)"
    using write_unbuffered_sent(1,3) [OF w] acc out_okD(2,3,5) [OF ok] by auto
  show lv: "str_level s' = str_level s - n" and cu: "str_cur s' = str_cur s + n"
    and bs: "str_bufsize s' = str_bufsize s" and bu: "str_buffer s' = str_buffer s"
    and dr: "has_flag s' STR_DIRTY = has_flag s STR_DIRTY"
    using s' sb n d1 fr(1) by (simp_all add: same_buffer_def)
  show win: "window s' = drop n (window s)"
    using window_advance [of n s1] n s' sb by simp
  show "out_frame s s'" using of1 s' by (simp add: out_frame_def stream_advance_buffer_def)
  show "total s' = total s" using snt win s' by (simp add: total_def)
  have "stream_wf s1" using same_buffer_wf [OF fr(1)] of1 out_okD(1) [OF ok]
    by (simp add: out_frame_def)
  then have "stream_wf s'"
    by (rule stream_wf_cong) (use s' n sb in auto)
  then show "out_ok okd s'"
    using out_frame_flags [OF \<open>out_frame s s'\<close>] ok dr lv okd1 s' by (auto simp: out_ok_def)
qed

lemma flush_lines_spec:
  assumes "flush_lines ops s = Some (s', E0)" "out_ok okd s" "str_buftype s \<noteq> smap_buffer_none"
  shows "total s' = total s \<and> NL \<notin> set (window s') \<and> out_ok okd s' \<and> out_frame s s'
    \<and> str_cur s' + str_level s' = str_cur s + str_level s \<and> str_bufsize s' = str_bufsize s
    \<and> has_flag s' STR_DIRTY = has_flag s STR_DIRTY
    \<and> (\<exists>k. window s' = drop k (window s)) \<and> str_buffer s' = str_buffer s"
  using assms
proof (induction "str_level s" arbitrary: s rule: less_induct)
  case less
  show ?case
  proof (cases "memchr NL (window s)")
    case None
    with less.prems show ?thesis
      by (subst (asm) flush_lines.simps) (auto simp: memchr_None intro: exI [of _ 0])
  next
    case (Some i)
    with less.prems(1) obtain s1 p where
      w: "smap_stream_write_unbuffered ops s (take (i + 1) (window s)) True = Some (s1, E0, p)"
      and rec: "flush_lines ops (stream_advance_buffer s1 (i + 1)) = Some (s', E0)"
      by (subst (asm) flush_lines.simps) (auto simp: bind_eq_Some_conv split: if_splits)
    note len = stream_wfD(4) [OF out_okD(1) [OF less.prems(2)] less.prems(3)]
    from memchr_Some [OF Some] len have i: "i < str_level s" "window s ! i = NL"
      and nl: "NL \<notin> set (take i (window s))" by auto
    then have "take (i + 1) (window s) = take i (window s) @ [NL]"
      using len by (simp add: take_Suc_conv_app_nth)
    then have acc: "accepts (take (i + 1) (window s)) \<or> i + 1 = 0" using accepts_line [OF nl] by simp
    note st = write_window_prefix [OF w less.prems(2) _ acc refl]
    have le: "i + 1 \<le> str_level s" using i by simp
    define t where "t = stream_advance_buffer s1 (i + 1)"
    note st = st [OF le, folded t_def]
    have "str_buftype t \<noteq> smap_buffer_none" "str_level t < str_level s"
      using out_frame_flags(5) [OF st(4)] st(5) less.prems(3) i by simp_all
    note ih = less.hyps [OF this(2) rec [folded t_def] st(3) this(1)]
    from ih obtain k where "window s' = drop k (window t)" by blast
    then have "window s' = drop (k + (i + 1)) (window s)" by (simp add: st(2))
    with ih st le show ?thesis by (auto intro: out_frame_trans)
  qed
qed

text \<open>The two ways a flush ends.\<close>

lemma flush_finish_out:
  assumes "flush_finish s = Some (s', rc)" "out_ok okd s" "str_buftype s \<noteq> smap_buffer_none"
  shows "rc = E0 \<and> total s' = total s \<and> window s' = window s \<and> out_ok okd s' \<and> out_frame s s'
    \<and> str_cur s' = 0 \<and> str_level s' = str_level s \<and> str_bufsize s' = str_bufsize s"
proof -
  note ff = flush_finish_spec [OF assms(1) out_okD(1) [OF assms(2)] assms(3)]
  have "out_ok okd s'" using ff assms(2) out_frame_flags [OF ff(6)] by (auto simp: out_ok_def)
  with ff show ?thesis by (simp add: total_def)
qed

lemma force_flush_spec:
  assumes "force_flush_buffer ops s = Some (s', E0)" "out_ok okd s" "str_buftype s \<noteq> smap_buffer_none"
    and acc: "\<forall>b. accepts b"
  shows "total s' = total s \<and> out_ok okd s' \<and> out_frame s s' \<and> str_level s' = 0
    \<and> str_bufsize s' = str_bufsize s"
proof -
  from assms(1) obtain s1 p where w: "smap_stream_write_unbuffered ops s (window s) True = Some (s1, E0, p)"
    and s': "s' = stream_advance_buffer s1 (str_level s1)"
    by (auto simp: force_flush_buffer_def bind_eq_Some_conv split: if_splits)
  have l1: "str_level s1 = str_level s"
    using same_bufferD(3) [OF write_unbuffered_frame(1) [OF w]] .
  have "smap_stream_write_unbuffered ops s (take (str_level s) (window s)) True = Some (s1, E0, p)"
    using w stream_wfD(4) [OF out_okD(1) [OF assms(2)] assms(3)] by simp
  from write_window_prefix [OF this assms(2), of s'] s' l1 acc show ?thesis by auto
qed

text \<open>The steps of a flush of a line buffer that is not empty.\<close>

lemma flush_line_steps:
  assumes "stream_flush_buffer ops s all = Some (s', E0)" "out_ok okd s"
    "str_buftype s = smap_buffer_line" "str_level s \<noteq> 0"
  obtains s1 where "flush_lines ops s = Some (s1, E0)"
    and "str_level s1 = 0 \<or> \<not> all \<and> \<not> BUFFER_FULL_P s1 \<Longrightarrow> flush_finish s1 = Some (s', E0)"
    and "str_level s1 \<noteq> 0 \<Longrightarrow> \<not> all \<Longrightarrow> BUFFER_FULL_P s1 \<Longrightarrow> has_flag s1 SMAP_STREAM_EXPBUF \<Longrightarrow>
         stream_realloc_buffer ops s1 0 = (s', E0)"
    and "str_level s1 \<noteq> 0 \<Longrightarrow> all \<or> BUFFER_FULL_P s1 \<and> \<not> has_flag s1 SMAP_STREAM_EXPBUF \<Longrightarrow>
         \<exists>s2. force_flush_buffer ops s1 = Some (s2, E0) \<and> flush_finish s2 = Some (s', E0)"
  using assms out_okD(4) [OF assms(2,4)]
  by (auto simp: stream_flush_buffer_def bind_eq_Some_conv stream_seek_self_def split: if_splits)

lemma flush_line_empty:
  assumes "stream_flush_buffer ops s all = Some (s', E0)"
    "str_buftype s = smap_buffer_line" "str_level s = 0"
  shows "flush_finish s = Some (s', E0)"
proof -
  have "stream_advance_buffer s 0 = s" by (simp add: stream_advance_buffer_def)
  with assms show ?thesis
    by (auto simp: stream_flush_buffer_def bind_eq_Some_conv stream_seek_self_def split: if_splits)
qed

text \<open>A flush that keeps an incomplete line in the buffer.\<close>

lemma flush_partial:
  assumes fl: "stream_flush_buffer ops s False = Some (s', E0)"
    and ok: "out_ok okd s" and ty: "str_buftype s = smap_buffer_line"
    and acc: "has_flag s SMAP_STREAM_EXPBUF \<or> (\<forall>b. accepts b)"
  shows "total s' = total s \<and> out_ok okd s' \<and> out_frame s s' \<and> NL \<notin> set (window s')
    \<and> str_level s' < str_bufsize s'
    \<and> (\<not> has_flag s SMAP_STREAM_EXPBUF \<longrightarrow> str_cur s' = 0 \<and> str_bufsize s' = str_bufsize s)"
proof (cases "str_level s = 0")
  case True
  from flush_finish_out [OF flush_line_empty [OF fl ty True] ok] True ty
    stream_wfD(2) [OF out_okD(1) [OF ok]]
  show ?thesis by simp
next
  case False
  have nb: "str_buftype s \<noteq> smap_buffer_none" using ty by simp
  from flush_line_steps [OF fl ok ty False] obtain s1 where lines: "flush_lines ops s = Some (s1, E0)"
    and fin: "str_level s1 = 0 \<or> \<not> BUFFER_FULL_P s1 \<Longrightarrow> flush_finish s1 = Some (s', E0)"
    and grow: "str_level s1 \<noteq> 0 \<Longrightarrow> BUFFER_FULL_P s1 \<Longrightarrow> has_flag s1 SMAP_STREAM_EXPBUF \<Longrightarrow>
         stream_realloc_buffer ops s1 0 = (s', E0)"
    and force: "str_level s1 \<noteq> 0 \<Longrightarrow> BUFFER_FULL_P s1 \<and> \<not> has_flag s1 SMAP_STREAM_EXPBUF \<Longrightarrow>
         \<exists>s2. force_flush_buffer ops s1 = Some (s2, E0) \<and> flush_finish s2 = Some (s', E0)"
    by auto
  from flush_lines_spec [OF lines ok nb] have st: "total s1 = total s" "NL \<notin> set (window s1)"
    "out_ok okd s1" "out_frame s s1" "str_bufsize s1 = str_bufsize s" by auto
  have nb1: "str_buftype s1 \<noteq> smap_buffer_none" using out_frame_flags(5) [OF st(4)] nb by simp
  note wf1 = stream_wfD [OF out_okD(1) [OF st(3)] nb1]
  consider (fin) "str_level s1 = 0 \<or> \<not> BUFFER_FULL_P s1"
    | (grow) "str_level s1 \<noteq> 0" "BUFFER_FULL_P s1" "has_flag s1 SMAP_STREAM_EXPBUF"
    | (force) "str_level s1 \<noteq> 0" "BUFFER_FULL_P s1" "\<not> has_flag s1 SMAP_STREAM_EXPBUF" by blast
  then show ?thesis
  proof cases
    case fin
    then have "str_level s1 < str_bufsize s1" using wf1 by (auto simp: BUFFER_FULL_P_def)
    with flush_finish_out [OF \<open>_ \<Longrightarrow> flush_finish s1 = _\<close> [OF fin] st(3) nb1] st
    show ?thesis by (auto intro: out_frame_trans)
  next
    case grow
    note rd = realloc_double [OF \<open>_ \<Longrightarrow> _ \<Longrightarrow> _ \<Longrightarrow> stream_realloc_buffer ops s1 0 = _\<close> [OF grow]
        out_okD(1) [OF st(3)] nb1]
    have "out_frame s s'" "out_ok okd s'" using st(3,4) rd by (simp_all add: out_frame_def out_ok_def)
    with rd st grow out_frame_flags(3) [OF st(4)] wf1 show ?thesis by (simp add: total_def)
  next
    case force
    with \<open>_ \<Longrightarrow> _ \<Longrightarrow> \<exists>s2. _\<close> obtain s2 where f: "force_flush_buffer ops s1 = Some (s2, E0)"
      "flush_finish s2 = Some (s', E0)" by blast
    have "\<forall>b. accepts b" using acc force(3) out_frame_flags(3) [OF st(4)] by simp
    note ff = force_flush_spec [OF f(1) st(3) nb1 this]
    have "str_buftype s2 \<noteq> smap_buffer_none" using ff nb1 out_frame_flags(5) [of s1 s2] by simp
    from flush_finish_out [OF f(2) _ this] ff st wf1(2) show ?thesis by (auto intro: out_frame_trans)
  qed
qed

text \<open>The state in which the loop of a write copies: there is room.\<close>

lemma write_step_ready:
  assumes "(if stream_buffer_full_p s then stream_flush_buffer ops s False else Some (s, E0)) = Some (s', E0)"
    and "out_ok okd s" "str_buftype s = smap_buffer_line"
    and "has_flag s SMAP_STREAM_EXPBUF \<or> (\<forall>b. accepts b)"
  shows "total s' = total s \<and> out_ok okd s' \<and> out_frame s s' \<and> NL \<notin> set (window s')
    \<and> str_level s' < str_bufsize s'
    \<and> (\<not> has_flag s SMAP_STREAM_EXPBUF \<longrightarrow> (str_cur s' = 0 \<or> str_cur s' = str_cur s) \<and> str_bufsize s' = str_bufsize s)"
proof (cases "stream_buffer_full_p s")
  case True
  with assms flush_partial [of s s'] show ?thesis by auto
next
  case False
  with assms have "s' = s" by simp
  with False assms stream_wfD(3) [OF out_okD(1) [OF assms(2)]] show ?thesis
    by (auto simp: stream_buffer_full_p_def BUFFER_FULL_P_def memchr_None)
qed

lemma write_step_copy:
  assumes st: "buf_store s (str_cur s + str_level s) bs = Some s1"
    and ok: "out_ok okd s" and ty: "str_buftype s \<noteq> smap_buffer_none"
    and s': "s' = set_flag STR_DIRTY (s1\<lparr>str_level := str_level s1 + length bs\<rparr>)"
  shows "total s' = total s @ bs" "out_ok okd s'" "out_frame s s'" "window s' = window s @ bs"
    "str_cur s' = str_cur s" "str_bufsize s' = str_bufsize s"
proof -
  note f = buf_store_fields [OF st]
  note wf = stream_wfD [OF out_okD(1) [OF ok] ty]
  show win: "window s' = window s @ bs"
    using buf_store_window [OF st] by (simp add: window_def s' bufmem_def f)
  then show "total s' = total s @ bs" by (simp add: total_def s' f)
  show "str_cur s' = str_cur s" "str_bufsize s' = str_bufsize s" by (simp_all add: s' f)
  have "str_cur s + str_level s + length bs \<le> str_bufsize s"
    using st wf(1) by (auto simp: buf_store_def memcpy_at_def split: option.splits if_splits)
  then have "stream_wf s'"
    using wf f(9,10) by (auto simp: stream_wf_def s' f bufmem_def)
  then show "out_ok okd s'" using ok by (simp add: out_ok_def s' f flag_simps)
  show "out_frame s s'" by (auto simp: out_frame_def s' f intro: flags_upto_setfl)
qed

text \<open>Nothing is lost, doubled or reordered by a write.\<close>

lemma write_loop_conserves:
  assumes "stream_write_loop ops s buf k = Some (s', E0, m)"
    and "out_ok okd s" "str_buftype s = smap_buffer_line"
    and "has_flag s SMAP_STREAM_EXPBUF \<or> (\<forall>b. accepts b)"
  shows "total s' = total s @ buf \<and> out_ok okd s' \<and> out_frame s s' \<and> NL \<notin> set (window s')
    \<and> m = k + length buf"
  using assms
proof (induction "length buf" arbitrary: s buf k rule: less_induct)
  case less
  from less.prems(1) obtain s1 where
    prep: "(if stream_buffer_full_p s then stream_flush_buffer ops s False else Some (s, E0)) = Some (s1, E0)"
    and rest: "if buf = [] then s' = s1 \<and> m = k
       else \<exists>s2. buf_store s1 (str_cur s1 + str_level s1)
               (take (min (size_sub (str_bufsize s1) (str_level s1)) (length buf)) buf) = Some s2 \<and>
            stream_write_loop ops
              (set_flag STR_DIRTY (s2\<lparr>str_level := str_level s2 +
                  min (size_sub (str_bufsize s1) (str_level s1)) (length buf)\<rparr>))
              (drop (min (size_sub (str_bufsize s1) (str_level s1)) (length buf)) buf)
              (k + min (size_sub (str_bufsize s1) (str_level s1)) (length buf)) = Some (s', E0, m)"
    by (subst (asm) stream_write_loop.simps)
      (auto simp: bind_eq_Some_conv Let_def split: if_splits)
  note r1 = write_step_ready [OF prep less.prems(2-4)]
  show ?case
  proof (cases "buf = []")
    case True
    with rest r1 show ?thesis by simp
  next
    case False
    define n where "n = min (str_bufsize s1 - str_level s1) (length buf)"
    have n: "0 < n" "n \<le> length buf" "min (size_sub (str_bufsize s1) (str_level s1)) (length buf) = n"
      using r1 False by (auto simp: n_def)
    from rest False n(3) obtain s2 where
      st: "buf_store s1 (str_cur s1 + str_level s1) (take n buf) = Some s2"
      and rec: "stream_write_loop ops (set_flag STR_DIRTY (s2\<lparr>str_level := str_level s2 + n\<rparr>))
                  (drop n buf) (k + n) = Some (s', E0, m)" by auto
    define t where "t = set_flag STR_DIRTY (s2\<lparr>str_level := str_level s2 + n\<rparr>)"
    have ty1: "str_buftype s1 = smap_buffer_line" and ex1: "has_flag s1 SMAP_STREAM_EXPBUF = has_flag s SMAP_STREAM_EXPBUF"
      using out_frame_flags [of s s1] r1 less.prems(3) by auto
    note cp = write_step_copy [OF st, of t]
    have cp: "total t = total s1 @ take n buf" "out_ok okd t" "out_frame s1 t"
      using cp r1 ty1 n by (simp_all add: t_def)
    have "length (drop n buf) < length buf" using n by simp
    from less.hyps [OF this rec [folded t_def] cp(2)] ty1 ex1 less.prems(4) out_frame_flags [OF cp(3)]
    have ih: "total s' = total t @ drop n buf \<and> out_ok okd s' \<and> out_frame t s' \<and> NL \<notin> set (window s')
      \<and> m = k + n + length (drop n buf)" by simp
    have "out_frame s s'" using r1 cp(3) ih by (blast intro: out_frame_trans)
    with ih r1 cp(1) n show ?thesis by simp
  qed
qed

text \<open>A complete flush leaves nothing behind.\<close>

lemma flush_all:
  assumes fl: "stream_flush_buffer ops s True = Some (s', E0)"
    and ok: "out_ok okd s" and ty: "str_buftype s = smap_buffer_line"
    and acc: "window s = [] \<or> last (window s) = NL \<or> (\<forall>b. accepts b)"
  shows "sent (str_dev s') = total s \<and> out_ok okd s' \<and> out_frame s s' \<and> str_cur s' = 0 \<and> str_level s' = 0"
proof -
  have nb: "str_buftype s \<noteq> smap_buffer_none" using ty by simp
  have finish: ?thesis
    if "flush_finish t = Some (s', E0)" "total t = total s" "out_ok okd t" "out_frame s t" "str_level t = 0" for t
    using flush_finish_out [OF that(1,3)] that(2,4,5) nb out_frame_flags(5) [OF that(4)]
    by (auto simp: total_def intro: out_frame_trans)
  show ?thesis
  proof (cases "str_level s = 0")
    case True
    show ?thesis by (rule finish [OF flush_line_empty [OF fl ty True]]) (use True ok in auto)
  next
    case False
    from flush_line_steps [OF fl ok ty False] obtain s1 where lines: "flush_lines ops s = Some (s1, E0)"
      and fin: "str_level s1 = 0 \<Longrightarrow> flush_finish s1 = Some (s', E0)"
      and force: "str_level s1 \<noteq> 0 \<Longrightarrow>
         \<exists>s2. force_flush_buffer ops s1 = Some (s2, E0) \<and> flush_finish s2 = Some (s', E0)" by auto
    from flush_lines_spec [OF lines ok nb] obtain k where st: "total s1 = total s"
      "NL \<notin> set (window s1)" "out_ok okd s1" "out_frame s s1" and k: "window s1 = drop k (window s)" by auto
    have nb1: "str_buftype s1 \<noteq> smap_buffer_none" using out_frame_flags(5) [OF st(4)] nb by simp
    show ?thesis
    proof (cases "str_level s1 = 0")
      case True
      with fin st show ?thesis by (intro finish [of s1]) simp_all
    next
      case False
      from force [OF False] obtain s2 where f: "force_flush_buffer ops s1 = Some (s2, E0)"
        "flush_finish s2 = Some (s', E0)" by blast
      have ne: "window s1 \<noteq> []" using False stream_wfD(4) [OF out_okD(1) [OF st(3)] nb1] by auto
      with k have "last (window s1) = last (window s)" by (metis drop_eq_Nil last_drop linorder_not_le)
      with st(2) ne k acc have "\<forall>b. accepts b" by (metis drop_Nil last_in_set)
      from force_flush_spec [OF f(1) st(3) nb1 this] f(2) st show ?thesis
        by (intro finish [of s2]) (auto intro: out_frame_trans)
    qed
  qed
qed

end

text \<open>A device in a good state does not refuse a block it accepts, up to a size.\<close>

locale reliable_device = out_device +
  fixes good :: "'a \<Rightarrow> bool" and cap :: nat
  assumes wr_ok: "good d \<Longrightarrow> accepts buf \<Longrightarrow> buf \<noteq> [] \<Longrightarrow> length buf \<le> cap \<Longrightarrow>
      \<exists>d' n. wr d buf = Some (d', E0, n) \<and> 0 < n \<and> good d'"
    and good_okd: "good d \<Longrightarrow> okd d"
begin

lemma write_full_loop_ok:
  "good (str_dev s) \<Longrightarrow> accepts buf \<Longrightarrow> length buf \<le> cap \<Longrightarrow>
   \<exists>s' m. write_full_loop wr s buf k = Some (s', E0, m) \<and> good (str_dev s')"
proof (induction "length buf" arbitrary: s buf k rule: less_induct)
  case less
  show ?case
  proof (cases "buf = []")
    case True
    then show ?thesis using less.prems(1) by (subst write_full_loop.simps) simp
  next
    case False
    with wr_ok less.prems obtain d n where w: "wr (str_dev s) buf = Some (d, E0, n)" "0 < n" "good d"
      by blast
    with wr_sent good_okd less.prems have n: "n \<le> length buf" "n < length buf \<longrightarrow> accepts (drop n buf)" by blast+
    show ?thesis
    proof (cases "n < length buf")
      case True
      from less.hyps [of "drop n buf"] True w n False less.prems show ?thesis
        by (subst write_full_loop.simps) (auto simp: Let_def)
    next
      case False
      with n \<open>buf \<noteq> []\<close> w show ?thesis
        by (subst write_full_loop.simps) (auto simp: Let_def write_full_loop.simps)
    qed
  qed
qed

lemma write_unbuffered_ok:
  assumes "accepts buf \<or> buf = []" "\<not> has_flag s STR_ERR" "has_flag s SMAP_STREAM_WRITE"
    "good (str_dev s)" "length buf \<le> cap"
  shows "\<exists>s' p. smap_stream_write_unbuffered ops s buf True = Some (s', E0, p) \<and> good (str_dev s')"
  using assms write_full_loop_ok [of s buf 0]
  by (auto simp: smap_stream_write_unbuffered_def op_write_wr Let_def)

lemma flush_lines_ok:
  assumes "out_ok okd s" "str_buftype s \<noteq> smap_buffer_none" "good (str_dev s)" "str_level s \<le> cap"
  shows "\<exists>s'. flush_lines ops s = Some (s', E0) \<and> good (str_dev s')"
  using assms
proof (induction "str_level s" arbitrary: s rule: less_induct)
  case less
  show ?case
  proof (cases "memchr NL (window s)")
    case None
    then show ?thesis using less.prems(3) by (subst flush_lines.simps) simp
  next
    case (Some i)
    note len = stream_wfD(4) [OF out_okD(1) [OF less.prems(1)] less.prems(2)]
    from memchr_Some [OF Some] len have i: "i + 1 \<le> str_level s" "window s ! i = NL"
      and nl: "NL \<notin> set (take i (window s))" by auto
    then have "take (i + 1) (window s) = take i (window s) @ [NL]"
      using len by (simp add: take_Suc_conv_app_nth)
    then have acc: "accepts (take (i + 1) (window s))" using accepts_line [OF nl] by simp
    have "length (take (i + 1) (window s)) \<le> cap" using i(1) less.prems(4) by simp
    with acc write_unbuffered_ok out_okD(2,3) [OF less.prems(1)] less.prems(3) obtain s1 p where
      w: "smap_stream_write_unbuffered ops s (take (i + 1) (window s)) True = Some (s1, E0, p)"
      and g: "good (str_dev s1)" by blast
    note st = write_window_prefix [OF w less.prems(1) i(1) disjI1 [OF acc] refl]
    have "str_level (stream_advance_buffer s1 (i + 1)) < str_level s"
      and "str_buftype (stream_advance_buffer s1 (i + 1)) \<noteq> smap_buffer_none"
      using st(5) i(1) out_frame_flags(5) [OF st(4)] less.prems(2) by (linarith, metis)
    from less.hyps [OF this(1) st(3) this(2)] st(5) g less.prems(4) Some w show ?thesis
      by (subst flush_lines.simps) simp
  qed
qed

lemma force_flush_ok:
  assumes "out_ok okd s" "\<forall>b. accepts b" "good (str_dev s)" "str_level s \<le> cap"
  shows "\<exists>s'. force_flush_buffer ops s = Some (s', E0) \<and> good (str_dev s')"
proof -
  have "length (window s) \<le> cap" using assms(4) by (simp add: window_def)
  with write_unbuffered_ok [of "window s" s] assms out_okD(2,3) [OF assms(1)]
  show ?thesis by (auto simp: force_flush_buffer_def)
qed

lemma flush_finish_good: "flush_finish s = Some (s', rc) \<Longrightarrow> good (str_dev s) \<Longrightarrow> good (str_dev s')"
  by (auto simp: flush_finish_def bind_eq_Some_conv mem_simps split: if_splits)

lemma realloc_good: "stream_realloc_buffer ops s n = (s', rc) \<Longrightarrow> good (str_dev s) \<Longrightarrow> good (str_dev s')"
  by (auto simp: stream_realloc_buffer_def Let_def split: if_splits)

text \<open>A flush of a line-buffered stream returns when every device write it needs
  is of an accepted block.\<close>

lemma flush_ok:
  assumes ok: "out_ok okd s" and ty: "str_buftype s = smap_buffer_line"
    and noseek: "\<not> has_flag s SMAP_STREAM_SEEK"
    and acc: "(\<forall>b. accepts b) \<or> (\<not> all \<and> has_flag s SMAP_STREAM_EXPBUF) \<or> window s = [] \<or> last (window s) = NL"
    and grow: "\<not> all \<Longrightarrow> has_flag s SMAP_STREAM_EXPBUF \<Longrightarrow>
        (\<forall>n. op_alloc ops n) \<and> str_bufsize s \<noteq> SIZE_MAX"
    and g: "good (str_dev s)" and cap: "str_level s \<le> cap"
  shows "\<exists>s'. stream_flush_buffer ops s all = Some (s', E0) \<and> good (str_dev s')"
proof (cases "str_level s = 0")
  case True
  have nb: "str_buftype s \<noteq> smap_buffer_none" using ty by simp
  have "stream_advance_buffer s 0 = s" by (simp add: stream_advance_buffer_def)
  with True noseek ty g flush_finish_ok [OF out_okD(1) [OF ok] nb] show ?thesis
    by (auto simp: stream_flush_buffer_def dest: flush_finish_good)
next
  case False
  have nb: "str_buftype s \<noteq> smap_buffer_none" using ty by simp
  note dirty = out_okD(4) [OF ok False]
  from flush_lines_ok [OF ok nb g cap] obtain s1 where
    lines: "flush_lines ops s = Some (s1, E0)" and g1: "good (str_dev s1)" by blast
  from flush_lines_spec [OF lines ok nb] obtain k where st: "NL \<notin> set (window s1)" "out_ok okd s1"
    "out_frame s s1" "str_bufsize s1 = str_bufsize s" and k: "window s1 = drop k (window s)" by auto
  have nb1: "str_buftype s1 \<noteq> smap_buffer_none" using out_frame_flags(5) [OF st(3)] nb by simp
  have cap1: "str_level s1 \<le> cap"
    using k cap stream_wfD(4) [OF out_okD(1) [OF st(2)] nb1] stream_wfD(4) [OF out_okD(1) [OF ok] nb]
    by simp
  have raw: "\<forall>b. accepts b" if "str_level s1 \<noteq> 0" "all \<or> \<not> has_flag s1 SMAP_STREAM_EXPBUF"
  proof -
    have ne: "window s1 \<noteq> []" using that stream_wfD(4) [OF out_okD(1) [OF st(2)] nb1] by auto
    with k have "last (window s1) = last (window s)" by (metis drop_eq_Nil last_drop linorder_not_le)
    with st(1) ne k acc that(2) out_frame_flags(3) [OF st(3)] show ?thesis by (metis drop_Nil last_in_set)
  qed
  have force: "\<exists>s'. (force_flush_buffer ops s1 \<bind>
      (\<lambda>(s, rc). if rc \<noteq> E0 then Some (s, rc) else flush_finish s)) = Some (s', E0)
      \<and> good (str_dev s')"
    if a: "\<forall>b. accepts b"
  proof -
    from force_flush_ok [OF st(2) a g1 cap1] obtain s2 where
      f: "force_flush_buffer ops s1 = Some (s2, E0)" and g2: "good (str_dev s2)" by blast
    note ff = force_flush_spec [OF f st(2) nb1 a]
    have "str_buftype s2 \<noteq> smap_buffer_none" using ff nb1 out_frame_flags(5) [of s1 s2] by simp
    from flush_finish_ok [OF _ this] ff f g2 show ?thesis
      by (auto simp: out_ok_def dest: flush_finish_good)
  qed
  have gr: "\<exists>s'. stream_realloc_buffer ops s1 0 = (s', E0) \<and> good (str_dev s')"
    if "\<not> all" "has_flag s1 SMAP_STREAM_EXPBUF"
    using grow that st(4) out_frame_flags(3) [OF st(3)] g1 by (simp add: stream_realloc_buffer_def Let_def)
  have fin: "\<exists>s'. flush_finish s1 = Some (s', E0) \<and> good (str_dev s')"
    using flush_finish_ok [OF out_okD(1) [OF st(2)] nb1] g1 flush_finish_good by blast
  show ?thesis
    using lines dirty noseek ty False raw force gr fin by (auto simp: stream_flush_buffer_def)
qed

text \<open>A write to a line-buffered stream whose buffer does not grow.\<close>

lemma write_loop_ok_plain:
  assumes "out_ok okd s" "str_buftype s = smap_buffer_line" "\<not> has_flag s SMAP_STREAM_SEEK"
    and "\<not> has_flag s SMAP_STREAM_EXPBUF" "\<forall>b. accepts b" "str_cur s = 0"
    and "good (str_dev s)" "str_bufsize s \<le> cap"
  shows "\<exists>s' m. stream_write_loop ops s buf k = Some (s', E0, m) \<and> str_cur s' = 0
    \<and> good (str_dev s') \<and> str_bufsize s' = str_bufsize s"
  using assms
proof (induction "length buf" arbitrary: s buf k rule: less_induct)
  case less
  have raw: "(\<forall>b. accepts b) \<or> X" for X using less.prems(5) by simp
  have "str_level s \<le> cap"
    using stream_wfD(3) [OF out_okD(1) [OF less.prems(1)]] less.prems(2,8) by simp
  then have "\<exists>s1. stream_flush_buffer ops s False = Some (s1, E0) \<and> good (str_dev s1)"
    using flush_ok [OF less.prems(1-3) raw, of False] less.prems(4,7) by blast
  then obtain s1 where
    prep: "(if stream_buffer_full_p s then stream_flush_buffer ops s False else Some (s, E0)) = Some (s1, E0)"
    and g1: "good (str_dev s1)"
    using less.prems(7) by (cases "stream_buffer_full_p s") auto
  note r1 = write_step_ready [OF prep less.prems(1,2) disjI2 [OF less.prems(5)]]
  have fr: "out_frame s s1" and cur: "str_cur s1 = 0" and bsz: "str_bufsize s1 = str_bufsize s"
    using r1 less.prems(4,6) by auto
  show ?case
  proof (cases "buf = []")
    case True
    with prep cur g1 bsz show ?thesis by (subst stream_write_loop.simps) simp
  next
    case False
    define n where "n = min (str_bufsize s1 - str_level s1) (length buf)"
    have n: "0 < n" "n \<le> length buf" "min (size_sub (str_bufsize s1) (str_level s1)) (length buf) = n"
      using r1 False by (auto simp: n_def)
    have nb: "str_buftype s1 \<noteq> smap_buffer_none" using out_frame_flags(5) [OF fr] less.prems(2) by simp
    have "str_cur s1 + str_level s1 + length (take n buf) \<le> length (bufmem s1)"
      using stream_wfD(1,3) [OF out_okD(1) nb] r1 cur by (auto simp: n_def)
    then obtain s2 where st: "buf_store s1 (str_cur s1 + str_level s1) (take n buf) = Some s2"
      using buf_store_ok by blast
    define t where "t = set_flag STR_DIRTY (s2\<lparr>str_level := str_level s2 + n\<rparr>)"
    have cp: "out_ok okd t" "out_frame s1 t" "str_cur t = 0" "str_bufsize t = str_bufsize s"
      "good (str_dev t)"
      using write_step_copy [OF st, of t] r1 nb n cur bsz g1 buf_store_fields(8) [OF st]
      by (simp_all add: t_def)
    note ff = out_frame_flags [OF out_frame_trans [OF fr cp(2)]]
    have "length (drop n buf) < length buf" using n by simp
    from less.hyps [OF this cp(1)] ff less.prems cp(3-5)
    have "\<exists>s' m. stream_write_loop ops t (drop n buf) (k + n) = Some (s', E0, m) \<and> str_cur s' = 0
      \<and> good (str_dev s') \<and> str_bufsize s' = str_bufsize s" by simp
    with prep False n st show ?thesis
      by (subst stream_write_loop.simps) (auto simp: t_def Let_def)
  qed
qed

text \<open>
  A flush of a stream whose buffer grows, when the buffer is full or holds a
  line: with a piece of a line the buffer grows, a whole line is written out.
\<close>

lemma flush_expand_ok:
  assumes ok: "out_ok okd s" and ty: "str_buftype s = smap_buffer_line"
    and noseek: "\<not> has_flag s SMAP_STREAM_SEEK" and ex: "has_flag s SMAP_STREAM_EXPBUF"
    and alloc: "\<forall>n. op_alloc ops n" and cur: "str_cur s = 0"
    and line: "NL \<notin> set (butlast (window s))" and len: "length (window s) < SIZE_MAX"
    and full: "stream_buffer_full_p s" and g: "good (str_dev s)" and cap: "length (window s) \<le> cap"
  shows "\<exists>s1. stream_flush_buffer ops s False = Some (s1, E0) \<and> str_cur s1 = 0 \<and> good (str_dev s1)
    \<and> (NL \<notin> set (window s) \<longrightarrow> window s1 = window s)"
proof -
  have nb: "str_buftype s \<noteq> smap_buffer_none" using ty by simp
  note wf = stream_wfD [OF out_okD(1) [OF ok] nb]
  show ?thesis
  proof (cases "NL \<in> set (window s)")
    case False
    then have "memchr NL (window s) = None" by (simp add: memchr_None)
    then have lines: "flush_lines ops s = Some (s, E0)"
      by (subst flush_lines.simps) simp
    from full False ty cur have lv: "str_level s = str_bufsize s"
      by (auto simp: stream_buffer_full_p_def BUFFER_FULL_P_def memchr_None)
    then have "str_bufsize s \<noteq> SIZE_MAX" using len wf(4) by auto
    then obtain s1 where s1: "stream_realloc_buffer ops s 0 = (s1, E0)"
      using alloc by (auto simp: stream_realloc_buffer_def Let_def)
    moreover have "stream_flush_buffer ops s False = Some (s1, E0)"
      using lines s1 lv ty noseek ex cur out_okD(4) [OF ok] wf(2)
      by (simp add: stream_flush_buffer_def BUFFER_FULL_P_def)
    ultimately show ?thesis using realloc_double(1,5,7) [OF s1 out_okD(1) [OF ok] nb] cur g by auto
  next
    case True
    then have ne: "window s \<noteq> []" by auto
    with True line have lst: "last (window s) = NL"
      by (metis append_butlast_last_id rotate1.simps(2) set_ConsD set_rotate1)
    from flush_lines_ok [OF ok nb g] cap wf(4) obtain s1 where
      lines: "flush_lines ops s = Some (s1, E0)" and g1: "good (str_dev s1)" by auto
    from flush_lines_spec [OF lines ok nb] obtain j where st: "out_ok okd s1" "out_frame s s1"
      "NL \<notin> set (window s1)" "window s1 = drop j (window s)" by blast
    have nb1: "str_buftype s1 \<noteq> smap_buffer_none" using out_frame_flags(5) [OF st(2)] nb by simp
    have "window s1 = []"
      using st(3,4) lst by (metis drop_eq_Nil last_drop last_in_set linorder_not_le)
    then have lv1: "str_level s1 = 0" using stream_wfD(4) [OF out_okD(1) [OF st(1)] nb1] by simp
    from flush_finish_ok [OF out_okD(1) [OF st(1)] nb1] obtain s2 where
      fin: "flush_finish s1 = Some (s2, E0)" by blast
    have "str_level s \<noteq> 0" using ne window_level_0 by blast
    then have "stream_flush_buffer ops s False = Some (s2, E0)"
      using lines fin lv1 ty noseek out_okD(4) [OF ok] by (simp add: stream_flush_buffer_def)
    with flush_finish_out [OF fin st(1) nb1] flush_finish_good [OF fin g1] True show ?thesis by blast
  qed
qed

text \<open>
  A write to a line-buffered stream whose buffer grows: a piece of a line, or
  the end of one.
\<close>

lemma write_loop_ok_expand:
  assumes "out_ok okd s" "str_buftype s = smap_buffer_line" "\<not> has_flag s SMAP_STREAM_SEEK"
    and "has_flag s SMAP_STREAM_EXPBUF" "\<forall>n. op_alloc ops n" "str_cur s = 0"
    and "NL \<notin> set (butlast (window s @ buf))" "length (window s @ buf) < SIZE_MAX"
    and "good (str_dev s)" "length (window s @ buf) \<le> cap"
  shows "\<exists>s' m. stream_write_loop ops s buf k = Some (s', E0, m) \<and> str_cur s' = 0 \<and> good (str_dev s')"
  using assms
proof (induction "length buf" arbitrary: s buf k rule: less_induct)
  case less
  have line: "NL \<notin> set (butlast (window s))" "buf \<noteq> [] \<Longrightarrow> NL \<notin> set (window s)"
    using less.prems(7) by (auto simp: butlast_append split: if_splits dest: in_set_butlastD)
  obtain s1 where
    prep: "(if stream_buffer_full_p s then stream_flush_buffer ops s False else Some (s, E0)) = Some (s1, E0)"
    and cur: "str_cur s1 = 0" and win: "buf \<noteq> [] \<Longrightarrow> window s1 = window s"
    and g1: "good (str_dev s1)"
    using flush_expand_ok [OF less.prems(1-6) line(1)] less.prems(6,8,9,10) line(2)
    by (cases "stream_buffer_full_p s") auto
  note r1 = write_step_ready [OF prep less.prems(1,2) disjI1 [OF less.prems(4)]]
  have fr: "out_frame s s1" using r1 by auto
  show ?case
  proof (cases "buf = []")
    case True
    with prep cur g1 show ?thesis by (subst stream_write_loop.simps) simp
  next
    case False
    define n where "n = min (str_bufsize s1 - str_level s1) (length buf)"
    have n: "0 < n" "n \<le> length buf" "min (size_sub (str_bufsize s1) (str_level s1)) (length buf) = n"
      using r1 False by (auto simp: n_def)
    have nb: "str_buftype s1 \<noteq> smap_buffer_none" using out_frame_flags(5) [OF fr] less.prems(2) by simp
    have "str_cur s1 + str_level s1 + length (take n buf) \<le> length (bufmem s1)"
      using stream_wfD(1,3) [OF out_okD(1) nb] r1 cur by (auto simp: n_def)
    then obtain s2 where st: "buf_store s1 (str_cur s1 + str_level s1) (take n buf) = Some s2"
      using buf_store_ok by blast
    define t where "t = set_flag STR_DIRTY (s2\<lparr>str_level := str_level s2 + n\<rparr>)"
    have cp: "out_ok okd t" "out_frame s1 t" "str_cur t = 0" "window t = window s @ take n buf"
      "good (str_dev t)"
      using write_step_copy [OF st, of t] r1 nb n cur win [OF False] g1 buf_store_fields(8) [OF st]
      by (simp_all add: t_def)
    note ff = out_frame_flags [OF out_frame_trans [OF fr cp(2)]]
    have "length (drop n buf) < length buf" using n by simp
    from less.hyps [OF this cp(1)] ff less.prems cp(3-5)
    have "\<exists>s' m. stream_write_loop ops t (drop n buf) (k + n) = Some (s', E0, m) \<and> str_cur s' = 0
      \<and> good (str_dev s')" by simp
    with prep False n st show ?thesis
      by (subst stream_write_loop.simps) (auto simp: t_def Let_def)
  qed
qed

text \<open>
  A fully buffered stream whose buffer is full: the flush hands the window to
  the device and keeps it, so the loop of a write makes no progress.
\<close>

lemma flush_full_keeps:
  assumes ok: "out_ok okd s" and ty: "str_buftype s = smap_buffer_full"
    and noseek: "\<not> has_flag s SMAP_STREAM_SEEK" and dirty: "has_flag s STR_DIRTY"
    and acc: "\<forall>b. accepts b" and g: "good (str_dev s)" and cap: "str_bufsize s \<le> cap"
    and cur: "str_cur s = 0" and full: "str_level s = str_bufsize s"
  shows "\<exists>s'. stream_flush_buffer ops s False = Some (s', E0) \<and> out_ok okd s' \<and> out_frame s s'
    \<and> has_flag s' STR_DIRTY \<and> good (str_dev s') \<and> str_cur s' = 0 \<and> str_level s' = str_level s
    \<and> str_bufsize s' = str_bufsize s \<and> sent (str_dev s') = sent (str_dev s) @ window s
    \<and> window s' = window s"
proof -
  have nb: "str_buftype s \<noteq> smap_buffer_none" using ty by simp
  note wf = stream_wfD [OF out_okD(1) [OF ok] nb]
  have "length (window s) \<le> cap" using wf cap full by simp
  then obtain s1 p where w: "smap_stream_write_unbuffered ops s (window s) True = Some (s1, E0, p)"
    and g1: "good (str_dev s1)"
    using write_unbuffered_ok [of "window s" s] acc g out_okD(2,3) [OF ok] by blast
  note fr = write_unbuffered_frame [OF w]
  note sb = same_bufferD [OF fr(1)]
  have of1: "out_frame s s1" and d1: "has_flag s1 STR_DIRTY"
    using fr(2,3) out_okD(3) [OF ok] dirty by simp_all
  have "stream_wf s1" using same_buffer_wf [OF fr(1)] of1 out_okD(1) [OF ok] by (simp add: out_frame_def)
  then have ok1: "out_ok okd s1" using ok of1 d1 out_frame_flags [OF of1] good_okd [OF g1] by (simp add: out_ok_def)
  have fin: "flush_finish s1 = Some (s1\<lparr>str_cur := 0\<rparr>, E0)"
    using sb cur full wf(2) by (simp add: flush_finish_def)
  have eq: "s1\<lparr>str_cur := 0\<rparr> = s1" using sb cur by simp
  have "stream_flush_buffer ops s False = Some (s1, E0)"
    using w fin eq ty noseek dirty by (simp add: stream_flush_buffer_def)
  moreover have "sent (str_dev s1) = sent (str_dev s) @ window s"
    using write_unbuffered_sent(1) [OF w] acc out_okD(2,3,5) [OF ok] by simp
  ultimately show ?thesis using ok1 of1 d1 g1 sb cur by simp
qed

lemma full_buffer_write_stuck:
  assumes "out_ok okd s" "str_buftype s = smap_buffer_full" "\<not> has_flag s SMAP_STREAM_SEEK"
    "has_flag s STR_DIRTY" "\<forall>b. accepts b" "good (str_dev s)" "str_bufsize s \<le> cap"
    "str_cur s = 0" "str_level s = str_bufsize s" "buf \<noteq> []"
  shows "stream_write_loop ops s buf k = None"
proof (rule ccontr)
  define stuck where "stuck = (\<lambda>s. out_ok okd s \<and> str_buftype s = smap_buffer_full
      \<and> \<not> has_flag s SMAP_STREAM_SEEK \<and> has_flag s STR_DIRTY \<and> good (str_dev s)
      \<and> str_bufsize s \<le> cap \<and> str_cur s = 0 \<and> str_level s = str_bufsize s)"
  assume "stream_write_loop ops s buf k \<noteq> None"
  then obtain r where ret: "stream_write_loop ops s buf k = Some r" by auto
  have "ops = ops \<longrightarrow> stuck s \<longrightarrow> buf \<noteq> [] \<longrightarrow> False"
  proof (rule stream_write_loop.raw_induct
      [where P = "\<lambda>ops' s buf k r. ops' = ops \<longrightarrow> stuck s \<longrightarrow> buf \<noteq> [] \<longrightarrow> False", OF _ ret],
      intro impI)
    fix wl :: "'a stream_ops \<Rightarrow> 'a smap_stream \<Rightarrow> string \<Rightarrow> nat \<Rightarrow> ('a smap_stream \<times> errno \<times> nat) option"
      and ops' s buf k r
    assume IH: "\<And>ops' s buf k r. wl ops' s buf k = Some r \<Longrightarrow>
        ops' = ops \<longrightarrow> stuck s \<longrightarrow> buf \<noteq> [] \<longrightarrow> False"
      and body: "(if stream_buffer_full_p s then stream_flush_buffer ops' s False else Some (s, E0)) \<bind>
        (\<lambda>(s, rc). if rc \<noteq> E0 then Some (s, rc, k) else if buf = [] then Some (s, E0, k)
          else let n = min (size_sub (str_bufsize s) (str_level s)) (length buf)
               in buf_store s (str_cur s + str_level s) (take n buf) \<bind>
                  (\<lambda>s. wl ops' (set_flag STR_DIRTY (s\<lparr>str_level := str_level s + n\<rparr>)) (drop n buf) (k + n)))
        = Some r"
      and o: "ops' = ops" and st: "stuck s" and ne: "buf \<noteq> []"
    from st flush_full_keeps [of s] assms(5) obtain s' where
      f: "stream_flush_buffer ops s False = Some (s', E0)" and ok': "out_ok okd s'" and fr: "out_frame s s'"
      and d: "has_flag s' STR_DIRTY" and g: "good (str_dev s')" and c: "str_cur s' = 0"
      "str_level s' = str_level s" "str_bufsize s' = str_bufsize s"
      unfolding stuck_def by blast
    have full: "stream_buffer_full_p s" using st by (simp add: stuck_def stream_buffer_full_p_def BUFFER_FULL_P_def)
    have nb: "str_buftype s' \<noteq> smap_buffer_none"
      using out_frame_flags(5) [OF fr] st by (simp add: stuck_def)
    have "buf_store s' (str_cur s' + str_level s') [] = Some s'"
      using stream_wfD(1) [OF out_okD(1) [OF ok'] nb] c st
      by (simp add: buf_store_def memcpy_at_def stuck_def)
    with body f full ne o c st have "wl ops (set_flag STR_DIRTY s') buf k = Some r"
      by (simp add: stuck_def Let_def)
    moreover have "stuck (set_flag STR_DIRTY s')"
      using st ok' fr d g c out_frame_flags [OF fr]
      by (auto simp: stuck_def out_ok_def flag_simps stream_wf_def bufmem_def)
    ultimately show False using IH ne by blast
  qed
  with assms show False by (simp add: stuck_def)
qed

end

end
