(* ===== verification/Smap_Stream_In.thy ===== *)
theory Smap_Stream_In
  imports Smap_Stream
begin

text \<open>
  The input side of the stream layer: what a stream delivers, relative to the
  device behind its \<open>read\<close> method.

  The locale \<open>line_device\<close> is the interface of a device that delivers one line
  per call and asks for more space when the caller's array is too short (the
  convention of \<open>STR_MORESPC\<close> and \<open>ERANGE\<close>); its lemmas are about a fully
  buffered stream over it.  The locale \<open>byte_device\<close> is the interface of a
  device that is read one byte at a time; its lemmas are about reading lines
  from an unbuffered stream over it.
\<close>

section \<open>A buffered stream over a device of lines\<close>

definition in_ok :: "'d smap_stream \<Rightarrow> bool" where
  "in_ok s \<longleftrightarrow> stream_wf s \<and> str_buftype s = smap_buffer_full
     \<and> has_flag s SMAP_STREAM_READ \<and> \<not> has_flag s STR_ERR \<and> \<not> has_flag s STR_EOF"

lemma in_okD:
  assumes "in_ok s"
  shows "stream_wf s" "str_buftype s = smap_buffer_full" "has_flag s SMAP_STREAM_READ"
    "\<not> has_flag s STR_ERR" "\<not> has_flag s STR_EOF" "str_buftype s \<noteq> smap_buffer_none"
  using assms by (auto simp: in_ok_def)

lemmas in_flags = hasfl_setfl hasfl_clrfl hasfl_0 hasfl_numeral

lemma clr_MORESPC [simp]:
  "hasfl (clrfl f STR_MORESPC) SMAP_STREAM_READ = hasfl f SMAP_STREAM_READ"
  "hasfl (clrfl f STR_MORESPC) STR_ERR = hasfl f STR_ERR"
  "hasfl (clrfl f STR_MORESPC) STR_EOF = hasfl f STR_EOF"
  "\<not> hasfl (clrfl f STR_MORESPC) STR_MORESPC"
  by (simp_all add: in_flags)

locale line_device =
  fixes ops :: "'d stream_ops"
    and rd :: "'d \<Rightarrow> flagword \<Rightarrow> nat \<Rightarrow> ('d \<times> flagword \<times> errno \<times> string \<times> nat) option"
    and pending :: "'d \<Rightarrow> string list \<Rightarrow> bool"
  assumes op_read_rd: "op_read ops = Some rd"
    and rd_line: "pending d (t # ts) \<Longrightarrow> length t < sz \<Longrightarrow>
      \<exists>d'. rd d fl sz = Some (d', fl, E0, t @ [NL], length t + 1) \<and> pending d' ts"
    and rd_more: "pending d (t # ts) \<Longrightarrow> sz \<le> length t \<Longrightarrow>
      \<exists>d'. rd d fl sz = Some (d', setfl fl STR_MORESPC, ERANGE, [], length t + 1) \<and> pending d' (t # ts)"
    and rd_end: "pending d [] \<Longrightarrow> 0 < sz \<Longrightarrow>
      \<exists>d'. rd d fl sz = Some (d', fl, E0, [], 0) \<and> pending d' []"
    and alloc_ok: "op_alloc ops n"
begin

text \<open>The loop of the fill, in one pass if the line fits.\<close>

lemma fill_loop_line:
  assumes "in_ok s" "str_level s = 0" "pending (str_dev s) (t # ts)" "length t < str_bufsize s"
  shows "\<exists>s'. stream_fill_full_loop ops s = Some (s', E0) \<and> in_ok (s'\<lparr>str_cur := 0\<rparr>)
    \<and> pending (str_dev s') ts \<and> window (s'\<lparr>str_cur := 0\<rparr>) = t @ [NL]"
proof -
  note wf = stream_wfD [OF in_okD(1,6) [OF assms(1)]]
  let ?s = "clr_flag STR_MORESPC s"
  from rd_line [OF assms(3,4)] obtain d' where
    r: "rd (str_dev s) (str_flags ?s) (str_bufsize s) = Some (d', str_flags ?s, E0, t @ [NL], length t + 1)"
    and p: "pending d' ts" by blast
  define s1 where "s1 = ?s\<lparr>str_dev := d', str_bytes_in := str_bytes_in ?s + int (length t + 1),
    str_last_err := E0, str_offset := str_offset ?s + int (length t + 1)\<rparr>"
  have rd1: "smap_stream_read_unbuffered ops ?s (str_bufsize s) False
      = Some (s1, E0, t @ [NL], Some (length t + 1))"
    using assms(1) r wf(2)
    by (simp add: smap_stream_read_unbuffered_def op_read_rd in_ok_def s1_def)
  have s1: "bufmem s1 = bufmem s" "str_level s1 = 0" "str_buftype s1 = smap_buffer_full"
    "str_flags s1 = str_flags ?s" "str_dev s1 = d'" "str_bufsize s1 = str_bufsize s"
    "str_buffer s1 \<noteq> None"
    using assms(1,2) wf(5) by (simp_all add: s1_def bufmem_def in_ok_def)
  obtain s2 where s2: "buf_store s1 0 (t @ [NL]) = Some s2"
    using buf_store_ok [of 0 "t @ [NL]" s1] s1 wf(1) assms(4) by auto
  note f = buf_store_fields [OF s2]
  have win: "take (length t + 1) (bufmem s2) = t @ [NL]"
    using buf_store_window [of s1 0 0 "t @ [NL]" s2] s2 by simp
  have "stream_fill_full_loop ops s = Some (s2\<lparr>str_level := length t + 1\<rparr>, E0)"
    using rd1 s2 f s1 assms(2) by (subst stream_fill_full_loop.simps) simp
  moreover have "in_ok (s2\<lparr>str_level := length t + 1, str_cur := 0\<rparr>)"
    using in_okD [OF assms(1)] f s1 wf assms(4) by (simp add: in_ok_def stream_wf_def bufmem_def)
  ultimately show ?thesis
    using win f s1 p by (simp add: window_def bufmem_def)
qed

text \<open>A line that does not fit makes the buffer grow to its size.\<close>

lemma fill_loop_more:
  assumes "in_ok s" "str_level s = 0" "pending (str_dev s) (t # ts)" "str_bufsize s \<le> length t"
    and "length t < SIZE_MAX"
  shows "\<exists>s'. stream_fill_full_loop ops s = stream_fill_full_loop ops s' \<and> in_ok s'
    \<and> str_level s' = 0 \<and> pending (str_dev s') (t # ts) \<and> str_bufsize s' = length t + 1"
proof -
  note wf = stream_wfD [OF in_okD(1,6) [OF assms(1)]]
  let ?s = "clr_flag STR_MORESPC s"
  from rd_more [OF assms(3,4)] obtain d' where
    r: "rd (str_dev s) (str_flags ?s) (str_bufsize s)
        = Some (d', setfl (str_flags ?s) STR_MORESPC, ERANGE, [], length t + 1)"
    and p: "pending d' (t # ts)" by blast
  define f1 where "f1 = setfl (setfl (str_flags ?s) STR_MORESPC) STR_ERR"
  define s1 where "s1 = ?s\<lparr>str_dev := d', str_flags := f1, str_last_err := ERANGE,
    str_offset := str_offset ?s + int (length t + 1)\<rparr>"
  have rd1: "smap_stream_read_unbuffered ops ?s (str_bufsize s) False = Some (s1, ERANGE, [], Some (length t + 1))"
    using assms(1) r wf(2)
    by (simp add: smap_stream_read_unbuffered_def op_read_rd in_ok_def s1_def stream_seterror_def
        set_flag_def f1_def)
  define s2 where "s2 = smap_stream_clearerr s1"
  define s3 where "s3 = s2\<lparr>str_buffer := Some (bufmem s @ replicate (length t + 1 - str_bufsize s) (CHR 0x00)),
     str_bufsize := length t + 1\<rparr>"
  have st: "buf_store s1 (str_level s1) [] = Some s1"
    using assms(2) by (simp add: buf_store_def memcpy_at_def s1_def)
  have "stream_realloc_buffer ops s2 (length t + 1) = (s3, E0)"
    using assms(4,5) wf(1) alloc_ok
    by (simp add: stream_realloc_buffer_def s2_def s1_def s3_def smap_stream_clearerr_def bufmem_def)
  moreover have "has_flag s1 STR_MORESPC" by (simp add: s1_def f1_def in_flags)
  ultimately have "stream_fill_full_loop ops s = stream_fill_full_loop ops s3"
    using rd1 st assms(2) by (subst stream_fill_full_loop.simps) (simp add: s2_def [symmetric])
  moreover have "in_ok s3"
    using in_okD [OF assms(1)] wf assms(2,4,5)
    by (simp add: in_ok_def stream_wf_def s3_def s2_def s1_def f1_def smap_stream_clearerr_def bufmem_def in_flags)
  ultimately show ?thesis
    using assms(2) p by (intro exI [of _ s3]) (simp add: s3_def s2_def s1_def smap_stream_clearerr_def)
qed

text \<open>A fill brings one whole line into the buffer, however long it is.\<close>

lemma fill_line:
  assumes "in_ok s" "pending (str_dev s) (t # ts)" "length t < SIZE_MAX"
  shows "\<exists>s'. stream_fill_buffer ops s = Some (s', E0) \<and> in_ok s' \<and> pending (str_dev s') ts
    \<and> window s' = t @ [NL]"
proof -
  define s0 where "s0 = s\<lparr>str_level := 0\<rparr>"
  have s0: "in_ok s0" "str_level s0 = 0" "pending (str_dev s0) (t # ts)"
    using assms by (auto simp: s0_def in_ok_def stream_wf_def bufmem_def)
  obtain s1 where s1: "stream_fill_full_loop ops s0 = stream_fill_full_loop ops s1" "in_ok s1"
    "str_level s1 = 0" "pending (str_dev s1) (t # ts)" "length t < str_bufsize s1"
  proof (cases "length t < str_bufsize s0")
    case True
    with s0 show ?thesis by (intro that [of s0]) simp_all
  next
    case False
    with fill_loop_more [OF s0] assms(3) obtain s1 where
      "stream_fill_full_loop ops s0 = stream_fill_full_loop ops s1" "in_ok s1"
      "str_level s1 = 0" "pending (str_dev s1) (t # ts)" "str_bufsize s1 = length t + 1" by auto
    then show ?thesis by (intro that [of s1]) simp_all
  qed
  from fill_loop_line [OF s1(2-5)] s1(1) in_okD(2) [OF assms(1)] show ?thesis
    by (auto simp: stream_fill_buffer_def stream_fill_full_buffered_def s0_def [symmetric])
qed

text \<open>At the end of the input a fill leaves the buffer empty.\<close>

lemma fill_end:
  assumes "in_ok s" "pending (str_dev s) []"
  shows "\<exists>s'. stream_fill_buffer ops s = Some (s', E0) \<and> str_level s' = 0 \<and> smap_stream_eof s'"
proof -
  note wf = stream_wfD [OF in_okD(1,6) [OF assms(1)]]
  let ?s = "clr_flag STR_MORESPC (s\<lparr>str_level := 0\<rparr>)"
  from rd_end [OF assms(2) wf(2)] obtain d' where
    r: "rd (str_dev s) (str_flags ?s) (str_bufsize s) = Some (d', str_flags ?s, E0, [], 0)" by blast
  then show ?thesis
    using in_okD [OF assms(1)] wf(2)
    by (simp add: stream_fill_buffer_def stream_fill_full_buffered_def stream_fill_full_loop.simps
        smap_stream_read_unbuffered_def op_read_rd buf_store_def memcpy_at_def smap_stream_eof_def in_flags)
qed

text \<open>The bytes a stream over the device is going to deliver.\<close>

definition content :: "'d smap_stream \<Rightarrow> string \<Rightarrow> bool" where
  "content s bs \<longleftrightarrow> in_ok s \<and> (\<exists>ts. pending (str_dev s) ts \<and> (\<forall>t \<in> set ts. length t < SIZE_MAX)
     \<and> bs = window s @ concat (map (\<lambda>t. t @ [NL]) ts))"

lemma read_byte:
  assumes "content s (c # cs)"
  shows "\<exists>s'. smap_stream_read ops s 1 True = Some (s', E0, [c], Some 1) \<and> content s' cs"
proof -
  from assms obtain ts where ok: "in_ok s" and p: "pending (str_dev s) ts"
    and sm: "\<forall>t \<in> set ts. length t < SIZE_MAX"
    and bs: "c # cs = window s @ concat (map (\<lambda>t. t @ [NL]) ts)" by (auto simp: content_def)
  obtain s1 ts' where f: "(if str_level s = 0 then stream_fill_buffer ops s else Some (s, E0)) = Some (s1, E0)"
    and ok1: "in_ok s1" and p1: "pending (str_dev s1) ts'" and sm1: "\<forall>t \<in> set ts'. length t < SIZE_MAX"
    and bs1: "c # cs = window s1 @ concat (map (\<lambda>t. t @ [NL]) ts')" and ne: "window s1 \<noteq> []"
  proof (cases "str_level s = 0")
    case True
    with bs obtain t ts' where ts: "ts = t # ts'" by (cases ts) auto
    with fill_line [OF ok, of t ts'] p sm True bs that show ?thesis by auto
  next
    case False
    with stream_wfD(4) [OF in_okD(1,6) [OF ok]] have "window s \<noteq> []" by auto
    with False ok p sm bs that show ?thesis by auto
  qed
  have len: "length (window s1) = str_level s1" using stream_wfD(4) [OF in_okD(1,6) [OF ok1]] .
  obtain w where w: "window s1 = c # w" and cs: "cs = w @ concat (map (\<lambda>t. t @ [NL]) ts')"
    using ne bs1 by (cases "window s1") auto
  define s2 where "s2 = stream_advance_buffer s1 1"
  have lv: "1 \<le> str_level s1" using len w by simp
  have "stream_read_loop ops s 1 [] = Some (s2, E0, [c])"
    using f lv w in_okD(2) [OF ok1]
    by (subst stream_read_loop.simps) (simp add: Let_def stream_read_loop.simps s2_def)
  moreover have "window s2 = w" using window_advance [of 1 s1] lv w by (simp add: s2_def)
  moreover have "in_ok s2"
    using ok1 lv stream_wf_cong [of s1 s2] by (auto simp: in_ok_def s2_def)
  ultimately show ?thesis
    using ok cs p1 sm1 by (auto simp: smap_stream_read_def content_def in_ok_def s2_def)
qed

lemma read_byte_end:
  assumes "content s []"
  shows "\<exists>s'. smap_stream_read ops s 1 True = Some (s', E0, [], Some 0) \<and> smap_stream_eof s'"
proof -
  from assms obtain ts where ok: "in_ok s" and p: "pending (str_dev s) ts" and w: "window s = []"
    and "concat (map (\<lambda>t. t @ [NL]) ts) = []" by (auto simp: content_def)
  then have "ts = []" by (cases ts) auto
  with fill_end [OF ok] p obtain s1 where "stream_fill_buffer ops s = Some (s1, E0)" "str_level s1 = 0"
    "smap_stream_eof s1" by auto
  moreover have "str_level s = 0" using stream_wfD(4) [OF in_okD(1,6) [OF ok]] w by simp
  ultimately show ?thesis
    using in_okD(6) [OF ok] by (simp add: smap_stream_read_def stream_read_loop.simps)
qed

end

section \<open>Lines from an unbuffered stream\<close>

definition in_plain :: "'d smap_stream \<Rightarrow> bool" where
  "in_plain s \<longleftrightarrow> str_buftype s = smap_buffer_none \<and> has_flag s SMAP_STREAM_READ
     \<and> \<not> has_flag s STR_ERR \<and> \<not> has_flag s STR_EOF"

locale byte_device =
  fixes ops :: "'d stream_ops"
    and rd :: "'d \<Rightarrow> flagword \<Rightarrow> nat \<Rightarrow> ('d \<times> flagword \<times> errno \<times> string \<times> nat) option"
    and holds :: "'d \<Rightarrow> string \<Rightarrow> bool"
    and other :: "'d \<Rightarrow> 'o"
  assumes op_read_rd: "op_read ops = Some rd"
    and op_readdelim: "op_readdelim ops = None"
    and rd_byte: "holds d (c # cs) \<Longrightarrow> \<exists>d'. rd d fl 1 = Some (d', fl, E0, [c], 1) \<and> holds d' cs"
    and rd_end: "holds d [] \<Longrightarrow> \<exists>d'. rd d fl 1 = Some (d', fl, E0, [], 0)"
    and rd_other: "rd d fl sz = Some (d', fl', rc, bs, n) \<Longrightarrow> other d' = other d"
    and alloc_ok: "op_alloc ops n"
begin

text \<open>What reading leaves alone: the flags, and the part of the device that has
  nothing to do with input.\<close>

definition same_rest :: "'d smap_stream \<Rightarrow> 'd smap_stream \<Rightarrow> bool" where
  "same_rest s s' \<longleftrightarrow> str_flags s' = str_flags s \<and> other (str_dev s') = other (str_dev s)"

lemma same_rest_trans: "same_rest s s' \<Longrightarrow> same_rest s' s'' \<Longrightarrow> same_rest s s''"
  by (simp add: same_rest_def)

lemma read_one:
  assumes "in_plain s" "holds (str_dev s) (c # cs)"
  shows "\<exists>s'. smap_stream_read ops s 1 True = Some (s', E0, [c], Some 1) \<and> in_plain s'
    \<and> holds (str_dev s') cs \<and> same_rest s s'"
  using assms rd_byte [of "str_dev s" c cs "str_flags s"]
  by (auto simp: same_rest_def rd_other in_plain_def smap_stream_read_def smap_stream_read_unbuffered_def op_read_rd)

lemma grow_ok:
  assumes "length line < n" "length line < 2 ^ 61"
  shows "\<exists>n'. getdelim_grow ops (length line) n = (E0, n') \<and> length line + 1 < n'"
  using assms alloc_ok by (auto simp: getdelim_grow_def Let_def SIZE_MAX_def min_def)

lemma getdelim_loop_line:
  assumes "in_plain s" "holds (str_dev s) (t @ NL # rest)" "NL \<notin> set t"
    and "length line < n" "length line + length t < 2 ^ 61"
  shows "\<exists>s' n'. getdelim_loop ops s line n NL = Some (s', E0, line @ t @ [NL], n') \<and> in_plain s'
    \<and> holds (str_dev s') rest \<and> same_rest s s' \<and> length line + length t + 1 < n'"
  using assms
proof (induction t arbitrary: s line n)
  case Nil
  from grow_ok [OF Nil.prems(4)] Nil.prems(5) obtain n' where
    "getdelim_grow ops (length line) n = (E0, n')" "length line + 1 < n'" by auto
  moreover from read_one [OF Nil.prems(1)] Nil.prems(2) obtain s' where
    "smap_stream_read ops s 1 True = Some (s', E0, [NL], Some 1)" "in_plain s'" "holds (str_dev s') rest" "same_rest s s'" by auto
  ultimately show ?case
    using Nil.prems(1) by (subst getdelim_loop.simps) (simp add: getdelim_read_def op_readdelim in_plain_def)
next
  case (Cons c t)
  from grow_ok [OF Cons.prems(4)] Cons.prems(5) obtain n' where
    g: "getdelim_grow ops (length line) n = (E0, n')" "length line + 1 < n'" by auto
  from read_one [OF Cons.prems(1)] Cons.prems(2) obtain s' where
    r: "smap_stream_read ops s 1 True = Some (s', E0, [c], Some 1)" "in_plain s'"
       "holds (str_dev s') (t @ NL # rest)" "same_rest s s'" by auto
  from Cons.IH [OF r(2,3), of "line @ [c]" n'] g Cons.prems(3,5)
  obtain s'' n'' where ih: "getdelim_loop ops s' (line @ [c]) n' NL = Some (s'', E0, line @ c # t @ [NL], n'')"
    "in_plain s''" "holds (str_dev s'') rest" "same_rest s' s''" "length line + length (c # t) + 1 < n''" by auto
  moreover have "c \<noteq> NL" using Cons.prems(3) by auto
  ultimately show ?case
    using g r(1,4) Cons.prems(1) same_rest_trans [of s s' s''] by (subst getdelim_loop.simps) (simp add: getdelim_read_def op_readdelim in_plain_def)
qed

text \<open>A line is delivered whole, whatever the size of the caller's array; at the
  end of the input the line is empty.\<close>

lemma getline_line:
  assumes "in_plain s" "holds (str_dev s) (t @ NL # rest)" "NL \<notin> set t" "length t < 2 ^ 61"
  shows "\<exists>s' n'. smap_stream_getline ops s psize = Some (s', E0, t @ [NL], n') \<and> in_plain s'
    \<and> holds (str_dev s') rest \<and> same_rest s s' \<and> length t + 1 < n'"
  using getdelim_loop_line [OF assms(1-3), of "[]"] assms(4) alloc_ok
  by (simp add: smap_stream_getline_def smap_stream_getdelim_def)

lemma getline_end:
  assumes "in_plain s" "holds (str_dev s) []"
  shows "\<exists>s' n'. smap_stream_getline ops s psize = Some (s', E0, [], n') \<and> other (str_dev s') = other (str_dev s)"
proof -
  have "\<exists>s' n'. getdelim_loop ops s [] n NL = Some (s', E0, [], n') \<and> other (str_dev s') = other (str_dev s)" if "0 < n" for n
    using rd_end [OF assms(2), of "str_flags s"] grow_ok [of "[]" n] that assms(1)
    by (subst getdelim_loop.simps)
       (auto simp: getdelim_read_def op_readdelim in_plain_def smap_stream_read_def
         smap_stream_read_unbuffered_def op_read_rd rd_other)
  then show ?thesis
    using alloc_ok by (simp add: smap_stream_getline_def smap_stream_getdelim_def)
qed

end

end
