(* ===== verification/Smap_Sockmap_Laws.thy ===== *)
theory Smap_Sockmap_Laws
  imports Smap_Sockmap Smap_Stream_Out Smap_Stream_In
begin

text \<open>
  What the sockmap streams guarantee.  The output stream is an output device
  for lines and the input stream a device of lines in the sense of the
  interfaces of the stream layer (the interpretations \<open>so\<close>, \<open>sor\<close> and \<open>si\<close>); the
  stream that joins them is a device of bytes (\<open>ss\<close>).  The round trip over a
  connection follows from the lemmas of the interfaces.
\<close>

section \<open>The decimal length\<close>

text \<open>The digits of a number, none for 0.\<close>

fun dec :: "nat \<Rightarrow> string" where
  "dec n = (if n = 0 then [] else dec (n div 10) @ [digit_char (n mod 10)])"

declare dec.simps [simp del] format_len_loop.simps [simp del]

lemma STRLEN_BOUND [simp]: "SIZE_T_STRLEN_BOUND = 20"
  by (simp add: SIZE_T_STRLEN_BOUND_def)

lemma digit_char_props:
  assumes "d < 10"
  shows "is_digit (digit_char d)" "(of_char (digit_char d) :: nat) - 48 = d"
    "digit_char d \<noteq> CHR '':''"
proof -
  have "(of_char (digit_char d) :: nat) = 48 + d"
    using assms by (simp add: digit_char_def)
  moreover have "(of_char (CHR '':'') :: nat) = 58" by simp
  ultimately show "is_digit (digit_char d)" "(of_char (digit_char d) :: nat) - 48 = d"
    "digit_char d \<noteq> CHR '':''"
    using assms by (auto simp: is_digit_def)
qed

lemma format_len_loop_dec:
  "arg < 10 ^ room \<Longrightarrow> format_len_loop room arg p = Some (dec arg @ p)"
proof (induction room arbitrary: arg p)
  case 0
  then show ?case by (simp add: format_len_loop.simps dec.simps)
next
  case (Suc room)
  have "arg div 10 < 10 ^ room" using Suc.prems by (simp add: less_mult_imp_div_less mult.commute)
  from Suc.IH [OF this] show ?case
    by (cases "arg = 0") (simp_all add: format_len_loop.simps [of "Suc room"] dec.simps [of arg] dec.simps [of 0])
qed

lemma format_len_dec: "arg < 10 ^ 19 \<Longrightarrow> format_len arg = Some (dec arg)"
  by (simp add: format_len_def format_len_loop_dec)

lemma length_dec: "n < 10 ^ k \<Longrightarrow> length (dec n) \<le> k"
proof (induction k arbitrary: n)
  case 0
  then show ?case by (simp add: dec.simps)
next
  case (Suc k)
  have "n div 10 < 10 ^ k" using Suc.prems by (simp add: less_mult_imp_div_less mult.commute)
  from Suc.IH [OF this] show ?case by (simp add: dec.simps [of n])
qed

lemma colon_notin_dec: "CHR '':'' \<notin> set (dec n)"
proof (induction n rule: dec.induct)
  case (1 n)
  then show ?case
    using digit_char_props(3) [of "n mod 10"] by (subst dec.simps) auto
qed

lemma parse_len_append:
  "parse_len a (xs @ ys) = (case parse_len a xs of None \<Rightarrow> None | Some b \<Rightarrow> parse_len b ys)"
  by (induction xs arbitrary: a) simp_all

lemma parse_len_dec: "n \<le> SIZE_MAX \<Longrightarrow> parse_len 0 (dec n) = Some n"
proof (induction n rule: dec.induct)
  case (1 n)
  show ?case
  proof (cases "n = 0")
    case False
    have "n div 10 \<le> SIZE_MAX" using 1(2) by (meson div_le_dividend le_trans)
    moreover have "n div 10 * 10 + n mod 10 = n" by simp
    ultimately show ?thesis
      using 1 False digit_char_props [of "n mod 10"]
      by (simp add: dec.simps [of n] parse_len_append)
  qed (simp add: dec.simps)
qed

lemma dec_Nil [simp]: "dec n = [] \<longleftrightarrow> n = 0"
  by (simp add: dec.simps [of n])

lemma dec_digits: "list_all is_digit (dec n)"
proof (induction n rule: dec.induct)
  case (1 n)
  with digit_char_props(1) [of "n mod 10"] show ?case by (subst dec.simps) simp
qed

lemma dec_first: "n \<noteq> 0 \<Longrightarrow> hd (dec n) \<noteq> CHR ''0''"
proof (induction n rule: dec.induct)
  case (1 n)
  show ?case
  proof (cases "n div 10 = 0")
    case True
    then have "n < 10" "hd (dec n) = digit_char n" using 1(2) by (simp_all add: dec.simps [of n] dec.simps [of 0])
    with digit_char_props(2) [of n] 1(2) show ?thesis by auto
  next
    case False
    with 1 show ?thesis by (simp add: dec.simps [of n] hd_append)
  qed
qed

section \<open>Packets\<close>

text \<open>The packet of a text.\<close>

definition frame :: "string \<Rightarrow> string" where
  "frame text = dec (length text) @ '':'' @ text @ '',''"

text \<open>The line a packet stands for: what lies between the first colon and the
  last byte.\<close>

definition unframe :: "string \<Rightarrow> string" where
  "unframe block = butlast (drop (case memchr (CHR '':'') block of None \<Rightarrow> 0 | Some i \<Rightarrow> Suc i) block) @ [NL]"

lemma unframe_frame [simp]: "unframe (frame text) = text @ [NL]"
  by (simp add: unframe_def frame_def colon_notin_dec)

section \<open>What the output stream puts on the wire\<close>

lemma format_len_loop_Some: "format_len_loop room arg p = Some q \<Longrightarrow> q = dec arg @ p"
proof (induction room arg p rule: format_len_loop.induct)
  case (1 room arg p)
  then show ?case
    by (subst (asm) (2) format_len_loop.simps) (auto simp: dec.simps [of arg] dec.simps [of 0] split: if_splits)
qed

lemma format_len_Some: "format_len arg = Some q \<Longrightarrow> q = dec arg"
  using format_len_loop_Some by (fastforce simp: format_len_def)

text \<open>The text of the packets, as lines.\<close>

definition wire_text :: "sockmap_output_stream \<Rightarrow> string" where
  "wire_text d = concat (map unframe (so_wire d))"

definition is_line :: "string \<Rightarrow> bool" where
  "is_line buf \<longleftrightarrow> buf \<noteq> [] \<and> last buf = NL \<and> NL \<notin> set (butlast buf)"

lemma is_line_iff: "is_line buf \<longleftrightarrow> (\<exists>t. buf = t @ [NL] \<and> NL \<notin> set t)"
  by (auto simp: is_line_def) (metis append_butlast_last_id)

text \<open>A failure of the socket that sets no error code is not told from success;
  the laws of the device are for sockets whose failures do set one.  The state
  in which nothing is going to fail, and only packets of lines have been sent.\<close>

fun wrev_code_ok :: "wrev \<Rightarrow> bool" where
  "wrev_code_ok WrAll = True"
| "wrev_code_ok (WrShort k e) = (e \<noteq> E0)"
| "wrev_code_ok (WrFail e) = (e \<noteq> E0)"

definition so_sound :: "sockmap_output_stream \<Rightarrow> bool" where
  "so_sound d \<longleftrightarrow> list_all wrev_code_ok (so_events d)"

definition so_clean :: "sockmap_output_stream \<Rightarrow> bool" where
  "so_clean d \<longleftrightarrow> so_events d = []
     \<and> list_all (\<lambda>b. \<exists>t. b = frame t \<and> NL \<notin> set t) (so_wire d)"

lemma output_write_line:
  assumes "sockmap_output_stream_write alloc junk d (t @ [NL]) = Some (d', E0, n)" "so_sound d"
  shows "n = length t + 1" "so_wire d' = so_wire d @ [frame t]" "so_sound d'"
  using assms
  by (auto simp: sockmap_output_stream_write_def sock_write_def so_sound_def bind_eq_Some_conv Let_def
      frame_def dest!: format_len_Some split: if_splits list.splits wrev.splits)

lemma output_write_ok:
  assumes "so_events d = []" "\<And>n. alloc n" "length t < 10 ^ 19"
  shows "\<exists>d'. sockmap_output_stream_write alloc junk d (t @ [NL]) = Some (d', E0, length t + 1)
    \<and> so_wire d' = so_wire d @ [frame t] \<and> so_events d' = []"
  using assms
  by (auto simp: sockmap_output_stream_write_def sock_write_def format_len_dec Let_def frame_def)

lemma sockmap_out_ops_write: "op_write (sockmap_out_ops alloc junk) = Some (sockmap_output_stream_write alloc junk)"
  by (simp add: sockmap_out_ops_def)

interpretation so: out_device "sockmap_out_ops alloc junk" "sockmap_output_stream_write alloc junk"
    wire_text is_line so_sound
proof
  show "op_write (sockmap_out_ops alloc junk) = Some (sockmap_output_stream_write alloc junk)"
    by (rule sockmap_out_ops_write)
  fix d buf d' n
  assume w: "sockmap_output_stream_write alloc junk d buf = Some (d', E0, n)"
    and "is_line buf" and s: "so_sound d"
  then obtain t where t: "buf = t @ [NL]" by (auto simp: is_line_iff)
  from output_write_line [OF w [unfolded t] s]
  show "n \<le> length buf \<and> wire_text d' = wire_text d @ take n buf
      \<and> (n < length buf \<longrightarrow> is_line (drop n buf)) \<and> so_sound d'"
    by (simp add: t wire_text_def)
qed (auto simp: is_line_iff)

text \<open>With memory to spare, a socket that does not fail takes every line of less
  than ten to the nineteenth bytes.\<close>

interpretation sor: reliable_device "sockmap_out_ops (\<lambda>_. True) junk"
    "sockmap_output_stream_write (\<lambda>_. True) junk" wire_text is_line so_sound so_clean "10 ^ 19"
proof
  fix d buf
  assume "so_clean d" "is_line buf" "length buf \<le> 10 ^ 19"
  then obtain t where t: "buf = t @ [NL]" "NL \<notin> set t" "length t < 10 ^ 19" by (auto simp: is_line_iff)
  with output_write_ok [of d "\<lambda>_. True" t junk] \<open>so_clean d\<close>
  show "\<exists>d' n. sockmap_output_stream_write (\<lambda>_. True) junk d buf = Some (d', E0, n) \<and> 0 < n \<and> so_clean d'"
    by (auto simp: so_clean_def)
qed (simp add: so_clean_def so_sound_def)

lemma lines_inj:
  assumes "concat (map (\<lambda>t. t @ [NL]) xs) @ u = concat (map (\<lambda>t. t @ [NL]) ys) @ v"
    and "\<forall>t \<in> set xs. NL \<notin> set t" "\<forall>t \<in> set ys. NL \<notin> set t" "NL \<notin> set u" "NL \<notin> set v"
  shows "xs = ys \<and> u = v"
  using assms
proof (induction xs arbitrary: ys)
  case Nil
  then show ?case by (cases ys) auto
next
  case (Cons x xs)
  have "NL \<in> set (concat (map (\<lambda>t. t @ [NL]) ys) @ v)" unfolding Cons.prems(1) [symmetric] by simp
  with Cons.prems(5) obtain y ys' where ys: "ys = y # ys'" by (cases ys) auto
  with Cons.prems have eq: "x @ NL # (concat (map (\<lambda>t. t @ [NL]) xs) @ u)
      = y @ NL # (concat (map (\<lambda>t. t @ [NL]) ys') @ v)"
    and n: "NL \<notin> set x" "NL \<notin> set y" by auto
  from arg_cong [OF eq, of "memchr NL"] n have "length x = length y" by simp
  with eq have "x = y" by simp
  with eq Cons.IH [of ys'] Cons.prems(2-5) show ?case by (simp add: ys)
qed

text \<open>What has been sent determines the packets.\<close>

lemma clean_lines:
  assumes "so_clean d"
  obtains ts where "so_wire d = map frame ts" "\<forall>t \<in> set ts. NL \<notin> set t"
    "wire_text d = concat (map (\<lambda>t. t @ [NL]) ts)"
proof -
  have fr: "\<exists>ts. w = map frame ts \<and> (\<forall>t \<in> set ts. NL \<notin> set t)"
    if "list_all (\<lambda>b. \<exists>t. b = frame t \<and> NL \<notin> set t) w" for w
    using that
  proof (induction w)
    case (Cons a w)
    then obtain t ts where "a # w = map frame (t # ts)" "\<forall>t \<in> set (t # ts). NL \<notin> set t" by auto
    then show ?case by (intro exI [of _ "t # ts"]) simp
  qed simp
  from fr [of "so_wire d"] assms obtain ts where "so_wire d = map frame ts" "\<forall>t \<in> set ts. NL \<notin> set t"
    by (auto simp: so_clean_def)
  then show thesis by (intro that [of ts]) (simp_all add: wire_text_def comp_def)
qed

lemma wire_of_text:
  assumes "so_clean d" "so_clean d'" "NL \<notin> set u" "NL \<notin> set v"
    and "wire_text d' @ u = wire_text d @ concat (map (\<lambda>t. t @ [NL]) ts) @ v" "\<forall>t \<in> set ts. NL \<notin> set t"
  shows "so_wire d' = so_wire d @ map frame ts \<and> u = v"
proof -
  from clean_lines [OF assms(1)] obtain xs where x: "so_wire d = map frame xs" "\<forall>t \<in> set xs. NL \<notin> set t"
    "wire_text d = concat (map (\<lambda>t. t @ [NL]) xs)" by blast
  from clean_lines [OF assms(2)] obtain ys where y: "so_wire d' = map frame ys" "\<forall>t \<in> set ys. NL \<notin> set t"
    "wire_text d' = concat (map (\<lambda>t. t @ [NL]) ys)" by blast
  have "ys = xs @ ts \<and> u = v"
    by (rule lines_inj) (use assms x y in auto)
  with x y show ?thesis by simp
qed

section \<open>What the input stream makes of a packet\<close>

text \<open>\<open>flows evs bs rest\<close>: the socket delivers the bytes \<open>bs\<close>, in blocks of any
  sizes, and then continues with \<open>rest\<close>.\<close>

inductive flows :: "sockev list \<Rightarrow> string \<Rightarrow> sockev list \<Rightarrow> bool" where
  flows_nil: "flows evs [] evs"
| flows_block: "bs \<noteq> [] \<Longrightarrow> flows evs bs' rest \<Longrightarrow> flows (SockData bs # evs) (bs @ bs') rest"

inductive_cases flows_NilE: "flows evs [] rest"

lemma flows_Nil_iff [simp]: "flows evs [] rest \<longleftrightarrow> evs = rest"
  by (auto intro: flows_nil elim: flows_NilE)

lemma flows_recv:
  assumes "flows evs bs rest" "bs \<noteq> []" "0 < k"
  shows "\<exists>evs' p q. sock_recv evs k = (evs', RecvData p) \<and> p \<noteq> [] \<and> length p \<le> k
    \<and> bs = p @ q \<and> flows evs' q rest"
  using assms
proof (cases rule: flows.cases)
  case (flows_block b evs' bs')
  show ?thesis
  proof (cases "length b \<le> k")
    case True
    with flows_block show ?thesis by auto
  next
    case False
    then have "flows (SockData (drop k b) # evs') (drop k b @ bs') rest"
      using flows.flows_block [of "drop k b" evs' bs' rest] flows_block(4) by simp
    moreover have "bs = take k b @ (drop k b @ bs')" using flows_block(2) by simp
    ultimately show ?thesis using False flows_block(1,3) assms(3)
      by (intro exI [of _ "SockData (drop k b) # evs'"] exI [of _ "take k b"] exI [of _ "drop k b @ bs'"]) auto
  qed
qed simp

text \<open>The bytes after the part of the packet that was read with its length.\<close>

lemma frame_prefix:
  assumes "nbuf @ q = frame t" "CHR '':'' \<notin> set nbuf"
  shows "length nbuf \<le> length (dec (length t))"
proof (rule ccontr)
  assume "\<not> ?thesis"
  then have l: "length (dec (length t)) < length nbuf" by simp
  from assms(1) have "(nbuf @ q) ! length (dec (length t)) = CHR '':''"
    by (simp add: frame_def nth_append)
  with l have "nbuf ! length (dec (length t)) = CHR '':''" by (simp add: nth_append)
  with l assms(2) show False by (metis nth_mem)
qed

lemma memchr_frame_prefix:
  assumes "nbuf @ q = frame t" "CHR '':'' \<in> set nbuf"
  shows "memchr (CHR '':'') nbuf = Some (length (dec (length t)))"
    "nbuf = dec (length t) @ '':'' @ drop (length (dec (length t)) + 1) nbuf"
proof -
  from split_list_first [OF assms(2)] obtain a b where n: "nbuf = a @ CHR '':'' # b" "CHR '':'' \<notin> set a"
    by blast
  from assms(1) have eq: "a @ CHR '':'' # (b @ q) = dec (length t) @ CHR '':'' # (t @ '','')"
    by (simp add: n frame_def)
  from arg_cong [OF eq, of "memchr (CHR '':'')"] n colon_notin_dec
  have "length a = length (dec (length t))" by simp
  with eq have "a = dec (length t)" by simp
  with n show "memchr (CHR '':'') nbuf = Some (length (dec (length t)))"
    "nbuf = dec (length t) @ '':'' @ drop (length (dec (length t)) + 1) nbuf" by simp_all
qed

text \<open>The state in which the length of the packet has been read.\<close>

definition has_length :: "sockmap_input_stream \<Rightarrow> string \<Rightarrow> sockev list \<Rightarrow> bool" where
  "has_length sp t rest \<longleftrightarrow>
     si_nlen sp = length (si_nbuf sp) \<and> si_cp sp = length (dec (length t)) \<and> si_reqsz sp = length t
     \<and> CHR '':'' \<in> set (si_nbuf sp)
     \<and> (\<exists>q. si_nbuf sp @ q = frame t \<and> flows (si_sock sp) q rest)"

lemma read_payload_length_loop_ok:
  assumes "flows (si_sock sp) q rest" "nbuf @ q = frame t" "CHR '':'' \<notin> set nbuf" "length t < 10 ^ 19"
  shows "\<exists>sp'. read_payload_length_loop sp nbuf = Some (sp', RplOk)
    \<and> has_length (sp'\<lparr>si_reqsz := length t\<rparr>) t rest"
  using assms
proof (induction "length q" arbitrary: sp q nbuf rule: less_induct)
  case less
  have "CHR '':'' \<in> set (nbuf @ q)" unfolding less.prems(2) by (simp add: frame_def)
  with less.prems(3) have q: "q \<noteq> []" by auto
  have room: "length nbuf < 20"
    using frame_prefix [OF less.prems(2,3)] length_dec [OF less.prems(4)] by simp
  then obtain evs' p r where rc: "sock_recv (si_sock sp) (20 - length nbuf) = (evs', RecvData p)"
    and p: "p \<noteq> []" "q = p @ r" "flows evs' r rest"
    using flows_recv [OF less.prems(1) q, of "20 - length nbuf"] by auto
  have eq: "(nbuf @ p) @ r = frame t" using p less.prems(2) by simp
  show ?case
  proof (cases "CHR '':'' \<in> set (nbuf @ p)")
    case True
    with memchr_frame_prefix(1) [OF eq True] rc room p(1,3) eq show ?thesis
      by (subst read_payload_length_loop.simps) (auto simp: has_length_def)
  next
    case False
    then have "memchr (CHR '':'') (nbuf @ p) = None" by (simp only: memchr_None not_False_eq_True)
    with less.hyps [of r "sp\<lparr>si_sock := evs'\<rparr>" "nbuf @ p"] p eq rc room less.prems(4) False show ?thesis
      by (subst read_payload_length_loop.simps) (simp add: Let_def)
  qed
qed

lemma recv_loop_ok:
  assumes "flows evs q rest" "length acc + length q \<le> sz"
  shows "recv_loop evs sz acc (length q) = Some (rest, E0, acc @ q)"
  using assms
proof (induction "length q" arbitrary: evs q acc rule: less_induct)
  case less
  show ?case
  proof (cases "q = []")
    case True
    with less.prems show ?thesis by (subst recv_loop.simps) simp
  next
    case False
    then obtain evs' p r where
      rc: "sock_recv evs (length q) = (evs', RecvData p)" and p: "p \<noteq> []" "q = p @ r" "flows evs' r rest"
      using flows_recv [OF less.prems(1) False, of "length q"] by blast
    from less.hyps [of r evs' "acc @ p"] p less.prems(2) rc show ?thesis
      by (subst recv_loop.simps) auto
  qed
qed

lemma read_payload_ok:
  assumes "has_length sp t rest" "length t + 1 \<le> sz"
  shows "sockmap_read_payload junk sp fl sz =
    Some (sp\<lparr>si_sock := rest, si_nlen := 0, si_cp := 0, si_reqsz := 0\<rparr>, fl, E0, t @ [NL], length t + 1)"
proof -
  from assms(1) obtain q where q: "si_nbuf sp @ q = frame t" "flows (si_sock sp) q rest"
    and c: "CHR '':'' \<in> set (si_nbuf sp)" by (auto simp: has_length_def)
  define k where "k = length (dec (length t))"
  define rds where "rds = drop (k + 1) (si_nbuf sp)"
  from memchr_frame_prefix(2) [OF q(1) c] have nb: "si_nbuf sp = dec (length t) @ '':'' @ rds"
    by (simp add: rds_def k_def)
  with q(1) have rq: "rds @ q = t @ '',''" by (simp add: frame_def)
  from arg_cong [OF rq, of length] have len: "length rds + length q = length t + 1" by simp
  have sub: "size_sub (length t + 1) (length rds) = length q" using len by simp
  have "k < length (si_nbuf sp)" by (simp add: nb k_def)
  then show ?thesis
    using assms recv_loop_ok [OF q(2), of rds sz] len sub rq
    by (simp add: sockmap_read_payload_def has_length_def rds_def k_def Let_def)
qed

text \<open>A socket that carries the packets of the given texts, each packet in blocks
  of its own, and then the end of the input.\<close>

fun carries :: "string list \<Rightarrow> sockev list \<Rightarrow> bool" where
  "carries [] evs \<longleftrightarrow> evs = []"
| "carries (t # ts) evs \<longleftrightarrow> length t < 10 ^ 19 \<and> (\<exists>rest. flows evs (frame t) rest \<and> carries ts rest)"

definition si_pending :: "sockmap_input_stream \<Rightarrow> string list \<Rightarrow> bool" where
  "si_pending sp ts \<longleftrightarrow>
     (if si_nlen sp = 0 then carries ts (si_sock sp)
      else (case ts of
              [] \<Rightarrow> False
            | t # ts \<Rightarrow> length t < 10 ^ 19 \<and> (\<exists>rest. has_length sp t rest \<and> carries ts rest)))"

lemma has_length_pending:
  "has_length sp t rest \<Longrightarrow> length t < 10 ^ 19 \<Longrightarrow> carries ts rest \<Longrightarrow> si_pending sp (t # ts)"
  by (auto simp: si_pending_def has_length_def)

lemma input_read_payload:
  assumes "si_pending sp (t # ts)"
  shows "\<exists>sp' rest. sockmap_input_stream_read junk sp fl sz = sockmap_read_payload junk sp' fl sz
    \<and> has_length sp' t rest \<and> carries ts rest \<and> length t < 10 ^ 19"
proof (cases "si_nlen sp = 0")
  case True
  with assms obtain rest where r: "flows (si_sock sp) (frame t) rest" "carries ts rest" "length t < 10 ^ 19"
    by (auto simp: si_pending_def)
  from read_payload_length_loop_ok [of "sp\<lparr>si_cp := 0\<rparr>" "frame t" rest "[]" t] r obtain sp' where
    l: "read_payload_length sp = Some (sp', RplOk)" and h: "has_length (sp'\<lparr>si_reqsz := length t\<rparr>) t rest"
    by (auto simp: read_payload_length_def)
  from h obtain q where q: "si_nbuf sp' @ q = frame t" "CHR '':'' \<in> set (si_nbuf sp')"
    and cp: "si_cp sp' = length (dec (length t))" by (auto simp: has_length_def)
  from memchr_frame_prefix(2) [OF q] have "take (si_cp sp') (si_nbuf sp') = dec (length t)"
    by (metis append_eq_conv_conj cp)
  moreover have "length t \<le> SIZE_MAX" using r(3) by (simp add: SIZE_MAX_def)
  ultimately have "sockmap_input_stream_read junk sp fl sz
      = sockmap_read_payload junk (sp'\<lparr>si_reqsz := length t\<rparr>) fl sz"
    using True l by (simp add: sockmap_input_stream_read_def parse_len_dec)
  with h r show ?thesis by blast
next
  case False
  with assms show ?thesis by (auto simp: si_pending_def sockmap_input_stream_read_def)
qed

lemma input_read_line:
  assumes "si_pending sp (t # ts)" "length t < sz"
  shows "\<exists>sp'. sockmap_input_stream_read junk sp fl sz = Some (sp', fl, E0, t @ [NL], length t + 1)
    \<and> si_pending sp' ts"
proof -
  from input_read_payload [OF assms(1)] obtain sp1 rest where
    r: "sockmap_input_stream_read junk sp fl sz = sockmap_read_payload junk sp1 fl sz"
    and h: "has_length sp1 t rest" "carries ts rest" by blast
  from read_payload_ok [OF h(1)] assms(2) r h(2) show ?thesis by (simp add: si_pending_def)
qed

lemma input_read_more:
  assumes "si_pending sp (t # ts)" "sz \<le> length t"
  shows "\<exists>sp'. sockmap_input_stream_read junk sp fl sz
      = Some (sp', setfl fl STR_MORESPC, ERANGE, [], length t + 1) \<and> si_pending sp' (t # ts)"
proof -
  from input_read_payload [OF assms(1)] obtain sp1 rest where
    r: "sockmap_input_stream_read junk sp fl sz = sockmap_read_payload junk sp1 fl sz"
    and h: "has_length sp1 t rest" "carries ts rest" "length t < 10 ^ 19" by blast
  then show ?thesis
    using has_length_pending [OF h(1,3,2)] assms(2)
    by (simp add: sockmap_read_payload_def has_length_def)
qed

lemma input_read_end:
  assumes "si_pending sp []"
  shows "\<exists>sp'. sockmap_input_stream_read junk sp fl sz = Some (sp', fl, E0, [], 0) \<and> si_pending sp' []"
  using assms
  by (auto simp: si_pending_def sockmap_input_stream_read_def read_payload_length_def
      read_payload_length_loop.simps split: if_splits)

interpretation si: line_device "sockmap_in_ops (\<lambda>_. True) junk" "sockmap_input_stream_read junk" si_pending
proof
  show "op_read (sockmap_in_ops (\<lambda>_. True) junk) = Some (sockmap_input_stream_read junk)"
    "op_alloc (sockmap_in_ops (\<lambda>_. True) junk) n" for n
    by (simp_all add: sockmap_in_ops_def no_ops_def)
qed (use input_read_line input_read_more input_read_end in blast)+

section \<open>Lines over the joined stream\<close>

definition ss_holds :: "sockmap_stream \<Rightarrow> string \<Rightarrow> bool" where
  "ss_holds d bs \<longleftrightarrow> si.content (ss_in d) bs"

interpretation ss: byte_device "sockmap_ops (\<lambda>_. True) junk" "sockmap_stream_read (\<lambda>_. True) junk" ss_holds ss_out
proof
  show "op_read (sockmap_ops (\<lambda>_. True) junk) = Some (sockmap_stream_read (\<lambda>_. True) junk)"
    "op_readdelim (sockmap_ops (\<lambda>_. True) junk) = None" "op_alloc (sockmap_ops (\<lambda>_. True) junk) n" for n
    by (simp_all add: sockmap_ops_def no_ops_def)
  fix d c cs fl
  show "\<exists>d'. sockmap_stream_read (\<lambda>_. True) junk d fl 1 = Some (d', fl, E0, [c], 1) \<and> ss_holds d' cs"
    if "ss_holds d (c # cs)"
    using si.read_byte [of "ss_in d" c cs junk] that by (auto simp: ss_holds_def sockmap_stream_read_def)
  show "\<exists>d'. sockmap_stream_read (\<lambda>_. True) junk d fl 1 = Some (d', fl, E0, [], 0)" if "ss_holds d []"
    using si.read_byte_end [of "ss_in d" junk] that by (auto simp: ss_holds_def sockmap_stream_read_def)
  show "ss_out d' = ss_out d" if "sockmap_stream_read (\<lambda>_. True) junk d fl sz = Some (d', fl', rc, bs, n)"
    for d d' fl' sz rc bs n
    using that by (auto simp: sockmap_stream_read_def bind_eq_Some_conv)
qed

text \<open>Reading a number of lines, one after the other.\<close>

fun getlines :: "nat \<Rightarrow> nat \<Rightarrow> sockmap_stream smap_stream \<Rightarrow> (sockmap_stream smap_stream \<times> string list) option" where
  "getlines junk 0 s = Some (s, [])"
| "getlines junk (Suc n) s = do {
     (s, rc, line, _) \<leftarrow> smap_stream_getline (sockmap_ops (\<lambda>_. True) junk) s 0;
     if rc \<noteq> E0 then None
     else do { (s, ls) \<leftarrow> getlines junk n s; Some (s, line # ls) }
   }"

lemma getlines_holds:
  assumes "in_plain s" "ss_holds (str_dev s) (concat (map (\<lambda>t. t @ [NL]) ts) @ rest)"
    "\<forall>t \<in> set ts. NL \<notin> set t \<and> length t < 2 ^ 61"
  shows "\<exists>s'. getlines junk (length ts) s = Some (s', map (\<lambda>t. t @ [NL]) ts) \<and> in_plain s'
    \<and> ss_holds (str_dev s') rest"
  using assms
proof (induction ts arbitrary: s)
  case (Cons t ts)
  from ss.getline_line [OF Cons.prems(1), of t "concat (map (\<lambda>t. t @ [NL]) ts) @ rest" junk 0] Cons.prems(2,3)
  obtain s' n' where g: "smap_stream_getline (sockmap_ops (\<lambda>_. True) junk) s 0 = Some (s', E0, t @ [NL], n')"
    "in_plain s'" "ss_holds (str_dev s') (concat (map (\<lambda>t. t @ [NL]) ts) @ rest)" by auto
  from Cons.IH [OF g(2,3)] Cons.prems(3) g(1) show ?case by auto
qed simp

text \<open>The state of the stream that \<open>smap_sockmap_stream_create\<close> makes.\<close>

lemma sockmap_create2_in:
  assumes "smap_sockmap_stream_create2 (\<lambda>_. True) junk (True, True, True) fd fl ievs oevs crc = Some (E0, Some s)"
    and "carries ts ievs" "\<forall>t \<in> set ts. length t < SIZE_MAX"
  shows "ss_holds (str_dev s) (concat (map (\<lambda>t. t @ [NL]) ts))"
    "\<not> hasfl fl STR_ERR \<Longrightarrow> \<not> hasfl fl STR_EOF \<Longrightarrow> in_plain s"
proof -
  let ?i = "ss_in (str_dev s)"
  have i: "in_ok ?i" "si_pending (str_dev ?i) ts" "window ?i = []"
    using assms
    by (cases "fst fd = snd fd"; auto simp: smap_sockmap_stream_create2_def
        smap_sockmap_output_stream_create_def smap_sockmap_input_stream_create_def smap_stream_create_def
        smap_stream_ref_def smap_stream_set_buffer_def smap_stream_set_flags_def in_ok_def stream_wf_def
        bufmem_def SIZE_MAX_def si_pending_def sockmap_in_ops_def sockmap_out_ops_def no_ops_def in_flags
        bind_eq_Some_conv Let_def window_def)+
  with assms(3) show "ss_holds (str_dev s) (concat (map (\<lambda>t. t @ [NL]) ts))"
    by (auto simp: ss_holds_def si.content_def)
  have fl: "str_flags s = setfl 3 fl" "str_buftype s = smap_buffer_none"
    using assms(1)
    by (cases "fst fd = snd fd"; auto simp: smap_sockmap_stream_create2_def
        smap_sockmap_output_stream_create_def smap_sockmap_input_stream_create_def smap_stream_create_def
        smap_stream_ref_def smap_stream_set_buffer_def sockmap_in_ops_def sockmap_out_ops_def no_ops_def
        bind_eq_Some_conv Let_def setfl_def or.assoc [symmetric])+
  show "in_plain s" if "\<not> hasfl fl STR_ERR" "\<not> hasfl fl STR_EOF"
    using that by (simp add: in_plain_def fl in_flags)
qed

lemmas sockmap_create_in = sockmap_create2_in [where fd = "(fd, fd)" for fd, folded smap_sockmap_stream_create_def]

text \<open>The output stream with the beginning \<open>w\<close> of a line in its buffer.\<close>

definition out_partial :: "sockmap_output_stream smap_stream \<Rightarrow> string \<Rightarrow> bool" where
  "out_partial s w \<longleftrightarrow> out_ok so_sound s \<and> so_clean (str_dev s) \<and> str_buftype s = smap_buffer_line
     \<and> has_flag s SMAP_STREAM_EXPBUF \<and> \<not> has_flag s SMAP_STREAM_SEEK \<and> str_cur s = 0
     \<and> window s = w \<and> NL \<notin> set w"

lemma out_stream_write_part:
  assumes "out_partial s w" "NL \<notin> set (butlast b)" "length (w @ b) < 10 ^ 19"
  shows "\<exists>s'. smap_stream_write (sockmap_out_ops (\<lambda>_. True) junk) s b p = Some (s', E0, Some (length b))
      \<and> (if b \<noteq> [] \<and> last b = NL
         then out_partial s' [] \<and> so_wire (str_dev s') = so_wire (str_dev s) @ [frame (w @ butlast b)]
         else out_partial s' (w @ b) \<and> so_wire (str_dev s') = so_wire (str_dev s))"
proof -
  let ?ops = "sockmap_out_ops (\<lambda>_. True) junk"
  have b: "out_ok so_sound s" "so_clean (str_dev s)" "str_buftype s = smap_buffer_line"
     "has_flag s SMAP_STREAM_EXPBUF" "\<not> has_flag s SMAP_STREAM_SEEK" "str_cur s = 0" "window s = w" "NL \<notin> set w"
    using assms(1) by (auto simp: out_partial_def)
  have al: "\<forall>n. op_alloc ?ops n" by (simp add: sockmap_out_ops_def no_ops_def)
  have "NL \<notin> set (butlast (w @ b))" using assms(2) b(8) by (auto simp: butlast_append dest: in_set_butlastD)
  then have "\<exists>s' m. stream_write_loop ?ops s b 0 = Some (s', E0, m) \<and> str_cur s' = 0 \<and> so_clean (str_dev s')"
    using sor.write_loop_ok_expand [OF b(1,3,5,4) al b(6), of b 0] b(2,7) assms(3)
    by (simp add: SIZE_MAX_def)
  then obtain s' m where w: "stream_write_loop ?ops s b 0 = Some (s', E0, m)"
    and c: "str_cur s' = 0" "so_clean (str_dev s')" by blast
  from so.write_loop_conserves [OF w b(1,3) disjI1 [OF b(4)]]
  have tot: "wire_text (str_dev s') @ window s' = wire_text (str_dev s) @ w @ b"
    and ok: "out_ok so_sound s'" "out_frame s s'" "NL \<notin> set (window s')" "m = length b"
    by (auto simp: so.total_def b(7))
  have part: "out_partial s' (window s')"
    using ok c b out_frame_flags [OF ok(2)] by (simp add: out_partial_def)
  have "if b \<noteq> [] \<and> last b = NL
         then window s' = [] \<and> so_wire (str_dev s') = so_wire (str_dev s) @ [frame (w @ butlast b)]
         else window s' = w @ b \<and> so_wire (str_dev s') = so_wire (str_dev s)"
  proof (cases "b \<noteq> [] \<and> last b = NL")
    case True
    then have "b = butlast b @ [NL]" by (metis append_butlast_last_id)
    then have "w @ b = (w @ butlast b) @ [NL]" by simp
    with wire_of_text [OF b(2) c(2) ok(3), of "[]" "[w @ butlast b]"] tot assms(2) b(8) True
    show ?thesis by simp
  next
    case False
    then have "NL \<notin> set b" using assms(2) by (cases b rule: rev_cases) auto
    with wire_of_text [OF b(2) c(2) ok(3), of "w @ b" "[]"] tot b(8) False show ?thesis by simp
  qed
  with w ok(4) b(3) part show ?thesis by (auto simp: smap_stream_write_def split: if_splits)
qed

text \<open>The joined stream in that state.\<close>

definition out_state :: "sockmap_stream smap_stream \<Rightarrow> string \<Rightarrow> bool" where
  "out_state s w \<longleftrightarrow> str_buftype s = smap_buffer_none \<and> has_flag s SMAP_STREAM_WRITE
     \<and> \<not> has_flag s STR_ERR \<and> out_partial (ss_out (str_dev s)) w"

abbreviation wire_of :: "sockmap_stream smap_stream \<Rightarrow> string list" where
  "wire_of s \<equiv> so_wire (str_dev (ss_out (str_dev s)))"

lemma sockmap_write_part:
  assumes "out_state s w" "NL \<notin> set (butlast b)" "length (w @ b) < 10 ^ 19"
  shows "\<exists>s'. smap_stream_write (sockmap_ops (\<lambda>_. True) junk) s b False = Some (s', E0, Some (length b))
      \<and> ss_in (str_dev s') = ss_in (str_dev s) \<and> (in_plain s \<longrightarrow> in_plain s')
      \<and> (if b \<noteq> [] \<and> last b = NL
         then out_state s' [] \<and> wire_of s' = wire_of s @ [frame (w @ butlast b)]
         else out_state s' (w @ b) \<and> wire_of s' = wire_of s)"
proof (cases "b = []")
  case True
  with assms(1) show ?thesis
    by (simp add: smap_stream_write_def smap_stream_write_unbuffered_def sockmap_ops_def out_state_def)
next
  case False
  have op: "op_write (sockmap_ops (\<lambda>_. True) junk) = Some (sockmap_stream_write (\<lambda>_. True) junk)"
    by (simp add: sockmap_ops_def)
  from out_stream_write_part [OF _ assms(2,3), of "ss_out (str_dev s)" junk True] assms(1) obtain o' where
    w: "sockmap_stream_write (\<lambda>_. True) junk (str_dev s) b = Some ((str_dev s)\<lparr>ss_out := o'\<rparr>, E0, length b)"
    and o': "if b \<noteq> [] \<and> last b = NL
         then out_partial o' [] \<and> so_wire (str_dev o') = wire_of s @ [frame (w @ butlast b)]
         else out_partial o' (w @ b) \<and> so_wire (str_dev o') = wire_of s"
    by (auto simp: out_state_def sockmap_stream_write_def)
  define s' where "s' = (set_flag STR_WRT (s\<lparr>str_dev := (str_dev s)\<lparr>ss_out := o'\<rparr>,
      str_bytes_out := str_bytes_out s + int (length b)\<rparr>))\<lparr>str_offset := str_offset s + int (length b), str_last_err := E0\<rparr>"
  have "smap_stream_write (sockmap_ops (\<lambda>_. True) junk) s b False = Some (s', E0, Some (length b))"
    using assms(1) w False
    by (simp add: smap_stream_write_def smap_stream_write_unbuffered_def op out_state_def Let_def
        write_full_loop.simps s'_def)
  moreover have "in_plain s \<longrightarrow> in_plain s'" by (simp add: in_plain_def s'_def in_flags)
  ultimately show ?thesis
    using o' assms(1) by (auto simp: out_state_def s'_def in_flags split: if_splits)
qed

lemma sockmap_write_line:
  assumes "out_state s []" "NL \<notin> set t" "length t < 10 ^ 19 - 1"
  shows "\<exists>s'. smap_stream_write (sockmap_ops (\<lambda>_. True) junk) s (t @ [NL]) False
      = Some (s', E0, Some (length t + 1)) \<and> out_state s' [] \<and> wire_of s' = wire_of s @ [frame t]"
  using sockmap_write_part [OF assms(1), of "t @ [NL]" junk] assms(2,3) by auto

text \<open>Writing a number of lines, one after the other.\<close>

fun putlines :: "nat \<Rightarrow> string list \<Rightarrow> sockmap_stream smap_stream \<Rightarrow> sockmap_stream smap_stream option" where
  "putlines junk [] s = Some s"
| "putlines junk (t # ts) s = do {
     (s, rc, _) \<leftarrow> smap_stream_write (sockmap_ops (\<lambda>_. True) junk) s (t @ [NL]) False;
     if rc \<noteq> E0 then None else putlines junk ts s
   }"

lemma putlines_wire:
  assumes "out_state s []" "\<forall>t \<in> set ts. NL \<notin> set t \<and> length t < 10 ^ 19 - 1"
  shows "\<exists>s'. putlines junk ts s = Some s'
    \<and> wire_of s' = wire_of s @ map frame ts"
  using assms
proof (induction ts arbitrary: s)
  case (Cons t ts)
  from sockmap_write_line [OF Cons.prems(1), of t junk] Cons.prems(2) obtain s1 where
    w: "smap_stream_write (sockmap_ops (\<lambda>_. True) junk) s (t @ [NL]) False = Some (s1, E0, Some (length t + 1))"
    "out_state s1 []"
    "wire_of s1 = wire_of s @ [frame t]" by auto
  from Cons.IH [OF w(2)] Cons.prems(2) w show ?case by auto
qed simp

lemma sockmap_create2_out:
  assumes "smap_sockmap_stream_create2 (\<lambda>_. True) junk (True, True, True) fd fl ievs [] crc = Some (E0, Some s)"
    and "\<not> hasfl fl STR_ERR"
  shows "out_state s []" "wire_of s = []"
  using assms
  by (cases "fst fd = snd fd"; auto simp: smap_sockmap_stream_create2_def out_state_def
      out_partial_def out_ok_def so_sound_def so_clean_def
      smap_sockmap_output_stream_create_def smap_sockmap_input_stream_create_def smap_stream_create_def
      smap_stream_ref_def smap_stream_set_buffer_def smap_stream_set_flags_def stream_wf_def
      bufmem_def SIZE_MAX_def sockmap_in_ops_def sockmap_out_ops_def no_ops_def
      bind_eq_Some_conv Let_def window_def setfl_def [symmetric] in_flags)+

lemmas sockmap_create_out = sockmap_create2_out [where fd = "(fd, fd)" for fd, folded smap_sockmap_stream_create_def]

section \<open>Properties\<close>

text \<open>C15. The decimal length that the output stream writes before a packet is what the
  input stream reads: for every number below ten to the nineteenth, \<open>format_len\<close>
  stays inside its array of 20 places and the digit loop of the reader gives
  the number back.  A positive number is written with decimal digits, the first of which is not 0; the number 0 is written
  without any digit, so that the packet of an empty line begins with the colon.\<close>

theorem format_parse_len:
  assumes "n < 10 ^ 19"
  shows "\<exists>p. format_len n = Some p \<and> length p < SIZE_T_STRLEN_BOUND \<and> parse_len 0 p = Some n
    \<and> list_all is_digit p \<and> (p = [] \<longleftrightarrow> n = 0) \<and> (n = 0 \<or> hd p \<noteq> CHR ''0'')"
  using assms format_len_dec length_dec [OF assms] parse_len_dec [of n] dec_digits [of n] dec_first [of n] by (auto simp: SIZE_MAX_def)

theorem format_parse_len_witness:
  "\<exists>p. format_len 120 = Some p \<and> length p < SIZE_T_STRLEN_BOUND \<and> parse_len 0 p = Some 120 \<and> list_all is_digit p \<and> p \<noteq> [] \<and> hd p \<noteq> CHR ''0''"
  using format_parse_len [of 120] by auto

text \<open>The packet of an empty line.\<close>

lemma empty_line_without_length: "frame [] = '':,''"
  by (simp add: frame_def dec.simps)

text \<open>The packets arrive, each in blocks of any sizes of its own, and nothing follows.\<close>

fun delivered :: "string list \<Rightarrow> sockev list \<Rightarrow> bool" where
  "delivered [] evs \<longleftrightarrow> evs = []"
| "delivered (p # ps) evs \<longleftrightarrow> (\<exists>rest. flows evs p rest \<and> delivered ps rest)"

lemma delivered_carries:
  "delivered (map frame ts) evs \<Longrightarrow> \<forall>t \<in> set ts. length t < 10 ^ 19 \<Longrightarrow> carries ts evs"
  by (induction ts arbitrary: evs) auto

text \<open>C3. Round trip over a connection.  Lines written one after the other to a new
  sockmap stream over a socket that does not fail are all accepted, and put
  exactly one packet each on the wire, in order, that of an empty line without digits before the colon; a sockmap stream at the other
  end, to which each of these packets is delivered in blocks of any sizes, none of which has bytes of two packets, returns
  the same lines in the same order, and then the end of the input.\<close>

theorem sockmap_roundtrip:
  assumes ts: "\<forall>t \<in> set ts. NL \<notin> set t \<and> length t < 2 ^ 61"
    and mk: "smap_sockmap_stream_create (\<lambda>_. True) junk (True, True, True) fd 0 ievs [] crc = Some (E0, Some s)"
  shows "\<exists>s'. putlines junk ts s = Some s' \<and> wire_of s' = map frame ts \<and>
    (\<forall>evs r oevs crc' fd'.
       delivered (wire_of s') evs \<and>
       smap_sockmap_stream_create (\<lambda>_. True) junk (True, True, True) fd' 0 evs oevs crc' = Some (E0, Some r) \<longrightarrow>
       (\<exists>r' r'' n. getlines junk (length ts) r = Some (r', map (\<lambda>t. t @ [NL]) ts) \<and>
          smap_stream_getline (sockmap_ops (\<lambda>_. True) junk) r' 0 = Some (r'', E0, [], n)))"
proof -
  have f: "\<not> hasfl 0 STR_ERR" "\<not> hasfl 0 STR_EOF" by (simp_all add: in_flags)
  have sm: "\<forall>t \<in> set ts. length t < 10 ^ 19" "\<forall>t \<in> set ts. length t < SIZE_MAX"
    "\<forall>t \<in> set ts. NL \<notin> set t \<and> length t < 10 ^ 19 - 1"
    using ts by (auto simp: SIZE_MAX_def)
  from putlines_wire [OF sockmap_create_out(1) [OF mk f(1)], of ts junk] sockmap_create_out(2) [OF mk f(1)] sm(3)
  obtain s' where s': "putlines junk ts s = Some s'" "wire_of s' = map frame ts" by auto
  have "\<exists>r' r'' n. getlines junk (length ts) r = Some (r', map (\<lambda>t. t @ [NL]) ts) \<and>
          smap_stream_getline (sockmap_ops (\<lambda>_. True) junk) r' 0 = Some (r'', E0, [], n)"
    if d: "delivered (map frame ts) evs"
      and mr: "smap_sockmap_stream_create (\<lambda>_. True) junk (True, True, True) fd' 0 evs oevs crc' = Some (E0, Some r)"
    for evs r oevs crc' fd'
  proof -
    note c = sockmap_create_in [OF mr delivered_carries [OF d sm(1)] sm(2)]
    from getlines_holds [OF c(2) [OF f], of ts "[]" junk] c(1) ts obtain r' where
      "getlines junk (length ts) r = Some (r', map (\<lambda>t. t @ [NL]) ts)" "in_plain r'" "ss_holds (str_dev r') []"
      by auto
    with ss.getline_end [of r' junk 0] show ?thesis by blast
  qed
  with s' show ?thesis by auto
qed

theorem sockmap_roundtrip_witness:
  "\<exists>s s'. smap_sockmap_stream_create (\<lambda>_. True) 7 (True, True, True) 3 0 [] [] E0 = Some (E0, Some s)
    \<and> putlines 7 [''map foo'', ''''] s = Some s'
    \<and> wire_of s' = [''7:map foo,'', '':,'']"
proof -
  obtain s where mk: "smap_sockmap_stream_create (\<lambda>_. True) 7 (True, True, True) 3 0 [] [] E0 = Some (E0, Some s)"
    by (simp add: smap_sockmap_stream_create_def smap_sockmap_stream_create2_def
        smap_sockmap_output_stream_create_def smap_sockmap_input_stream_create_def smap_stream_create_def
        smap_stream_set_buffer_def smap_stream_ref_def sockmap_in_ops_def sockmap_out_ops_def no_ops_def Let_def)
  have "map frame [''map foo'', ''''] = [''7:map foo,'', '':,'']" by code_simp
  with sockmap_roundtrip [OF _ mk, of "[''map foo'', '''']"] mk show ?thesis by auto
qed

text \<open>C39. Pipelined packets.  If a packet and bytes of the next one arrive in one block of
  at most 20 bytes, after which the peer sends nothing and closes the connection, the input stream takes them all for its own, and the
  number of the bytes still wanted wraps around: the read fails with \<open>EIO\<close>, although the packet was complete.\<close>

theorem sockmap_pipelined_fails:
  assumes "si_nlen sp = 0" "si_sock sp = [SockData (frame t @ extra)]" "extra \<noteq> []"
    "length (frame t @ extra) \<le> 20" "length t + 1 + length extra \<le> sz"
  shows "\<exists>sp' n. sockmap_input_stream_read junk sp fl sz = Some (sp', fl, EIO, t @ '','' @ extra, n)"
proof -
  let ?d = "dec (length t)"
  have m: "memchr (CHR '':'') (frame t @ extra) = Some (length ?d)" by (simp add: frame_def colon_notin_dec)
  have t: "length t \<le> SIZE_MAX" using assms(4) by (simp add: frame_def SIZE_MAX_def)
  have sub: "0 < size_sub (length t + 1) (length t + 1 + length extra)"
    using assms(3,4) by (simp add: size_sub_def SIZE_MAX_def frame_def)
  have loop: "recv_loop [] sz (t @ '','' @ extra) k = Some ([], EIO, t @ '','' @ extra)" if "0 < k" for k
    using that assms(5) by (subst recv_loop.simps) simp
  have l: "read_payload_length sp = Some (sp\<lparr>si_cp := length ?d, si_sock := [], si_nbuf := frame t @ extra,
      si_nlen := length (frame t @ extra)\<rparr>, RplOk)"
    using assms(2,3,4) m by (simp add: read_payload_length_def read_payload_length_loop.simps)
  have "take (length ?d) (frame t @ extra) = ?d" "drop (length ?d + 1) (frame t @ extra) = t @ '','' @ extra"
    by (simp_all add: frame_def)
  then show ?thesis
    using assms(1,5) l loop [OF sub] parse_len_dec [OF t]
    by (simp add: sockmap_input_stream_read_def sockmap_read_payload_def frame_def Let_def)
qed

theorem sockmap_pipelined_fails_witness:
  "\<exists>sp' n. sockmap_input_stream_read 0 \<lparr>si_nbuf = [], si_nlen = 0, si_cp = 0, si_reqsz = 0, si_fd = 3,
      si_debug_idx = 0, si_debug_pfx = None, si_sock = [SockData ''1:a,1:b,''], si_closed = False,
      si_close_rc = E0\<rparr> 1 1024 = Some (sp', 1, EIO, ''a,1:b,'', n)"
proof -
  have "frame ''a'' @ ''1:b,'' = ''1:a,1:b,''" by code_simp
  with sockmap_pipelined_fails [of "\<lparr>si_nbuf = [], si_nlen = 0, si_cp = 0, si_reqsz = 0, si_fd = 3,
      si_debug_idx = 0, si_debug_pfx = None, si_sock = [SockData ''1:a,1:b,''], si_closed = False,
      si_close_rc = E0\<rparr>" "''a''" "''1:b,''" 1024 0 1]
  show ?thesis by simp
qed

end
