(* ===== verification/Smap_Dlist.thy ===== *)
theory Smap_Dlist
  imports Smap_Prelude
begin

text \<open>
  The doubly-linked lists of \<open>src/smapd.h\<close> (the macros \<open>DCLATT\<close>, \<open>DCLDET\<close> and
  \<open>DCLLOC\<close>), on which the tables of modules, databases and dispatch rules are
  built.  The store of pointers is explicit: an object is an address, and its
  \<open>prev\<close> and \<open>next\<close> members are maps from addresses.

  The lemmas show that the pointer operations implement lists: \<open>attach\<close> appends,
  \<open>detach\<close> removes, \<open>locate\<close> finds the first match, and the sweep
  (a traversal that saves \<open>next\<close> before it may detach the current object) is a
  filter.  The component theories use lists on the strength of this.
\<close>

section \<open>Operations\<close>

record dlist =
  dl_head :: "nat option"
  dl_tail :: "nat option"
  dl_prev :: "nat \<Rightarrow> nat option"
  dl_next :: "nat \<Rightarrow> nat option"

definition dl_attach :: "nat \<Rightarrow> dlist \<Rightarrow> dlist" where
  "dl_attach arg l =
     (let l = l\<lparr>dl_next := (dl_next l)(arg := None)\<rparr>;
          l = l\<lparr>dl_prev := (dl_prev l)(arg := dl_tail l)\<rparr>;
          l = (case dl_tail l of
                 Some t \<Rightarrow> l\<lparr>dl_next := (dl_next l)(t := Some arg)\<rparr>
               | None \<Rightarrow> l\<lparr>dl_head := Some arg\<rparr>)
      in l\<lparr>dl_tail := Some arg\<rparr>)"

definition dl_detach :: "nat \<Rightarrow> dlist \<Rightarrow> dlist" where
  "dl_detach arg l =
     (let l = (case dl_prev l arg of
                 Some p \<Rightarrow> l\<lparr>dl_next := (dl_next l)(p := dl_next l arg)\<rparr>
               | None \<Rightarrow> l\<lparr>dl_head := dl_next l arg\<rparr>)
      in (case dl_next l arg of
            Some p \<Rightarrow> l\<lparr>dl_prev := (dl_prev l)(p := dl_prev l arg)\<rparr>
          | None \<Rightarrow> l\<lparr>dl_tail := dl_prev l arg\<rparr>))"

text \<open>The loop of \<open>locate\<close> from the object \<open>p\<close>; a cyclic list would not end it.\<close>

partial_function (option) dl_locate_from ::
  "(nat \<Rightarrow> string) \<Rightarrow> dlist \<Rightarrow> string \<Rightarrow> nat option \<Rightarrow> nat option option" where
  "dl_locate_from ids l nm p =
     (if p = None then Some None
      else if ids (the p) = nm then Some p
      else dl_locate_from ids l nm (dl_next l (the p)))"

definition dl_locate :: "(nat \<Rightarrow> string) \<Rightarrow> dlist \<Rightarrow> string \<Rightarrow> nat option option" where
  "dl_locate ids l nm = dl_locate_from ids l nm (dl_head l)"

text \<open>The traversal of \<open>remove_dependent_databases\<close>, \<open>link_dispatch_rules\<close>,
  \<open>smap_modules_load\<close> and \<open>init_databases\<close>: the successor is read first, then an
  object that satisfies \<open>bad\<close> is detached.\<close>

partial_function (option) dl_sweep_from :: "(nat \<Rightarrow> bool) \<Rightarrow> dlist \<Rightarrow> nat option \<Rightarrow> dlist option" where
  "dl_sweep_from bad l p =
     (if p = None then Some l
      else
        let nxt = dl_next l (the p) in
        dl_sweep_from bad (if bad (the p) then dl_detach (the p) l else l) nxt)"

definition dl_sweep :: "(nat \<Rightarrow> bool) \<Rightarrow> dlist \<Rightarrow> dlist option" where
  "dl_sweep bad l = dl_sweep_from bad l (dl_head l)"

section \<open>The list an object graph stands for\<close>

text \<open>\<open>seg l p xs q\<close>: the \<open>next\<close> members run through \<open>xs\<close> and end with \<open>q\<close>, and
  the \<open>prev\<close> members point back and begin with \<open>p\<close>.\<close>

definition fst_or :: "nat option \<Rightarrow> nat list \<Rightarrow> nat option" where
  "fst_or q xs = (case xs of [] \<Rightarrow> q | x # _ \<Rightarrow> Some x)"

definition lst_or :: "nat option \<Rightarrow> nat list \<Rightarrow> nat option" where
  "lst_or p xs = (if xs = [] then p else Some (last xs))"

fun seg :: "dlist \<Rightarrow> nat option \<Rightarrow> nat list \<Rightarrow> nat option \<Rightarrow> bool" where
  "seg l p [] q \<longleftrightarrow> True"
| "seg l p (x # xs) q \<longleftrightarrow> dl_prev l x = p \<and> dl_next l x = fst_or q xs \<and> seg l (Some x) xs q"

definition dl_rep :: "dlist \<Rightarrow> nat list \<Rightarrow> bool" where
  "dl_rep l xs \<longleftrightarrow>
     distinct xs \<and> dl_head l = fst_or None xs \<and> dl_tail l = lst_or None xs \<and> seg l None xs None"

lemma or_simps [simp]:
  "fst_or q [] = q" "fst_or q (x # xs) = Some x" "fst_or q (xs @ y # ys) = fst_or (Some y) xs"
  "lst_or p [] = p" "lst_or p (xs @ [x]) = Some x" "lst_or p (xs @ y # ys) = lst_or (Some y) ys"
  "lst_or p [x] = Some x" "lst_or p (x # xs) = lst_or (Some x) xs"
  by (simp_all add: fst_or_def lst_or_def split: list.split)

lemma seg_append:
  "seg l p (xs @ ys) q \<longleftrightarrow> seg l p xs (fst_or q ys) \<and> seg l (lst_or p xs) ys q"
  by (induction xs arbitrary: p) (auto simp: fst_or_def lst_or_def split: list.splits)

lemma seg_cong:
  "(\<And>x. x \<in> set xs \<Longrightarrow> dl_prev l' x = dl_prev l x \<and> dl_next l' x = dl_next l x) \<Longrightarrow>
   seg l' p xs q = seg l p xs q"
proof (induction xs arbitrary: p)
  case (Cons x xs)
  from Cons.IH [of "Some x"] Cons.prems show ?case by auto
qed simp

section \<open>The operations as list functions\<close>

lemma attach_rep:
  assumes "dl_rep l xs" "a \<notin> set xs"
  shows "dl_rep (dl_attach a l) (xs @ [a])"
proof (cases xs rule: rev_cases)
  case Nil
  with assms show ?thesis by (simp add: dl_rep_def dl_attach_def)
next
  case (snoc ys t)
  from assms have l: "distinct xs" "dl_head l = fst_or None xs" "dl_tail l = Some t"
    "seg l None ys (Some t)" "dl_prev l t = lst_or None ys" and t: "t \<notin> set ys" "a \<noteq> t" "a \<notin> set ys"
    by (auto simp: dl_rep_def snoc seg_append)
  have "seg (dl_attach a l) None ys (Some t)"
    using l(3,4) t by (subst seg_cong [of ys _ l]) (auto simp: dl_attach_def)
  with l t assms(2) show ?thesis by (simp add: dl_rep_def snoc seg_append dl_attach_def)
qed

lemma detach_fields:
  assumes "dl_rep l (ys @ a # zs)"
  shows "dl_prev l a = lst_or None ys" "dl_next l a = fst_or None zs"
    "seg l None ys (Some a)" "seg l (Some a) zs None"
    "distinct ys" "distinct zs" "set ys \<inter> set zs = {}" "a \<notin> set ys" "a \<notin> set zs"
  using assms by (auto simp: dl_rep_def seg_append)

lemma detach_seg_left:
  assumes "dl_rep l (ys @ a # zs)"
  shows "seg (dl_detach a l) None ys (fst_or None zs)"
proof (cases ys rule: rev_cases)
  case (snoc ys' p)
  note f = detach_fields [OF assms]
  have p: "dl_prev l p = lst_or None ys'" "seg l None ys' (Some p)" "p \<notin> set ys'"
    using f(3,5) by (auto simp: snoc seg_append)
  have same: "dl_prev (dl_detach a l) x = dl_prev l x \<and> (x \<noteq> p \<longrightarrow> dl_next (dl_detach a l) x = dl_next l x)"
    if "x \<in> set ys" for x
    using that f by (cases zs) (auto simp: dl_detach_def snoc)
  have "dl_next (dl_detach a l) p = fst_or None zs"
    using f by (cases zs) (auto simp: dl_detach_def snoc)
  moreover have "seg (dl_detach a l) None ys' (Some p)"
  proof (subst seg_cong)
    show "dl_prev (dl_detach a l) x = dl_prev l x \<and> dl_next (dl_detach a l) x = dl_next l x" if "x \<in> set ys'" for x
      using same [of x] that p(3) by (auto simp: snoc)
  qed (rule p(2))
  ultimately show ?thesis using p same [of p] by (simp add: snoc seg_append)
qed simp

lemma detach_seg_right:
  assumes "dl_rep l (ys @ a # zs)"
  shows "seg (dl_detach a l) (lst_or None ys) zs None"
proof (cases zs)
  case (Cons n zs')
  note f = detach_fields [OF assms]
  have same: "dl_next (dl_detach a l) x = dl_next l x \<and> (x \<noteq> n \<longrightarrow> dl_prev (dl_detach a l) x = dl_prev l x)"
    if "x \<in> set zs" for x
    using that f by (cases ys rule: rev_cases) (auto simp: dl_detach_def Cons)
  have "dl_prev (dl_detach a l) n = lst_or None ys"
    using f by (cases ys rule: rev_cases) (auto simp: dl_detach_def Cons)
  moreover have "seg (dl_detach a l) (Some n) zs' None"
  proof (subst seg_cong)
    show "dl_prev (dl_detach a l) x = dl_prev l x \<and> dl_next (dl_detach a l) x = dl_next l x" if "x \<in> set zs'" for x
      using same [of x] that f(6) by (auto simp: Cons)
  qed (use f(4) in \<open>simp add: Cons\<close>)
  ultimately show ?thesis using f(4) same [of n] by (simp add: Cons)
qed simp

lemma detach_rep_split:
  assumes "dl_rep l (ys @ a # zs)"
  shows "dl_rep (dl_detach a l) (ys @ zs)"
proof -
  note f = detach_fields [OF assms]
  have "dl_head (dl_detach a l) = fst_or (fst_or None zs) ys" "dl_tail (dl_detach a l) = lst_or (lst_or None ys) zs"
    using assms f by (cases ys rule: rev_cases; cases zs; auto simp: dl_detach_def dl_rep_def; fail)+
  moreover have "fst_or None (ys @ zs) = fst_or (fst_or None zs) ys" "lst_or None (ys @ zs) = lst_or (lst_or None ys) zs"
    by (cases zs; simp; fail) (cases zs rule: rev_cases; simp add: lst_or_def)
  ultimately show ?thesis
    using f detach_seg_left [OF assms] detach_seg_right [OF assms]
    by (simp add: dl_rep_def seg_append)
qed

lemma detach_rep:
  assumes "dl_rep l xs" "a \<in> set xs"
  shows "dl_rep (dl_detach a l) (remove1 a xs)"
proof -
  from split_list_first [OF assms(2)] obtain ys zs where xs: "xs = ys @ a # zs" "a \<notin> set ys" by blast
  with detach_rep_split [of l ys a zs] assms(1) show ?thesis by (simp add: remove1_append)
qed

lemma locate_from_rep:
  "seg l p xs None \<Longrightarrow> dl_locate_from ids l nm (fst_or None xs) = Some (find (\<lambda>a. ids a = nm) xs)"
proof (induction xs arbitrary: p)
  case Nil
  show ?case by (simp add: dl_locate_from.simps)
next
  case (Cons x xs)
  then show ?case by (subst or_simps, subst dl_locate_from.simps) auto
qed

lemma locate_rep: "dl_rep l xs \<Longrightarrow> dl_locate ids l nm = Some (find (\<lambda>a. ids a = nm) xs)"
  using locate_from_rep [of l None xs] by (simp add: dl_locate_def dl_rep_def)

lemma sweep_from_rep:
  "dl_rep l (dn @ xs) \<Longrightarrow>
   \<exists>l'. dl_sweep_from bad l (fst_or None xs) = Some l' \<and> dl_rep l' (dn @ filter (\<lambda>a. \<not> bad a) xs)"
proof (induction xs arbitrary: l dn)
  case Nil
  then show ?case by (simp add: dl_sweep_from.simps)
next
  case (Cons x xs)
  have nxt: "dl_next l x = fst_or None xs" using detach_fields(2) [OF Cons.prems] .
  show ?case
  proof (cases "bad x")
    case True
    from Cons.IH [OF detach_rep_split [OF Cons.prems]] nxt True show ?thesis
      by (subst or_simps, subst dl_sweep_from.simps) simp
  next
    case False
    from Cons.IH [of l "dn @ [x]"] Cons.prems nxt False show ?thesis
      by (subst or_simps, subst dl_sweep_from.simps) simp
  qed
qed

text \<open>C14. The doubly-linked lists implement lists.  On a well-formed list of objects,
  \<open>attach\<close> appends a new object, \<open>detach\<close> removes one, \<open>locate\<close> ends and
  returns the first object with the wanted name, and the sweep that detaches
  objects while it traverses the list ends and keeps exactly the others, in order.\<close>

theorem dlist_refines_list:
  assumes "dl_rep l xs"
  shows "(a \<notin> set xs \<longrightarrow> dl_rep (dl_attach a l) (xs @ [a]))
    \<and> (a \<in> set xs \<longrightarrow> dl_rep (dl_detach a l) (remove1 a xs))
    \<and> dl_locate ids l nm = Some (find (\<lambda>a. ids a = nm) xs)
    \<and> (\<exists>l'. dl_sweep bad l = Some l' \<and> dl_rep l' (filter (\<lambda>a. \<not> bad a) xs))"
  using assms attach_rep detach_rep locate_rep sweep_from_rep [of l "[]" xs bad]
  by (simp add: dl_sweep_def) (simp add: dl_rep_def)

definition dl_empty :: dlist where
  "dl_empty = \<lparr>dl_head = None, dl_tail = None, dl_prev = (\<lambda>_. None), dl_next = (\<lambda>_. None)\<rparr>"

theorem dlist_refines_list_witness:
  "dl_rep (dl_detach 2 (dl_attach 5 (dl_attach 2 (dl_attach 7 dl_empty)))) [7, 5]"
proof -
  have "dl_rep dl_empty []" by (simp add: dl_rep_def dl_empty_def)
  from dlist_refines_list [OF this, of 7] have 1: "dl_rep (dl_attach 7 dl_empty) [7]" by simp
  from dlist_refines_list [OF 1, of 2] have 2: "dl_rep (dl_attach 2 (dl_attach 7 dl_empty)) [7, 2]" by simp
  from dlist_refines_list [OF 2, of 5] have "dl_rep (dl_attach 5 (dl_attach 2 (dl_attach 7 dl_empty))) [7, 2, 5]" by simp
  from dlist_refines_list [OF this, of 2] show ?thesis by simp
qed

end
