(* ===== verification/Smap_Kwtab.thy ===== *)
theory Smap_Kwtab
  imports Smap_Prelude
begin

text \<open>
  Keyword tables (\<open>lib/kwtab.c\<close>) and the table of debugging levels
  (\<open>lib/debug.c\<close>).
\<close>

section \<open>Keyword tables\<close>

type_synonym 't kwtab = "(string \<times> 't) list"

fun smap_kwtab_nametotok_len :: "'t kwtab \<Rightarrow> string \<Rightarrow> nat \<Rightarrow> 't option" where
  "smap_kwtab_nametotok_len [] str len = None"
| "smap_kwtab_nametotok_len ((name, tok) # kwtab) str len =
     (if length name = len \<and> name = take len str then Some tok
      else smap_kwtab_nametotok_len kwtab str len)"

fun smap_kwtab_nametotok :: "'t kwtab \<Rightarrow> string \<Rightarrow> 't option" where
  "smap_kwtab_nametotok [] str = None"
| "smap_kwtab_nametotok ((name, tok) # kwtab) str =
     (if name = str then Some tok else smap_kwtab_nametotok kwtab str)"

fun smap_kwtab_toktoname :: "'t kwtab \<Rightarrow> 't \<Rightarrow> string option" where
  "smap_kwtab_toktoname [] tok = None"
| "smap_kwtab_toktoname ((name, t) # kwtab) tok =
     (if t = tok then Some name else smap_kwtab_toktoname kwtab tok)"

lemma nametotok_map_of: "smap_kwtab_nametotok kwtab = map_of kwtab"
proof
  show "smap_kwtab_nametotok kwtab str = map_of kwtab str" for str
    by (induction kwtab str rule: smap_kwtab_nametotok.induct) auto
qed

lemma nametotok_len: "smap_kwtab_nametotok_len kwtab str len =
    (if len \<le> length str then smap_kwtab_nametotok kwtab (take len str) else None)"
  by (induction kwtab str len rule: smap_kwtab_nametotok_len.induct) auto

lemma toktoname_in: "smap_kwtab_toktoname kwtab tok = Some name \<Longrightarrow> (name, tok) \<in> set kwtab"
  by (induction kwtab tok rule: smap_kwtab_toktoname.induct) (auto split: if_splits)

section \<open>Debugging levels\<close>

text \<open>
  \<open>dbg_cap\<close> is the number of entries that the array really has; a store beyond it
  does not return normally.  The index \<open>(size_t)-1\<close> is \<open>None\<close>.
\<close>

record debug_state =
  debug_max :: nat
  dbg_cap :: nat
  debug_level :: "(string \<times> int) list"
  global_debug_level :: int

text \<open>An \<open>unsigned\<close> stored in an \<open>int\<close>, and an \<open>int\<close> compared with a \<open>size_t\<close>.\<close>

definition int_of_uint :: "nat \<Rightarrow> int" where
  "int_of_uint n = (let m = n mod 2 ^ 32 in if m \<ge> 2 ^ 31 then int m - 2 ^ 32 else int m)"

definition int_ge_size :: "int \<Rightarrow> nat \<Rightarrow> bool" where
  "int_ge_size i lev \<longleftrightarrow> int lev \<le> (if i < 0 then i + 2 ^ 64 else i)"

definition smap_debug_np :: "debug_state \<Rightarrow> nat option \<Rightarrow> nat \<Rightarrow> bool" where
  "smap_debug_np st md lev =
     (case md of
        None \<Rightarrow> False
      | Some i \<Rightarrow>
          if i \<ge> length (debug_level st) then False
          else if snd (debug_level st ! i) = 0 then int_ge_size (global_debug_level st) lev
          else int_ge_size (snd (debug_level st ! i)) lev)"

fun locate_n_loop :: "(string \<times> int) list \<Rightarrow> nat \<Rightarrow> string \<Rightarrow> nat \<Rightarrow> nat option" where
  "locate_n_loop [] i name len = None"
| "locate_n_loop ((nm, _) # xs) i name len =
     (if strncmp_eq nm name len then Some i else locate_n_loop xs (Suc i) name len)"

definition smtp_debug_locate_n :: "debug_state \<Rightarrow> string \<Rightarrow> nat \<Rightarrow> nat option" where
  "smtp_debug_locate_n st name len = locate_n_loop (debug_level st) 0 name len"

definition smtp_debug_locate :: "debug_state \<Rightarrow> string \<Rightarrow> nat option" where
  "smtp_debug_locate st name = smtp_debug_locate_n st name (length name)"

definition smap_debug_sp :: "debug_state \<Rightarrow> string \<Rightarrow> nat \<Rightarrow> bool" where
  "smap_debug_sp st name lev = smap_debug_np st (smtp_debug_locate st name) lev"

text \<open>\<open>alloc\<close> grants the array, \<open>dup\<close> the copy of the name (the whole string, not
  its first \<open>n\<close> bytes).  The doubling stores into \<open>debug_max\<close> before the
  allocation is known to succeed.\<close>

definition smap_debug_alloc_n ::
  "bool \<Rightarrow> bool \<Rightarrow> debug_state \<Rightarrow> string \<Rightarrow> nat \<Rightarrow> (debug_state \<times> nat option) option" where
  "smap_debug_alloc_n alloc dup st name n =
     (case smtp_debug_locate_n st name n of
        Some i \<Rightarrow> Some (st, Some i)
      | None \<Rightarrow>
          let full = length (debug_level st) \<ge> debug_max st;
              newmax = (if debug_max st = 0 then 128 else (2 * debug_max st) mod (SIZE_MAX + 1));
              st1 = (if full \<and> debug_max st \<noteq> 0 then st\<lparr>debug_max := newmax\<rparr> else st) in
          if full \<and> \<not> alloc then Some (st1, None)
          else
            let st2 = (if full then st1\<lparr>debug_max := newmax, dbg_cap := newmax\<rparr> else st1) in
            if length (debug_level st2) \<ge> dbg_cap st2 then None
            else if \<not> dup then Some (st2, None)
            else Some (st2\<lparr>debug_level := debug_level st2 @ [(name, global_debug_level st2)]\<rparr>,
                       Some (length (debug_level st2))))"

definition smap_debug_alloc ::
  "bool \<Rightarrow> bool \<Rightarrow> debug_state \<Rightarrow> string \<Rightarrow> (debug_state \<times> nat option) option" where
  "smap_debug_alloc alloc dup st name = smap_debug_alloc_n alloc dup st name (length name)"

text \<open>The setting of the level of entry \<open>n\<close> from the text \<open>p\<close> (a period and a number).\<close>

definition debug_set_level :: "debug_state \<Rightarrow> nat \<Rightarrow> string \<Rightarrow> debug_state \<times> int" where
  "debug_set_level st n p =
     (if n \<ge> length (debug_level st) then (st, -1)
      else (case strtoul (tl p) 0 of
              (lev, rest) \<Rightarrow>
                if rest \<noteq> [] then (st, -1)
                else (st\<lparr>debug_level :=
                        (debug_level st)[n := (fst (debug_level st ! n), int_of_uint lev)]\<rparr>, 0)))"

definition smap_debug_set ::
  "bool \<Rightarrow> bool \<Rightarrow> debug_state \<Rightarrow> string \<Rightarrow> (debug_state \<times> int) option" where
  "smap_debug_set alloc dup st spec =
     (if spec \<noteq> [] \<and> is_digit (hd spec) then
        (case strtoul spec 0 of
           (n, p) \<Rightarrow>
             if p = [] then Some (st\<lparr>global_debug_level := int_of_uint n\<rparr>, 0)
             else if hd p \<noteq> CHR ''.'' then Some (st, -1)
             else Some (debug_set_level st (n mod 2 ^ 32) p))
      else
        let i = strcspn1 spec (CHR ''.'') in do {
          (st, n) \<leftarrow> smap_debug_alloc_n alloc dup st spec i;
          Some (debug_set_level st (case n of None \<Rightarrow> 2 ^ 32 - 1 | Some k \<Rightarrow> k mod 2 ^ 32)
                  (if i < length spec then drop i spec else ''.100''))
        })"

section \<open>Lemmas\<close>

lemma locate_n_loop_Some:
  "locate_n_loop xs i name len = Some k \<Longrightarrow>
   i \<le> k \<and> k < i + length xs \<and> strncmp_eq (fst (xs ! (k - i))) name len"
  by (induction xs i name len rule: locate_n_loop.induct)
     (auto split: if_splits simp: nth_Cons')

lemma locate_n_loop_append:
  "locate_n_loop xs i name len = None \<Longrightarrow>
   locate_n_loop (xs @ ys) i name len = locate_n_loop ys (i + length xs) name len"
  by (induction xs i name len rule: locate_n_loop.induct) (auto split: if_splits)

text \<open>The invariant of the table: its counter is the size of the array, and the
  entries fit.\<close>

definition debug_inv :: "debug_state \<Rightarrow> bool" where
  "debug_inv st \<longleftrightarrow> debug_max st = dbg_cap st \<and> length (debug_level st) \<le> dbg_cap st \<and> dbg_cap st < 2 ^ 62"

lemma debug_alloc_locates:
  assumes "smap_debug_alloc_n alloc dup st name n = Some (st', Some i)"
  shows "smtp_debug_locate_n st' name n = Some i \<and> i < length (debug_level st')"
proof (cases "smtp_debug_locate_n st name n")
  case None
  then have "locate_n_loop (debug_level st @ [(name, g)]) 0 name n = Some (length (debug_level st))" for g
    by (subst locate_n_loop_append) (auto simp: smtp_debug_locate_n_def strncmp_eq_def)
  with None assms show ?thesis
    by (auto simp: smap_debug_alloc_n_def smtp_debug_locate_n_def Let_def split: if_splits)
next
  case (Some k)
  with locate_n_loop_Some [of "debug_level st" 0 name n k] assms show ?thesis
    by (auto simp: smap_debug_alloc_n_def smtp_debug_locate_n_def)
qed

section \<open>Properties\<close>

text \<open>C21. A table whose counter agrees with its array grows safely: if the allocation is
  granted, registering a category returns, keeps the invariant, and the index
  it returns is the one under which the category is found again.\<close>

theorem debug_alloc_safe:
  assumes "debug_inv st" "debug_max st < 2 ^ 61"
  shows "\<exists>st' i. smap_debug_alloc_n True True st name n = Some (st', Some i) \<and> debug_inv st'
    \<and> smtp_debug_locate_n st' name n = Some i \<and> i < length (debug_level st')"
proof -
  have "\<exists>st' i. smap_debug_alloc_n True True st name n = Some (st', Some i) \<and> debug_inv st'"
    using assms
    by (auto simp: smap_debug_alloc_n_def debug_inv_def Let_def SIZE_MAX_def split: option.split)
  with debug_alloc_locates show ?thesis by blast
qed

theorem debug_alloc_safe_witness:
  "\<exists>st' i. smap_debug_alloc_n True True
       \<lparr>debug_max = 0, dbg_cap = 0, debug_level = [], global_debug_level = 0\<rparr> ''query.2'' 5 = Some (st', Some i)
     \<and> debug_inv st' \<and> smtp_debug_locate_n st' ''query.2'' 5 = Some i \<and> i < length (debug_level st')"
  using debug_alloc_safe [of "\<lparr>debug_max = 0, dbg_cap = 0, debug_level = [], global_debug_level = 0\<rparr>"
      "''query.2''" 5]
  by (simp add: debug_inv_def)

text \<open>When the array cannot be enlarged, the counter has been doubled already: the next
  registration, although memory is available again, stores behind the array.\<close>

theorem debug_alloc_overflow:
  assumes "debug_inv st" "length (debug_level st) = debug_max st" "0 < debug_max st"
    and "smap_debug_alloc_n False dup st name n = Some (st', None)"
    and "smtp_debug_locate_n st' name' n' = None"
  shows "smap_debug_alloc_n alloc True st' name' n' = None"
  using assms
  by (auto simp: smap_debug_alloc_n_def debug_inv_def Let_def SIZE_MAX_def smtp_debug_locate_n_def
      split: option.splits if_splits)

theorem debug_alloc_overflow_witness:
  "\<exists>st'. smap_debug_alloc_n False True
       \<lparr>debug_max = 1, dbg_cap = 1, debug_level = [(''cfg'', 0)], global_debug_level = 0\<rparr> ''query'' 5 = Some (st', None)
     \<and> smap_debug_alloc_n True True st' ''module'' 6 = None"
proof -
  let ?st = "\<lparr>debug_max = 1, dbg_cap = 1, debug_level = [(''cfg'', 0)], global_debug_level = 0\<rparr>"
  have "smap_debug_alloc_n False True ?st ''query'' 5 = Some (?st\<lparr>debug_max := 2\<rparr>, None)"
    by (simp add: smap_debug_alloc_n_def smtp_debug_locate_n_def strncmp_eq_def SIZE_MAX_def)
  moreover from debug_alloc_overflow [of ?st, OF _ _ _ this, of "''module''" 6 True]
  have "smap_debug_alloc_n True True (?st\<lparr>debug_max := 2\<rparr>) ''module'' 6 = None"
    by (simp add: debug_inv_def smtp_debug_locate_n_def strncmp_eq_def)
  ultimately show ?thesis by blast
qed

end
