(* ===== verification/Smap_Module.thy ===== *)
theory Smap_Module
  imports Smap_Dlist Smap_Kwtab
begin

text \<open>
  The tables of modules and databases (\<open>src/module.c\<close>).

  A module is code that is loaded at run time: its entry points are functions
  of the type \<open>'h\<close> of its database handles, and each of them may be missing (a
  null pointer, \<open>None\<close>).  The loader is a parameter: \<open>dlopen\<close> maps the name of a
  module to the result of opening it, \<open>None\<close> if that fails, \<open>Some None\<close> if the
  object has no symbol \<open>module\<close>.

  The identifiers in a table are distinct (\<open>ids_distinct\<close> below), and a pointer
  to a module or a database instance is represented by its identifier.  An entry point of a module
  that works on a handle returns the handle's new state.
\<close>

section \<open>Data\<close>

abbreviation (input) SMAP_MODULE_VERSION :: nat where "SMAP_MODULE_VERSION \<equiv> 2"
abbreviation (input) SMAP_CAPA_QUERY :: flagword where "SMAP_CAPA_QUERY \<equiv> 1"
abbreviation (input) SMAP_CAPA_XFORM :: flagword where "SMAP_CAPA_XFORM \<equiv> 2"

text \<open>Socket addresses; the address of the Internet family is in network order,
  and the path of a local one is what \<open>sun_path\<close> holds.\<close>

datatype sockaddr = AF_INET "32 word" | AF_UNIX string | AF_OTHER nat

record smap_conninfo =
  ci_src :: sockaddr
  ci_srclen :: nat
  ci_dst :: sockaddr
  ci_dstlen :: nat

text \<open>\<open>smap_query\<close> returns its code and the strings it wrote to the output stream, one
  for each write;
  \<open>smap_xform\<close> its code and the new string, if any.\<close>

record 'h smap_module =
  smap_version :: nat
  smap_capabilities :: flagword
  smap_init :: "(string list \<Rightarrow> int) option"
  smap_init_db :: "(string \<Rightarrow> string list \<Rightarrow> 'h option) option"
  smap_free_db :: "('h \<Rightarrow> int) option"
  smap_open :: "('h \<Rightarrow> 'h \<times> int) option"
  smap_close :: "('h \<Rightarrow> 'h \<times> int) option"
  smap_query :: "('h \<Rightarrow> string \<Rightarrow> string \<Rightarrow> smap_conninfo \<Rightarrow> 'h \<times> int \<times> string list) option"
  smap_xform :: "('h \<Rightarrow> smap_conninfo \<Rightarrow> string \<Rightarrow> 'h \<times> int \<times> string option) option"

record 'h smap_module_instance =
  mi_file :: string
  mi_line :: nat
  mi_id :: string
  mi_argv :: "string list"
  mi_module :: "'h smap_module option"
  mi_handle :: bool

record 'h smap_database_instance =
  db_file :: string
  db_line :: nat
  db_id :: string
  db_modname :: string
  db_argv :: "string list"
  db_inst :: "string option"
  db_dbh :: "'h option"
  db_opened :: bool

text \<open>\<open>mod_load_path\<close> is the array indexed by \<open>PATH_PREPEND\<close> and \<open>PATH_APPEND\<close>.\<close>

record 'h modules =
  module_list :: "'h smap_module_instance list"
  database_list :: "'h smap_database_instance list"
  mod_load_path :: "nat \<Rightarrow> string option"

section \<open>Modules\<close>

definition add_load_path :: "'h modules \<Rightarrow> string \<Rightarrow> nat \<Rightarrow> 'h modules" where
  "add_load_path ms path pathid =
     (let path = (if path \<noteq> [] \<and> hd path = CHR '':'' then tl path else path) in
      ms\<lparr>mod_load_path := (mod_load_path ms)(pathid :=
           (case mod_load_path ms pathid of
              Some p \<Rightarrow> Some (p @ '':'' @ path)
            | None \<Rightarrow> Some path))\<rparr>)"

definition module_locate :: "'h modules \<Rightarrow> string \<Rightarrow> 'h smap_module_instance option" where
  "module_locate ms nm = find (\<lambda>m. mi_id m = nm) (module_list ms)"

definition database_locate :: "'h modules \<Rightarrow> string \<Rightarrow> 'h smap_database_instance option" where
  "database_locate ms nm = find (\<lambda>d. db_id d = nm) (database_list ms)"

text \<open>The result is the code and the instance stored through \<open>pmod\<close>.\<close>

definition module_declare ::
  "'h modules \<Rightarrow> string \<Rightarrow> nat \<Rightarrow> string \<Rightarrow> string list \<Rightarrow>
   'h modules \<times> int \<times> 'h smap_module_instance" where
  "module_declare ms file line nm argv =
     (case module_locate ms nm of
        Some mip \<Rightarrow> (ms, 1, mip)
      | None \<Rightarrow>
          let mip = \<lparr>mi_file = file, mi_line = line, mi_id = nm, mi_argv = argv,
                     mi_module = None, mi_handle = False\<rparr>
          in (ms\<lparr>module_list := module_list ms @ [mip]\<rparr>, 0, mip))"

text \<open>The assertions on a module that has been opened.\<close>

definition MODULE_ASSERT :: "'h smap_module \<Rightarrow> bool" where
  "MODULE_ASSERT pmod \<longleftrightarrow>
     smap_version pmod \<le> SMAP_MODULE_VERSION
     \<and> smap_init_db pmod \<noteq> None \<and> smap_free_db pmod \<noteq> None
     \<and> (if smap_version pmod = 1 then smap_query pmod \<noteq> None
        else (hasfl (smap_capabilities pmod) SMAP_CAPA_QUERY \<longrightarrow> smap_query pmod \<noteq> None)
             \<and> (hasfl (smap_capabilities pmod) SMAP_CAPA_XFORM \<longrightarrow> smap_xform pmod \<noteq> None))"

definition load_module ::
  "(string option \<Rightarrow> 'h smap_module option option) \<Rightarrow> 'h smap_module_instance \<Rightarrow>
   'h smap_module_instance \<times> int" where
  "load_module dlopen inst =
     (if mi_handle inst then (inst, 1)
      else (case dlopen (if mi_argv inst = [] then None else Some (hd (mi_argv inst))) of
              None \<Rightarrow> (inst, 1)
            | Some None \<Rightarrow> (inst, 1)
            | Some (Some pmod) \<Rightarrow>
                if \<not> MODULE_ASSERT pmod then (inst, 1)
                else if (case smap_init pmod of None \<Rightarrow> False | Some f \<Rightarrow> f (mi_argv inst) \<noteq> 0)
                then (inst, 1)
                else (inst\<lparr>mi_handle := True, mi_module := Some pmod\<rparr>, 0)))"

definition remove_dependent_databases :: "'h modules \<Rightarrow> string \<Rightarrow> 'h modules" where
  "remove_dependent_databases ms modname =
     ms\<lparr>database_list := filter (\<lambda>p. db_modname p \<noteq> modname) (database_list ms)\<rparr>"

text \<open>\<open>kept\<close> are the modules before the current one that were loaded.\<close>

fun smap_modules_load_loop ::
  "(string option \<Rightarrow> 'h smap_module option option) \<Rightarrow> 'h smap_module_instance list \<Rightarrow>
   'h smap_module_instance list \<Rightarrow> 'h modules \<Rightarrow> 'h modules" where
  "smap_modules_load_loop dlopen kept [] ms = ms\<lparr>module_list := kept\<rparr>"
| "smap_modules_load_loop dlopen kept (p # ps) ms =
     (case load_module dlopen p of
        (p', rc) \<Rightarrow>
          if rc \<noteq> 0
          then smap_modules_load_loop dlopen kept ps (remove_dependent_databases ms (mi_id p'))
          else smap_modules_load_loop dlopen (kept @ [p']) ps ms)"

definition smap_modules_load ::
  "(string option \<Rightarrow> 'h smap_module option option) \<Rightarrow> 'h modules \<Rightarrow> 'h modules" where
  "smap_modules_load dlopen ms = smap_modules_load_loop dlopen [] (module_list ms) ms"

definition smap_modules_unload :: "'h modules \<Rightarrow> 'h modules" where
  "smap_modules_unload ms = ms\<lparr>module_list := map (\<lambda>p. p\<lparr>mi_handle := False\<rparr>) (module_list ms)\<rparr>"

section \<open>Databases\<close>

definition database_declare ::
  "'h modules \<Rightarrow> string \<Rightarrow> nat \<Rightarrow> string \<Rightarrow> string \<Rightarrow> string list \<Rightarrow>
   'h modules \<times> int \<times> 'h smap_database_instance" where
  "database_declare ms file line nm modname argv =
     (case database_locate ms nm of
        Some db \<Rightarrow> (ms, 1, db)
      | None \<Rightarrow>
          let db = \<lparr>db_file = file, db_line = line, db_id = nm, db_modname = modname, db_argv = argv,
                    db_inst = None, db_dbh = None, db_opened = False\<rparr>
          in (ms\<lparr>database_list := database_list ms @ [db]\<rparr>, 0, db))"

text \<open>
  One database.  A call through the null pointer \<open>inst->module\<close> does not return normally.
  When the database has no handle in the end it is detached and released, and
  the assignment \<open>p->inst = inst\<close> that follows is a store into released memory:
  the call does not return normally either.
\<close>

definition init_database ::
  "'h modules \<Rightarrow> 'h smap_database_instance \<Rightarrow> 'h smap_database_instance option" where
  "init_database ms p = do {
     let inst = module_locate ms (db_modname p);
     p \<leftarrow> (case inst of
            None \<Rightarrow> Some p
          | Some m \<Rightarrow> do {
              pmod \<leftarrow> mi_module m;
              init_db \<leftarrow> smap_init_db pmod;
              Some (p\<lparr>db_dbh := init_db (db_id p) (db_argv p)\<rparr>) });
     if db_dbh p = None then None
     else Some (p\<lparr>db_inst := map_option mi_id inst\<rparr>)
   }"

fun init_databases_loop ::
  "'h modules \<Rightarrow> 'h smap_database_instance list \<Rightarrow> 'h smap_database_instance list option" where
  "init_databases_loop ms [] = Some []"
| "init_databases_loop ms (p # ps) = do {
     p \<leftarrow> init_database ms p;
     ps \<leftarrow> init_databases_loop ms ps;
     Some (p # ps)
   }"

definition init_databases :: "'h modules \<Rightarrow> 'h modules option" where
  "init_databases ms = do {
     dbs \<leftarrow> init_databases_loop ms (database_list ms);
     Some (ms\<lparr>database_list := dbs\<rparr>)
   }"

text \<open>The module of a database, through \<open>p->inst->module\<close>.\<close>

definition db_module :: "'h modules \<Rightarrow> 'h smap_database_instance \<Rightarrow> 'h smap_module option" where
  "db_module ms p = do {
     i \<leftarrow> db_inst p;
     m \<leftarrow> module_locate ms i;
     mi_module m
   }"

fun close_databases_loop ::
  "'h modules \<Rightarrow> 'h smap_database_instance list \<Rightarrow> 'h smap_database_instance list option" where
  "close_databases_loop ms [] = Some []"
| "close_databases_loop ms (p # ps) = do {
     p \<leftarrow> (if db_opened p then do {
             pmod \<leftarrow> db_module ms p;
             Some ((case smap_close pmod of
                      None \<Rightarrow> p
                    | Some f \<Rightarrow> p\<lparr>db_dbh := map_option (fst \<circ> f) (db_dbh p)\<rparr>)\<lparr>db_opened := False\<rparr>)
           } else Some p);
     ps \<leftarrow> close_databases_loop ms ps;
     Some (p # ps)
   }"

definition close_databases :: "'h modules \<Rightarrow> 'h modules option" where
  "close_databases ms = do {
     dbs \<leftarrow> close_databases_loop ms (database_list ms);
     Some (ms\<lparr>database_list := dbs\<rparr>)
   }"

fun free_databases_loop ::
  "'h modules \<Rightarrow> 'h smap_database_instance list \<Rightarrow> 'h smap_database_instance list option" where
  "free_databases_loop ms [] = Some []"
| "free_databases_loop ms (p # ps) = do {
     _ \<leftarrow> db_module ms p;
     ps \<leftarrow> free_databases_loop ms ps;
     Some (p\<lparr>db_dbh := None\<rparr> # ps)
   }"

definition free_databases :: "'h modules \<Rightarrow> 'h modules option" where
  "free_databases ms = do {
     dbs \<leftarrow> free_databases_loop ms (database_list ms);
     Some (ms\<lparr>database_list := dbs\<rparr>)
   }"

end
