(* ===== verification/Smap_Echo.thy ===== *)
theory Smap_Echo
  imports Smap_Module
begin

text \<open>
  The module \<open>echo\<close> (\<open>modules/echo/echo.c\<close>): a database whose answer to every
  query is the list of its arguments.  The handle is the structure itself; \<open>ec_argv\<close>
  is what \<open>argv + 1\<close> points to (nothing, and \<open>argc\<close> is negative, if there was no argument).
\<close>

record echo_database =
  ec_argc :: int
  ec_argv :: "string list"

definition echo_init_db :: "bool \<Rightarrow> string \<Rightarrow> string list \<Rightarrow> echo_database option" where
  "echo_init_db granted dbid argv =
     (if granted then Some \<lparr>ec_argc = int (length argv) - 1, ec_argv = drop 1 argv\<rparr> else None)"

definition echo_free_db :: "echo_database \<Rightarrow> int" where
  "echo_free_db dbp = 0"

text \<open>The loop from argument \<open>i\<close> on: what it writes.\<close>

fun echo_loop :: "string list \<Rightarrow> nat \<Rightarrow> int \<Rightarrow> string list" where
  "echo_loop [] i argc = []"
| "echo_loop (a # as) i argc =
     (if int i < argc then (if i > 0 then ['' ''] else []) @ a # echo_loop as (Suc i) argc else [])"

definition echo_query ::
  "echo_database \<Rightarrow> string \<Rightarrow> string \<Rightarrow> smap_conninfo \<Rightarrow> echo_database \<times> int \<times> string list" where
  "echo_query dbp m key conninfo = (dbp, 0, echo_loop (ec_argv dbp) 0 (ec_argc dbp) @ [[NL]])"

definition echo_module :: "echo_database smap_module" where
  "echo_module =
     \<lparr>smap_version = SMAP_MODULE_VERSION, smap_capabilities = SMAP_CAPA_QUERY, smap_init = None,
      smap_init_db = Some (echo_init_db True), smap_free_db = Some echo_free_db, smap_open = None,
      smap_close = None, smap_query = Some echo_query, smap_xform = None\<rparr>"

text \<open>The answer: the arguments separated by single spaces.\<close>

fun unwords :: "string list \<Rightarrow> string" where
  "unwords [] = []"
| "unwords [a] = a"
| "unwords (a # as) = a @ '' '' @ unwords as"

lemma echo_loop_Suc:
  "as \<noteq> [] \<Longrightarrow> int (Suc i + length as) = argc \<Longrightarrow> concat (echo_loop as (Suc i) argc) = '' '' @ unwords as"
  by (induction as arbitrary: i rule: unwords.induct) auto

lemma echo_loop_unwords: "concat (echo_loop as 0 (int (length as))) = unwords as"
proof (cases as rule: unwords.cases)
  case (3 a b bs)
  with echo_loop_Suc [of "b # bs" 0 "int (length as)"] show ?thesis
    by (simp del: echo_loop.simps add: echo_loop.simps(2) [of a])
qed simp_all

text \<open>C20. An \<open>echo\<close> database answers every query with one line that holds its arguments,
  separated by spaces, and succeeds.\<close>

theorem echo_answers:
  "\<exists>db out. echo_init_db True dbid (nm # as) = Some db
    \<and> echo_query db m key ci = (db, 0, out) \<and> concat out = unwords as @ [NL]"
  by (simp add: echo_init_db_def echo_query_def echo_loop_unwords)

end
