(* ===== verification/Smap_Tables.thy ===== *)
theory Smap_Tables
  imports Smap_Echo
begin

text \<open>
  What the operations on the tables of modules and databases guarantee:
  identifiers stay distinct, a module in the table has been checked after
  loading, a database in the table has a handle and a checked module after
  the initialisation.  The module \<open>echo\<close> provides the concrete instances.
\<close>

section \<open>Invariants of the tables\<close>

definition ids_distinct :: "'h modules \<Rightarrow> bool" where
  "ids_distinct ms \<longleftrightarrow> distinct (map mi_id (module_list ms)) \<and> distinct (map db_id (database_list ms))"

definition modules_ready :: "'h modules \<Rightarrow> bool" where
  "modules_ready ms \<longleftrightarrow>
     list_all (\<lambda>m. case mi_module m of None \<Rightarrow> False | Some pmod \<Rightarrow> MODULE_ASSERT pmod) (module_list ms)"

definition db_usable :: "'h modules \<Rightarrow> 'h smap_database_instance \<Rightarrow> bool" where
  "db_usable ms d \<longleftrightarrow> db_dbh d \<noteq> None \<and>
     (case db_module ms d of None \<Rightarrow> False | Some pmod \<Rightarrow> MODULE_ASSERT pmod)"

definition databases_ready :: "'h modules \<Rightarrow> bool" where
  "databases_ready ms \<longleftrightarrow> list_all (db_usable ms) (database_list ms)"

lemma find_None_ids: "find (\<lambda>m. f m = nm) xs = None \<longleftrightarrow> nm \<notin> f ` set xs"
  by (auto simp: find_None_iff)

lemma find_append_None: "find P xs = None \<Longrightarrow> find P (xs @ ys) = find P ys"
  by (induction xs) (auto split: if_splits)

lemma find_SomeD: "find P xs = Some x \<Longrightarrow> x \<in> set xs \<and> P x"
  by (induction xs) (auto split: if_splits)

lemma module_declare_distinct:
  "ids_distinct ms \<Longrightarrow> module_declare ms file line nm argv = (ms', rc, mip) \<Longrightarrow> ids_distinct ms'"
  by (auto simp: module_declare_def module_locate_def ids_distinct_def find_None_ids Let_def split: option.splits)

lemma database_declare_distinct:
  "ids_distinct ms \<Longrightarrow> database_declare ms file line nm modname argv = (ms', rc, db) \<Longrightarrow> ids_distinct ms'"
  by (auto simp: database_declare_def database_locate_def ids_distinct_def find_None_ids Let_def split: option.splits)

lemma load_module_id: "load_module dlopen p = (p', rc) \<Longrightarrow> mi_id p' = mi_id p"
  by (auto simp: load_module_def split: if_splits option.splits)

lemma load_module_ready:
  "load_module dlopen p = (p', 0) \<Longrightarrow> mi_handle p' \<and> (\<exists>pmod. mi_module p' = Some pmod \<and> MODULE_ASSERT pmod)"
  by (auto simp: load_module_def split: if_splits option.splits)

text \<open>Loading keeps the modules that load and drops the others together with
  their databases.\<close>

definition loads :: "(string option \<Rightarrow> 'h smap_module option option) \<Rightarrow> 'h smap_module_instance \<Rightarrow> bool" where
  "loads dlopen p \<longleftrightarrow> snd (load_module dlopen p) = 0"

lemma modules_load_loop_spec:
  "smap_modules_load_loop dlopen kept ps ms =
     ms\<lparr>module_list := kept @ map (fst \<circ> load_module dlopen) (filter (loads dlopen) ps),
        database_list := filter (\<lambda>d. db_modname d \<notin> mi_id ` {p \<in> set ps. \<not> loads dlopen p}) (database_list ms)\<rparr>"
proof (induction ps arbitrary: kept ms)
  case Nil
  then show ?case by simp
next
  case (Cons p ps)
  obtain p' rc where l: "load_module dlopen p = (p', rc)" by fastforce
  note pid = load_module_id [OF l]
  have flt: "filter (\<lambda>d. db_modname d \<notin> mi_id ` {q \<in> set ps. \<not> loads dlopen q})
        (filter (\<lambda>d. db_modname d \<noteq> mi_id p) ds)
      = filter (\<lambda>d. db_modname d \<notin> mi_id ` {q \<in> set (p # ps). \<not> loads dlopen q}) ds"
    if "rc \<noteq> 0" for ds :: "'a smap_database_instance list"
    using that l by (intro trans [OF filter_filter] filter_cong) (auto simp: loads_def)
  have same: "{q \<in> set (p # ps). \<not> loads dlopen q} = {q \<in> set ps. \<not> loads dlopen q}" if "rc = 0"
    using that l by (auto simp: loads_def)
  show ?case
  proof (cases "rc = 0")
    case True
    then show ?thesis using l Cons.IH [of "kept @ [p']" ms] same [OF True] by (simp add: loads_def)
  next
    case False
    then have "filter (loads dlopen) (p # ps) = filter (loads dlopen) ps" using l by (simp add: loads_def)
    with False show ?thesis
      using l Cons.IH [of kept "remove_dependent_databases ms (mi_id p')"] flt [OF False] pid
      by (simp add: remove_dependent_databases_def)
  qed
qed

lemma modules_load_ready: "modules_ready (smap_modules_load dlopen ms)"
proof -
  have "\<exists>pmod. mi_module (fst (load_module dlopen m)) = Some pmod \<and> MODULE_ASSERT pmod"
    if "loads dlopen m" for m
    using that load_module_ready [of dlopen m "fst (load_module dlopen m)"] by (auto simp: loads_def prod_eq_iff)
  then show ?thesis
    by (fastforce simp: smap_modules_load_def modules_load_loop_spec modules_ready_def list_all_iff)
qed

lemma modules_load_distinct: 
  assumes "ids_distinct ms"
  shows "ids_distinct (smap_modules_load dlopen ms)"
proof -
  have "(mi_id \<circ> (fst \<circ> load_module dlopen)) = mi_id"
    using load_module_id [of dlopen] by (auto simp: prod_eq_iff)
  with assms show ?thesis
    by (simp add: smap_modules_load_def modules_load_loop_spec ids_distinct_def distinct_map_filter)
qed

text \<open>A database whose initialisation returns has a handle and a module.\<close>

lemma init_database_Some:
  assumes "init_database ms p = Some p'" "modules_ready ms" "ids_distinct ms" "db_dbh p = None"
  shows "db_usable ms p' \<and> db_id p' = db_id p \<and> db_modname p' = db_modname p"
proof (cases "module_locate ms (db_modname p)")
  case None
  with assms(1,4) show ?thesis by (simp add: init_database_def)
next
  case (Some m)
  then have m: "m \<in> set (module_list ms)" "mi_id m = db_modname p"
    by (auto simp: module_locate_def dest: find_SomeD)
  with assms(2) obtain pmod where pm: "mi_module m = Some pmod" "MODULE_ASSERT pmod"
    by (auto simp: modules_ready_def list_all_iff split: option.splits)
  with Some m assms(1) show ?thesis
    by (auto simp: init_database_def db_usable_def db_module_def bind_eq_Some_conv split: if_splits)
qed

lemma db_module_cong:
  "module_list ms' = module_list ms \<Longrightarrow> db_inst d' = db_inst d \<Longrightarrow> db_module ms' d' = db_module ms d"
  by (simp add: db_module_def module_locate_def)

lemma init_databases_ready:
  assumes "init_databases ms = Some ms'" "modules_ready ms" "ids_distinct ms"
    "\<forall>d \<in> set (database_list ms). db_dbh d = None"
  shows "databases_ready ms' \<and> modules_ready ms' \<and> ids_distinct ms'
    \<and> map db_id (database_list ms') = map db_id (database_list ms)"
proof -
  from assms(1) obtain dbs where l: "init_databases_loop ms (database_list ms) = Some dbs"
    and ms': "ms' = ms\<lparr>database_list := dbs\<rparr>" by (auto simp: init_databases_def bind_eq_Some_conv)
  have "list_all (db_usable ms) dbs \<and> map db_id dbs = map db_id ps"
    if "init_databases_loop ms ps = Some dbs" "\<forall>d \<in> set ps. db_dbh d = None" for ps dbs
    using that
  proof (induction ps arbitrary: dbs)
    case (Cons p ps)
    with init_database_Some [OF _ assms(2,3)] show ?case by (auto simp: bind_eq_Some_conv)
  qed simp
  from this [OF l assms(4)] assms(2,3) show ?thesis
    by (auto simp: databases_ready_def modules_ready_def ids_distinct_def ms' db_usable_def
        db_module_cong [of ms' ms] list_all_iff db_module_def module_locate_def)
qed

text \<open>When every database names a loaded module that accepts its arguments, the
  initialisation returns.\<close>

definition initializable :: "'h modules \<Rightarrow> 'h smap_database_instance \<Rightarrow> bool" where
  "initializable ms p \<longleftrightarrow>
     (case module_locate ms (db_modname p) of
        None \<Rightarrow> False
      | Some m \<Rightarrow> (case mi_module m of
          None \<Rightarrow> False
        | Some pmod \<Rightarrow> (case smap_init_db pmod of
            None \<Rightarrow> False
          | Some init_db \<Rightarrow> init_db (db_id p) (db_argv p) \<noteq> None)))"

lemma init_database_returns:
  "db_dbh p = None \<Longrightarrow> (\<exists>p'. init_database ms p = Some p') \<longleftrightarrow> initializable ms p"
  by (auto simp: init_database_def initializable_def split: option.splits)

lemma init_databases_returns:
  assumes "\<forall>d \<in> set (database_list ms). db_dbh d = None"
  shows "(\<exists>ms'. init_databases ms = Some ms') \<longleftrightarrow> list_all (initializable ms) (database_list ms)"
proof -
  have "(\<exists>dbs. init_databases_loop ms ps = Some dbs) \<longleftrightarrow> list_all (initializable ms) ps"
    if "\<forall>d \<in> set ps. db_dbh d = None" for ps
    using that
  proof (induction ps)
    case (Cons p ps)
    with init_database_returns [of p ms] show ?case by (auto simp: bind_eq_Some_conv)
  qed simp
  with assms show ?thesis by (auto simp: init_databases_def bind_eq_Some_conv)
qed

text \<open>Closing.\<close>

lemma close_databases_loop_spec:
  "list_all (db_usable ms) ps \<Longrightarrow>
   \<exists>dbs. close_databases_loop ms ps = Some dbs \<and> list_all (\<lambda>d. \<not> db_opened d) dbs
     \<and> list_all (db_usable ms) dbs \<and> map db_id dbs = map db_id ps"
proof (induction ps)
  case (Cons p ps)
  from Cons.prems obtain pmod where "db_module ms p = Some pmod" "db_dbh p \<noteq> None" "MODULE_ASSERT pmod"
    by (auto simp: db_usable_def split: option.splits)
  with Cons show ?case
    by (auto simp: db_usable_def db_module_def split: option.splits)
qed simp

section \<open>Properties\<close>

text \<open>C12. After loading, the table holds exactly the modules that could be loaded, in their order
  and with their checked entry points, and exactly the databases whose module
  did not fail to load; identifiers stay distinct.\<close>

theorem modules_load_correct:
  assumes "ids_distinct ms"
  shows "ids_distinct (smap_modules_load dlopen ms) \<and> modules_ready (smap_modules_load dlopen ms)
    \<and> map mi_id (module_list (smap_modules_load dlopen ms)) = map mi_id (filter (loads dlopen) (module_list ms))
    \<and> database_list (smap_modules_load dlopen ms)
        = filter (\<lambda>d. db_modname d \<notin> mi_id ` {p \<in> set (module_list ms). \<not> loads dlopen p}) (database_list ms)"
proof -
  have "(mi_id \<circ> (fst \<circ> load_module dlopen)) = mi_id"
    using load_module_id [of dlopen] by (auto simp: prod_eq_iff)
  then show ?thesis
    using assms modules_load_distinct [OF assms] modules_load_ready
    by (simp add: smap_modules_load_def modules_load_loop_spec)
qed

text \<open>C13. Initialising the databases.  The call returns if and only if every database names a
  declared module that gives it a handle (otherwise it stores into memory it
  has released); when it returns, every database has a handle and a module
  with checked entry points, and the table has the same databases.\<close>

theorem init_databases_correct:
  assumes "ids_distinct ms" "modules_ready ms" "\<forall>d \<in> set (database_list ms). db_dbh d = None"
  shows "((\<exists>ms'. init_databases ms = Some ms') \<longleftrightarrow> list_all (initializable ms) (database_list ms))
    \<and> (\<forall>ms'. init_databases ms = Some ms' \<longrightarrow> databases_ready ms' \<and> modules_ready ms' \<and> ids_distinct ms'
         \<and> map db_id (database_list ms') = map db_id (database_list ms))"
  using init_databases_returns [OF assms(3)] init_databases_ready [OF _ assms(2,1,3)] by blast

definition echo_tables :: "echo_database modules" where
  "echo_tables =
     fst (database_declare
       (fst (module_declare
         (fst (module_declare
           \<lparr>module_list = [], database_list = [], mod_load_path = (\<lambda>_. None)\<rparr>
           ''smapd.conf'' 1 ''echo'' [''echo'']))
         ''smapd.conf'' 2 ''other'' [''other'']))
       ''smapd.conf'' 3 ''ok'' ''echo'' [''echo'', ''OK''])"

definition echo_dlopen :: "string option \<Rightarrow> echo_database smap_module option option" where
  "echo_dlopen nm = (if nm = Some ''echo'' then Some (Some echo_module) else None)"

lemmas echo_eval = echo_tables_def echo_dlopen_def module_declare_def database_declare_def module_locate_def
  database_locate_def load_module_def MODULE_ASSERT_def echo_module_def loads_def Let_def hasfl_numeral

lemma echo_tables_modules:
  "map mi_id (filter (loads echo_dlopen) (module_list echo_tables)) = [''echo'']"
  "mi_id ` {p \<in> set (module_list echo_tables). \<not> loads echo_dlopen p} = {''other''}"
  "ids_distinct echo_tables"
proof -
  have "mi_id ` {p \<in> set (module_list echo_tables). \<not> loads echo_dlopen p}
      = mi_id ` set (filter (\<lambda>p. \<not> loads echo_dlopen p) (module_list echo_tables))" by simp
  also have "\<dots> = {''other''}" by (simp add: echo_eval)
  finally show "mi_id ` {p \<in> set (module_list echo_tables). \<not> loads echo_dlopen p} = {''other''}" .
qed (simp_all add: echo_eval ids_distinct_def)

theorem modules_load_correct_witness:
  "map mi_id (module_list (smap_modules_load echo_dlopen echo_tables)) = [''echo'']
   \<and> map db_id (database_list (smap_modules_load echo_dlopen echo_tables)) = [''ok'']"
  using modules_load_correct [OF echo_tables_modules(3), of echo_dlopen]
  unfolding echo_tables_modules by (simp add: echo_eval)

theorem init_databases_correct_witness:
  "\<exists>ms. init_databases (smap_modules_load echo_dlopen echo_tables) = Some ms \<and> databases_ready ms"
proof -
  let ?ms = "smap_modules_load echo_dlopen echo_tables"
  have d: "ids_distinct ?ms" by (rule modules_load_distinct) (simp add: echo_eval ids_distinct_def)
  have s: "\<forall>d \<in> set (database_list ?ms). db_dbh d = None" "list_all (initializable ?ms) (database_list ?ms)"
    by (simp_all add: echo_eval smap_modules_load_def remove_dependent_databases_def initializable_def echo_init_db_def)
  from init_databases_correct [OF d modules_load_ready s(1)] s(2) show ?thesis by blast
qed

end
