(* ===== verification/Smap_Query.thy ===== *)
theory Smap_Query
  imports Smap_Tables
begin

text \<open>
  Dispatching of queries (\<open>src/query.c\<close>): the parser of dispatch rules, the
  link between rules and databases, and the selection of the database that
  answers a query.

  The matching of wildcards and regular expressions and the resolver are
  library services: \<open>query_env\<close> has them as functions, with \<open>'re\<close> the type of
  compiled expressions.  The words of the configuration line that the parser
  has not read yet (the static variable \<open>input\<close>) are threaded through the
  parser.  The strings that are written to the output stream are collected in a
  list, one for each write.
\<close>

section \<open>Data\<close>

record 're query_env =
  qe_regcomp :: "string \<Rightarrow> bool \<Rightarrow> bool \<Rightarrow> 're option"
  qe_regexec :: "'re \<Rightarrow> string \<Rightarrow> bool"
  qe_fnmatch :: "string \<Rightarrow> string \<Rightarrow> bool"
  qe_inet_aton :: "string \<Rightarrow> 32 word option"
  qe_gethostbyname :: "string \<Rightarrow> 32 word option"

text \<open>The address of a rule of the Internet family is kept in host order.\<close>

record smap_sockaddr =
  ssa_netmask :: "32 word"
  ssa_salen :: nat
  ssa_sa :: sockaddr

datatype comparison = comp_eq | comp_like | comp_re

record 're comp_cond =
  cc_op :: comparison
  cc_str :: string
  cc_re :: "'re option"

datatype 're query_cond =
    query_cond_not "'re query_cond"
  | query_cond_source smap_sockaddr
  | query_cond_server string
  | query_cond_map "'re comp_cond"
  | query_cond_key "'re comp_cond"

abbreviation (input) XFORM_NONE :: nat where "XFORM_NONE \<equiv> 0"
abbreviation (input) XFORM_MAP :: nat where "XFORM_MAP \<equiv> 1"
abbreviation (input) XFORM_KEY :: nat where "XFORM_KEY \<equiv> 2"

record 're dispatch_rule =
  dr_file :: string
  dr_line :: nat
  dr_cond :: "'re query_cond list"
  dr_dbname :: string
  dr_dbi :: "string option"
  dr_xform :: nat

section \<open>Addresses\<close>

text \<open>Byte order of the network on a little-endian machine.\<close>

definition ntohl :: "32 word \<Rightarrow> 32 word" where
  "ntohl w = push_bit 24 (w AND 0xFF) OR push_bit 8 (w AND 0xFF00)
     OR drop_bit 8 (w AND 0xFF0000) OR drop_bit 24 (w AND 0xFF000000)"

definition S_UN_NAME :: "string \<Rightarrow> nat \<Rightarrow> string" where
  "S_UN_NAME path salen = (if salen < 2 then '''' else path)"

definition match_sockaddr :: "smap_sockaddr \<Rightarrow> sockaddr \<Rightarrow> nat \<Rightarrow> bool" where
  "match_sockaddr sptr sa len =
     (case (ssa_sa sptr, sa) of
        (AF_INET item, AF_INET clt) \<Rightarrow> item = (ntohl clt AND ssa_netmask sptr)
      | (AF_UNIX item, AF_UNIX clt) \<Rightarrow>
          S_UN_NAME clt len \<noteq> [] \<and> S_UN_NAME item (ssa_salen sptr) \<noteq> [] \<and> clt = item
      | _ \<Rightarrow> False)"

section \<open>The parser\<close>

datatype query_tok =
    T_FROM | T_SERVER | T_MAP | T_LIKE | T_EQ | T_REGEXP | T_DB | T_NOT | T_TRANSFORM | T_KEY

definition query_kwtab :: "query_tok kwtab" where
  "query_kwtab =
     [(''from'', T_FROM), (''server'', T_SERVER), (''map'', T_MAP), (''like'', T_LIKE),
      (''fnmatch'', T_LIKE), (''regexp'', T_REGEXP), (''eq'', T_EQ), (''is'', T_EQ),
      (''database'', T_DB), (''not'', T_NOT), (''transform'', T_TRANSFORM), (''key'', T_KEY)]"

text \<open>The outcome of a parsing function: \<open>PFault\<close> if it does not return normally,
  \<open>PErr\<close> if it returns 1, or its result and the words that are left.\<close>

datatype 'a pres = PFault | PErr | POk 'a "string list"

fun nextarg :: "string list \<Rightarrow> string pres" where
  "nextarg [] = PErr"
| "nextarg (s # input) = POk s input"

fun pbind :: "'a pres \<Rightarrow> ('a \<Rightarrow> string list \<Rightarrow> 'b pres) \<Rightarrow> 'b pres" where
  "pbind PFault f = PFault"
| "pbind PErr f = PErr"
| "pbind (POk a input) f = f a input"

definition parse_dispatch_server :: "string list \<Rightarrow> 're query_cond pres" where
  "parse_dispatch_server input = pbind (nextarg input) (\<lambda>arg input. POk (query_cond_server arg) input)"

text \<open>The flags after the closing delimiter: case folding and extended syntax.\<close>

fun regexp_flags :: "string \<Rightarrow> bool \<times> bool \<Rightarrow> (bool \<times> bool) option" where
  "regexp_flags [] fl = Some fl"
| "regexp_flags (q # qs) (icase, ext) =
     (if q = CHR ''i'' then regexp_flags qs (True, ext)
      else if q = CHR ''b'' then regexp_flags qs (icase, False)
      else if q = CHR ''x'' then regexp_flags qs (icase, True)
      else None)"

text \<open>The offset of the last occurrence.\<close>

fun strrchr :: "string \<Rightarrow> char \<Rightarrow> nat option" where
  "strrchr [] c = None"
| "strrchr (x # xs) c =
     (case strrchr xs c of
        Some i \<Rightarrow> Some (Suc i)
      | None \<Rightarrow> if x = c then Some 0 else None)"

definition parse_regexp :: "'re query_env \<Rightarrow> string \<Rightarrow> 're option" where
  "parse_regexp env s =
     (if s = [] \<or> \<not> ispunct (hd s) then None
      else (case strrchr s (hd s) of
              None \<Rightarrow> None
            | Some p \<Rightarrow>
                if p = 0 then None
                else (case regexp_flags (drop (p + 1) s) (False, True) of
                        None \<Rightarrow> None
                      | Some (icase, ext) \<Rightarrow> qe_regcomp env (take (p - 1) (drop 1 s)) icase ext)))"

text \<open>\<open>mk\<close> is the constructor of the condition, for a map or for a key.\<close>

definition parse_dispatch_comp ::
  "'re query_env \<Rightarrow> ('re comp_cond \<Rightarrow> 're query_cond) \<Rightarrow> string list \<Rightarrow> 're query_cond pres" where
  "parse_dispatch_comp env mk input =
     pbind (nextarg input) (\<lambda>s input.
       case smap_kwtab_nametotok query_kwtab s of
         Some T_LIKE \<Rightarrow> pbind (nextarg input) (\<lambda>s input.
           POk (mk \<lparr>cc_op = comp_like, cc_str = s, cc_re = None\<rparr>) input)
       | Some T_EQ \<Rightarrow> pbind (nextarg input) (\<lambda>s input.
           POk (mk \<lparr>cc_op = comp_eq, cc_str = s, cc_re = None\<rparr>) input)
       | Some T_REGEXP \<Rightarrow> pbind (nextarg input) (\<lambda>s input.
           case parse_regexp env s of
             None \<Rightarrow> PErr
           | Some re \<Rightarrow> POk (mk \<lparr>cc_op = comp_re, cc_str = s, cc_re = Some re\<rparr>) input)
       | _ \<Rightarrow> POk (mk \<lparr>cc_op = comp_eq, cc_str = s, cc_re = None\<rparr>) input)"

text \<open>
  The network mask from the text after the slash.  A length above 32 makes the
  shift count negative: the behaviour is undefined (\<open>PFault\<close>).  A mask in
  dotted form is stored as \<open>inet_aton\<close> returns it, in network order.
\<close>

definition parse_netmask :: "'re query_env \<Rightarrow> string \<Rightarrow> 32 word pres" where
  "parse_netmask env p =
     (case strtoul p 10 of
        (n, q) \<Rightarrow>
          let netlen = n mod 2 ^ 32 in
          if q = [] then
            if netlen = 0 then POk 0 []
            else if netlen > 32 then PFault
            else POk (push_bit (32 - netlen) (drop_bit (32 - netlen) 0xFFFFFFFF)) []
          else if hd q = CHR ''.'' then
            (case qe_inet_aton env p of
               None \<Rightarrow> PErr
             | Some a \<Rightarrow> POk a [])
          else PErr)"

text \<open>
  The structure that is allocated for an address has 14 bytes for its path: a
  longer one (with the terminating NUL) is stored beyond it.  \<open>sizeof(s_un)\<close> is
  the size of a pointer.
\<close>

definition parse_dispatch_from :: "'re query_env \<Rightarrow> string list \<Rightarrow> 're query_cond pres" where
  "parse_dispatch_from env input =
     pbind (nextarg input) (\<lambda>str input.
       if str \<noteq> [] \<and> hd str = CHR ''/'' then
         if length str \<ge> 108 then PErr
         else if length str + 1 > 14 then PFault
         else POk (query_cond_source \<lparr>ssa_netmask = 0, ssa_salen = 8, ssa_sa = AF_UNIX str\<rparr>) input
       else
         let p = memchr (CHR ''/'') str;
             host = (case p of None \<Rightarrow> str | Some i \<Rightarrow> take i str) in
         (case (case qe_inet_aton env host of
                  Some a \<Rightarrow> Some a
                | None \<Rightarrow> qe_gethostbyname env host) of
            None \<Rightarrow> PErr
          | Some addr \<Rightarrow>
              (case p of
                 None \<Rightarrow>
                   POk (query_cond_source
                     \<lparr>ssa_netmask = 0xFFFFFFFF, ssa_salen = 8, ssa_sa = AF_INET (ntohl addr)\<rparr>) input
               | Some i \<Rightarrow>
                   pbind (parse_netmask env (drop (i + 1) str)) (\<lambda>mask _.
                     POk (query_cond_source
                       \<lparr>ssa_netmask = mask, ssa_salen = 8, ssa_sa = AF_INET (ntohl addr)\<rparr>) input))))"

function (sequential) parse_subcond :: "'re query_env \<Rightarrow> string list \<Rightarrow> 're query_cond pres"
  and parse_dispatch_not :: "'re query_env \<Rightarrow> string list \<Rightarrow> 're query_cond pres" where
  "parse_subcond env [] = PErr"
| "parse_subcond env (s # input) =
     (case smap_kwtab_nametotok query_kwtab s of
        None \<Rightarrow> PErr
      | Some T_NOT \<Rightarrow> parse_dispatch_not env input
      | Some T_FROM \<Rightarrow> parse_dispatch_from env input
      | Some T_SERVER \<Rightarrow> parse_dispatch_server input
      | Some T_MAP \<Rightarrow> parse_dispatch_comp env query_cond_map input
      | Some T_KEY \<Rightarrow> parse_dispatch_comp env query_cond_key input
      | _ \<Rightarrow> PErr)"
| "parse_dispatch_not env input =
     pbind (parse_subcond env input) (\<lambda>subcond input. POk (query_cond_not subcond) input)"
  by pat_completeness auto
termination
  by (relation "measure (\<lambda>x. case x of Inl (_, i) \<Rightarrow> 2 * length i | Inr (_, i) \<Rightarrow> 2 * length i + 1)") auto

text \<open>
  One step of the loop of \<open>parse_complex_dispatch\<close> for the clauses that set the
  database: \<open>tok\<close> and, for a transformation, \<open>subtok\<close>.  The result is the code,
  the database name, the kind of transformation, and the words left.  When the
  code is 1 the loop ends, but what has been stored stays stored.
\<close>

definition parse_db_clause ::
  "query_tok option \<Rightarrow> string option \<Rightarrow> nat \<Rightarrow> string list \<Rightarrow>
   int \<times> string option \<times> nat \<times> string list" where
  "parse_db_clause subtok dbname xform input =
     (let (rc, dbname, input) =
            (case input of
               [] \<Rightarrow> (1, dbname, [])
             | s # input \<Rightarrow>
                 if dbname \<noteq> None then (1, dbname, input) else (0, Some s, input))
      in case subtok of
           None \<Rightarrow> (rc, dbname, xform, input)
         | Some T_MAP \<Rightarrow> (rc, dbname, XFORM_MAP, input)
         | Some T_KEY \<Rightarrow> (rc, dbname, XFORM_KEY, input)
         | _ \<Rightarrow> (1, dbname, xform, input))"

text \<open>A clause that gives a condition.\<close>

definition parse_cond_clause ::
  "'re query_env \<Rightarrow> query_tok \<Rightarrow> string list \<Rightarrow> 're query_cond pres" where
  "parse_cond_clause env tok input =
     (case tok of
        T_NOT \<Rightarrow> parse_dispatch_not env input
      | T_FROM \<Rightarrow> parse_dispatch_from env input
      | T_SERVER \<Rightarrow> parse_dispatch_server input
      | T_MAP \<Rightarrow> parse_dispatch_comp env query_cond_map input
      | T_KEY \<Rightarrow> parse_dispatch_comp env query_cond_key input
      | _ \<Rightarrow> PErr)"

definition is_cond_tok :: "query_tok \<Rightarrow> bool" where
  "is_cond_tok tok \<longleftrightarrow> tok \<in> set [T_NOT, T_FROM, T_SERVER, T_MAP, T_KEY]"

text \<open>The state of the loop: the conditions so far, the database, the
  transformation.  \<open>fuel\<close> bounds the number of words; each step reads at least one.\<close>

fun parse_complex_loop ::
  "'re query_env \<Rightarrow> nat \<Rightarrow> string list \<Rightarrow> 're query_cond list \<Rightarrow> string option \<Rightarrow> nat \<Rightarrow>
   ('re query_cond list \<times> string option \<times> nat) option" where
  "parse_complex_loop env fuel [] conds dbname xform = Some (conds, dbname, xform)"
| "parse_complex_loop env 0 (s # input) conds dbname xform = None"
| "parse_complex_loop env (Suc fuel) (s # input) conds dbname xform =
     (case smap_kwtab_nametotok query_kwtab s of
        None \<Rightarrow> Some (conds, dbname, xform)
      | Some tok \<Rightarrow>
          if is_cond_tok tok then
            (case parse_cond_clause env tok input of
               PFault \<Rightarrow> None
             | PErr \<Rightarrow> Some (conds, dbname, xform)
             | POk c input \<Rightarrow> parse_complex_loop env fuel input (conds @ [c]) dbname xform)
          else if tok = T_TRANSFORM then
            (case input of
               [] \<Rightarrow> Some (conds, dbname, xform)
             | s # input \<Rightarrow>
                 (case smap_kwtab_nametotok query_kwtab s of
                    None \<Rightarrow> Some (conds, dbname, xform)
                  | Some subtok \<Rightarrow>
                      (case parse_db_clause (Some subtok) dbname xform input of
                         (rc, dbname, xform, input) \<Rightarrow>
                           if rc = 1 then Some (conds, dbname, xform)
                           else parse_complex_loop env fuel input conds dbname xform)))
          else if tok = T_DB then
            (case parse_db_clause None dbname xform input of
               (rc, dbname, xform, input) \<Rightarrow>
                 if rc = 1 then Some (conds, dbname, xform)
                 else parse_complex_loop env fuel input conds dbname xform)
          else parse_complex_loop env fuel input conds dbname xform)"

text \<open>The result is the list of rules with the new one attached, and the code.\<close>

definition parse_complex_dispatch ::
  "'re query_env \<Rightarrow> string \<Rightarrow> nat \<Rightarrow> 're dispatch_rule list \<Rightarrow> string list \<Rightarrow>
   ('re dispatch_rule list \<times> int) option" where
  "parse_complex_dispatch env cfg_file_name cfg_line rules input = do {
     (head, dbname, xform) \<leftarrow> parse_complex_loop env (length input) input [] None XFORM_NONE;
     (case dbname of
        None \<Rightarrow> Some (rules, 1)
      | Some nm \<Rightarrow>
          Some (rules @ [\<lparr>dr_file = cfg_file_name, dr_line = cfg_line, dr_cond = head, dr_dbname = nm,
                          dr_dbi = None, dr_xform = xform\<rparr>], 0))
   }"

definition parse_default_dispatch ::
  "string \<Rightarrow> nat \<Rightarrow> 're dispatch_rule list \<Rightarrow> string list \<Rightarrow> 're dispatch_rule list \<times> int" where
  "parse_default_dispatch cfg_file_name cfg_line rules input =
     (case input of
        s # nm # rest \<Rightarrow>
          if smap_kwtab_nametotok query_kwtab s \<noteq> Some T_DB \<or> rest \<noteq> [] then (rules, 1)
          else (rules @ [\<lparr>dr_file = cfg_file_name, dr_line = cfg_line, dr_cond = [], dr_dbname = nm,
                          dr_dbi = None, dr_xform = XFORM_NONE\<rparr>], 0)
      | _ \<Rightarrow> (rules, 1))"

definition parse_dispatch ::
  "'re query_env \<Rightarrow> string \<Rightarrow> nat \<Rightarrow> 're dispatch_rule list \<Rightarrow> string list \<Rightarrow>
   ('re dispatch_rule list \<times> int) option" where
  "parse_dispatch env cfg_file_name cfg_line rules wordv =
     (if wordv \<noteq> [] \<and> hd wordv = ''default''
      then Some (parse_default_dispatch cfg_file_name cfg_line rules (tl wordv))
      else parse_complex_dispatch env cfg_file_name cfg_line rules wordv)"

section \<open>Linking\<close>

definition rule_fixup ::
  "'h modules \<Rightarrow> 're dispatch_rule \<Rightarrow> ('re dispatch_rule \<times> int) option" where
  "rule_fixup ms p =
     (case database_locate ms (dr_dbname p) of
        None \<Rightarrow> Some (p, 1)
      | Some dbi \<Rightarrow> do {
          pmod \<leftarrow> db_module ms dbi;
          if smap_version pmod = 1 \<and> dr_xform p \<noteq> XFORM_NONE then Some (p, 1)
          else if smap_version pmod > 1 \<and> dr_xform p \<noteq> XFORM_NONE
                  \<and> \<not> hasfl (smap_capabilities pmod) SMAP_CAPA_XFORM then Some (p, 1)
          else if smap_version pmod > 1 \<and> dr_xform p = XFORM_NONE
                  \<and> \<not> hasfl (smap_capabilities pmod) SMAP_CAPA_QUERY then Some (p, 1)
          else Some (p\<lparr>dr_dbi := Some (db_id dbi)\<rparr>, 0)
        })"

fun link_dispatch_rules ::
  "'h modules \<Rightarrow> 're dispatch_rule list \<Rightarrow> 're dispatch_rule list option" where
  "link_dispatch_rules ms [] = Some []"
| "link_dispatch_rules ms (p # ps) = do {
     (p, rc) \<leftarrow> rule_fixup ms p;
     ps \<leftarrow> link_dispatch_rules ms ps;
     Some (if rc \<noteq> 0 then ps else p # ps)
   }"

section \<open>Matching\<close>

record query_pack =
  qp_server_id :: string
  qp_conninfo :: smap_conninfo
  qp_map :: string
  qp_key :: string

definition compare :: "'re query_env \<Rightarrow> 're comp_cond \<Rightarrow> string \<Rightarrow> bool" where
  "compare env cond m =
     (case cc_op cond of
        comp_eq \<Rightarrow> cc_str cond = m
      | comp_like \<Rightarrow> qe_fnmatch env (cc_str cond) m
      | comp_re \<Rightarrow> (case cc_re cond of None \<Rightarrow> False | Some re \<Rightarrow> qe_regexec env re m))"

fun match_cond :: "'re query_env \<Rightarrow> 're query_cond \<Rightarrow> query_pack \<Rightarrow> bool" where
  "match_cond env (query_cond_not c) qp = match_cond env c qp"
| "match_cond env (query_cond_source addr) qp =
     match_sockaddr addr (ci_src (qp_conninfo qp)) (ci_srclen (qp_conninfo qp))"
| "match_cond env (query_cond_server nm) qp = (nm = qp_server_id qp)"
| "match_cond env (query_cond_map cmp) qp = compare env cmp (qp_map qp)"
| "match_cond env (query_cond_key cmp) qp = compare env cmp (qp_key qp)"

fun match_cond_list :: "'re query_env \<Rightarrow> 're query_cond list \<Rightarrow> query_pack \<Rightarrow> bool" where
  "match_cond_list env [] qp = True"
| "match_cond_list env (c # cs) qp = (if \<not> match_cond env c qp then False else match_cond_list env cs qp)"

text \<open>A pointer into the list of rules is the rest of the list from it on; the
  null pointer is the empty list.\<close>

fun find_rule_loop :: "'re query_env \<Rightarrow> query_pack \<Rightarrow> 're dispatch_rule list \<Rightarrow> 're dispatch_rule list" where
  "find_rule_loop env qp [] = []"
| "find_rule_loop env qp (p # ps) =
     (if match_cond_list env (dr_cond p) qp then p # ps else find_rule_loop env qp ps)"

definition find_dispatch_rule ::
  "'re query_env \<Rightarrow> 're dispatch_rule list \<Rightarrow> query_pack \<Rightarrow> 're dispatch_rule list \<Rightarrow> 're dispatch_rule list"
where
  "find_dispatch_rule env dispatch_head qp start =
     find_rule_loop env qp (if start = [] then dispatch_head else start)"

section \<open>Dispatching\<close>

definition update_database :: "'h modules \<Rightarrow> 'h smap_database_instance \<Rightarrow> 'h modules" where
  "update_database ms d =
     ms\<lparr>database_list := map (\<lambda>e. if db_id e = db_id d then d else e) (database_list ms)\<rparr>"

definition NOTFOUND :: "string list" where
  "NOTFOUND = [''NOTFOUND'' @ [NL]]"

text \<open>Opening on first use: the tables, the database, and whether it is open.\<close>

definition open_database ::
  "'h modules \<Rightarrow> 'h smap_module \<Rightarrow> 'h smap_database_instance \<Rightarrow> 'h \<Rightarrow>
   'h modules \<times> 'h smap_database_instance \<times> 'h \<times> bool" where
  "open_database ms pmod dbi dbh =
     (if db_opened dbi then (ms, dbi, dbh, True)
      else
        let (dbh, rc) = (case smap_open pmod of None \<Rightarrow> (dbh, 0) | Some f \<Rightarrow> f dbh);
            dbi = dbi\<lparr>db_dbh := Some dbh, db_opened := (rc = 0)\<rparr>
        in (update_database ms dbi, dbi, dbh, rc = 0))"

text \<open>
  One pass of the loop for the rule \<open>qr\<close> and the rules \<open>next\<close> after it: either the
  final state and output, or the state with which the loop goes on, or the failure
  of a query, with what it printed.  A missing
  entry point, and a rule without a database, do not return normally.
\<close>

datatype 'h dispatch_step =
    Answered "'h modules" "string list"
  | QueryFailed "'h modules" "string list"
  | Continue "'h modules" query_pack

definition dispatch_step ::
  "smap_conninfo \<Rightarrow> 're dispatch_rule \<Rightarrow> 'h modules \<Rightarrow> query_pack \<Rightarrow> 'h dispatch_step option" where
  "dispatch_step conninfo qr ms qp = do {
     nm \<leftarrow> dr_dbi qr;
     dbi \<leftarrow> database_locate ms nm;
     pmod \<leftarrow> db_module ms dbi;
     dbh \<leftarrow> db_dbh dbi;
     (case open_database ms pmod dbi dbh of
        (ms, dbi, dbh, ok) \<Rightarrow>
          if \<not> ok then Some (Answered ms NOTFOUND)
          else if dr_xform qr \<noteq> XFORM_NONE then do {
            xform \<leftarrow> smap_xform pmod;
            (case xform dbh conninfo (if dr_xform qr = XFORM_KEY then qp_key qp else qp_map qp) of
               (dbh, rc, narg) \<Rightarrow>
                 let ms = update_database ms (dbi\<lparr>db_dbh := Some dbh\<rparr>) in
                 Some (Continue ms
                   (case narg of
                      Some s \<Rightarrow>
                        if rc = 0 then
                          if dr_xform qr = XFORM_KEY then qp\<lparr>qp_key := s\<rparr> else qp\<lparr>qp_map := s\<rparr>
                        else qp
                    | None \<Rightarrow> qp)))
          }
          else do {
            query \<leftarrow> smap_query pmod;
            (case query dbh (qp_map qp) (qp_key qp) conninfo of
               (dbh, rc, out) \<Rightarrow>
                 let ms = update_database ms (dbi\<lparr>db_dbh := Some dbh\<rparr>) in
                 Some (if rc \<noteq> 0 then QueryFailed ms out else Answered ms out))
          })
   }"

lemma find_rule_loop_length: "length (find_rule_loop env qp rs) \<le> length rs"
  by (induction rs) auto

function dispatch_query_loop ::
  "'re query_env \<Rightarrow> smap_conninfo \<Rightarrow> 're dispatch_rule list \<Rightarrow> 're dispatch_rule list \<Rightarrow>
   'h modules \<Rightarrow> query_pack \<Rightarrow> ('h modules \<times> string list) option" where
  "dispatch_query_loop env conninfo dispatch_head start ms qp =
     (case find_dispatch_rule env dispatch_head qp start of
        [] \<Rightarrow> Some (ms, NOTFOUND)
      | qr # next \<Rightarrow>
          (case dispatch_step conninfo qr ms qp of
             None \<Rightarrow> None
           | Some (QueryFailed ms out) \<Rightarrow> Some (ms, out @ NOTFOUND)
           | Some (Answered ms out) \<Rightarrow> Some (ms, out)
           | Some (Continue ms qp) \<Rightarrow>
               if next = [] then Some (ms, NOTFOUND)
               else dispatch_query_loop env conninfo dispatch_head next ms qp))"
  by pat_completeness auto
termination
proof (relation "measure (\<lambda>(env, ci, h, start, ms, qp). length (if start = [] then h else start))")
  fix env :: "'re query_env" and ci h start and ms ms2 :: "'h modules" and qp qp2 qr nxt
  assume "find_dispatch_rule env h qp start = qr # nxt" "nxt \<noteq> []"
  then show "((env, ci, h, nxt, ms2, qp2), (env, ci, h, start, ms, qp))
      \<in> measure (\<lambda>(env, ci, h, start, ms, qp). length (if start = [] then h else start))"
    using find_rule_loop_length [of env qp "if start = [] then h else start"]
    by (simp add: find_dispatch_rule_def split: if_splits)
qed simp

definition dispatch_query_pack ::
  "'re query_env \<Rightarrow> 're dispatch_rule list \<Rightarrow> query_pack \<Rightarrow> smap_conninfo \<Rightarrow> 'h modules \<Rightarrow>
   ('h modules \<times> string list) option" where
  "dispatch_query_pack env dispatch_head qp conninfo ms =
     dispatch_query_loop env conninfo dispatch_head [] ms qp"

definition dispatch_query ::
  "'re query_env \<Rightarrow> 're dispatch_rule list \<Rightarrow> string \<Rightarrow> smap_conninfo \<Rightarrow> string \<Rightarrow> string \<Rightarrow>
   'h modules \<Rightarrow> ('h modules \<times> string list) option" where
  "dispatch_query env dispatch_head server_id conninfo m key ms =
     dispatch_query_pack env dispatch_head
       \<lparr>qp_server_id = server_id, qp_conninfo = conninfo, qp_map = m, qp_key = key\<rparr> conninfo ms"

section \<open>The loop as one pass over the rules\<close>

text \<open>What the rules mean: they are tried in order, a transformation that matches
  changes the query for the rules after it, and the first other rule that
  matches answers.\<close>

fun dispatch_spec ::
  "'re query_env \<Rightarrow> smap_conninfo \<Rightarrow> 're dispatch_rule list \<Rightarrow> 'h modules \<Rightarrow> query_pack \<Rightarrow>
   ('h modules \<times> string list) option" where
  "dispatch_spec env ci [] ms qp = Some (ms, NOTFOUND)"
| "dispatch_spec env ci (r # rs) ms qp =
     (if \<not> match_cond_list env (dr_cond r) qp then dispatch_spec env ci rs ms qp
      else (case dispatch_step ci r ms qp of
              None \<Rightarrow> None
            | Some (QueryFailed ms out) \<Rightarrow> Some (ms, out @ NOTFOUND)
            | Some (Answered ms out) \<Rightarrow> Some (ms, out)
            | Some (Continue ms qp) \<Rightarrow> dispatch_spec env ci rs ms qp))"

lemma dispatch_spec_find:
  "dispatch_spec env ci rs ms qp =
     (case find_rule_loop env qp rs of
        [] \<Rightarrow> Some (ms, NOTFOUND)
      | r # rs' \<Rightarrow> (case dispatch_step ci r ms qp of
              None \<Rightarrow> None
            | Some (QueryFailed ms out) \<Rightarrow> Some (ms, out @ NOTFOUND)
            | Some (Answered ms out) \<Rightarrow> Some (ms, out)
            | Some (Continue ms qp) \<Rightarrow> dispatch_spec env ci rs' ms qp))"
  by (induction rs) auto

declare dispatch_query_loop.simps [simp del]

lemma dispatch_loop_spec:
  "dispatch_query_loop env ci h start ms qp = dispatch_spec env ci (if start = [] then h else start) ms qp"
proof (induction env ci h start ms qp rule: dispatch_query_loop.induct)
  case (1 env ci h start ms qp)
  show ?case
  proof (cases "find_rule_loop env qp (if start = [] then h else start)")
    case Nil
    then show ?thesis
      by (subst dispatch_query_loop.simps, subst dispatch_spec_find) (simp add: find_dispatch_rule_def)
  next
    case (Cons r nxt)
    then have f: "find_dispatch_rule env h qp start = r # nxt" by (simp add: find_dispatch_rule_def)
    show ?thesis
      by (subst dispatch_query_loop.simps, subst dispatch_spec_find)
         (use 1 [OF f] in \<open>auto simp: f Cons split: option.split dispatch_step.split\<close>)
  qed
qed

section \<open>Linked rules\<close>

text \<open>A rule that has been linked: its database exists and is usable, and the entry
  point that the rule needs is there.\<close>

definition rule_linked :: "'h modules \<Rightarrow> 're dispatch_rule \<Rightarrow> bool" where
  "rule_linked ms r \<longleftrightarrow> (\<exists>nm d pmod. dr_dbi r = Some nm \<and> database_locate ms nm = Some d
     \<and> db_dbh d \<noteq> None \<and> db_module ms d = Some pmod
     \<and> (if dr_xform r = XFORM_NONE then smap_query pmod \<noteq> None else smap_xform pmod \<noteq> None))"

lemma locate_update:
  "database_locate (update_database ms d) nm =
     map_option (\<lambda>e. if db_id e = db_id d then d else e) (database_locate ms nm)"
proof -
  have "find (\<lambda>e. db_id e = nm) (map (\<lambda>e. if db_id e = db_id d then d else e) xs)
      = map_option (\<lambda>e. if db_id e = db_id d then d else e) (find (\<lambda>e. db_id e = nm) xs)" for xs
    by (induction xs) auto
  then show ?thesis by (simp add: database_locate_def update_database_def)
qed

lemma update_database_modules [simp]: "module_list (update_database ms d) = module_list ms"
  by (simp add: update_database_def)

lemma locate_id: "database_locate ms nm = Some d \<Longrightarrow> db_id d = nm"
  by (auto simp: database_locate_def dest: find_SomeD)

text \<open>A change of the tables that keeps what the rules rely on.\<close>

definition keeps :: "'h modules \<Rightarrow> 'h modules \<Rightarrow> bool" where
  "keeps ms ms' \<longleftrightarrow> module_list ms' = module_list ms \<and>
     (\<forall>nm d. database_locate ms nm = Some d \<longrightarrow>
        (\<exists>d'. database_locate ms' nm = Some d' \<and> db_inst d' = db_inst d
            \<and> (db_dbh d \<noteq> None \<longrightarrow> db_dbh d' \<noteq> None))) \<and>
     (ids_distinct ms \<and> databases_ready ms \<longrightarrow> ids_distinct ms' \<and> databases_ready ms')"

lemma keeps_refl [simp]: "keeps ms ms"
  by (simp add: keeps_def)

lemma keeps_trans: "keeps ms ms' \<Longrightarrow> keeps ms' ms'' \<Longrightarrow> keeps ms ms''"
  unfolding keeps_def by metis

lemma linked_keeps:
  assumes "rule_linked ms r" "keeps ms ms'"
  shows "rule_linked ms' r"
proof -
  from assms(1) obtain nm d pmod where r: "dr_dbi r = Some nm" "database_locate ms nm = Some d"
     "db_dbh d \<noteq> None" "db_module ms d = Some pmod"
     "if dr_xform r = XFORM_NONE then smap_query pmod \<noteq> None else smap_xform pmod \<noteq> None"
    by (auto simp: rule_linked_def)
  from assms(2) r(2,3) obtain d' where d': "database_locate ms' nm = Some d'" "db_inst d' = db_inst d" "db_dbh d' \<noteq> None"
    unfolding keeps_def by blast
  have "db_module ms' d' = Some pmod"
    using r(4) d'(2) assms(2) by (simp add: keeps_def db_module_def module_locate_def)
  with r d' show ?thesis by (auto simp: rule_linked_def)
qed

lemma update_ready:
  assumes "ids_distinct ms" "databases_ready ms"
    and "database_locate ms (db_id d) = Some e" "db_inst d = db_inst e" "db_dbh d \<noteq> None"
  shows "ids_distinct (update_database ms d) \<and> databases_ready (update_database ms d)"
proof -
  have e: "e \<in> set (database_list ms)" "db_id e = db_id d"
    using assms(3) by (auto simp: database_locate_def dest: find_SomeD)
  have ids: "db_id \<circ> (\<lambda>x. if db_id x = db_id d then d else x) = db_id" by auto
  have u: "db_usable (update_database ms d) x = db_usable ms x" for x
    by (simp add: db_usable_def db_module_def module_locate_def)
  have "x = e" if "x \<in> set (database_list ms)" "db_id x = db_id d" for x
    using that e assms(1) inj_onD [of db_id "set (database_list ms)" x e]
    by (auto simp: ids_distinct_def distinct_map)
  then have all: "db_usable ms (if db_id x = db_id d then d else x)" if "x \<in> set (database_list ms)" for x
    using that assms(2,4,5) by (auto simp: databases_ready_def list_all_iff db_usable_def db_module_def)
  have "databases_ready (update_database ms d)"
    unfolding databases_ready_def list_all_iff u
  proof
    fix y
    assume "y \<in> set (database_list (update_database ms d))"
    then obtain x where "x \<in> set (database_list ms)" "y = (if db_id x = db_id d then d else x)"
      unfolding update_database_def by auto
    with all [of x] show "db_usable ms y" by simp
  qed
  with assms(1) ids show ?thesis by (simp add: ids_distinct_def update_database_def)
qed

lemma keeps_update:
  assumes "database_locate ms (db_id d) = Some e" "db_inst d = db_inst e" "db_dbh d \<noteq> None"
  shows "keeps ms (update_database ms d)"
proof -
  have "\<exists>d'. database_locate (update_database ms d) nm = Some d' \<and> db_inst d' = db_inst f
      \<and> (db_dbh f \<noteq> None \<longrightarrow> db_dbh d' \<noteq> None)" if "database_locate ms nm = Some f" for nm f
    using that assms locate_id [OF that] by (auto simp: locate_update)
  with update_ready [OF _ _ assms] show ?thesis by (auto simp: keeps_def)
qed

lemma open_database_keeps:
  assumes "open_database ms pmod d dbh = (ms', d', dbh', ok)" "database_locate ms (db_id d) = Some d"
  shows "keeps ms ms'" "database_locate ms' (db_id d') = Some d'"
proof -
  have "d' = d \<and> ms' = ms \<or> (\<exists>h b. d' = d\<lparr>db_dbh := Some h, db_opened := b\<rparr> \<and> ms' = update_database ms d')"
    using assms(1) by (auto simp: open_database_def Let_def split: if_splits prod.splits)
  then show "keeps ms ms'" "database_locate ms' (db_id d') = Some d'"
    using assms(2) keeps_update [of ms d' d] by (auto simp: locate_update)
qed

text \<open>A step for a linked rule returns and keeps the tables.\<close>

definition step_modules :: "'h dispatch_step \<Rightarrow> 'h modules" where
  "step_modules st = (case st of Answered ms _ \<Rightarrow> ms | QueryFailed ms _ \<Rightarrow> ms | Continue ms _ \<Rightarrow> ms)"

lemma step_linked:
  assumes "rule_linked ms qr"
  shows "\<exists>st. dispatch_step ci qr ms qp = Some st \<and> keeps ms (step_modules st)"
proof -
  from assms obtain nm d pmod dbh where q: "dr_dbi qr = Some nm" "database_locate ms nm = Some d"
     "db_dbh d = Some dbh" "db_module ms d = Some pmod"
     "if dr_xform qr = XFORM_NONE then smap_query pmod \<noteq> None else smap_xform pmod \<noteq> None"
    by (auto simp: rule_linked_def)
  obtain ms' d' dbh' ok where o: "open_database ms pmod d dbh = (ms', d', dbh', ok)"
    by (metis prod_cases4)
  have dl: "database_locate ms (db_id d) = Some d" using q(2) locate_id [OF q(2)] by simp
  note l = open_database_keeps [OF o dl]
  have upd: "keeps ms (update_database ms' (d'\<lparr>db_dbh := Some h\<rparr>))" for h
    by (rule keeps_trans [OF l(1) keeps_update]) (use l(2) in auto)
  show ?thesis
  proof (cases ok)
    case False
    with q o l show ?thesis by (simp add: dispatch_step_def step_modules_def)
  next
    case True
    with q o upd show ?thesis
      by (auto simp: dispatch_step_def step_modules_def Let_def split: prod.splits if_splits)
  qed
qed

lemma dispatch_spec_linked:
  "list_all (rule_linked ms) rs \<Longrightarrow>
   \<exists>ms' out. dispatch_spec env ci rs ms qp = Some (ms', out) \<and> keeps ms ms'"
proof (induction rs arbitrary: ms qp)
  case (Cons r rs)
  show ?case
  proof (cases "match_cond_list env (dr_cond r) qp")
    case True
    from step_linked [of ms r ci qp] Cons.prems obtain st where st: "dispatch_step ci r ms qp = Some st"
      "keeps ms (step_modules st)" by auto
    show ?thesis
    proof (cases st)
      case (Continue ms' qp')
      with st(2) Cons.prems linked_keeps have "list_all (rule_linked ms') rs"
        by (fastforce simp: list_all_iff step_modules_def)
      from Cons.IH [OF this, of qp'] Continue st True show ?thesis
        by (auto simp: step_modules_def intro: keeps_trans)
    qed (use st True in \<open>auto simp: step_modules_def\<close>)
  qed (use Cons in auto)
qed auto

text \<open>Linking.  A module of version 0 is exempt from the checks of \<open>rule_fixup\<close>.\<close>

lemma rule_fixup_linked:
  assumes "rule_fixup ms p = Some (p', 0)" "databases_ready ms"
    and "\<And>d pmod. d \<in> set (database_list ms) \<Longrightarrow> db_module ms d = Some pmod \<Longrightarrow> 0 < smap_version pmod"
  shows "rule_linked ms p'"
proof -
  from assms(1) obtain d pmod where d: "database_locate ms (dr_dbname p) = Some d" "db_module ms d = Some pmod"
    and p': "p' = p\<lparr>dr_dbi := Some (db_id d)\<rparr>"
    and v: "smap_version pmod = 1 \<longrightarrow> dr_xform p = 0"
      "smap_version pmod > 1 \<longrightarrow> hasfl (smap_capabilities pmod) (if dr_xform p = 0 then SMAP_CAPA_QUERY else SMAP_CAPA_XFORM)"
    by (auto simp: rule_fixup_def bind_eq_Some_conv split: option.splits if_splits)
  have mem: "d \<in> set (database_list ms)" using d(1) by (auto simp: database_locate_def dest: find_SomeD)
  with assms(2) d(2) have u: "db_dbh d \<noteq> None" "MODULE_ASSERT pmod"
    by (auto simp: databases_ready_def list_all_iff db_usable_def)
  have "0 < smap_version pmod" using assms(3) [OF mem d(2)] .
  with u(2) v have "if dr_xform p = 0 then smap_query pmod \<noteq> None else smap_xform pmod \<noteq> None"
    by (auto simp: MODULE_ASSERT_def split: if_splits)
  with d u(1) locate_id [OF d(1)] show ?thesis by (auto simp: rule_linked_def p')
qed

lemma rule_fixup_returns:
  assumes "databases_ready ms"
  shows "\<exists>p' rc. rule_fixup ms p = Some (p', rc)"
proof (cases "database_locate ms (dr_dbname p)")
  case (Some d)
  then have "d \<in> set (database_list ms)" by (auto simp: database_locate_def dest: find_SomeD)
  with assms obtain pmod where "db_module ms d = Some pmod"
    by (auto simp: databases_ready_def list_all_iff db_usable_def split: option.splits)
  with Some show ?thesis by (simp add: rule_fixup_def)
qed (simp add: rule_fixup_def)

lemma link_rules_linked:
  assumes "databases_ready ms"
    and "\<And>d pmod. d \<in> set (database_list ms) \<Longrightarrow> db_module ms d = Some pmod \<Longrightarrow> 0 < smap_version pmod"
  shows "\<exists>rules'. link_dispatch_rules ms rules = Some rules' \<and> list_all (rule_linked ms) rules'"
proof (induction rules)
  case (Cons p ps)
  from rule_fixup_returns [OF assms(1)] obtain p' rc where f: "rule_fixup ms p = Some (p', rc)" by blast
  with rule_fixup_linked [of ms p p', OF _ assms] Cons show ?case by auto
qed simp

section \<open>Properties\<close>

text \<open>C11. The dispatcher is one left-to-right pass over the rules: the loop that looks up the
  next matching rule, starting after the last transformation, computes the
  same state and output as trying the rules in order.\<close>

theorem dispatch_is_one_pass:
  "dispatch_query env rules sid ci m key ms =
     dispatch_spec env ci rules ms
       \<lparr>qp_server_id = sid, qp_conninfo = ci, qp_map = m, qp_key = key\<rparr>"
  by (simp add: dispatch_query_def dispatch_query_pack_def dispatch_loop_spec)

text \<open>A sequence of queries, with the answers.\<close>

fun dispatch_queries ::
  "'re query_env \<Rightarrow> 're dispatch_rule list \<Rightarrow> (string \<times> smap_conninfo \<times> string \<times> string) list \<Rightarrow>
   'h modules \<Rightarrow> ('h modules \<times> string list list) option" where
  "dispatch_queries env rules [] ms = Some (ms, [])"
| "dispatch_queries env rules ((sid, ci, m, key) # qs) ms = do {
     (ms, out) \<leftarrow> dispatch_query env rules sid ci m key ms;
     (ms, outs) \<leftarrow> dispatch_queries env rules qs ms;
     Some (ms, out # outs)
   }"

lemma dispatch_queries_linked:
  "list_all (rule_linked ms) rules \<Longrightarrow>
   \<exists>ms' outs. dispatch_queries env rules qs ms = Some (ms', outs) \<and> length outs = length qs \<and> keeps ms ms'"
proof (induction qs arbitrary: ms)
  case (Cons q qs)
  obtain sid ci m key where q: "q = (sid, ci, m, key)" by (metis prod_cases4)
  from dispatch_spec_linked [OF Cons.prems] obtain ms1 out1 where
    1: "dispatch_query env rules sid ci m key ms = Some (ms1, out1)" "keeps ms ms1"
    by (fastforce simp: dispatch_query_def dispatch_query_pack_def dispatch_loop_spec)
  then have "list_all (rule_linked ms1) rules" using Cons.prems linked_keeps by (auto simp: list_all_iff)
  from Cons.IH [OF this] obtain ms2 outs where
    "dispatch_queries env rules qs ms1 = Some (ms2, outs)" "length outs = length qs" "keeps ms1 ms2" by blast
  with 1 keeps_trans [of ms ms1 ms2] show ?case by (simp add: q)
qed simp

text \<open>C5. No query crashes the server.  Once the databases are initialised with modules of
  version 1 or 2, linking the rules returns, and then every query of every
  sequence of queries is answered: no null entry point is called and no rule
  lacks its database.\<close>

theorem dispatch_safe:
  assumes "databases_ready ms"
    and "\<forall>d \<in> set (database_list ms). \<forall>pmod. db_module ms d = Some pmod \<longrightarrow> 0 < smap_version pmod"
  shows "\<exists>linked. link_dispatch_rules ms rules = Some linked \<and>
    (\<forall>qs. \<exists>ms' outs. dispatch_queries env linked qs ms = Some (ms', outs) \<and> length outs = length qs)"
proof -
  from link_rules_linked [OF assms(1)] assms(2) obtain linked where
    "link_dispatch_rules ms rules = Some linked" "list_all (rule_linked ms) linked" by blast
  with dispatch_queries_linked show ?thesis by blast
qed

text \<open>The tables of the \<open>echo\<close> example after start-up.\<close>

definition echo_ready :: "echo_database modules" where
  "echo_ready = (case init_databases (smap_modules_load echo_dlopen echo_tables) of Some ms \<Rightarrow> ms | None \<Rightarrow> echo_tables)"

lemma echo_ready_eval:
  "echo_ready = \<lparr>module_list = [\<lparr>mi_file = ''smapd.conf'', mi_line = 1, mi_id = ''echo'', mi_argv = [''echo''],
       mi_module = Some echo_module, mi_handle = True\<rparr>],
     database_list = [\<lparr>db_file = ''smapd.conf'', db_line = 3, db_id = ''ok'', db_modname = ''echo'',
       db_argv = [''echo'', ''OK''], db_inst = Some ''echo'',
       db_dbh = Some \<lparr>ec_argc = 1, ec_argv = [''OK'']\<rparr>, db_opened = False\<rparr>],
     mod_load_path = (\<lambda>_. None)\<rparr>"
  by (simp add: echo_ready_def echo_eval smap_modules_load_def remove_dependent_databases_def
      init_databases_def init_database_def echo_init_db_def)

lemma echo_ready_ok: "databases_ready echo_ready"
  "\<forall>d \<in> set (database_list echo_ready). \<forall>pmod. db_module echo_ready d = Some pmod \<longrightarrow> 0 < smap_version pmod"
  by (simp_all add: echo_ready_eval databases_ready_def db_usable_def db_module_def module_locate_def
      MODULE_ASSERT_def echo_module_def hasfl_numeral)

definition no_env :: "unit query_env" where
  "no_env = \<lparr>qe_regcomp = (\<lambda>_ _ _. None), qe_regexec = (\<lambda>_ _. False), qe_fnmatch = (\<lambda>_ _. False),
     qe_inet_aton = (\<lambda>_. None), qe_gethostbyname = (\<lambda>_. None)\<rparr>"

definition no_conn :: smap_conninfo where
  "no_conn = \<lparr>ci_src = AF_OTHER 0, ci_srclen = 0, ci_dst = AF_OTHER 0, ci_dstlen = 0\<rparr>"

definition echo_rules :: "unit dispatch_rule list" where
  "echo_rules = (case parse_dispatch no_env ''smapd.conf'' 4 [] [''map'', ''users'', ''database'', ''ok''] of
     Some (rules, _) \<Rightarrow> rules | None \<Rightarrow> [])"

lemma echo_rules_eval:
  "echo_rules = [\<lparr>dr_file = ''smapd.conf'', dr_line = 4,
     dr_cond = [query_cond_map \<lparr>cc_op = comp_eq, cc_str = ''users'', cc_re = None\<rparr>],
     dr_dbname = ''ok'', dr_dbi = None, dr_xform = 0\<rparr>]"
  by (simp add: echo_rules_def parse_dispatch_def parse_complex_dispatch_def query_kwtab_def is_cond_tok_def
      parse_cond_clause_def parse_dispatch_comp_def parse_db_clause_def eval_nat_numeral)

theorem dispatch_safe_witness:
  "\<exists>linked. link_dispatch_rules echo_ready echo_rules = Some linked \<and>
    (\<exists>ms' outs. dispatch_queries no_env linked
        [(''main'', no_conn, ''users'', ''bob''), (''main'', no_conn, ''other'', ''bob'')] echo_ready = Some (ms', outs)
      \<and> length outs = 2)"
  using dispatch_safe [OF echo_ready_ok, of echo_rules no_env] by fastforce

text \<open>The same queries, evaluated: the database answers the first, nobody the second.\<close>

lemma echo_dispatch_example:
  "(case link_dispatch_rules echo_ready echo_rules of
      None \<Rightarrow> None
    | Some linked \<Rightarrow> map_option snd (dispatch_queries no_env linked
        [(''main'', no_conn, ''users'', ''bob''), (''main'', no_conn, ''other'', ''bob'')] echo_ready))
   = Some [[''OK'', [NL]], [''NOTFOUND'' @ [NL]]]"
  by (simp add: echo_ready_eval echo_rules_eval rule_fixup_def database_locate_def db_module_def module_locate_def
      echo_module_def hasfl_numeral dispatch_query_def dispatch_query_pack_def dispatch_loop_spec compare_def
      dispatch_step_def open_database_def update_database_def echo_query_def NOTFOUND_def Let_def)

section \<open>The parser returns\<close>

lemma pbind_POk: "pbind p f = POk a i \<longleftrightarrow> (\<exists>b j. p = POk b j \<and> f b j = POk a i)"
  by (cases p) auto

lemma pbind_PFault: "pbind p f = PFault \<longleftrightarrow> p = PFault \<or> (\<exists>b j. p = POk b j \<and> f b j = PFault)"
  by (cases p) auto

lemma nextarg_POk: "nextarg input = POk s i \<longleftrightarrow> input = s # i"
  by (cases input) auto

lemma nextarg_PFault [simp]: "nextarg input \<noteq> PFault"
  by (cases input) auto

lemmas parse_shrink = pbind_POk pbind_PFault nextarg_POk

lemma parse_server_shrink: "parse_dispatch_server input = POk c i \<Longrightarrow> \<exists>w. input = w @ i"
  by (auto simp: parse_dispatch_server_def parse_shrink)

lemma parse_comp_shrink: "parse_dispatch_comp env mk input = POk c i \<Longrightarrow> \<exists>w. input = w @ i"
proof (cases input)
  case (Cons s j)
  assume "parse_dispatch_comp env mk input = POk c i"
  then have "\<exists>w. j = w @ i"
    by (cases "smap_kwtab_nametotok query_kwtab s"; simp add: Cons parse_dispatch_comp_def)
       (auto split: query_tok.splits option.splits simp: parse_shrink)
  then show ?thesis by (metis Cons append_Cons)
qed (simp add: parse_dispatch_comp_def)

lemma parse_from_shrink: "parse_dispatch_from env input = POk c i \<Longrightarrow> \<exists>w. input = w @ i"
  by (auto simp: parse_dispatch_from_def parse_shrink Let_def split: option.splits if_splits)

text \<open>A condition that is parsed leaves a suffix of the words; only a clause \<open>from\<close> can
  fail to return.\<close>

lemma subcond_shrink:
  "(parse_subcond env input = POk c i \<longrightarrow> (\<exists>w. input = w @ i))"
  "(parse_dispatch_not env input = POk c i \<longrightarrow> (\<exists>w. input = w @ i))"
proof (induction env input and env input arbitrary: c i and c i rule: parse_subcond_parse_dispatch_not.induct)
  case (2 env s input)
  have cons: "\<exists>w. s # input = w @ i" if "\<exists>w. input = w @ i"
    using that by (metis append_Cons)
  show ?case
  proof
    assume "parse_subcond env (s # input) = POk c i"
    then show "\<exists>w. s # input = w @ i"
      using 2 by (intro cons)
        (auto split: option.splits query_tok.splits dest: parse_from_shrink parse_server_shrink parse_comp_shrink)
  qed
next
  case (3 env input)
  then show ?case by (auto simp: parse_shrink)
qed simp

lemma server_no_fault: "parse_dispatch_server input \<noteq> PFault"
  by (auto simp: parse_dispatch_server_def parse_shrink)

lemma comp_no_fault: "parse_dispatch_comp env mk input \<noteq> PFault"
  by (auto simp: parse_dispatch_comp_def parse_shrink split: option.splits query_tok.splits)

lemma tok_from: "smap_kwtab_nametotok query_kwtab s = Some T_FROM \<longleftrightarrow> s = ''from''"
  by (auto simp: query_kwtab_def split: if_splits)

lemma subcond_no_fault:
  "''from'' \<notin> set input \<longrightarrow> parse_subcond env input \<noteq> PFault"
  "''from'' \<notin> set input \<longrightarrow> parse_dispatch_not env input \<noteq> PFault"
proof (induction env input and env input rule: parse_subcond_parse_dispatch_not.induct)
  case (2 env s input)
  then show ?case
    by (auto split: option.splits query_tok.splits simp: tok_from server_no_fault comp_no_fault)
next
  case (3 env input)
  then show ?case by (auto simp: parse_shrink)
qed simp

lemma cond_clause_shrink: "parse_cond_clause env tok input = POk c i \<Longrightarrow> \<exists>w. input = w @ i"
  by (auto simp: parse_cond_clause_def subcond_shrink split: query_tok.splits
      dest: parse_from_shrink parse_server_shrink parse_comp_shrink subcond_shrink(2) [rule_format])

lemma cond_clause_no_fault:
  "''from'' \<notin> set input \<Longrightarrow> tok \<noteq> T_FROM \<Longrightarrow> parse_cond_clause env tok input \<noteq> PFault"
  by (auto simp: parse_cond_clause_def subcond_no_fault server_no_fault comp_no_fault
      simp del: parse_dispatch_not.simps split: query_tok.splits)

lemma db_clause_shrink:
  "parse_db_clause st db xf input = (rc, db', xf', i) \<Longrightarrow> \<exists>w. input = w @ i"
  by (auto simp: parse_db_clause_def Let_def split: list.splits option.splits query_tok.splits if_splits)

lemma complex_loop_returns:
  "length input \<le> fuel \<Longrightarrow> ''from'' \<notin> set input \<Longrightarrow>
   \<exists>r. parse_complex_loop env fuel input conds db xf = Some r"
proof (induction env fuel input conds db xf rule: parse_complex_loop.induct)
  case (3 env fuel s input conds db xf)
  have suf: "length i \<le> fuel \<and> ''from'' \<notin> set i" if "\<exists>w. input = w @ i" for i
    using that "3.prems" by auto
  show ?case
  proof (cases "smap_kwtab_nametotok query_kwtab s")
    case (Some tok)
    have nf: "tok \<noteq> T_FROM"
    proof
      assume "tok = T_FROM"
      with Some tok_from have "s = ''from''" by blast
      with "3.prems"(2) show False by simp
    qed
    show ?thesis
    proof (cases "is_cond_tok tok")
      case True
      with Some 3(1) [OF Some True] cond_clause_no_fault [of input tok env] nf "3.prems"(2) suf
      show ?thesis by (cases "parse_cond_clause env tok input") (auto dest: cond_clause_shrink)
    next
      case False
      consider "tok = T_TRANSFORM" | "tok = T_DB" | "tok \<noteq> T_TRANSFORM" "tok \<noteq> T_DB" by blast
      then show ?thesis
      proof cases
        case 1
        show ?thesis
        proof (cases input)
          case (Cons x i)
          show ?thesis
          proof (cases "smap_kwtab_nametotok query_kwtab x")
            case tok2: (Some sub)
            obtain rc db' xf' j where d: "parse_db_clause (Some sub) db xf i = (rc, db', xf', j)"
              by (metis prod_cases4)
            with db_clause_shrink have "\<exists>w. i = w @ j" by blast
            with Cons "3.prems" have j: "length j \<le> fuel" "''from'' \<notin> set j" by auto
            from 3(2) [OF Some False 1 Cons tok2 d [symmetric] refl refl] j d Some False 1 Cons tok2
            show ?thesis by auto
          qed (use Some False 1 Cons in simp)
        qed (use Some False 1 in simp)
      next
        case 2
        then show ?thesis
          using Some False 3(3) [OF Some False _ 2] suf [OF db_clause_shrink]
          by (auto split: prod.split)
      next
        case 3
        then show ?thesis using Some False "3.IH"(4) [OF Some False] suf [of input] by auto
      qed
    qed
  qed simp
qed simp_all

section \<open>Properties of the parser\<close>

lemma parse_dispatch_result:
  assumes "''from'' \<notin> set wordv"
  shows "\<exists>rules' rc. parse_dispatch env file line rules wordv = Some (rules', rc)
    \<and> (rc = 0 \<and> (\<exists>r. rules' = rules @ [r]) \<or> rc = 1 \<and> rules' = rules)"
proof (cases "wordv \<noteq> [] \<and> hd wordv = ''default''")
  case True
  then show ?thesis
    by (auto simp: parse_dispatch_def parse_default_dispatch_def split: list.splits if_splits)
next
  case False
  from complex_loop_returns [of wordv "length wordv" env "[]" None 0] assms obtain cs db xf where
    "parse_complex_loop env (length wordv) wordv [] None 0 = Some (cs, db, xf)" by auto
  with False show ?thesis
    by (auto simp: parse_dispatch_def parse_complex_dispatch_def split: option.splits)
qed

text \<open>A negated condition is not negated.  The rule parsed from
  \<open>not map m database db\<close> matches exactly the queries for the map \<open>m\<close>,
  the ones that it is meant to exclude.\<close>

theorem not_is_ignored:
  assumes "smap_kwtab_nametotok query_kwtab m = None"
  shows "\<exists>r. parse_dispatch env file line [] [''not'', ''map'', m, ''database'', db] = Some ([r], 0)
    \<and> (\<forall>qp. match_cond_list env (dr_cond r) qp \<longleftrightarrow> qp_map qp = m)"
  using assms
  by (auto simp: parse_dispatch_def parse_complex_dispatch_def query_kwtab_def is_cond_tok_def
      parse_cond_clause_def parse_dispatch_comp_def parse_db_clause_def eval_nat_numeral compare_def)

theorem not_is_ignored_witness:
  "\<exists>r. parse_dispatch no_env ''smapd.conf'' 4 [] [''not'', ''map'', ''users'', ''database'', ''ok''] = Some ([r], 0)
    \<and> (\<forall>qp. match_cond_list no_env (dr_cond r) qp \<longleftrightarrow> qp_map qp = ''users'')"
  by (rule not_is_ignored) (simp add: query_kwtab_def)

text \<open>A line is accepted although it has an error: after the database has been named, an
  unknown keyword ends the parsing, and the rule is attached without the
  conditions that follow, with the code for success.\<close>

theorem error_after_database_accepted:
  assumes "smap_kwtab_nametotok query_kwtab w = None"
  shows "parse_dispatch env file line rules (''database'' # db # w # rest) =
    Some (rules @ [\<lparr>dr_file = file, dr_line = line, dr_cond = [], dr_dbname = db, dr_dbi = None, dr_xform = 0\<rparr>], 0)"
  using assms
  by (auto simp: parse_dispatch_def parse_complex_dispatch_def query_kwtab_def is_cond_tok_def
      parse_db_clause_def eval_nat_numeral)

theorem error_after_database_accepted_witness:
  "parse_dispatch no_env ''smapd.conf'' 4 [] [''database'', ''ok'', ''mapp'', ''users''] =
    Some ([\<lparr>dr_file = ''smapd.conf'', dr_line = 4, dr_cond = [], dr_dbname = ''ok'', dr_dbi = None, dr_xform = 0\<rparr>], 0)"
  using error_after_database_accepted [of "''mapp''" no_env "''smapd.conf''" 4 "[]" "''ok''" "[''users'']"]
  by (simp add: query_kwtab_def)

text \<open>C17. Matching of networks.  For a prefix length of at most 32 the mask has exactly the
  leading bits set, and a client matches a rule with that mask exactly when its
  address and the rule's agree on the leading bits and the rule's address has
  no other bit set.\<close>

theorem netmask_match:
  assumes "strtoul p 10 = (n, [])" "n \<le> 32"
  shows "\<exists>mask. parse_netmask env p = POk mask [] \<and>
    (\<forall>i < 32. bit mask i \<longleftrightarrow> 32 - n \<le> i) \<and>
    (\<forall>item clt salen len.
       match_sockaddr \<lparr>ssa_netmask = mask, ssa_salen = salen, ssa_sa = AF_INET item\<rparr> (AF_INET clt) len \<longleftrightarrow>
       (\<forall>i < 32. bit item i \<longleftrightarrow> bit (ntohl clt) i \<and> 32 - n \<le> i))"
proof -
  define mask :: "32 word" where "mask = (if n = 0 then 0 else push_bit (32 - n) (drop_bit (32 - n) 0xFFFFFFFF))"
  have ones: "(0xFFFFFFFF :: 32 word) = - 1" by simp
  have bits: "bit mask i \<longleftrightarrow> 32 - n \<le> i" if "i < 32" for i
    using that assms(2) by (auto simp: mask_def ones bit_simps)
  have "parse_netmask env p = POk mask []"
    using assms by (simp add: parse_netmask_def mask_def Let_def)
  moreover have "item = ntohl clt AND mask \<longleftrightarrow> (\<forall>i < 32. bit item i \<longleftrightarrow> bit (ntohl clt) i \<and> 32 - n \<le> i)"
    for item clt
    using bits by (auto simp: bit_eq_iff bit_simps)
  ultimately show ?thesis using bits by (auto simp: match_sockaddr_def)
qed

theorem netmask_match_witness:
  "\<exists>mask. parse_netmask no_env ''24'' = POk mask [] \<and> (\<forall>i < 32. bit mask i \<longleftrightarrow> 8 \<le> i)"
proof -
  have "strtoul ''24'' 10 = (24, [])"
    by (simp add: strtoul_def strtoul_base_def strtoul_digits_def digit_val_def number_of_def isspace_def
        SIZE_MAX_def Let_def)
  from netmask_match [OF this, of no_env] show ?thesis by auto
qed

text \<open>A module that declares version 0 passes the checks of the loader and of the linker
  without any entry point for queries; the first query for its database then
  calls a null pointer.\<close>

theorem version0_module_crashes:
  assumes "MODULE_ASSERT pmod" "smap_version pmod = 0" "smap_query pmod = None"
    and "database_locate ms nm = Some d" "db_module ms d = Some pmod" "db_dbh d = Some h" "db_opened d"
    and "dr_dbname p = nm" "dr_cond p = []" "dr_xform p = 0"
  shows "\<exists>p'. link_dispatch_rules ms [p] = Some [p'] \<and> dispatch_query env [p'] sid ci m key ms = None"
  using assms
  by (auto simp: rule_fixup_def dispatch_query_def dispatch_query_pack_def dispatch_loop_spec dispatch_step_def
      open_database_def locate_id)

definition old_tables :: "unit modules" where
  "old_tables = \<lparr>module_list = [\<lparr>mi_file = ''smapd.conf'', mi_line = 1, mi_id = ''old'', mi_argv = [''old''],
       mi_module = Some \<lparr>smap_version = 0, smap_capabilities = 0, smap_init = None,
         smap_init_db = Some (\<lambda>_ _. Some ()), smap_free_db = Some (\<lambda>_. 0), smap_open = None,
         smap_close = None, smap_query = None, smap_xform = None\<rparr>, mi_handle = True\<rparr>],
     database_list = [\<lparr>db_file = ''smapd.conf'', db_line = 2, db_id = ''db'', db_modname = ''old'',
       db_argv = [''old''], db_inst = Some ''old'', db_dbh = Some (), db_opened = True\<rparr>],
     mod_load_path = (\<lambda>_. None)\<rparr>"

theorem version0_module_crashes_witness:
  "\<exists>p'. link_dispatch_rules old_tables
      [\<lparr>dr_file = ''smapd.conf'', dr_line = 3, dr_cond = [], dr_dbname = ''db'', dr_dbi = None, dr_xform = 0\<rparr>] = Some [p']
    \<and> dispatch_query no_env [p'] ''main'' no_conn ''users'' ''bob'' old_tables = None"
  by (rule version0_module_crashes [where ms = old_tables and nm = "''db''" and d = "hd (database_list old_tables)"
      and pmod = "the (mi_module (hd (module_list old_tables)))" and h = "()"])
     (simp_all add: old_tables_def database_locate_def db_module_def module_locate_def MODULE_ASSERT_def hasfl_0)

end
