(* ===== verification/Smap_Smapd.thy ===== *)
theory Smap_Smapd
  imports Smap_Sockmap_Laws Smap_Query
begin

text \<open>
  The daemon's session (\<open>src/smapd.c\<close>): the loop that reads requests from a
  sockmap stream and dispatches them, the set-up and the release of the
  stream, the start-up of the module subsystem, the cache of command line
  settings and the parser of file modes.
\<close>

section \<open>Strings\<close>

definition smap_trimnl :: "string \<Rightarrow> string" where
  "smap_trimnl buf = (if buf \<noteq> [] \<and> last buf = NL then butlast buf else buf)"

section \<open>The session\<close>

text \<open>The writes of a query, whose results the modules and the dispatcher ignore.\<close>

fun emit ::
  "(nat \<Rightarrow> bool) \<Rightarrow> nat \<Rightarrow> string list \<Rightarrow> sockmap_stream smap_stream \<Rightarrow> sockmap_stream smap_stream option" where
  "emit alloc junk [] s = Some s"
| "emit alloc junk (w # ws) s = do {
     (s, _, _) \<leftarrow> smap_stream_write (sockmap_ops alloc junk) s w False;
     emit alloc junk ws s
   }"

datatype loop_end = LoopReturn int | LoopExit int

text \<open>\<open>bufsize\<close> is the size of the line buffer that the calls of \<open>smap_stream_getline\<close> share.\<close>

partial_function (option) smap_loop_from ::
  "(nat \<Rightarrow> bool) \<Rightarrow> nat \<Rightarrow> 're query_env \<Rightarrow> 're dispatch_rule list \<Rightarrow> string \<Rightarrow> smap_conninfo \<Rightarrow>
   nat \<Rightarrow> sockmap_stream smap_stream \<Rightarrow> 'h modules \<Rightarrow>
   (sockmap_stream smap_stream \<times> 'h modules \<times> loop_end) option" where
  "smap_loop_from alloc junk env rules sid conninfo bufsize s ms = do {
     (s, rc, line, bufsize) \<leftarrow> smap_stream_getline (sockmap_ops alloc junk) s bufsize;
     if rc \<noteq> E0 \<or> line = [] then do {
       ms \<leftarrow> close_databases ms;
       Some (s, ms, LoopReturn 0)
     }
     else
       let buf = smap_trimnl (cstr line); sep = memchr (CHR '' '') buf in
       if sep = None then Some (s, ms, LoopExit 1)
       else do {
         (ms, out) \<leftarrow> dispatch_query env rules sid conninfo (take (the sep) buf) (drop (the sep + 1) buf) ms;
         s \<leftarrow> emit alloc junk out s;
         smap_loop_from alloc junk env rules sid conninfo bufsize s ms
       }
   }"

definition smap_loop ::
  "(nat \<Rightarrow> bool) \<Rightarrow> nat \<Rightarrow> 're query_env \<Rightarrow> 're dispatch_rule list \<Rightarrow> sockmap_stream smap_stream \<Rightarrow>
   string \<Rightarrow> smap_conninfo \<Rightarrow> 'h modules \<Rightarrow>
   (sockmap_stream smap_stream \<times> 'h modules \<times> loop_end) option" where
  "smap_loop alloc junk env rules s sid conninfo ms =
     smap_loop_from alloc junk env rules sid conninfo 0 s ms"

abbreviation (input) EX_UNAVAILABLE :: int where "EX_UNAVAILABLE \<equiv> 69"

text \<open>
  The handler of a connection.  \<open>privs\<close> is the code of \<open>switch_to_privs\<close> if it
  is called, \<open>dbg\<close> the table of debugging levels, and \<open>granted\<close>, \<open>ievs\<close>,
  \<open>oevs\<close>, \<open>crc\<close> what the system does for the new stream.
\<close>

definition session_debug ::
  "(nat \<Rightarrow> bool) \<Rightarrow> nat \<Rightarrow> debug_state \<Rightarrow> sockmap_stream smap_stream \<Rightarrow> sockmap_stream smap_stream option" where
  "session_debug alloc junk dbg s =
     (if smap_debug_np dbg (Some 0) 10 then do {
        (s, _) \<leftarrow> smap_stream_ioctl (sockmap_ops alloc junk) s SMAP_IOCTL_SET_DEBUG_IDX (ArgInt 0);
        (s, _) \<leftarrow> smap_stream_ioctl (sockmap_ops alloc junk) s SMAP_IOCTL_SET_DEBUG_PFX (ArgPair ''C'' ''S'');
        Some s }
      else Some s)"

definition smap_session_server ::
  "(nat \<Rightarrow> bool) \<Rightarrow> nat \<Rightarrow> 're query_env \<Rightarrow> 're dispatch_rule list \<Rightarrow> debug_state \<Rightarrow>
   bool \<times> bool \<times> bool \<Rightarrow> sockev list \<Rightarrow> wrev list \<Rightarrow> errno \<Rightarrow> int option \<Rightarrow>
   string \<Rightarrow> int \<Rightarrow> smap_conninfo \<Rightarrow> 'h modules \<Rightarrow>
   (sockmap_stream smap_stream option \<times> 'h modules \<times> loop_end) option" where
  "smap_session_server alloc junk env rules dbg granted ievs oevs crc privs sid fd ci ms =
     (if (case privs of None \<Rightarrow> False | Some rc \<Rightarrow> rc \<noteq> 0)
      then Some (None, ms, LoopReturn EX_UNAVAILABLE)
      else do {
        (rc, st) \<leftarrow> smap_sockmap_stream_create alloc junk granted fd SMAP_STREAM_NO_CLOSE ievs oevs crc;
        (case st of
           None \<Rightarrow> Some (None, ms, LoopReturn EX_UNAVAILABLE)
         | Some s \<Rightarrow> do {
             s \<leftarrow> session_debug alloc junk dbg s;
             (s, ms, e) \<leftarrow> smap_loop alloc junk env rules s sid ci ms;
             (case e of
                LoopExit n \<Rightarrow> Some (Some s, ms, e)
              | LoopReturn rc \<Rightarrow> do {
                  (s, _) \<leftarrow> smap_stream_destroy (sockmap_ops alloc junk) s;
                  Some (Some s, ms, LoopReturn rc) }) })
      })"

section \<open>Start-up\<close>

text \<open>The part of \<open>main\<close> that prepares the tables.\<close>

definition start_modules ::
  "(string option \<Rightarrow> 'h smap_module option option) \<Rightarrow> 'h modules \<Rightarrow> 're dispatch_rule list \<Rightarrow>
   ('h modules \<times> 're dispatch_rule list) option" where
  "start_modules dlopen ms rules = do {
     let ms = smap_modules_load dlopen ms;
     ms \<leftarrow> init_databases ms;
     rules \<leftarrow> link_dispatch_rules ms rules;
     Some (ms, rules)
   }"

subsection \<open>The cache of command line settings\<close>

text \<open>
  A setting is the address of a variable and its value.  An entry of the list
  is allocated without being cleared, and its \<open>next\<close> member is assigned only
  when another entry follows: the last one holds whatever the memory held.
\<close>

datatype optval = OPT_INT int | OPT_STR string

record optcache =
  oc_ptr :: nat
  oc_val :: optval
  oc_next :: "nat option"

record optlist =
  oc_heap :: "nat \<Rightarrow> optcache"
  opthead :: "nat option"
  opttail :: "nat option"

text \<open>\<open>a\<close> is the address the allocation returns and \<open>junk\<close> what is in its memory.\<close>

definition optcache_new :: "nat \<Rightarrow> nat option \<Rightarrow> nat \<Rightarrow> optval \<Rightarrow> optlist \<Rightarrow> optlist" where
  "optcache_new a junk opt val oc =
     (let oc = (case opttail oc of
                  Some t \<Rightarrow> oc\<lparr>oc_heap := (oc_heap oc)(t := (oc_heap oc t)\<lparr>oc_next := Some a\<rparr>)\<rparr>
                | None \<Rightarrow> oc\<lparr>opthead := Some a\<rparr>)
      in oc\<lparr>oc_heap := (oc_heap oc)(a := \<lparr>oc_ptr = opt, oc_val = val, oc_next = junk\<rparr>),
            opttail := Some a\<rparr>)"

text \<open>The traversal of \<open>optcache_flush\<close>, on the variables \<open>vars\<close>.\<close>

partial_function (option) optcache_flush_from ::
  "(nat \<Rightarrow> optcache) \<Rightarrow> nat option \<Rightarrow> (nat \<rightharpoonup> optval) \<Rightarrow> (nat \<rightharpoonup> optval) option" where
  "optcache_flush_from heap p vars =
     (if p = None then Some vars
      else optcache_flush_from heap (oc_next (heap (the p)))
             (vars(oc_ptr (heap (the p)) \<mapsto> oc_val (heap (the p)))))"

definition optcache_flush :: "optlist \<Rightarrow> (nat \<rightharpoonup> optval) \<Rightarrow> (optlist \<times> (nat \<rightharpoonup> optval)) option" where
  "optcache_flush oc vars = do {
     vars \<leftarrow> optcache_flush_from (oc_heap oc) (opthead oc) vars;
     Some (oc\<lparr>opthead := None, opttail := None\<rparr>, vars)
   }"

subsection \<open>File modes\<close>

text \<open>The macro \<open>PARSECHAR\<close>: the bit and the rest of the string.  \<open>strchr\<close> finds the
  terminating NUL too, so that an empty string counts as octal.\<close>

fun PARSECHAR :: "string \<Rightarrow> char \<Rightarrow> nat \<Rightarrow> (nat \<times> string) option" where
  "PARSECHAR [] c v = None"
| "PARSECHAR (x # xs) c v = (if x = c then Some (v, xs) else if x = CHR ''-'' then Some (0, xs) else None)"

fun parse_mode_loop :: "nat \<Rightarrow> string \<Rightarrow> nat \<Rightarrow> (nat \<times> string) option" where
  "parse_mode_loop 0 str mode = Some (mode, str)"
| "parse_mode_loop (Suc i) str mode = do {
     (x1, str) \<leftarrow> PARSECHAR str (CHR ''r'') 4;
     (x2, str) \<leftarrow> PARSECHAR str (CHR ''w'') 2;
     (x3, str) \<leftarrow> PARSECHAR str (CHR ''x'') 1;
     parse_mode_loop i str (mode * 8 + (x1 + x2 + x3))
   }"

definition parse_mode_string :: "string \<Rightarrow> nat option" where
  "parse_mode_string str =
     (if str = [] \<or> hd str \<in> set ''01234567'' then
        (case strtoul str 8 of (n, p) \<Rightarrow> if p \<noteq> [] then None else Some (n mod 2 ^ 32))
      else (case parse_mode_loop 3 str 0 of
              None \<Rightarrow> None
            | Some (mode, rest) \<Rightarrow> if rest \<noteq> [] then None else Some mode))"

section \<open>Answers on the wire\<close>

text \<open>An answer is a sequence of writes that make up one line.\<close>

lemma write_nothing:
  assumes "out_state s w"
  shows "smap_stream_write (sockmap_ops (\<lambda>_. True) junk) s [] False = Some (s, E0, Some 0)"
  using assms by (simp add: smap_stream_write_def smap_stream_write_unbuffered_def sockmap_ops_def out_state_def)

lemma emit_nothing: "out_state s w \<Longrightarrow> concat ws = [] \<Longrightarrow> emit (\<lambda>_. True) junk ws s = Some s"
  by (induction ws) (auto simp: write_nothing)

lemma emit_line:
  assumes "out_state s w" "w @ concat ws = t @ [NL]" "NL \<notin> set t" "length t < 10 ^ 19 - 1"
  shows "\<exists>s'. emit (\<lambda>_. True) junk ws s = Some s' \<and> out_state s' [] \<and> wire_of s' = wire_of s @ [frame t]
    \<and> ss_in (str_dev s') = ss_in (str_dev s) \<and> (in_plain s \<longrightarrow> in_plain s')"
  using assms
proof (induction ws arbitrary: s w)
  case Nil
  then have "NL \<in> set w" by simp
  moreover have "NL \<notin> set w" using Nil.prems(1) by (simp add: out_state_def out_partial_def)
  ultimately show ?case by simp
next
  case (Cons b ws)
  have wn: "NL \<notin> set w" using Cons.prems(1) by (simp add: out_state_def out_partial_def)
  have pre: "w @ b @ concat ws = t @ [NL]" using Cons.prems(2) by simp
  have len: "length (w @ b) < 10 ^ 19"
    using arg_cong [OF pre, of length] Cons.prems(4) by simp
  have bl: "NL \<notin> set (butlast b)"
  proof (cases b rule: rev_cases)
    case (snoc c x)
    with pre have "w @ c @ [x] @ concat ws = t @ [NL]" by simp
    then have "\<exists>r. t = w @ c @ r" by (cases "concat ws" rule: rev_cases) auto
    with Cons.prems(3) show ?thesis by (auto simp: snoc)
  qed simp
  from sockmap_write_part [OF Cons.prems(1) bl len, of junk] obtain s1 where
    s1: "smap_stream_write (sockmap_ops (\<lambda>_. True) junk) s b False = Some (s1, E0, Some (length b))"
      "ss_in (str_dev s1) = ss_in (str_dev s)" "in_plain s \<longrightarrow> in_plain s1"
    and st: "if b \<noteq> [] \<and> last b = NL
         then out_state s1 [] \<and> wire_of s1 = wire_of s @ [frame (w @ butlast b)]
         else out_state s1 (w @ b) \<and> wire_of s1 = wire_of s" by blast
  show ?case
  proof (cases "b \<noteq> [] \<and> last b = NL")
    case True
    then have b: "b = butlast b @ [NL]" by (metis append_butlast_last_id)
    have "(w @ butlast b) @ NL # concat ws = t @ [NL]" using pre b by (metis append.assoc append_Cons append_Nil)
    then have "concat ws = [] \<and> w @ butlast b = t"
      using Cons.prems(3) by (cases "concat ws" rule: rev_cases) auto
    with st True s1 emit_nothing [of s1 "[]" ws junk] show ?thesis by simp
  next
    case False
    with st have "out_state s1 (w @ b)" "wire_of s1 = wire_of s" by auto
    with Cons.IH [of s1 "w @ b"] pre Cons.prems(3,4) s1 show ?thesis by auto
  qed
qed

section \<open>The loop\<close>

text \<open>The line of a request, and the requests that the loop can take apart.\<close>

definition request :: "string \<times> string \<Rightarrow> string" where
  "request q = fst q @ '' '' @ snd q"

definition good_request :: "string \<times> string \<Rightarrow> bool" where
  "good_request q \<longleftrightarrow> CHR '' '' \<notin> set (fst q) \<and> NL \<notin> set (request q) \<and> CHR 0x00 \<notin> set (request q)
     \<and> length (request q) < 2 ^ 61"

lemma request_parts:
  assumes "good_request q"
  shows "smap_trimnl (cstr (request q @ [NL])) = request q"
    "memchr (CHR '' '') (request q) = Some (length (fst q))"
    "take (length (fst q)) (request q) = fst q" "drop (length (fst q) + 1) (request q) = snd q"
proof -
  have "cstr (request q @ [NL]) = request q @ [NL]"
    using assms by (auto simp: cstr_def good_request_def takeWhile_eq_all_conv)
  then show "smap_trimnl (cstr (request q @ [NL])) = request q" by (simp add: smap_trimnl_def)
qed (use assms in \<open>auto simp: request_def good_request_def\<close>)

definition one_line :: "string list \<Rightarrow> string \<Rightarrow> bool" where
  "one_line out a \<longleftrightarrow> concat out = a @ [NL] \<and> NL \<notin> set a \<and> length a < 10 ^ 19 - 1"

lemma smap_loop_answers:
  assumes "in_plain s" "out_state s []"
    and "ss_holds (str_dev s) (concat (map (\<lambda>q. request q @ [NL]) qs))"
    and "\<forall>q \<in> set qs. good_request q"
    and "dispatch_queries env rules (map (\<lambda>q. (sid, ci, q)) qs) ms = Some (ms1, outs)"
    and "list_all2 one_line outs as" "close_databases ms1 = Some ms2"
  shows "\<exists>s'. smap_loop_from (\<lambda>_. True) junk env rules sid ci bufsize s ms = Some (s', ms2, LoopReturn 0)
    \<and> wire_of s' = wire_of s @ map frame as"
  using assms
proof (induction qs arbitrary: s ms outs as bufsize)
  case Nil
  from ss.getline_end [OF Nil.prems(1), of junk bufsize] Nil.prems(3) obtain s' n where
    "smap_stream_getline (sockmap_ops (\<lambda>_. True) junk) s bufsize = Some (s', E0, [], n)"
    "ss_out (str_dev s') = ss_out (str_dev s)" by auto
  with Nil.prems(5-7) show ?case by (subst smap_loop_from.simps) auto
next
  case (Cons q qs)
  let ?rest = "concat (map (\<lambda>q. request q @ [NL]) qs)"
  have gq: "good_request q" using Cons.prems(4) by simp
  obtain ms' out outs' where d: "dispatch_query env rules sid ci (fst q) (snd q) ms = Some (ms', out)"
    and ds: "dispatch_queries env rules (map (\<lambda>q. (sid, ci, q)) qs) ms' = Some (ms1, outs')"
    and outs: "outs = out # outs'"
    using Cons.prems(5) by (cases q) (auto simp: bind_eq_Some_conv)
  from Cons.prems(6) outs obtain a as' where as: "as = a # as'" "one_line out a" "list_all2 one_line outs' as'"
    by (auto simp: list_all2_Cons1)
  from ss.getline_line [OF Cons.prems(1), of "request q" ?rest junk bufsize] Cons.prems(3) gq
  obtain s1 n where g: "smap_stream_getline (sockmap_ops (\<lambda>_. True) junk) s bufsize = Some (s1, E0, request q @ [NL], n)"
    "in_plain s1" "ss_holds (str_dev s1) ?rest" "ss.same_rest s s1"
    by (auto simp: good_request_def)
  have o1: "out_state s1 []" "wire_of s1 = wire_of s"
    using Cons.prems(2) g(2,4) by (auto simp: ss.same_rest_def out_state_def in_plain_def)
  from emit_line [OF o1(1), of out a junk] as(2) obtain s2 where
    e: "emit (\<lambda>_. True) junk out s1 = Some s2" "out_state s2 []" "wire_of s2 = wire_of s1 @ [frame a]"
       "ss_in (str_dev s2) = ss_in (str_dev s1)" "in_plain s2"
    using g(2) by (auto simp: one_line_def)
  have "ss_holds (str_dev s2) ?rest" using g(3) e(4) by (simp add: ss_holds_def)
  from Cons.IH [OF e(5,2) this _ ds as(3) Cons.prems(7), of n] Cons.prems(4) obtain s' where
    "smap_loop_from (\<lambda>_. True) junk env rules sid ci n s2 ms' = Some (s', ms2, LoopReturn 0)"
    "wire_of s' = wire_of s2 @ map frame as'" by auto
  with g(1) e(1,3) o1(2) d request_parts [OF gq] as(1) show ?case
    by (subst smap_loop_from.simps) (simp add: Let_def)
qed

lemma session_runs2:
  assumes ready: "ids_distinct ms" "databases_ready ms" "list_all (rule_linked ms) rules"
    and qs: "\<forall>q \<in> set qs. good_request q"
    and mk: "smap_sockmap_stream_create2 (\<lambda>_. True) junk (True, True, True) fd SMAP_STREAM_NO_CLOSE ievs [] crc
      = Some (E0, Some s)"
    and dl: "delivered (map frame (map request qs)) ievs"
    and one: "\<forall>ms1 outs. dispatch_queries env rules (map (\<lambda>q. (sid, ci, q)) qs) ms = Some (ms1, outs) \<longrightarrow>
      (\<forall>out \<in> set outs. \<exists>a. one_line out a)"
  shows "\<exists>ms1 outs as s' ms2. dispatch_queries env rules (map (\<lambda>q. (sid, ci, q)) qs) ms = Some (ms1, outs)
    \<and> list_all2 one_line outs as
    \<and> smap_loop (\<lambda>_. True) junk env rules s sid ci ms = Some (s', ms2, LoopReturn 0)
    \<and> wire_of s' = map frame as \<and> length as = length qs
    \<and> list_all (\<lambda>d. \<not> db_opened d) (database_list ms2)"
proof -
  have f: "\<not> hasfl SMAP_STREAM_NO_CLOSE STR_ERR" "\<not> hasfl SMAP_STREAM_NO_CLOSE STR_EOF"
    by (simp_all add: in_flags)
  have sm: "\<forall>t \<in> set (map request qs). length t < 10 ^ 19" "\<forall>t \<in> set (map request qs). length t < SIZE_MAX"
    using qs by (auto simp: good_request_def SIZE_MAX_def)
  note i = sockmap_create2_in [OF mk delivered_carries [OF dl sm(1)] sm(2)]
  note o = sockmap_create2_out [OF mk f(1)]
  from dispatch_queries_linked [OF ready(3)] obtain ms1 outs where
    d: "dispatch_queries env rules (map (\<lambda>q. (sid, ci, q)) qs) ms = Some (ms1, outs)"
    "length outs = length qs" "keeps ms ms1" by fastforce
  from d(3) ready(1,2) have "databases_ready ms1" by (simp add: keeps_def)
  with close_databases_loop_spec [of ms1 "database_list ms1"] obtain dbs where
    c: "close_databases ms1 = Some (ms1\<lparr>database_list := dbs\<rparr>)" "list_all (\<lambda>d. \<not> db_opened d) dbs"
    by (auto simp: close_databases_def databases_ready_def)
  from one d(1) have "\<forall>out \<in> set outs. \<exists>a. one_line out a" by blast
  then obtain g where g: "\<forall>out \<in> set outs. one_line out (g out)" by metis
  then have l: "list_all2 one_line outs (map g outs)" by (simp add: list_all2_conv_all_nth)
  have "ss_holds (str_dev s) (concat (map (\<lambda>q. request q @ [NL]) qs))"
    using i(1) by (simp add: comp_def)
  from smap_loop_answers [OF i(2) [OF f] o(1) this qs d(1) l c(1), of junk 0] o(2) obtain s' where
    "smap_loop (\<lambda>_. True) junk env rules s sid ci ms = Some (s', ms1\<lparr>database_list := dbs\<rparr>, LoopReturn 0)"
    "wire_of s' = map frame (map g outs)" by (auto simp: smap_loop_def)
  with d l c(2) show ?thesis
    by (intro exI [of _ ms1] exI [of _ outs] exI [of _ "map g outs"] exI [of _ s'] exI [of _ "ms1\<lparr>database_list := dbs\<rparr>"]) auto
qed

lemmas session_runs = session_runs2 [where fd = "(fd, fd)" for fd, folded smap_sockmap_stream_create_def]

section \<open>Properties\<close>

text \<open>C1. A whole session.  With initialised databases and linked rules, a client whose
  requests (a map and a key, separated by a space) arrive as packets in blocks of
  any sizes gets exactly one packet per request, in the order of the requests,
  with the line that the dispatcher produced for it; at the end of the input
  the loop returns 0 and no database is left open.\<close>

theorem session_answers:
  assumes ready: "ids_distinct ms" "databases_ready ms" "list_all (rule_linked ms) rules"
    and qs: "\<forall>q \<in> set qs. good_request q"
    and mk: "smap_sockmap_stream_create (\<lambda>_. True) junk (True, True, True) fd SMAP_STREAM_NO_CLOSE ievs [] crc
      = Some (E0, Some s)"
    and dl: "delivered (map frame (map request qs)) ievs"
    and one: "\<forall>ms1 outs. dispatch_queries env rules (map (\<lambda>q. (sid, ci, q)) qs) ms = Some (ms1, outs) \<longrightarrow>
      (\<forall>out \<in> set outs. \<exists>a. one_line out a)"
  shows "\<exists>ms1 outs as s' ms2. dispatch_queries env rules (map (\<lambda>q. (sid, ci, q)) qs) ms = Some (ms1, outs)
    \<and> list_all2 one_line outs as
    \<and> smap_loop (\<lambda>_. True) junk env rules s sid ci ms = Some (s', ms2, LoopReturn 0)
    \<and> wire_of s' = map frame as \<and> length as = length qs
    \<and> list_all (\<lambda>d. \<not> db_opened d) (database_list ms2)"
  using assms by (rule session_runs)

definition echo_linked :: "unit dispatch_rule list" where
  "echo_linked = (case link_dispatch_rules echo_ready echo_rules of Some rs \<Rightarrow> rs | None \<Rightarrow> [])"

lemma echo_linked_eval:
  "link_dispatch_rules echo_ready echo_rules = Some echo_linked" "list_all (rule_linked echo_ready) echo_linked"
  "dispatch_queries no_env echo_linked (map (\<lambda>q. (''main'', no_conn, q)) [(''users'', ''bob''), (''other'', ''bob'')])
     echo_ready = Some (ms1, outs) \<Longrightarrow> outs = [[''OK'', [NL]], [''NOTFOUND'' @ [NL]]]"
proof -
  from link_rules_linked [OF echo_ready_ok(1), of echo_rules] echo_ready_ok(2) obtain rs where
    "link_dispatch_rules echo_ready echo_rules = Some rs" "list_all (rule_linked echo_ready) rs" by blast
  then show l: "link_dispatch_rules echo_ready echo_rules = Some echo_linked"
    "list_all (rule_linked echo_ready) echo_linked" by (simp_all add: echo_linked_def)
  assume "dispatch_queries no_env echo_linked (map (\<lambda>q. (''main'', no_conn, q)) [(''users'', ''bob''), (''other'', ''bob'')])
     echo_ready = Some (ms1, outs)"
  with echo_dispatch_example l(1) show "outs = [[''OK'', [NL]], [''NOTFOUND'' @ [NL]]]" by simp
qed

theorem session_answers_witness:
  "\<exists>s s' ms2. smap_sockmap_stream_create (\<lambda>_. True) 0 (True, True, True) 3 SMAP_STREAM_NO_CLOSE
        [SockData ''9:users'', SockData '' bob,'', SockData ''9:other bob,''] [] E0 = Some (E0, Some s)
    \<and> smap_loop (\<lambda>_. True) 0 no_env echo_linked s ''main'' no_conn echo_ready = Some (s', ms2, LoopReturn 0)
    \<and> wire_of s' = [''2:OK,'', ''8:NOTFOUND,'']"
proof -
  let ?evs = "[SockData ''9:users'', SockData '' bob,'', SockData ''9:other bob,'']"
  let ?qs = "[(''users'', ''bob''), (''other'', ''bob'')]"
  obtain s where mk: "smap_sockmap_stream_create (\<lambda>_. True) 0 (True, True, True) 3 SMAP_STREAM_NO_CLOSE ?evs [] E0
      = Some (E0, Some s)"
    by (simp add: smap_sockmap_stream_create_def smap_sockmap_stream_create2_def
        smap_sockmap_output_stream_create_def smap_sockmap_input_stream_create_def smap_stream_create_def
        smap_stream_set_buffer_def smap_stream_ref_def sockmap_in_ops_def sockmap_out_ops_def no_ops_def Let_def)
  have fr: "map frame (map request ?qs) = [''9:users bob,'', ''9:other bob,'']" by code_simp
  have fl: "flows ?evs (''9:users'' @ '' bob,'' @ []) [SockData ''9:other bob,'']"
    "flows [SockData ''9:other bob,''] (''9:other bob,'' @ []) []"
    by (intro flows_block flows_nil; simp)+
  then have dl: "delivered (map frame (map request ?qs)) ?evs" unfolding fr by auto
  have gr: "\<forall>q \<in> set ?qs. good_request q" by (simp add: good_request_def request_def)
  have dist: "ids_distinct echo_ready" by (simp add: echo_ready_eval ids_distinct_def)
  have one: "\<forall>ms1 outs. dispatch_queries no_env echo_linked (map (\<lambda>q. (''main'', no_conn, q)) ?qs) echo_ready
      = Some (ms1, outs) \<longrightarrow> (\<forall>out \<in> set outs. \<exists>a. one_line out a)"
  proof (intro allI impI)
    fix ms1 outs
    assume d: "dispatch_queries no_env echo_linked (map (\<lambda>q. (''main'', no_conn, q)) ?qs) echo_ready = Some (ms1, outs)"
    have "one_line [''OK'', [NL]] ''OK''" "one_line [''NOTFOUND'' @ [NL]] ''NOTFOUND''"
      by (simp_all add: one_line_def)
    then show "\<forall>out \<in> set outs. \<exists>a. one_line out a" unfolding echo_linked_eval(3) [OF d] by auto
  qed
  from session_answers [OF dist echo_ready_ok(1) echo_linked_eval(2) gr mk dl one] obtain ms1 outs as s' ms2 where
    r: "dispatch_queries no_env echo_linked (map (\<lambda>q. (''main'', no_conn, q)) ?qs) echo_ready = Some (ms1, outs)"
    "list_all2 one_line outs as"
    "smap_loop (\<lambda>_. True) 0 no_env echo_linked s ''main'' no_conn echo_ready = Some (s', ms2, LoopReturn 0)"
    "wire_of s' = map frame as" by blast
  from r(2) have "as = [''OK'', ''NOTFOUND'']"
    unfolding echo_linked_eval(3) [OF r(1)] by (auto simp: one_line_def list_all2_Cons1)
  moreover have "map frame [''OK'', ''NOTFOUND''] = [''2:OK,'', ''8:NOTFOUND,'']" by code_simp
  ultimately show ?thesis using mk r(3,4) by auto
qed

text \<open>A request line without a space ends the process at once: the loop exits with the code 1,
  without closing the databases, whatever the client sends next.\<close>

theorem bad_request_exits:
  assumes mk: "smap_sockmap_stream_create (\<lambda>_. True) junk (True, True, True) fd SMAP_STREAM_NO_CLOSE ievs oevs crc
      = Some (E0, Some s)"
    and dl: "delivered (map frame (t # ts)) ievs" "\<forall>u \<in> set (t # ts). length u < 2 ^ 61"
    and t: "NL \<notin> set t" "CHR '' '' \<notin> set t" "CHR 0x00 \<notin> set t"
  shows "\<exists>s'. smap_loop (\<lambda>_. True) junk env rules s sid ci ms = Some (s', ms, LoopExit 1)"
proof -
  have f: "\<not> hasfl SMAP_STREAM_NO_CLOSE STR_ERR" "\<not> hasfl SMAP_STREAM_NO_CLOSE STR_EOF"
    by (simp_all add: in_flags)
  have sm: "\<forall>u \<in> set (t # ts). length u < 10 ^ 19" "\<forall>u \<in> set (t # ts). length u < SIZE_MAX"
    using dl(2) by (auto simp: SIZE_MAX_def)
  note i = sockmap_create_in [OF mk delivered_carries [OF dl(1) sm(1)] sm(2)]
  from ss.getline_line [OF i(2) [OF f], of t "concat (map (\<lambda>t. t @ [NL]) ts)" junk 0] i(1) t(1) dl(2)
  obtain s' n where "smap_stream_getline (sockmap_ops (\<lambda>_. True) junk) s 0 = Some (s', E0, t @ [NL], n)" by auto
  moreover have "cstr (t @ [NL]) = t @ [NL]" using t(3) by (auto simp: cstr_def takeWhile_eq_all_conv)
  moreover have "memchr (CHR '' '') t = None" using t(2) by (simp add: memchr_None)
  ultimately show ?thesis
    by (simp add: smap_loop_def) (subst smap_loop_from.simps, simp add: smap_trimnl_def Let_def)
qed

theorem bad_request_exits_witness:
  "\<exists>s s'. smap_sockmap_stream_create (\<lambda>_. True) 0 (True, True, True) 3 SMAP_STREAM_NO_CLOSE
        [SockData ''4:quit,''] [] E0 = Some (E0, Some s)
    \<and> smap_loop (\<lambda>_. True) 0 no_env echo_linked s ''main'' no_conn echo_ready = Some (s', echo_ready, LoopExit 1)"
proof -
  obtain s where mk: "smap_sockmap_stream_create (\<lambda>_. True) 0 (True, True, True) 3 SMAP_STREAM_NO_CLOSE
      [SockData ''4:quit,''] [] E0 = Some (E0, Some s)"
    by (simp add: smap_sockmap_stream_create_def smap_sockmap_stream_create2_def
        smap_sockmap_output_stream_create_def smap_sockmap_input_stream_create_def smap_stream_create_def
        smap_stream_set_buffer_def smap_stream_ref_def sockmap_in_ops_def sockmap_out_ops_def no_ops_def Let_def)
  have fr: "map frame [''quit''] = [''4:quit,'']" by code_simp
  have "flows [SockData ''4:quit,''] (''4:quit,'' @ []) []" by (intro flows_block flows_nil; simp)
  then have dl: "delivered (map frame [''quit'']) [SockData ''4:quit,'']" unfolding fr by auto
  from bad_request_exits [OF mk dl, of no_env echo_linked "''main''" no_conn echo_ready] mk show ?thesis by auto
qed

text \<open>The symbolic form of a mode.\<close>

definition mode_triple :: "nat \<Rightarrow> string" where
  "mode_triple x = [if 4 \<le> x then CHR ''r'' else CHR ''-'', if 2 \<le> x mod 4 then CHR ''w'' else CHR ''-'',
     if odd x then CHR ''x'' else CHR ''-'']"

definition mode_string :: "nat \<Rightarrow> string" where
  "mode_string m = mode_triple (m div 64) @ mode_triple (m div 8 mod 8) @ mode_triple (m mod 8)"

lemma parse_mode_triple:
  assumes "x < 8"
  shows "parse_mode_loop (Suc i) (mode_triple x @ rest) mode = parse_mode_loop i rest (mode * 8 + x)"
proof -
  have three: "Suc (Suc (Suc n)) = n + 3" for n by simp
  have "x = 0 \<or> x = 1 \<or> x = 2 \<or> x = 3 \<or> x = 4 \<or> x = 5 \<or> x = 6 \<or> x = 7" using assms by arith
  then show ?thesis by (elim disjE) (simp_all add: mode_triple_def three)
qed

text \<open>C22. Modes are read back: the symbolic form of every mode of nine bits is parsed to that
  mode.\<close>

theorem parse_mode_string_symbolic:
  assumes "m < 512"
  shows "parse_mode_string (mode_string m) = Some m"
proof -
  have hd: "mode_string m \<noteq> []" "hd (mode_string m) \<notin> set ''01234567''"
    by (simp_all add: mode_string_def mode_triple_def)
  have b: "m div 64 < 8" "m div 8 mod 8 < 8" "m mod 8 < 8" using assms by auto
  have "m div 64 * 8 + m div 8 mod 8 = m div 8"
    using div_mult2_eq [of m 8 8] by (simp add: mult.commute)
  then have "(m div 64 * 8 + m div 8 mod 8) * 8 + m mod 8 = m" by simp
  moreover have "parse_mode_loop (Suc (Suc (Suc 0))) (mode_string m) 0
      = Some ((m div 64 * 8 + m div 8 mod 8) * 8 + m mod 8, [])"
    using parse_mode_triple [OF b(3), of 0 "[]"]
    by (simp add: mode_string_def parse_mode_triple b del: parse_mode_loop.simps(2))
  ultimately show ?thesis using hd by (simp add: parse_mode_string_def numeral_3_eq_3 del: parse_mode_loop.simps(2))
qed

theorem parse_mode_string_symbolic_witness: "parse_mode_string ''rw-r-----'' = Some 416"
proof -
  have "mode_string 416 = ''rw-r-----''" by (simp add: mode_string_def mode_triple_def)
  with parse_mode_string_symbolic [of 416] show ?thesis by simp
qed

section \<open>The cache of settings\<close>

text \<open>The list of settings a cache holds: the chain of entries from \<open>p\<close> to an end.\<close>

fun oc_chain :: "(nat \<Rightarrow> optcache) \<Rightarrow> nat option \<Rightarrow> nat list \<Rightarrow> nat option \<Rightarrow> bool" where
  "oc_chain heap p [] q \<longleftrightarrow> p = q"
| "oc_chain heap p (a # as) q \<longleftrightarrow> p = Some a \<and> oc_chain heap (oc_next (heap a)) as q"

definition oc_apply :: "(nat \<Rightarrow> optcache) \<Rightarrow> nat list \<Rightarrow> (nat \<rightharpoonup> optval) \<Rightarrow> (nat \<rightharpoonup> optval)" where
  "oc_apply heap as vars = foldl (\<lambda>v a. v(oc_ptr (heap a) \<mapsto> oc_val (heap a))) vars as"

lemma flush_chain:
  "oc_chain heap p as None \<Longrightarrow> optcache_flush_from heap p vars = Some (oc_apply heap as vars)"
proof (induction as arbitrary: p vars)
  case Nil
  then show ?case by (simp add: optcache_flush_from.simps oc_apply_def)
next
  case (Cons a as)
  then show ?case by (subst optcache_flush_from.simps) (simp add: oc_apply_def)
qed

text \<open>A new entry is the end of the chain, and what follows it is \<open>junk\<close>.\<close>

lemma chain_cong:
  "(\<And>a. a \<in> set as \<Longrightarrow> heap' a = heap a) \<Longrightarrow> oc_chain heap' p as q = oc_chain heap p as q"
  by (induction as arbitrary: p) auto

lemma chain_append:
  "oc_chain heap p (as @ t # bs) q \<longleftrightarrow> oc_chain heap p as (Some t) \<and> oc_chain heap (oc_next (heap t)) bs q"
  by (induction as arbitrary: p) auto

definition oc_rep :: "optlist \<Rightarrow> nat list \<Rightarrow> nat option \<Rightarrow> bool" where
  "oc_rep oc as junk \<longleftrightarrow> distinct as \<and> (as = [] \<longrightarrow> opthead oc = None \<and> opttail oc = None)
     \<and> (as \<noteq> [] \<longrightarrow> opttail oc = Some (last as) \<and> oc_chain (oc_heap oc) (opthead oc) as junk)"

lemma optcache_new_rep:
  assumes "oc_rep oc as junk0" "a \<notin> set as"
  shows "oc_rep (optcache_new a junk opt val oc) (as @ [a]) junk"
    "oc_heap (optcache_new a junk opt val oc) a = \<lparr>oc_ptr = opt, oc_val = val, oc_next = junk\<rparr>"
    "x \<in> set as \<Longrightarrow> oc_ptr (oc_heap (optcache_new a junk opt val oc) x) = oc_ptr (oc_heap oc x)
       \<and> oc_val (oc_heap (optcache_new a junk opt val oc) x) = oc_val (oc_heap oc x)"
proof -
  let ?oc = "optcache_new a junk opt val oc"
  show "oc_heap ?oc a = \<lparr>oc_ptr = opt, oc_val = val, oc_next = junk\<rparr>" by (simp add: optcache_new_def Let_def)
  show "x \<in> set as \<Longrightarrow> oc_ptr (oc_heap ?oc x) = oc_ptr (oc_heap oc x) \<and> oc_val (oc_heap ?oc x) = oc_val (oc_heap oc x)"
    using assms(2) by (auto simp: optcache_new_def Let_def split: option.split)
  show "oc_rep ?oc (as @ [a]) junk"
  proof (cases as rule: rev_cases)
    case Nil
    with assms show ?thesis by (simp add: oc_rep_def optcache_new_def)
  next
    case (snoc bs t)
    have r: "opttail oc = Some t" "oc_chain (oc_heap oc) (opthead oc) bs (Some t)" "t \<notin> set bs" "a \<noteq> t" "a \<notin> set bs"
      using assms by (auto simp: oc_rep_def snoc chain_append)
    have "oc_chain (oc_heap ?oc) (opthead oc) bs (Some t)"
      using r by (subst chain_cong [of bs _ "oc_heap oc"]) (auto simp: optcache_new_def)
    with r assms show ?thesis by (auto simp: oc_rep_def snoc chain_append optcache_new_def)
  qed
qed

text \<open>C38. The settings of the command line.  If the memory that the last entry was
  allocated from happened to be zero, flushing the cache returns, assigns the
  cached settings in the order in which they were made (the last one for a
  variable wins) and empties the cache.\<close>

theorem optcache_flush_correct:
  assumes "oc_rep oc as junk0" "a \<notin> set as"
  shows "\<exists>oc' vars'. optcache_flush (optcache_new a None opt val oc) vars = Some (oc', vars')
    \<and> opthead oc' = None \<and> opttail oc' = None
    \<and> vars' = (oc_apply (oc_heap oc) as vars)(opt \<mapsto> val)"
proof -
  let ?oc = "optcache_new a None opt val oc"
  note n = optcache_new_rep [OF assms, where junk = None and opt = opt and val = val]
  have "oc_chain (oc_heap ?oc) (opthead ?oc) (as @ [a]) None" using n(1) by (simp add: oc_rep_def)
  note fl = flush_chain [OF this, of vars]
  have "oc_apply (oc_heap ?oc) as vars = oc_apply (oc_heap oc) as vars"
    unfolding oc_apply_def by (rule foldl_cong) (use n(3) in auto)
  then have "oc_apply (oc_heap ?oc) (as @ [a]) vars = (oc_apply (oc_heap oc) as vars)(opt \<mapsto> val)"
    using n(2) by (simp add: oc_apply_def)
  with fl show ?thesis by (simp add: optcache_flush_def)
qed

definition oc_empty :: optlist where
  "oc_empty = \<lparr>oc_heap = (\<lambda>_. \<lparr>oc_ptr = 0, oc_val = OPT_INT 0, oc_next = None\<rparr>), opthead = None, opttail = None\<rparr>"

theorem optcache_flush_correct_witness:
  "\<exists>oc' vars'. optcache_flush (optcache_new 20 None 1 (OPT_INT 5) (optcache_new 10 (Some 99) 1 (OPT_INT 3) oc_empty))
      Map.empty = Some (oc', vars') \<and> vars' 1 = Some (OPT_INT 5)"
proof -
  have "oc_rep oc_empty [] None" by (simp add: oc_rep_def oc_empty_def)
  from optcache_new_rep(1) [OF this, where a = 10 and junk = "Some 99" and opt = 1 and val = "OPT_INT 3"]
  have "oc_rep (optcache_new 10 (Some 99) 1 (OPT_INT 3) oc_empty) [10] (Some 99)" by simp
  from optcache_flush_correct [OF this, of 20 1 "OPT_INT 5" Map.empty] show ?thesis by auto
qed

end
