(* ===== verification/Smap_Srvman.thy ===== *)
theory Smap_Srvman
  imports Smap_Module
begin

text \<open>
  The server manager (\<open>src/srvman.c\<close>): the table of servers with their child
  processes, the opening of the listening sockets, and the main loop.

  A server is identified by the address of its structure, \<open>srv_ptr\<close>; the linked
  list of servers is a list (\<open>Smap_Dlist\<close> justifies this).  The system is the
  environment: the results of the system calls are arguments, and the calls that
  change something outside the process are collected in a list.
\<close>

section \<open>Data\<close>

abbreviation (input) SRV_SINGLE_PROCESS :: flagword where "SRV_SINGLE_PROCESS \<equiv> 1"
abbreviation (input) SRV_KEEP_EXISTING :: flagword where "SRV_KEEP_EXISTING \<equiv> 2"
abbreviation (input) DEFAULT_PIDTAB_SIZE :: nat where "DEFAULT_PIDTAB_SIZE \<equiv> 64"
abbreviation (input) DEFAULT_SHUTDOWN_TIMEOUT :: nat where "DEFAULT_SHUTDOWN_TIMEOUT \<equiv> 5"
abbreviation (input) DEFAULT_BACKLOG :: int where "DEFAULT_BACKLOG \<equiv> 8"

text \<open>The values \<open>(uid_t)-1\<close>, \<open>(gid_t)-1\<close> and \<open>(mode_t)-1\<close> are \<open>None\<close>.\<close>

record 'd smap_server =
  srv_ptr :: nat
  srv_id :: string
  srv_url :: string
  srv_sa :: sockaddr
  srv_salen :: nat
  srv_uid :: "nat option"
  srv_gid :: "nat option"
  srv_mode :: "nat option"
  srv_backlog :: int
  srv_fd :: int
  srv_flags :: flagword
  srv_data :: "'d option"
  srv_max_children :: nat
  srv_num_children :: nat
  srv_pidtab :: "int list"

record srvman_param =
  sp_single_process :: bool
  sp_reuseaddr :: bool
  sp_shutdown_timeout :: nat
  sp_max_children :: nat
  sp_backlog :: int
  sp_socket_mode :: nat

text \<open>The manager with the variables of its main loop; \<open>fdset\<close> is a list of
  descriptors.\<close>

record 'd srvman =
  sm_servers :: "'d smap_server list"
  sm_num_children :: nat
  sm_need_cleanup :: bool
  sm_stop :: bool
  sm_recompute :: bool
  sm_maxfd :: int
  sm_fdset :: "int list"

definition SRVMAN_BACKLOG :: "srvman_param \<Rightarrow> 'd smap_server \<Rightarrow> int" where
  "SRVMAN_BACKLOG sp srv = (if srv_backlog srv \<noteq> 0 then srv_backlog srv else sp_backlog sp)"

definition SRVMAN_REUSEADDR :: "srvman_param \<Rightarrow> 'd smap_server \<Rightarrow> bool" where
  "SRVMAN_REUSEADDR sp srv \<longleftrightarrow> sp_reuseaddr sp \<or> \<not> hasfl (srv_flags srv) SRV_KEEP_EXISTING"

definition SERVER_BUSY :: "'d smap_server \<Rightarrow> bool" where
  "SERVER_BUSY srv \<longleftrightarrow> srv_max_children srv \<noteq> 0 \<and> srv_num_children srv \<ge> srv_max_children srv"

section \<open>Signals\<close>

definition smap_srvman_stop :: "'d srvman \<Rightarrow> 'd srvman" where
  "smap_srvman_stop sm = sm\<lparr>sm_stop := True\<rparr>"

definition srvman_signal :: "bool \<Rightarrow> 'd srvman \<Rightarrow> 'd srvman" where
  "srvman_signal sigchld sm =
     (if sigchld then sm\<lparr>sm_need_cleanup := True\<rparr> else sm\<lparr>sm_stop := True\<rparr>)"

section \<open>Child processes\<close>

definition update_server :: "'d srvman \<Rightarrow> 'd smap_server \<Rightarrow> 'd srvman" where
  "update_server sm srv =
     sm\<lparr>sm_servers := map (\<lambda>s. if srv_ptr s = srv_ptr srv then srv else s) (sm_servers sm)\<rparr>"

text \<open>The index of the first entry that is equal to \<open>x\<close>, or the size of the table.\<close>

fun pidtab_index :: "int list \<Rightarrow> int \<Rightarrow> nat" where
  "pidtab_index [] x = 0"
| "pidtab_index (p # ps) x = (if p = x then 0 else Suc (pidtab_index ps x))"

definition register_child :: "'d srvman \<Rightarrow> 'd smap_server \<Rightarrow> int \<Rightarrow> 'd srvman" where
  "register_child sm srv pid =
     (let i = pidtab_index (srv_pidtab srv) 0;
          size = length (srv_pidtab srv);
          tab = (if i = size
                 then srv_pidtab srv @
                      replicate ((if size = 0 then DEFAULT_PIDTAB_SIZE else 2 * size) - size) 0
                 else srv_pidtab srv);
          srv = srv\<lparr>srv_pidtab := tab[i := pid], srv_num_children := srv_num_children srv + 1\<rparr>
      in (update_server sm srv)\<lparr>sm_num_children := sm_num_children sm + 1\<rparr>)"

text \<open>The search through the servers; the second component is the code.\<close>

fun unregister_loop :: "'d srvman \<Rightarrow> 'd smap_server list \<Rightarrow> int \<Rightarrow> 'd srvman \<times> bool" where
  "unregister_loop sm [] pid = (sm, False)"
| "unregister_loop sm (srv # srvs) pid =
     (let i = pidtab_index (srv_pidtab srv) pid in
      if i < length (srv_pidtab srv) then
        ((update_server sm
            (srv\<lparr>srv_pidtab := (srv_pidtab srv)[i := 0],
                 srv_num_children := size_sub (srv_num_children srv) 1\<rparr>))
          \<lparr>sm_num_children := size_sub (sm_num_children sm) 1\<rparr>, SERVER_BUSY srv)
      else unregister_loop sm srvs pid)"

definition unregister_child :: "'d srvman \<Rightarrow> int \<Rightarrow> 'd srvman \<times> bool" where
  "unregister_child sm pid = unregister_loop sm (sm_servers sm) pid"

text \<open>\<open>exits\<close>: the process identifiers that \<open>waitpid\<close> returns, one after the other.\<close>

fun children_cleanup :: "int list \<Rightarrow> 'd srvman \<Rightarrow> 'd srvman \<times> bool" where
  "children_cleanup [] sm = (sm, False)"
| "children_cleanup (pid # exits) sm =
     (case unregister_child sm pid of
        (sm, r1) \<Rightarrow> (case children_cleanup exits sm of (sm, r2) \<Rightarrow> (sm, r1 \<or> r2)))"

section \<open>Servers\<close>

definition server_remove :: "'d srvman \<Rightarrow> 'd smap_server \<Rightarrow> 'd srvman" where
  "server_remove sm srv = sm\<lparr>sm_servers := filter (\<lambda>s. srv_ptr s \<noteq> srv_ptr srv) (sm_servers sm)\<rparr>"

definition smap_server_free :: "'d srvman \<Rightarrow> 'd smap_server \<Rightarrow> 'd srvman" where
  "smap_server_free sm srv = server_remove sm srv"

definition smap_server_shutdown :: "'d srvman \<Rightarrow> 'd smap_server \<Rightarrow> 'd srvman" where
  "smap_server_shutdown sm srv =
     (if srv_fd srv = -1 then sm else update_server sm (srv\<lparr>srv_fd := -1\<rparr>))"

text \<open>The signals that are sent: process identifier and signal.\<close>

definition server_signal_children :: "'d smap_server \<Rightarrow> nat \<Rightarrow> (int \<times> nat) list" where
  "server_signal_children srv sig = map (\<lambda>p. (p, sig)) (filter (\<lambda>p. p \<noteq> 0) (srv_pidtab srv))"

text \<open>\<open>url_parse\<close> is the parser of addresses; the structure is zeroed, so the
  descriptor of a new server is 0.\<close>

definition smap_server_new ::
  "(string \<Rightarrow> (sockaddr \<times> nat) option) \<Rightarrow> nat \<Rightarrow> string \<Rightarrow> string \<Rightarrow> flagword \<Rightarrow> 'd smap_server option" where
  "smap_server_new url_parse ptr nm url fl =
     (case url_parse url of
        None \<Rightarrow> None
      | Some (sa, salen) \<Rightarrow>
          Some \<lparr>srv_ptr = ptr, srv_id = nm, srv_url = url, srv_sa = sa, srv_salen = salen,
                srv_uid = None, srv_gid = None, srv_mode = None, srv_backlog = 0, srv_fd = 0,
                srv_flags = fl, srv_data = None, srv_max_children = 0, srv_num_children = 0,
                srv_pidtab = []\<rparr>)"

datatype srvman_bitop = srvman_bitop_asg | srvman_bitop_set | srvman_bitop_clr

definition smap_server_set_data :: "'d smap_server \<Rightarrow> 'd option \<Rightarrow> 'd smap_server" where
  "smap_server_set_data srv d = srv\<lparr>srv_data := d\<rparr>"

definition smap_server_set_max_children :: "'d smap_server \<Rightarrow> nat \<Rightarrow> 'd smap_server" where
  "smap_server_set_max_children srv n = srv\<lparr>srv_max_children := n\<rparr>"

definition smap_server_set_backlog :: "'d smap_server \<Rightarrow> int \<Rightarrow> 'd smap_server" where
  "smap_server_set_backlog srv n = srv\<lparr>srv_backlog := n\<rparr>"

definition smap_server_set_flags :: "'d smap_server \<Rightarrow> flagword \<Rightarrow> srvman_bitop \<Rightarrow> 'd smap_server" where
  "smap_server_set_flags srv b bop =
     (case bop of
        srvman_bitop_asg \<Rightarrow> srv\<lparr>srv_flags := b\<rparr>
      | srvman_bitop_set \<Rightarrow> srv\<lparr>srv_flags := setfl (srv_flags srv) b\<rparr>
      | srvman_bitop_clr \<Rightarrow> srv\<lparr>srv_flags := clrfl (srv_flags srv) b\<rparr>)"

definition smap_server_set_mode :: "'d smap_server \<Rightarrow> nat \<Rightarrow> 'd smap_server" where
  "smap_server_set_mode srv m = srv\<lparr>srv_mode := Some m\<rparr>"

definition smap_server_set_owner :: "'d smap_server \<Rightarrow> nat option \<Rightarrow> nat option \<Rightarrow> 'd smap_server" where
  "smap_server_set_owner srv uid gid =
     (let srv = (if uid \<noteq> None then srv\<lparr>srv_uid := uid\<rparr> else srv)
      in if gid \<noteq> None then srv\<lparr>srv_gid := gid\<rparr> else srv)"

definition smap_server_get_owner :: "'d smap_server \<Rightarrow> nat option \<times> nat option" where
  "smap_server_get_owner srv = (srv_uid srv, srv_gid srv)"

definition smap_srvman_attach_server :: "'d srvman \<Rightarrow> 'd smap_server \<Rightarrow> 'd srvman" where
  "smap_srvman_attach_server sm srv = sm\<lparr>sm_servers := sm_servers sm @ [srv]\<rparr>"

definition smap_srvman_find_server :: "'d srvman \<Rightarrow> string \<Rightarrow> 'd smap_server option" where
  "smap_srvman_find_server sm nm = find (\<lambda>s. srv_id s = nm) (sm_servers sm)"

definition smap_srvman_get_sockaddr :: "'d srvman \<Rightarrow> string \<Rightarrow> (sockaddr \<times> nat) option" where
  "smap_srvman_get_sockaddr sm nm =
     (case smap_srvman_find_server sm nm of
        None \<Rightarrow> None
      | Some srv \<Rightarrow> Some (srv_sa srv, srv_salen srv))"

section \<open>Connections\<close>

text \<open>
  What the system answers to one connection: whether the access lists allow it,
  the results of the hooks (0 if there is no hook), and of \<open>fork\<close> in the parent.  The result of
  \<open>server_run\<close> is the manager and whether the handler was run in this process.
\<close>

record conn_env =
  ce_acl :: bool
  ce_manager_prefork :: int
  ce_server_prefork :: int
  ce_fork :: int

definition server_run :: "srvman_param \<Rightarrow> conn_env \<Rightarrow> 'd smap_server \<Rightarrow> sockaddr \<Rightarrow> 'd srvman \<Rightarrow> 'd srvman \<times> bool" where
  "server_run sp ce srv sa sm =
     (if (case sa of AF_INET _ \<Rightarrow> \<not> ce_acl ce | _ \<Rightarrow> False) then (sm, False)
      else if sp_single_process sp \<or> hasfl (srv_flags srv) SRV_SINGLE_PROCESS then
        (sm, ce_manager_prefork ce = 0 \<and> ce_server_prefork ce = 0)
      else if ce_server_prefork ce \<noteq> 0 then (sm, False)
      else if ce_fork ce = -1 then (sm, False)
      else (register_child sm srv (ce_fork ce), False))"

text \<open>The result of \<open>accept\<close>: interrupted, another failure, or a connection from an address.\<close>

datatype accept_res = AcceptIntr | AcceptFail | Accepted sockaddr conn_env

definition server_accept ::
  "srvman_param \<Rightarrow> accept_res \<Rightarrow> 'd smap_server \<Rightarrow> 'd srvman \<Rightarrow> 'd srvman \<times> bool" where
  "server_accept sp r srv sm =
     (if srv_fd srv = -1 then (smap_server_free sm srv, True)
      else if SERVER_BUSY srv then (sm, True)
      else (case r of
              AcceptIntr \<Rightarrow> (sm, False)
            | AcceptFail \<Rightarrow> (smap_server_free (smap_server_shutdown sm srv) srv, True)
            | Accepted sa ce \<Rightarrow> (fst (server_run sp ce srv sa sm), False)))"

text \<open>The traversal: \<open>ptrs\<close> are the servers still to visit, \<open>accepts\<close> the result of
  \<open>accept\<close> for each of them.\<close>

fun connection_loop_from ::
  "srvman_param \<Rightarrow> (nat \<Rightarrow> accept_res) \<Rightarrow> int list \<Rightarrow> nat list \<Rightarrow> 'd srvman \<Rightarrow> 'd srvman \<times> bool" where
  "connection_loop_from sp accepts fdset [] sm = (sm, False)"
| "connection_loop_from sp accepts fdset (p # ps) sm =
     (case find (\<lambda>s. srv_ptr s = p) (sm_servers sm) of
        None \<Rightarrow> connection_loop_from sp accepts fdset ps sm
      | Some srv \<Rightarrow>
          (case (if srv_fd srv \<in> set fdset then server_accept sp (accepts p) srv sm else (sm, False)) of
             (sm, r1) \<Rightarrow>
               (case connection_loop_from sp accepts fdset ps sm of (sm, r2) \<Rightarrow> (sm, r1 \<or> r2))))"

definition connection_loop ::
  "srvman_param \<Rightarrow> (nat \<Rightarrow> accept_res) \<Rightarrow> int list \<Rightarrow> 'd srvman \<Rightarrow> 'd srvman \<times> bool" where
  "connection_loop sp accepts fdset sm =
     connection_loop_from sp accepts fdset (map srv_ptr (sm_servers sm)) sm"

fun compute_fdset_loop :: "'d smap_server list \<Rightarrow> int \<times> int list \<Rightarrow> int \<times> int list" where
  "compute_fdset_loop [] acc = acc"
| "compute_fdset_loop (p # ps) (maxfd, fds) =
     (if SERVER_BUSY p then compute_fdset_loop ps (maxfd, fds)
      else compute_fdset_loop ps (max maxfd (srv_fd p), fds @ [srv_fd p]))"

definition compute_fdset :: "'d srvman \<Rightarrow> int \<times> int list" where
  "compute_fdset sm = compute_fdset_loop (sm_servers sm) (0, [])"

section \<open>The main loop\<close>

text \<open>The result of \<open>select\<close>: interrupted, another failure, or the ready descriptors.\<close>

datatype select_res = SelectIntr | SelectFail | SelectReady "int list"

record loop_env =
  le_exits :: "int list"
  le_idle :: int
  le_select :: select_res
  le_accepts :: "nat \<Rightarrow> accept_res"

datatype loop_res = LoopOn | LoopBreak

text \<open>The part of an iteration before \<open>select\<close>: collecting children and computing the
  set of descriptors.\<close>

definition run_prepare :: "int list \<Rightarrow> 'd srvman \<Rightarrow> 'd srvman" where
  "run_prepare exits sm =
     (let sm = (if sm_need_cleanup sm then
                  (case children_cleanup exits (sm\<lparr>sm_need_cleanup := False\<rparr>) of
                     (sm, r) \<Rightarrow> sm\<lparr>sm_recompute := r\<rparr>)
                else sm)
      in if sm_recompute sm then
           (case compute_fdset sm of
              (maxfd, fds) \<Rightarrow> sm\<lparr>sm_maxfd := maxfd, sm_fdset := fds, sm_recompute := False\<rparr>)
         else sm)"

definition run_iteration :: "srvman_param \<Rightarrow> loop_env \<Rightarrow> 'd srvman \<Rightarrow> 'd srvman \<times> loop_res" where
  "run_iteration sp le sm =
     (let sm = run_prepare (le_exits le) sm in
      if sm_maxfd sm = 0 then (sm\<lparr>sm_recompute := True\<rparr>, LoopOn)
      else if sp_max_children sp \<noteq> 0 \<and> sm_num_children sm \<ge> sp_max_children sp then (sm, LoopOn)
      else if le_idle le \<noteq> 0 then (sm, LoopBreak)
      else (case le_select le of
              SelectIntr \<Rightarrow> (sm, LoopOn)
            | SelectFail \<Rightarrow> (sm, LoopBreak)
            | SelectReady ready \<Rightarrow>
                (case connection_loop sp (le_accepts le)
                        (filter (\<lambda>fd. fd \<in> set ready) (sm_fdset sm)) sm of
                   (sm, r) \<Rightarrow> (sm\<lparr>sm_recompute := r\<rparr>, LoopOn))))"

text \<open>The parameters and the state with which the loop starts.\<close>

definition run_param :: "srvman_param \<Rightarrow> srvman_param" where
  "run_param sp = sp\<lparr>sp_shutdown_timeout :=
       (if sp_shutdown_timeout sp = 0 then DEFAULT_SHUTDOWN_TIMEOUT else sp_shutdown_timeout sp),
     sp_backlog := (if sp_backlog sp = 0 then DEFAULT_BACKLOG else sp_backlog sp)\<rparr>"

definition run_start :: "'d srvman \<Rightarrow> 'd srvman" where
  "run_start sm = sm\<lparr>sm_stop := False, sm_recompute := True\<rparr>"

text \<open>
  The manager as a transition system: an iteration of the loop while there are
  servers and no stop is requested, or a signal between two iterations.
\<close>

inductive srvman_step :: "srvman_param \<Rightarrow> 'd srvman \<Rightarrow> 'd srvman \<Rightarrow> bool" for sp where
  step_iterate: "sm_servers sm \<noteq> [] \<Longrightarrow> \<not> sm_stop sm \<Longrightarrow> run_iteration sp le sm = (sm', LoopOn) \<Longrightarrow>
     (\<forall>pid \<in> set (le_exits le). 0 < pid) \<Longrightarrow>
     (\<forall>p sa ce. le_accepts le p = Accepted sa ce \<longrightarrow> ce_fork ce = -1 \<or> 0 < ce_fork ce) \<Longrightarrow>
     srvman_step sp sm sm'"
| step_signal: "srvman_step sp sm (srvman_signal sigchld sm)"

inductive srvman_reachable :: "srvman_param \<Rightarrow> 'd srvman \<Rightarrow> 'd srvman \<Rightarrow> bool" for sp sm0 where
  reach_start: "srvman_reachable sp sm0 (run_start sm0)"
| reach_step: "srvman_reachable sp sm0 sm \<Longrightarrow> srvman_step sp sm sm' \<Longrightarrow> srvman_reachable sp sm0 sm'"

section \<open>Opening and shutting down\<close>

datatype stat_res = StatNoent | StatErr | StatSocket | StatOther

text \<open>The results of the calls for one server; \<open>oe_umask\<close> is the mask that \<open>umask\<close> returns, the one that was in force.\<close>

record open_env =
  oe_socket :: int
  oe_stat :: stat_res
  oe_unlink_ok :: bool
  oe_umask :: nat
  oe_bind_ok :: bool
  oe_euid :: nat
  oe_listen_ok :: bool

datatype syscall =
    SysSocket int | SysUnlink string | SysReuseaddr int | SysUmask nat | SysBind int sockaddr
  | SysChown string "nat option" "nat option" | SysListen int int | SysClose int

text \<open>The first stage of \<open>server_prep\<close>; \<open>None\<close> is the error return.\<close>

definition prep_address ::
  "srvman_param \<Rightarrow> open_env \<Rightarrow> 'd smap_server \<Rightarrow> int \<Rightarrow> syscall list \<times> bool" where
  "prep_address sp oe srv fd =
     (case srv_sa srv of
        AF_UNIX path \<Rightarrow>
          (case oe_stat oe of
             StatNoent \<Rightarrow> ([], True)
           | StatErr \<Rightarrow> ([], False)
           | StatOther \<Rightarrow> ([], False)
           | StatSocket \<Rightarrow>
               if SRVMAN_REUSEADDR sp srv then ([SysUnlink path], oe_unlink_ok oe)
               else ([], False))
      | AF_INET _ \<Rightarrow> (if SRVMAN_REUSEADDR sp srv then [SysReuseaddr fd] else [], True)
      | AF_OTHER _ \<Rightarrow> ([], True))"

text \<open>The umask: \<open>0777 & ~mode\<close>.\<close>

definition socket_umask :: "srvman_param \<Rightarrow> 'd smap_server \<Rightarrow> nat" where
  "socket_umask sp srv =
     unat (0x1FF AND NOT (of_nat (case srv_mode srv of None \<Rightarrow> sp_socket_mode sp | Some m \<Rightarrow> m)) :: 32 word)"

definition server_prep ::
  "srvman_param \<Rightarrow> open_env \<Rightarrow> 'd smap_server \<Rightarrow> int \<Rightarrow> syscall list \<times> bool" where
  "server_prep sp oe srv fd =
     (case prep_address sp oe srv fd of
        (calls, ok) \<Rightarrow>
          if \<not> ok then (calls, False)
          else
            let old_mask = oe_umask oe;
                calls = calls @ [SysUmask (socket_umask sp srv), SysBind fd (srv_sa srv), SysUmask old_mask] in
            if \<not> oe_bind_ok oe then (calls, False)
            else
              let calls = (case srv_sa srv of
                             AF_UNIX path \<Rightarrow>
                               if (srv_uid srv \<noteq> None \<or> srv_gid srv \<noteq> None) \<and> oe_euid oe = 0
                               then calls @ [SysChown path (srv_uid srv) (srv_gid srv)] else calls
                           | _ \<Rightarrow> calls);
                  calls = calls @ [SysListen fd (SRVMAN_BACKLOG sp srv)]
              in (calls, oe_listen_ok oe))"

definition server_open ::
  "srvman_param \<Rightarrow> open_env \<Rightarrow> 'd smap_server \<Rightarrow> syscall list \<times> 'd smap_server option" where
  "server_open sp oe srv =
     (if oe_socket oe = -1 then ([], None)
      else (case server_prep sp oe srv (oe_socket oe) of
              (calls, ok) \<Rightarrow>
                if \<not> ok then (SysSocket (oe_socket oe) # calls @ [SysClose (oe_socket oe)], None)
                else (SysSocket (oe_socket oe) # calls, Some (srv\<lparr>srv_fd := oe_socket oe\<rparr>))))"

text \<open>The servers that cannot be opened are removed; the result is the code.\<close>

fun srvman_open_loop ::
  "srvman_param \<Rightarrow> (nat \<Rightarrow> open_env) \<Rightarrow> 'd smap_server list \<Rightarrow> syscall list \<times> 'd smap_server list" where
  "srvman_open_loop sp oes [] = ([], [])"
| "srvman_open_loop sp oes (p # ps) =
     (case (server_open sp (oes (srv_ptr p)) p, srvman_open_loop sp oes ps) of
        ((calls, r), (calls', ps')) \<Rightarrow>
          (calls @ calls', case r of None \<Rightarrow> ps' | Some p' \<Rightarrow> p' # ps'))"

definition smap_srvman_open ::
  "srvman_param \<Rightarrow> (nat \<Rightarrow> open_env) \<Rightarrow> 'd srvman \<Rightarrow> syscall list \<times> 'd srvman \<times> bool" where
  "smap_srvman_open sp oes sm =
     (case srvman_open_loop sp oes (sm_servers sm) of
        (calls, srvs) \<Rightarrow> (calls, sm\<lparr>sm_servers := srvs\<rparr>, srvs = []))"

text \<open>\<open>rounds\<close>: the children collected in each second until the timeout; the loop body is executed
  at least once.\<close>

fun shutdown_wait :: "int list list \<Rightarrow> 'd srvman \<Rightarrow> 'd srvman" where
  "shutdown_wait [] sm = sm"
| "shutdown_wait (exits # rounds) sm =
     (let sm = fst (children_cleanup exits sm) in
      if sm_num_children sm = 0 then sm else shutdown_wait rounds sm)"

abbreviation (input) SIGTERM :: nat where "SIGTERM \<equiv> 15"
abbreviation (input) SIGKILL :: nat where "SIGKILL \<equiv> 9"

definition smap_srvman_shutdown :: "int list list \<Rightarrow> 'd srvman \<Rightarrow> (int \<times> nat) list \<times> 'd srvman" where
  "smap_srvman_shutdown rounds sm =
     (let terms = concat (map (\<lambda>p. server_signal_children p SIGTERM) (sm_servers sm));
          sm = shutdown_wait rounds sm;
          kills = concat (map (\<lambda>p. server_signal_children p SIGKILL) (sm_servers sm))
      in (terms @ kills,
          sm\<lparr>sm_servers := map (\<lambda>p. if srv_fd p = -1 then p else p\<lparr>srv_fd := -1\<rparr>) (sm_servers sm)\<rparr>))"

definition smap_srvman_free :: "'d srvman \<Rightarrow> 'd srvman" where
  "smap_srvman_free sm = foldl smap_server_free sm (sm_servers sm)"

definition smap_srvman_count_servers :: "'d srvman \<Rightarrow> nat" where
  "smap_srvman_count_servers sm = length (sm_servers sm)"

text \<open>\<open>fun_rc\<close> is the function that is applied to each server: the server it leaves
  and its code.\<close>

definition smap_srvman_iterate_data ::
  "('d smap_server \<Rightarrow> 'd option \<Rightarrow> 'd smap_server \<times> int) \<Rightarrow> 'd srvman \<Rightarrow> 'd srvman" where
  "smap_srvman_iterate_data fun_rc sm =
     sm\<lparr>sm_servers := map (\<lambda>p. fst (fun_rc p (srv_data p)))
          (filter (\<lambda>p. snd (fun_rc p (srv_data p)) = 0) (sm_servers sm))\<rparr>"

section \<open>The tables of children\<close>

definition live :: "'d smap_server \<Rightarrow> nat" where
  "live srv = length (filter (\<lambda>p. p \<noteq> 0) (srv_pidtab srv))"

definition srv_inv :: "'d smap_server \<Rightarrow> bool" where
  "srv_inv srv \<longleftrightarrow> srv_num_children srv = live srv
     \<and> (srv_max_children srv \<noteq> 0 \<longrightarrow> srv_num_children srv \<le> srv_max_children srv)"

lemma pidtab_index_less: "pidtab_index tab x < length tab \<Longrightarrow> tab ! pidtab_index tab x = x"
  by (induction tab) auto

lemma pidtab_index_le: "pidtab_index tab x \<le> length tab"
  by (induction tab) auto

lemma filter_update_in: "i < length tab \<Longrightarrow> tab ! i = 0 \<Longrightarrow> x \<noteq> (0::int) \<Longrightarrow>
    length (filter (\<lambda>p. p \<noteq> 0) (tab[i := x])) = length (filter (\<lambda>p. p \<noteq> 0) tab) + 1"
proof (induction tab arbitrary: i)
  case (Cons a tab)
  then show ?case by (cases i) auto
qed simp

lemma filter_update_out: "i < length tab \<Longrightarrow> tab ! i \<noteq> (0::int) \<Longrightarrow>
    length (filter (\<lambda>p. p \<noteq> 0) tab) = length (filter (\<lambda>p. p \<noteq> 0) (tab[i := 0])) + 1"
proof (induction tab arbitrary: i)
  case (Cons a tab)
  then show ?case by (cases i) auto
qed simp

lemma register_live:
  assumes "pid \<noteq> 0" "i = pidtab_index tab 0"
    and "tab' = (if i = length tab
       then tab @ replicate ((if length tab = 0 then 64 else 2 * length tab) - length tab) 0 else tab)"
  shows "length (filter (\<lambda>p. p \<noteq> (0::int)) (tab'[i := pid])) = length (filter (\<lambda>p. p \<noteq> 0) tab) + 1"
proof -
  have f: "length (filter (\<lambda>p. p \<noteq> 0) tab') = length (filter (\<lambda>p. p \<noteq> 0) tab)"
    using assms(3) by (simp add: filter_replicate)
  have "i < length tab'" using assms(2,3) pidtab_index_le [of tab 0] by (auto simp: le_neq_implies_less)
  moreover have "tab' ! i = 0"
    using assms(2,3) pidtab_index_less [of tab 0] pidtab_index_le [of tab 0]
    by (auto simp: nth_append le_neq_implies_less split: if_splits)
  ultimately show ?thesis using filter_update_in [of i tab' pid] assms(1) f by simp
qed

section \<open>Updates of the list of servers\<close>

definition ptrs :: "'d srvman \<Rightarrow> nat list" where
  "ptrs sm = map srv_ptr (sm_servers sm)"

definition total_children :: "'d srvman \<Rightarrow> nat" where
  "total_children sm = sum_list (map srv_num_children (sm_servers sm))"

lemma sum_update:
  "distinct (map srv_ptr xs) \<Longrightarrow> old \<in> set xs \<Longrightarrow> srv_ptr new = srv_ptr old \<Longrightarrow>
   sum_list (map f (map (\<lambda>s. if srv_ptr s = srv_ptr new then new else s) xs)) + f old = sum_list (map f xs) + (f new :: nat)"
proof (induction xs)
  case (Cons x xs)
  show ?case
  proof (cases "x = old")
    case True
    with Cons.prems have "\<forall>s \<in> set xs. srv_ptr s \<noteq> srv_ptr new" by (metis distinct.simps(2) imageI list.set_map list.simps(9))
    then have "map (\<lambda>s. if srv_ptr s = srv_ptr new then new else s) xs = xs" by (induction xs) auto
    with True Cons.prems show ?thesis by simp
  next
    case False
    with Cons.prems have "old \<in> set xs" "srv_ptr x \<noteq> srv_ptr new" by auto
    with Cons show ?thesis by simp
  qed
qed simp

lemma update_server_facts:
  assumes "distinct (ptrs sm)" "old \<in> set (sm_servers sm)" "srv_ptr new = srv_ptr old"
  shows "ptrs (update_server sm new) = ptrs sm"
    "total_children (update_server sm new) + srv_num_children old = total_children sm + srv_num_children new"
    "s \<in> set (sm_servers (update_server sm new)) \<Longrightarrow> s = new \<or> s \<in> set (sm_servers sm)"
    "sm_num_children (update_server sm new) = sm_num_children sm"
    "sm_fdset (update_server sm new) = sm_fdset sm"
proof -
  have "map srv_ptr (map (\<lambda>s. if srv_ptr s = srv_ptr new then new else s) xs) = map srv_ptr xs" for xs
    by (induction xs) auto
  then show "ptrs (update_server sm new) = ptrs sm" by (simp add: ptrs_def update_server_def)
  show "total_children (update_server sm new) + srv_num_children old = total_children sm + srv_num_children new"
    using sum_update [of "sm_servers sm" old new srv_num_children] assms
    by (simp add: total_children_def update_server_def ptrs_def)
qed (auto simp: update_server_def)

text \<open>The invariant of the manager.  The global counter is at least the sum of the
  counters of the servers (a server that is released takes its own with it).\<close>

definition srvman_inv :: "'d srvman \<Rightarrow> bool" where
  "srvman_inv sm \<longleftrightarrow> distinct (ptrs sm) \<and> (\<forall>srv \<in> set (sm_servers sm). srv_inv srv)
     \<and> total_children sm \<le> sm_num_children sm"

text \<open>Comparison of two states of the manager: the change of the counter, and that the counter is exact unless a
  server was released.\<close>

definition exact :: "'d srvman \<Rightarrow> bool" where
  "exact sm \<longleftrightarrow> total_children sm = sm_num_children sm"

definition sm_le :: "nat \<Rightarrow> 'd srvman \<Rightarrow> 'd srvman \<Rightarrow> bool" where
  "sm_le k sm sm' \<longleftrightarrow> srvman_inv sm' \<and> sm_num_children sm' \<le> sm_num_children sm + k
     \<and> length (sm_servers sm') \<le> length (sm_servers sm)
     \<and> (length (sm_servers sm') = length (sm_servers sm) \<longrightarrow> exact sm \<longrightarrow> exact sm')
     \<and> sm_fdset sm' = sm_fdset sm"

lemma sm_le_refl: "srvman_inv sm \<Longrightarrow> sm_le k sm sm"
  by (simp add: sm_le_def)

lemma sm_le_trans: "sm_le j sm sm' \<Longrightarrow> sm_le k sm' sm'' \<Longrightarrow> sm_le (j + k) sm sm''"
  unfolding sm_le_def by auto

lemma register_child_le:
  assumes "srvman_inv sm" "srv \<in> set (sm_servers sm)" "\<not> SERVER_BUSY srv" "0 < pid"
  shows "sm_le 1 sm (register_child sm srv pid)"
proof -
  define i where "i = pidtab_index (srv_pidtab srv) 0"
  define tab' where "tab' = (if i = length (srv_pidtab srv)
       then srv_pidtab srv @ replicate ((if length (srv_pidtab srv) = 0 then 64 else 2 * length (srv_pidtab srv)) - length (srv_pidtab srv)) 0
       else srv_pidtab srv)"
  define new where "new = srv\<lparr>srv_pidtab := tab'[i := pid], srv_num_children := srv_num_children srv + 1\<rparr>"
  have r: "register_child sm srv pid = (update_server sm new)\<lparr>sm_num_children := sm_num_children sm + 1\<rparr>"
    by (simp add: register_child_def Let_def new_def tab'_def i_def)
  have d: "distinct (ptrs sm)" and si: "srv_inv srv" using assms(1,2) by (auto simp: srvman_inv_def)
  have "live new = live srv + 1"
    using register_live [OF _ i_def tab'_def, of pid] assms(4) by (simp add: live_def new_def)
  then have ni: "srv_inv new" using si assms(3) by (auto simp: srv_inv_def new_def SERVER_BUSY_def)
  note u = update_server_facts [OF d assms(2), of new]
  have ptr: "srv_ptr new = srv_ptr srv" by (simp add: new_def)
  have tot: "total_children (register_child sm srv pid) = total_children sm + 1"
    using u(2) [OF ptr] by (simp add: r total_children_def new_def)
  have len: "length (sm_servers (register_child sm srv pid)) = length (sm_servers sm)"
    by (simp add: r update_server_def)
  have "srvman_inv (register_child sm srv pid)"
    using assms(1) u(1) [OF ptr] u(3) [OF ptr] ni tot by (auto simp: srvman_inv_def r ptrs_def total_children_def)
  with tot len show ?thesis by (simp add: sm_le_def exact_def r update_server_def)
qed

lemma unregister_loop_le:
  assumes "srvman_inv sm" "set srvs \<subseteq> set (sm_servers sm)" "0 < pid" "unregister_loop sm srvs pid = (sm', r)"
  shows "sm_le 0 sm sm'"
  using assms(2,4)
proof (induction srvs)
  case Nil
  with assms(1) show ?case by (simp add: sm_le_refl)
next
  case (Cons srv srvs)
  define i where "i = pidtab_index (srv_pidtab srv) pid"
  show ?case
  proof (cases "i < length (srv_pidtab srv)")
    case False
    with Cons show ?thesis by (simp add: i_def Let_def)
  next
    case True
    define new where "new = srv\<lparr>srv_pidtab := (srv_pidtab srv)[i := 0],
        srv_num_children := size_sub (srv_num_children srv) 1\<rparr>"
    have sm': "sm' = (update_server sm new)\<lparr>sm_num_children := size_sub (sm_num_children sm) 1\<rparr>"
      using Cons.prems(2) True by (simp add: i_def new_def Let_def)
    have mem: "srv \<in> set (sm_servers sm)" using Cons.prems(1) by simp
    have d: "distinct (ptrs sm)" and si: "srv_inv srv" using assms(1) mem by (auto simp: srvman_inv_def)
    have "srv_pidtab srv ! i \<noteq> 0" using pidtab_index_less [of "srv_pidtab srv" pid] True assms(3) by (simp add: i_def)
    from filter_update_out [OF True this] have lv: "live srv = live new + 1" by (simp add: live_def new_def)
    then have n1: "1 \<le> srv_num_children srv" using si by (simp add: srv_inv_def)
    with lv si have ni: "srv_inv new" "srv_num_children new + 1 = srv_num_children srv"
      by (auto simp: srv_inv_def new_def live_def)
    have ptr: "srv_ptr new = srv_ptr srv" by (simp add: new_def)
    note u = update_server_facts [OF d mem ptr]
    have "srv_num_children srv \<le> total_children sm"
      using mem by (simp add: total_children_def member_le_sum_list)
    then have g1: "1 \<le> sm_num_children sm" using n1 assms(1) by (simp add: srvman_inv_def)
    have tot: "total_children sm' + 1 = total_children sm"
      using u(2) ni(2) by (simp add: sm' total_children_def)
    have "srvman_inv sm'"
      using assms(1) u(1,3) ni tot g1 by (auto simp: srvman_inv_def sm' ptrs_def total_children_def)
    moreover have "exact sm \<longrightarrow> exact sm'" using tot g1 by (auto simp: exact_def sm')
    ultimately show ?thesis using g1 by (simp add: sm_le_def) (simp add: sm' update_server_def)
  qed
qed

lemma children_cleanup_le:
  "srvman_inv sm \<Longrightarrow> \<forall>pid \<in> set exits. 0 < pid \<Longrightarrow> children_cleanup exits sm = (sm', r) \<Longrightarrow> sm_le 0 sm sm'"
proof (induction exits arbitrary: sm sm' r)
  case (Cons pid exits)
  obtain sm1 r1 where 1: "unregister_child sm pid = (sm1, r1)" by fastforce
  obtain sm2 r2 where 2: "children_cleanup exits sm1 = (sm2, r2)" by fastforce
  have l1: "sm_le 0 sm sm1"
    using unregister_loop_le [OF Cons.prems(1), of "sm_servers sm" pid sm1 r1] 1 Cons.prems(2)
    by (simp add: unregister_child_def)
  then have "sm_le 0 sm1 sm2" using Cons.IH [OF _ _ 2] Cons.prems(2) by (simp add: sm_le_def)
  from sm_le_trans [OF l1 this] show ?case using Cons.prems(3) 1 2 by simp
qed (simp add: sm_le_refl)

lemma total_filter_le: "sum_list (map f (filter P xs)) \<le> (sum_list (map f xs) :: nat)"
  by (induction xs) auto

lemma server_free_le:
  assumes "srvman_inv sm" "srv_ptr srv \<in> set (ptrs sm)"
  shows "sm_le 0 sm (smap_server_free sm srv)"
proof -
  have "\<not> (\<forall>s \<in> set (sm_servers sm). srv_ptr s \<noteq> srv_ptr srv)" using assms(2) by (auto simp: ptrs_def)
  then have "length (filter (\<lambda>s. srv_ptr s \<noteq> srv_ptr srv) (sm_servers sm)) < length (sm_servers sm)"
    by (auto intro: length_filter_less)
  moreover have "srvman_inv (smap_server_free sm srv)"
    using assms(1) total_filter_le [of srv_num_children "\<lambda>s. srv_ptr s \<noteq> srv_ptr srv" "sm_servers sm"]
    by (auto simp: srvman_inv_def smap_server_free_def server_remove_def ptrs_def total_children_def
        distinct_map_filter)
  ultimately show ?thesis by (simp add: sm_le_def smap_server_free_def server_remove_def)
qed

lemma shutdown_le:
  assumes "srvman_inv sm" "srv \<in> set (sm_servers sm)"
  shows "sm_le 0 sm (smap_server_shutdown sm srv)"
proof -
  define new where "new = srv\<lparr>srv_fd := -1\<rparr>"
  have ptr: "srv_ptr new = srv_ptr srv" by (simp add: new_def)
  have d: "distinct (ptrs sm)" "srv_inv srv" using assms by (auto simp: srvman_inv_def)
  note u = update_server_facts [OF d(1) assms(2) ptr]
  have ni: "srv_inv new" using d(2) by (auto simp: srv_inv_def live_def new_def)
  have "total_children (update_server sm new) = total_children sm" using u(2) by (simp add: new_def)
  then have "sm_le 0 sm (update_server sm new)"
    using assms(1) u ni by (auto simp: sm_le_def srvman_inv_def exact_def update_server_def)
  then show ?thesis using sm_le_refl [OF assms(1)] by (simp add: smap_server_shutdown_def new_def)
qed

lemma server_accept_le:
  assumes "srvman_inv sm" "srv \<in> set (sm_servers sm)" "server_accept sp a srv sm = (sm', r)"
    and "\<forall>sa ce. a = Accepted sa ce \<longrightarrow> ce_fork ce = -1 \<or> 0 < ce_fork ce"
  shows "sm_le 1 sm sm'"
proof -
  have mem: "srv_ptr srv \<in> set (ptrs sm)" using assms(2) by (simp add: ptrs_def)
  have weak: "sm_le 0 sm x \<Longrightarrow> sm_le 1 sm x" for x by (simp add: sm_le_def)
  have free: "sm_le 1 sm (smap_server_free (smap_server_shutdown sm srv) srv)"
  proof -
    note s = shutdown_le [OF assms(1,2)]
    have "srv_ptr srv \<in> set (ptrs (smap_server_shutdown sm srv))"
      using mem update_server_facts(1) [of sm srv "srv\<lparr>srv_fd := -1\<rparr>"] assms(1,2)
      by (simp add: smap_server_shutdown_def srvman_inv_def)
    from sm_le_trans [OF s server_free_le [OF _ this]] s show ?thesis by (auto simp: sm_le_def)
  qed
  show ?thesis
  proof (cases a)
    case (Accepted sa ce)
    have "sm_le 1 sm (fst (server_run sp ce srv sa sm))" if "\<not> SERVER_BUSY srv"
      using register_child_le [OF assms(1,2) that, of "ce_fork ce"] assms(4) Accepted sm_le_refl [OF assms(1)]
      by (auto simp: server_run_def split: sockaddr.splits)
    with Accepted assms(3) server_free_le [OF assms(1) mem] weak sm_le_refl [OF assms(1)] show ?thesis
      by (auto simp: server_accept_def split: if_splits)
  qed (use assms(3) server_free_le [OF assms(1) mem] weak free sm_le_refl [OF assms(1)] in
      \<open>auto simp: server_accept_def split: if_splits\<close>)
qed

lemma connection_loop_from_le:
  "srvman_inv sm \<Longrightarrow> connection_loop_from sp accepts fdset ps sm = (sm', r) \<Longrightarrow>
   \<forall>p sa ce. accepts p = Accepted sa ce \<longrightarrow> ce_fork ce = -1 \<or> 0 < ce_fork ce \<Longrightarrow>
   sm_le (length ps) sm sm'"
proof (induction ps arbitrary: sm sm' r)
  case (Cons p ps)
  show ?case
  proof (cases "find (\<lambda>s. srv_ptr s = p) (sm_servers sm)")
    case None
    with Cons.IH [OF Cons.prems(1) _ Cons.prems(3)] Cons.prems(2) show ?thesis by (auto simp: sm_le_def)
  next
    case (Some srv)
    then have mem: "srv \<in> set (sm_servers sm)" by (induction "sm_servers sm") (auto simp: find_Some_iff)
    obtain sm1 r1 where 1: "(if srv_fd srv \<in> set fdset then server_accept sp (accepts p) srv sm else (sm, False)) = (sm1, r1)"
      by fastforce
    have l1: "sm_le 1 sm sm1"
      using 1 server_accept_le [OF Cons.prems(1) mem, of sp "accepts p" sm1 r1] Cons.prems(3)
        sm_le_refl [OF Cons.prems(1)]
      by (auto split: if_splits)
    obtain sm2 r2 where 2: "connection_loop_from sp accepts fdset ps sm1 = (sm2, r2)" by fastforce
    with l1 Cons.IH [OF _ 2 Cons.prems(3)] have "sm_le (length ps) sm1 sm2" by (simp add: sm_le_def)
    from sm_le_trans [OF l1 this] show ?thesis using Cons.prems(2) Some 1 2 by simp
  qed
qed (simp add: sm_le_refl)

section \<open>The main loop keeps the limits\<close>

definition within :: "srvman_param \<Rightarrow> nat \<Rightarrow> 'd srvman \<Rightarrow> bool" where
  "within sp n sm \<longleftrightarrow> srvman_inv sm \<and> length (sm_servers sm) \<le> n
     \<and> (length (sm_servers sm) = n \<longrightarrow> exact sm)
     \<and> (sp_max_children sp \<noteq> 0 \<longrightarrow> sm_num_children sm < sp_max_children sp + n)"

lemma within_le:
  "within sp n sm \<Longrightarrow> sm_le 0 sm sm' \<Longrightarrow> within sp n sm'"
  unfolding within_def sm_le_def by auto

lemma within_cong:
  "sm_servers sm' = sm_servers sm \<Longrightarrow> sm_num_children sm' = sm_num_children sm \<Longrightarrow> within sp n sm' = within sp n sm"
  by (simp add: within_def srvman_inv_def exact_def ptrs_def total_children_def)

lemma run_prepare_within:
  assumes "within sp n sm" "\<forall>pid \<in> set exits. 0 < pid"
  shows "within sp n (run_prepare exits sm)"
proof -
  obtain sm1 r where 1: "children_cleanup exits (sm\<lparr>sm_need_cleanup := False\<rparr>) = (sm1, r)" by fastforce
  have w0: "within sp n (sm\<lparr>sm_need_cleanup := False\<rparr>)" using assms(1) by (subst within_cong [of _ sm]) simp_all
  then have "within sp n sm1"
    using within_le [OF w0 children_cleanup_le [OF _ assms(2) 1]] by (simp add: within_def)
  then show ?thesis
    using assms(1) 1
    by (auto simp: run_prepare_def Let_def within_def srvman_inv_def exact_def ptrs_def total_children_def
        split: prod.splits)
qed

lemma run_iteration_within:
  assumes "within sp n sm" "run_iteration sp le sm = (sm', LoopOn)"
    and "\<forall>pid \<in> set (le_exits le). 0 < pid"
    and "\<forall>p sa ce. le_accepts le p = Accepted sa ce \<longrightarrow> ce_fork ce = -1 \<or> 0 < ce_fork ce"
  shows "within sp n sm'"
proof -
  define sm1 where "sm1 = run_prepare (le_exits le) sm"
  have w1: "within sp n sm1" using run_prepare_within [OF assms(1,3)] by (simp add: sm1_def)
  have conn: "within sp n (sm2\<lparr>sm_recompute := r\<rparr>)"
    if c: "connection_loop sp (le_accepts le) fds sm1 = (sm2, r)"
      and lim: "sp_max_children sp = 0 \<or> sm_num_children sm1 < sp_max_children sp" for fds sm2 r
  proof -
    have "sm_le (length (sm_servers sm1)) sm1 sm2"
      using connection_loop_from_le [OF _ _ assms(4), of sm1 sp fds "map srv_ptr (sm_servers sm1)" sm2 r] c w1
      by (simp add: connection_loop_def within_def)
    with w1 lim have "within sp n sm2" by (auto simp: within_def sm_le_def)
    then show ?thesis by (subst within_cong [of _ sm2]) simp_all
  qed
  show ?thesis
    using assms(2) w1 conn
    by (auto simp: run_iteration_def Let_def sm1_def [symmetric] not_le within_cong [of "sm1\<lparr>sm_recompute := True\<rparr>" sm1]
        split: if_splits select_res.splits prod.splits)
qed

lemma reachable_within:
  assumes "srvman_reachable sp sm0 sm" "within sp n sm0"
  shows "within sp n sm"
  using assms
proof (induction rule: srvman_reachable.induct)
  case reach_start
  then show ?case by (subst within_cong [of _ sm0]) (simp_all add: run_start_def)
next
  case (reach_step sm sm')
  from reach_step.hyps(2) reach_step.IH [OF reach_step.prems] show ?case
  proof (cases rule: srvman_step.cases)
    case (step_iterate le)
    with run_iteration_within [of sp n sm le sm'] reach_step.IH [OF reach_step.prems] show ?thesis by blast
  next
    case (step_signal c)
    with reach_step.IH [OF reach_step.prems] show ?thesis
      by (subst within_cong [of _ sm]) (simp_all add: srvman_signal_def)
  qed
qed

text \<open>The servers before the loop starts.\<close>

definition idle_server :: "'d smap_server \<Rightarrow> bool" where
  "idle_server srv \<longleftrightarrow> srv_num_children srv = 0 \<and> list_all (\<lambda>p. p = 0) (srv_pidtab srv)"

lemma idle_within:
  assumes "distinct (ptrs sm0)" "\<forall>srv \<in> set (sm_servers sm0). idle_server srv" "sm_num_children sm0 = 0"
  shows "within sp (length (sm_servers sm0)) sm0"
proof -
  have "live srv = 0" if "idle_server srv" for srv :: "'a smap_server"
    using that by (auto simp: live_def idle_server_def list_all_iff filter_empty_conv)
  then have "\<forall>srv \<in> set (sm_servers sm0). srv_inv srv"
    using assms(2) by (simp add: srv_inv_def idle_server_def)
  moreover have "total_children sm0 = 0" using assms(2) by (auto simp: total_children_def idle_server_def)
  ultimately show ?thesis using assms(1,3) by (auto simp: within_def srvman_inv_def exact_def)
qed

section \<open>Properties\<close>

text \<open>C10. The limits on child processes.  In every state that the server manager can reach, with
  any behaviour of the clients, the children and the signals: the counter of each
  server is the number of children in its table and never exceeds its limit;
  the global counter is at least the sum of the servers' counters, and exactly
  the sum as long as no server has been released; and it stays below the global limit
  plus the number of servers (a single check admits one connection per server).\<close>

theorem srvman_limits:
  assumes "distinct (ptrs sm0)" "\<forall>srv \<in> set (sm_servers sm0). idle_server srv" "sm_num_children sm0 = 0"
    and "srvman_reachable sp sm0 sm"
  shows "(\<forall>srv \<in> set (sm_servers sm). srv_num_children srv = live srv
        \<and> (srv_max_children srv \<noteq> 0 \<longrightarrow> live srv \<le> srv_max_children srv))
    \<and> total_children sm \<le> sm_num_children sm
    \<and> (length (sm_servers sm) = length (sm_servers sm0) \<longrightarrow> total_children sm = sm_num_children sm)
    \<and> (sp_max_children sp \<noteq> 0 \<longrightarrow> sm_num_children sm < sp_max_children sp + length (sm_servers sm0))"
  using reachable_within [OF assms(4) idle_within [OF assms(1-3)]]
  by (auto simp: within_def srvman_inv_def srv_inv_def exact_def)

definition demo_server :: "nat \<Rightarrow> int \<Rightarrow> unit smap_server" where
  "demo_server p fd = \<lparr>srv_ptr = p, srv_id = ''main'', srv_url = ''inet://127.0.0.1:3145'', srv_sa = AF_INET 0,
     srv_salen = 16, srv_uid = None, srv_gid = None, srv_mode = None, srv_backlog = 0, srv_fd = fd,
     srv_flags = 0, srv_data = None, srv_max_children = 1, srv_num_children = 0, srv_pidtab = []\<rparr>"

definition demo_srvman :: "unit srvman" where
  "demo_srvman = \<lparr>sm_servers = [demo_server 1 5, demo_server 2 6], sm_num_children = 0, sm_need_cleanup = False,
     sm_stop = False, sm_recompute = False, sm_maxfd = 0, sm_fdset = []\<rparr>"

definition demo_param :: srvman_param where
  "demo_param = \<lparr>sp_single_process = False, sp_reuseaddr = False, sp_shutdown_timeout = 5, sp_max_children = 1,
     sp_backlog = 8, sp_socket_mode = 384\<rparr>"

text \<open>Both servers get a connection in the first iteration.\<close>

definition demo_env :: loop_env where
  "demo_env = \<lparr>le_exits = [], le_idle = 0, le_select = SelectReady [5, 6],
     le_accepts = (\<lambda>p. Accepted (AF_INET 0) \<lparr>ce_acl = True, ce_manager_prefork = 0, ce_server_prefork = 0,
        ce_fork = int p + 100\<rparr>)\<rparr>"

theorem srvman_limits_witness:
  "\<exists>sm. srvman_reachable demo_param demo_srvman sm \<and> sm_num_children sm = 2 \<and> total_children sm \<le> sm_num_children sm"
proof -
  define sm where "sm = fst (run_iteration demo_param demo_env (run_start demo_srvman))"
  have it: "run_iteration demo_param demo_env (run_start demo_srvman) = (sm, LoopOn)" "sm_num_children sm = 2"
    by (simp_all add: sm_def run_iteration_def run_prepare_def run_start_def demo_srvman_def demo_env_def demo_param_def
        demo_server_def compute_fdset_def SERVER_BUSY_def connection_loop_def server_accept_def server_run_def
        register_child_def update_server_def hasfl_0 Let_def eval_nat_numeral)
  have "srvman_step demo_param (run_start demo_srvman) sm"
    by (rule step_iterate [OF _ _ it(1)]) (simp_all add: run_start_def demo_srvman_def demo_env_def)
  then have r: "srvman_reachable demo_param demo_srvman sm" by (rule reach_step [OF reach_start])
  from srvman_limits [OF _ _ _ r] have "total_children sm \<le> sm_num_children sm"
    by (simp add: demo_srvman_def demo_server_def ptrs_def idle_server_def)
  with r it(2) show ?thesis by blast
qed

text \<open>Children that are never collected.  When \<open>accept\<close> fails, the server is released although
  its children run on; when they exit, nobody knows them any more, and the
  global counter, which is checked against the global limit, keeps counting them.\<close>

theorem released_server_leaks_children:
  assumes "srv \<in> set (sm_servers sm)" "srv_fd srv \<noteq> -1" "\<not> SERVER_BUSY srv"
    and "server_accept sp AcceptFail srv sm = (sm', r)"
    and "\<forall>s \<in> set (sm_servers sm). srv_ptr s \<noteq> srv_ptr srv \<longrightarrow> set (srv_pidtab s) \<inter> set exits = {}"
  shows "children_cleanup exits sm' = (sm', False) \<and> sm_num_children sm' = sm_num_children sm"
proof -
  have sm': "sm' = smap_server_free (smap_server_shutdown sm srv) srv"
    using assms(2-4) by (simp add: server_accept_def)
  have mem: "s \<in> set (sm_servers sm) \<and> srv_ptr s \<noteq> srv_ptr srv" if "s \<in> set (sm_servers sm')" for s
    using that assms(2) by (auto simp: sm' smap_server_free_def server_remove_def smap_server_shutdown_def update_server_def)
  have idx: "pidtab_index tab x = length tab" if "x \<notin> set tab" for tab x
    using that by (induction tab) auto
  have "unregister_loop sm' srvs pid = (sm', False)"
    if "pid \<in> set exits" "set srvs \<subseteq> set (sm_servers sm')" for srvs pid
    using that
  proof (induction srvs)
    case (Cons s srvs)
    with mem [of s] assms(5) have "pid \<notin> set (srv_pidtab s)" by auto
    with Cons idx show ?case by simp
  qed simp
  then have "children_cleanup xs sm' = (sm', False)" if "set xs \<subseteq> set exits" for xs
    using that by (induction xs) (auto simp: unregister_child_def)
  then show ?thesis
    by (simp add: sm' smap_server_free_def server_remove_def smap_server_shutdown_def update_server_def)
qed

theorem released_server_leaks_children_witness:
  "\<exists>sm' r. server_accept demo_param AcceptFail
       ((demo_server 1 5)\<lparr>srv_max_children := 2, srv_num_children := 1, srv_pidtab := [101]\<rparr>)
       (demo_srvman\<lparr>sm_servers := [(demo_server 1 5)\<lparr>srv_max_children := 2, srv_num_children := 1, srv_pidtab := [101]\<rparr>,
          demo_server 2 6], sm_num_children := 1\<rparr>) = (sm', r)
     \<and> children_cleanup [101] sm' = (sm', False) \<and> sm_num_children sm' = 1"
proof -
  let ?srv = "(demo_server 1 5)\<lparr>srv_max_children := 2, srv_num_children := 1, srv_pidtab := [101]\<rparr>"
  let ?sm = "demo_srvman\<lparr>sm_servers := [?srv, demo_server 2 6], sm_num_children := 1\<rparr>"
  obtain sm' r where a: "server_accept demo_param AcceptFail ?srv ?sm = (sm', r)" by fastforce
  from released_server_leaks_children [OF _ _ _ a, of "[101]"] a show ?thesis
    by (simp add: demo_server_def SERVER_BUSY_def)
qed

lemma unregister_fds: "srv_fd ` set (sm_servers (fst (unregister_child sm pid))) \<subseteq> srv_fd ` set (sm_servers sm)"
proof -
  have "srv_fd ` set (sm_servers (fst (unregister_loop sm srvs pid))) \<subseteq> srv_fd ` set (sm_servers sm)"
    if "set srvs \<subseteq> set (sm_servers sm)" for srvs
    using that by (induction srvs) (auto simp: Let_def update_server_def)
  then show ?thesis by (simp add: unregister_child_def)
qed

lemma cleanup_fds: "srv_fd ` set (sm_servers (fst (children_cleanup exits sm))) \<subseteq> srv_fd ` set (sm_servers sm)"
proof (induction exits arbitrary: sm)
  case (Cons pid exits)
  from Cons.IH [of "fst (unregister_child sm pid)"] unregister_fds [of sm pid] show ?case
    by (simp add: split_beta)
qed simp

lemma run_prepare_inv:
  assumes "srvman_inv sm" "\<forall>pid \<in> set exits. 0 < pid"
  shows "srvman_inv (run_prepare exits sm)"
proof -
  obtain sm1 r where 1: "children_cleanup exits (sm\<lparr>sm_need_cleanup := False\<rparr>) = (sm1, r)" by fastforce
  have "srvman_inv (sm\<lparr>sm_need_cleanup := False\<rparr>)"
    using assms(1) by (simp add: srvman_inv_def ptrs_def total_children_def)
  from children_cleanup_le [OF this assms(2) 1] have "srvman_inv sm1" by (simp add: sm_le_def)
  then show ?thesis
    using assms(1) 1
    by (auto simp: run_prepare_def Let_def srvman_inv_def ptrs_def total_children_def split: prod.splits)
qed

lemma run_iteration_fdset:
  assumes "run_iteration sp le sm = (sm1, LoopOn)" "srvman_inv (run_prepare (le_exits le) sm)"
    and "\<forall>p sa ce. le_accepts le p = Accepted sa ce \<longrightarrow> ce_fork ce = -1 \<or> 0 < ce_fork ce"
  shows "sm_fdset sm1 = sm_fdset (run_prepare (le_exits le) sm)"
  using assms(1) connection_loop_from_le [OF assms(2) _ assms(3)]
  by (auto simp: run_iteration_def Let_def connection_loop_def sm_le_def
      split: if_splits select_res.splits prod.splits)

text \<open>A lost recomputation.  When a server has been released in an iteration, the set of
  descriptors has to be recomputed; but if a \<open>SIGCHLD\<close> arrives before the next
  iteration and no busy server gets free by it, the request is overwritten,
  and \<open>select\<close> is going to be called with a set that still has the closed descriptor.\<close>

theorem recompute_request_lost:
  assumes "run_iteration sp le sm = (sm1, LoopOn)" "srvman_inv sm"
    and "\<forall>pid \<in> set (le_exits le). 0 < pid"
    and "\<forall>p sa ce. le_accepts le p = Accepted sa ce \<longrightarrow> ce_fork ce = -1 \<or> 0 < ce_fork ce"
    and "fd \<in> set (sm_fdset (run_prepare (le_exits le) sm))" "fd \<notin> srv_fd ` set (sm_servers sm1)"
    and "sm_recompute sm1"
    and "\<not> snd (children_cleanup exits (sm1\<lparr>sm_need_cleanup := False\<rparr>))" "\<forall>pid \<in> set exits. 0 < pid"
  shows "fd \<in> set (sm_fdset (run_prepare exits (srvman_signal True sm1)))
    \<and> fd \<notin> srv_fd ` set (sm_servers (run_prepare exits (srvman_signal True sm1)))"
proof -
  have inv: "srvman_inv (run_prepare (le_exits le) sm)" using run_prepare_inv [OF assms(2,3)] .
  have fds: "fd \<in> set (sm_fdset sm1)" using run_iteration_fdset [OF assms(1) inv assms(4)] assms(5) by simp
  obtain sm2 where 2: "children_cleanup exits (sm1\<lparr>sm_need_cleanup := False\<rparr>) = (sm2, False)"
    using assms(8) by (metis prod.collapse)
  have "sm_fdset sm2 = sm_fdset sm1"
  proof -
    have "sm_fdset (fst (unregister_loop s srvs pid)) = sm_fdset s" for s :: "'a srvman" and srvs pid
      by (induction srvs) (auto simp: Let_def update_server_def)
    then have "sm_fdset (fst (children_cleanup xs s)) = sm_fdset s" for s :: "'a srvman" and xs
      by (induction xs arbitrary: s) (simp_all add: unregister_child_def split_beta)
    from this [of exits "sm1\<lparr>sm_need_cleanup := False\<rparr>"] 2 show ?thesis by simp
  qed
  moreover have "fd \<notin> srv_fd ` set (sm_servers sm2)"
    using cleanup_fds [of exits "sm1\<lparr>sm_need_cleanup := False\<rparr>"] 2 assms(6) by auto
  moreover have "run_prepare exits (srvman_signal True sm1) = sm2\<lparr>sm_recompute := False\<rparr>"
  proof -
    have "(sm1\<lparr>sm_need_cleanup := True, sm_need_cleanup := False\<rparr>) = sm1\<lparr>sm_need_cleanup := False\<rparr>" by simp
    with 2 show ?thesis by (simp add: run_prepare_def srvman_signal_def Let_def)
  qed
  ultimately show ?thesis using fds by simp
qed

definition fail_env :: loop_env where
  "fail_env = \<lparr>le_exits = [], le_idle = 0, le_select = SelectReady [5], le_accepts = (\<lambda>p. AcceptFail)\<rparr>"

theorem recompute_request_lost_witness:
  "\<exists>sm1. run_iteration demo_param fail_env (run_start demo_srvman) = (sm1, LoopOn) \<and> sm_recompute sm1
     \<and> 5 \<in> set (sm_fdset (run_prepare [999] (srvman_signal True sm1)))
     \<and> 5 \<notin> srv_fd ` set (sm_servers (run_prepare [999] (srvman_signal True sm1)))"
proof -
  define sm1 where "sm1 = fst (run_iteration demo_param fail_env (run_start demo_srvman))"
  note evals = run_iteration_def run_prepare_def run_start_def demo_srvman_def fail_env_def demo_param_def
    demo_server_def compute_fdset_def SERVER_BUSY_def connection_loop_def server_accept_def
    smap_server_free_def smap_server_shutdown_def server_remove_def update_server_def hasfl_0 Let_def
  have it: "run_iteration demo_param fail_env (run_start demo_srvman) = (sm1, LoopOn)" "sm_recompute sm1"
    "5 \<notin> srv_fd ` set (sm_servers sm1)" "\<not> snd (children_cleanup [999] (sm1\<lparr>sm_need_cleanup := False\<rparr>))"
    by (simp_all add: sm1_def evals unregister_child_def)
  have "5 \<in> set (sm_fdset (run_prepare (le_exits fail_env) (run_start demo_srvman)))" by (simp add: evals)
  moreover have "srvman_inv (run_start demo_srvman)"
    by (simp add: evals srvman_inv_def ptrs_def total_children_def srv_inv_def live_def)
  ultimately show ?thesis
    using recompute_request_lost [OF it(1) _ _ _ _ it(3,2,4)] it(1,2) by (auto simp: fail_env_def)
qed

section \<open>Opening the servers\<close>

text \<open>
  What the calls do: the part of the kernel's state that matters, and the effect of a call whose result is the one of \<open>oe\<close>.  A socket is
  bound with the permissions that the mask in force leaves; closing a descriptor takes its binding away.
\<close>

record kernel =
  k_umask :: nat
  k_open :: "int set"
  k_bound :: "(int \<times> sockaddr \<times> nat) set"
  k_listening :: "(int \<times> int) set"
  k_removed :: "string list"
  k_owner :: "(string \<times> nat option \<times> nat option) list"

definition permissions :: "nat \<Rightarrow> nat" where
  "permissions m = unat (0x1FF AND NOT (of_nat m) :: 32 word)"

fun effect :: "open_env \<Rightarrow> syscall \<Rightarrow> kernel \<Rightarrow> kernel" where
  "effect oe (SysSocket fd) k = k\<lparr>k_open := insert fd (k_open k)\<rparr>"
| "effect oe (SysUnlink path) k = (if oe_unlink_ok oe then k\<lparr>k_removed := k_removed k @ [path]\<rparr> else k)"
| "effect oe (SysReuseaddr fd) k = k"
| "effect oe (SysUmask m) k = k\<lparr>k_umask := m\<rparr>"
| "effect oe (SysBind fd sa) k = (if oe_bind_ok oe then k\<lparr>k_bound := insert (fd, sa, permissions (k_umask k)) (k_bound k)\<rparr> else k)"
| "effect oe (SysChown path u g) k = k\<lparr>k_owner := k_owner k @ [(path, u, g)]\<rparr>"
| "effect oe (SysListen fd n) k = (if oe_listen_ok oe then k\<lparr>k_listening := insert (fd, n) (k_listening k)\<rparr> else k)"
| "effect oe (SysClose fd) k =
     k\<lparr>k_open := k_open k - {fd}, k_bound := {b \<in> k_bound k. fst b \<noteq> fd}, k_listening := {b \<in> k_listening k. fst b \<noteq> fd}\<rparr>"

definition effects :: "open_env \<Rightarrow> syscall list \<Rightarrow> kernel \<Rightarrow> kernel" where
  "effects oe calls k = fold (effect oe) calls k"

definition unused_fd :: "int \<Rightarrow> kernel \<Rightarrow> bool" where
  "unused_fd fd k \<longleftrightarrow> fd \<notin> k_open k \<and> fd \<notin> fst ` k_bound k \<and> fd \<notin> fst ` k_listening k"

text \<open>When the address is free: nothing is there, or a socket that may be and is removed.\<close>

definition address_free :: "srvman_param \<Rightarrow> open_env \<Rightarrow> 'd smap_server \<Rightarrow> bool" where
  "address_free sp oe srv =
     (case srv_sa srv of
        AF_UNIX _ \<Rightarrow> oe_stat oe = StatNoent \<or> oe_stat oe = StatSocket \<and> SRVMAN_REUSEADDR sp srv \<and> oe_unlink_ok oe
      | _ \<Rightarrow> True)"

definition opens :: "srvman_param \<Rightarrow> open_env \<Rightarrow> 'd smap_server \<Rightarrow> bool" where
  "opens sp oe srv \<longleftrightarrow> oe_socket oe \<noteq> -1 \<and> address_free sp oe srv \<and> oe_bind_ok oe \<and> oe_listen_ok oe"

definition removed_by :: "srvman_param \<Rightarrow> open_env \<Rightarrow> 'd smap_server \<Rightarrow> string list" where
  "removed_by sp oe srv =
     (case srv_sa srv of
        AF_UNIX path \<Rightarrow> if oe_socket oe \<noteq> -1 \<and> oe_stat oe = StatSocket \<and> SRVMAN_REUSEADDR sp srv \<and> oe_unlink_ok oe then [path] else []
      | _ \<Rightarrow> [])"

lemma mode_permissions: "0x1FF AND NOT (0x1FF AND NOT m) = (0x1FF AND m :: 32 word)"
  by (intro bit_word_eqI) (auto simp: bit_simps)

lemma socket_permissions:
  "permissions (socket_umask sp srv) = unat (0x1FF AND of_nat (case srv_mode srv of None \<Rightarrow> sp_socket_mode sp | Some m \<Rightarrow> m) :: 32 word)"
  unfolding permissions_def socket_umask_def by (simp only: of_nat_unat ucast_id mode_permissions)

lemma effects_simps [simp]:
  "effects oe [] k = k" "effects oe (c # cs) k = effects oe cs (effect oe c k)" "effects oe (cs @ ds) k = effects oe ds (effects oe cs k)"
  by (simp_all add: effects_def)

text \<open>The first stage changes nothing but the file that it removes.\<close>

lemma prep_address_effects:
  assumes "prep_address sp oe srv fd = (calls, ok)" "oe_socket oe \<noteq> -1"
  shows "ok = address_free sp oe srv \<and> effects oe calls k = k\<lparr>k_removed := k_removed k @ removed_by sp oe srv\<rparr>"
  using assms by (auto simp: prep_address_def address_free_def removed_by_def split: sockaddr.splits stat_res.splits if_splits)

lemma closing_undoes:
  assumes "unused_fd fd k"
  shows "effect oe (SysClose fd) (k\<lparr>k_open := insert fd (k_open k), k_removed := rm, k_bound := (if b then insert (fd, x) (k_bound k) else k_bound k),
      k_listening := k_listening k, k_owner := ow\<rparr>) = k\<lparr>k_removed := rm, k_owner := ow\<rparr>"
  using assms by (intro kernel.equality) (auto simp: unused_fd_def)

definition socket_mode :: "srvman_param \<Rightarrow> 'd smap_server \<Rightarrow> nat" where
  "socket_mode sp srv = unat (0x1FF AND of_nat (case srv_mode srv of None \<Rightarrow> sp_socket_mode sp | Some m \<Rightarrow> m) :: 32 word)"

definition owner_given :: "srvman_param \<Rightarrow> open_env \<Rightarrow> 'd smap_server \<Rightarrow> (string \<times> nat option \<times> nat option) list" where
  "owner_given sp oe srv =
     (case srv_sa srv of
        AF_UNIX path \<Rightarrow>
          if oe_socket oe \<noteq> -1 \<and> address_free sp oe srv \<and> oe_bind_ok oe \<and> oe_euid oe = 0 \<and> (srv_uid srv \<noteq> None \<or> srv_gid srv \<noteq> None)
          then [(path, srv_uid srv, srv_gid srv)] else []
      | _ \<Rightarrow> [])"

lemma server_prep_effects:
  assumes "server_prep sp oe srv fd = (calls, ok)" "oe_socket oe \<noteq> -1" "oe_umask oe = k_umask k"
  shows "ok = opens sp oe srv \<and> effects oe calls k = k
    \<lparr>k_removed := k_removed k @ removed_by sp oe srv,
     k_bound := (if address_free sp oe srv \<and> oe_bind_ok oe then insert (fd, srv_sa srv, socket_mode sp srv) (k_bound k) else k_bound k),
     k_listening := (if opens sp oe srv then insert (fd, SRVMAN_BACKLOG sp srv) (k_listening k) else k_listening k),
     k_owner := k_owner k @ owner_given sp oe srv\<rparr>"
proof -
  obtain pre free where pre: "prep_address sp oe srv fd = (pre, free)" by fastforce
  note p = prep_address_effects [OF pre assms(2)]
  consider "\<not> free" | "free" "\<not> oe_bind_ok oe" | "free" "oe_bind_ok oe" by blast
  then show ?thesis
  proof cases
    case 3
    then have "effects oe calls k = effects oe (case srv_sa srv of
        AF_UNIX path \<Rightarrow> if (srv_uid srv \<noteq> None \<or> srv_gid srv \<noteq> None) \<and> oe_euid oe = 0 then [SysChown path (srv_uid srv) (srv_gid srv)] else [] | _ \<Rightarrow> [])
      (k\<lparr>k_removed := k_removed k @ removed_by sp oe srv, k_bound := insert (fd, srv_sa srv, socket_mode sp srv) (k_bound k),
         k_listening := (if opens sp oe srv then insert (fd, SRVMAN_BACKLOG sp srv) (k_listening k) else k_listening k)\<rparr>)"
      "ok = oe_listen_ok oe"
      using assms p pre socket_permissions [of sp srv]
      by (auto simp: server_prep_def Let_def opens_def socket_mode_def split: sockaddr.splits)
    with 3 assms(2) p show ?thesis by (auto simp: owner_given_def opens_def split: sockaddr.splits)
  qed (use assms p pre in \<open>auto simp: server_prep_def Let_def opens_def owner_given_def split: sockaddr.splits\<close>)
qed

definition quiet_kernel :: kernel where
  "quiet_kernel = \<lparr>k_umask = 18, k_open = {0, 1, 2}, k_bound = {}, k_listening = {}, k_removed = [], k_owner = []\<rparr>"

lemma server_open_result:
  assumes "server_open sp oe srv = (calls, r)"
  shows "r = (if opens sp oe srv then Some (srv\<lparr>srv_fd := oe_socket oe\<rparr>) else None)"
proof -
  obtain pcalls ok where pcalls: "server_prep sp oe srv (oe_socket oe) = (pcalls, ok)" by fastforce
  have "oe_socket oe \<noteq> -1 \<Longrightarrow> ok = opens sp oe srv" using server_prep_effects [OF pcalls, of "quiet_kernel\<lparr>k_umask := oe_umask oe\<rparr>"] by simp
  with assms pcalls show ?thesis by (auto simp: server_open_def opens_def split: if_splits)
qed

text \<open>C19. Opening a server.  It succeeds exactly when the socket is created, its address is free, and \<open>bind\<close> and \<open>listen\<close> succeed; an address in the
  file system is free when nothing is there, or when it is a socket that may be reused and can be removed.  Then the server is kept with the descriptor, which is bound to the
  server's address with the permissions of its mode and listens with its backlog; otherwise the server is dropped, and no descriptor, binding or listening socket is left behind (a file that \<open>bind\<close> has made stays).  In
  all cases the mask of the process is afterwards the one from before, nothing is removed but such a socket, and the ownership is changed only by the superuser, after binding, where
  it is configured.\<close>

theorem server_open_correct:
  assumes "server_open sp oe srv = (calls, r)" "oe_umask oe = k_umask k" "unused_fd (oe_socket oe) k"
  shows "r = (if opens sp oe srv then Some (srv\<lparr>srv_fd := oe_socket oe\<rparr>) else None)
    \<and> effects oe calls k =
      (if opens sp oe srv
       then k\<lparr>k_open := insert (oe_socket oe) (k_open k),
              k_bound := insert (oe_socket oe, srv_sa srv, socket_mode sp srv) (k_bound k),
              k_listening := insert (oe_socket oe, SRVMAN_BACKLOG sp srv) (k_listening k)\<rparr>
       else k)
      \<lparr>k_removed := k_removed k @ removed_by sp oe srv, k_owner := k_owner k @ owner_given sp oe srv\<rparr>"
proof (cases "oe_socket oe = -1")
  case True
  with assms show ?thesis by (auto simp: server_open_def opens_def removed_by_def owner_given_def split: sockaddr.splits)
next
  case False
  obtain pcalls ok where pcalls: "server_prep sp oe srv (oe_socket oe) = (pcalls, ok)" by fastforce
  from assms(2) have "oe_umask oe = k_umask (effect oe (SysSocket (oe_socket oe)) k)" by simp
  note p = server_prep_effects [OF pcalls False this]
  show ?thesis
  proof (cases "opens sp oe srv")
    case True
    with False assms(1) pcalls p show ?thesis by (auto simp: server_open_def opens_def)
  next
    case closed: False
    then have calls: "calls = SysSocket (oe_socket oe) # pcalls @ [SysClose (oe_socket oe)]" "r = None"
      using assms(1) False pcalls p by (auto simp: server_open_def)
    let ?k = "effect oe (SysSocket (oe_socket oe)) k"
    have "effects oe calls k = effect oe (SysClose (oe_socket oe)) (effects oe pcalls ?k)" unfolding calls by simp
    also have "effects oe pcalls ?k = k\<lparr>k_open := insert (oe_socket oe) (k_open k), k_removed := k_removed k @ removed_by sp oe srv,
        k_bound := (if address_free sp oe srv \<and> oe_bind_ok oe then insert (oe_socket oe, srv_sa srv, socket_mode sp srv) (k_bound k) else k_bound k),
        k_listening := k_listening k, k_owner := k_owner k @ owner_given sp oe srv\<rparr>"
      using p closed by simp
    finally show ?thesis using closed calls(2) unfolding closing_undoes [OF assms(3)] by simp
  qed
qed

definition refusing_env :: open_env where
  "refusing_env = \<lparr>oe_socket = 5, oe_stat = StatSocket, oe_unlink_ok = True, oe_umask = 18, oe_bind_ok = True, oe_euid = 0, oe_listen_ok = False\<rparr>"

theorem server_open_correct_witness:
  "snd (server_open demo_param refusing_env ((demo_server 1 0)\<lparr>srv_sa := AF_UNIX ''/tmp/smap''\<rparr>)) = None
    \<and> effects refusing_env (fst (server_open demo_param refusing_env ((demo_server 1 0)\<lparr>srv_sa := AF_UNIX ''/tmp/smap''\<rparr>))) quiet_kernel
      = quiet_kernel\<lparr>k_removed := [''/tmp/smap'']\<rparr>"
proof -
  let ?srv = "(demo_server 1 0)\<lparr>srv_sa := AF_UNIX ''/tmp/smap''\<rparr>"
  have "\<not> opens demo_param refusing_env ?srv" "removed_by demo_param refusing_env ?srv = [''/tmp/smap'']" "owner_given demo_param refusing_env ?srv = []"
    by (simp_all add: opens_def removed_by_def owner_given_def refusing_env_def SRVMAN_REUSEADDR_def demo_param_def demo_server_def hasfl_def)
  moreover have "oe_umask refusing_env = k_umask quiet_kernel" "unused_fd (oe_socket refusing_env) quiet_kernel"
    by (simp_all add: refusing_env_def quiet_kernel_def unused_fd_def)
  moreover have "k_removed quiet_kernel = []" "k_owner quiet_kernel = []" by (simp_all add: quiet_kernel_def)
  ultimately show ?thesis
    using server_open_correct [OF surjective_pairing, of refusing_env quiet_kernel demo_param ?srv] by (simp add: quiet_kernel_def)
qed

text \<open>All servers: those that cannot be opened are left out, the others keep their order, and the code tells whether none is left.\<close>

lemma srvman_open_loop_servers:
  "snd (srvman_open_loop sp oes ps) =
     map (\<lambda>p. p\<lparr>srv_fd := oe_socket (oes (srv_ptr p))\<rparr>) (filter (\<lambda>p. opens sp (oes (srv_ptr p)) p) ps)"
proof (induction ps)
  case (Cons p ps)
  obtain calls r where o: "server_open sp (oes (srv_ptr p)) p = (calls, r)" by fastforce
  have "r = (if opens sp (oes (srv_ptr p)) p then Some (p\<lparr>srv_fd := oe_socket (oes (srv_ptr p))\<rparr>) else None)"
    by (rule server_open_result [OF o])
  with Cons o show ?case by (auto split: prod.splits)
qed simp

lemma smap_srvman_open_servers:
  "smap_srvman_open sp oes sm = (calls, sm', failed) \<Longrightarrow>
   sm_servers sm' = map (\<lambda>p. p\<lparr>srv_fd := oe_socket (oes (srv_ptr p))\<rparr>) (filter (\<lambda>p. opens sp (oes (srv_ptr p)) p) (sm_servers sm))
   \<and> (failed \<longleftrightarrow> (\<forall>p \<in> set (sm_servers sm). \<not> opens sp (oes (srv_ptr p)) p))"
  using srvman_open_loop_servers [of sp oes "sm_servers sm"] by (auto simp: smap_srvman_open_def filter_empty_conv split: prod.splits)

end
