(* ===== verification/Smap_Fileout.thy ===== *)
theory Smap_Fileout
  imports Smap_Stream_Out
begin

text \<open>
  The file output stream (\<open>lib/fileoutstr.c\<close>): a line-buffered stream that puts
  the name of the program and a prefix before every block it writes to a
  standard I/O file.  The file is the sequence of the calls that have been made
  on it; \<open>fo_events\<close> and \<open>fo_flushes\<close> are the results of the next calls of
  \<open>fwrite\<close> and \<open>fflush\<close> (when they are used up, the calls succeed).

  The stream is an output device in the sense of \<open>Smap_Stream_Out\<close>
  (interpretations \<open>fo\<close> and \<open>fr\<close>), so that what it is handed reaches the file.
\<close>

section \<open>Definitions\<close>

text \<open>A call of \<open>fprintf (file, "%s: ", arg)\<close> or what \<open>fwrite\<close> has taken of its argument.\<close>

datatype stdio_call = Fprintf string | Fwrite string

datatype fwrite_res = FwAll | FwShort nat errno

record fileout_stream =
  fo_file :: "stdio_call list"
  fo_pfx :: "string option"
  fo_pgopt :: bool
  fo_events :: "fwrite_res list"
  fo_flushes :: "errno list"

text \<open>\<open>smap_progname\<close> is the global of that name.\<close>

definition fileout_prefix :: "string \<Rightarrow> fileout_stream \<Rightarrow> stdio_call list" where
  "fileout_prefix smap_progname str =
     (if fo_pgopt str then [Fprintf smap_progname] else [])
     @ (case fo_pfx str of Some pfx \<Rightarrow> [Fprintf pfx] | None \<Rightarrow> [])"

definition fileout_stream_write ::
  "string \<Rightarrow> fileout_stream \<Rightarrow> string \<Rightarrow> (fileout_stream \<times> errno \<times> nat) option" where
  "fileout_stream_write smap_progname str buf =
     (let str = str\<lparr>fo_file := fo_file str @ fileout_prefix smap_progname str\<rparr> in
      case fo_events str of
        [] \<Rightarrow> Some (str\<lparr>fo_file := fo_file str @ [Fwrite buf]\<rparr>, E0, length buf)
      | FwAll # evs \<Rightarrow>
          Some (str\<lparr>fo_file := fo_file str @ [Fwrite buf], fo_events := evs\<rparr>, E0, length buf)
      | FwShort k e # evs \<Rightarrow>
          let n = min k (length buf);
              str = str\<lparr>fo_file := fo_file str @ [Fwrite (take n buf)], fo_events := evs\<rparr>
          in Some (str, if n \<noteq> length buf then e else E0, n))"

definition fileout_stream_flush :: "fileout_stream \<Rightarrow> (fileout_stream \<times> errno) option" where
  "fileout_stream_flush str =
     (case fo_flushes str of
        [] \<Rightarrow> Some (str, E0)
      | e # es \<Rightarrow> Some (str\<lparr>fo_flushes := es\<rparr>, e))"

definition fileout_stream_destroy :: "fileout_stream \<Rightarrow> flagword \<Rightarrow> fileout_stream option" where
  "fileout_stream_destroy str fl = Some (str\<lparr>fo_pfx := None\<rparr>)"

definition fileout_ops :: "(nat \<Rightarrow> bool) \<Rightarrow> nat \<Rightarrow> string \<Rightarrow> fileout_stream stream_ops" where
  "fileout_ops alloc junk smap_progname = (no_ops alloc junk)
     \<lparr>op_write := Some (fileout_stream_write smap_progname),
      op_flush := Some fileout_stream_flush,
      op_done := Some fileout_stream_destroy\<rparr>"

text \<open>\<open>granted\<close> and \<open>dup\<close> are the outcomes of the two allocations; the stream over \<open>file\<close>.\<close>

definition smap_fileout_stream_create ::
  "(nat \<Rightarrow> bool) \<Rightarrow> nat \<Rightarrow> string \<Rightarrow> bool \<Rightarrow> bool \<Rightarrow> fileout_stream \<Rightarrow> string option \<Rightarrow> bool \<Rightarrow>
   (errno \<times> fileout_stream smap_stream option) option" where
  "smap_fileout_stream_create alloc junk smap_progname granted dup file pfx pgopt =
     (case smap_stream_create granted SMAP_STREAM_WRITE (file\<lparr>fo_pfx := pfx, fo_pgopt := pgopt\<rparr>) of
        None \<Rightarrow> Some (ENOMEM, None)
      | Some str \<Rightarrow>
          if pfx \<noteq> None \<and> \<not> dup then Some (ENOMEM, None)
          else do {
            (str, _) \<leftarrow> smap_stream_set_buffer (fileout_ops alloc junk smap_progname) str smap_buffer_line 1024;
            Some (E0, Some str)
          })"

section \<open>The stream as a device\<close>

definition fwritten :: "stdio_call list \<Rightarrow> string" where
  "fwritten calls = concat (map (\<lambda>c. case c of Fprintf _ \<Rightarrow> [] | Fwrite b \<Rightarrow> b) calls)"

lemma fwritten_simps [simp]:
  "fwritten [] = []" "fwritten (Fprintf p # cs) = fwritten cs" "fwritten (Fwrite b # cs) = b @ fwritten cs"
  "fwritten (cs @ ds) = fwritten cs @ fwritten ds" "fwritten (fileout_prefix pn str) = []"
  by (auto simp: fwritten_def fileout_prefix_def split: option.splits)

text \<open>A short count of \<open>fwrite\<close> comes with an error code; every block has its prefixes.\<close>

definition fo_sound :: "fileout_stream \<Rightarrow> bool" where
  "fo_sound str \<longleftrightarrow> list_all (\<lambda>ev. case ev of FwAll \<Rightarrow> True | FwShort _ e \<Rightarrow> e \<noteq> E0) (fo_events str)"

definition fo_good :: "stdio_call list \<Rightarrow> fileout_stream \<Rightarrow> bool" where
  "fo_good pre str \<longleftrightarrow> fo_events str = [] \<and> fo_flushes str = []
     \<and> (\<exists>blocks. fo_file str = concat (map (\<lambda>b. pre @ [Fwrite b]) blocks))"

lemma fileout_prefix_upd [simp]:
  "fileout_prefix pn (str\<lparr>fo_file := f\<rparr>) = fileout_prefix pn str"
  "fileout_prefix pn (str\<lparr>fo_events := e\<rparr>) = fileout_prefix pn str"
  by (simp_all add: fileout_prefix_def)

interpretation fo: out_device "fileout_ops alloc junk pn" "fileout_stream_write pn"
    "\<lambda>d. fwritten (fo_file d)" "\<lambda>_. True" fo_sound
  by unfold_locales
    (auto simp: fileout_ops_def fileout_stream_write_def fo_sound_def Let_def
      split: list.splits fwrite_res.splits if_splits)

definition fo_good_for :: "string \<Rightarrow> bool \<Rightarrow> string option \<Rightarrow> fileout_stream \<Rightarrow> bool" where
  "fo_good_for pn pg pfx str \<longleftrightarrow> fo_pgopt str = pg \<and> fo_pfx str = pfx \<and> fo_good (fileout_prefix pn str) str"

lemma fo_good_write:
  assumes "fo_good_for pn pg pfx str"
  shows "\<exists>str'. fileout_stream_write pn str buf = Some (str', E0, length buf) \<and> fo_good_for pn pg pfx str'"
proof -
  from assms obtain blocks where b: "fo_file str = concat (map (\<lambda>b. fileout_prefix pn str @ [Fwrite b]) blocks)"
    by (auto simp: fo_good_for_def fo_good_def)
  then have "fo_file str @ fileout_prefix pn str @ [Fwrite buf]
      = concat (map (\<lambda>b. fileout_prefix pn str @ [Fwrite b]) (blocks @ [buf]))" by simp
  then have "\<exists>bs. fo_file str @ fileout_prefix pn str @ [Fwrite buf]
      = concat (map (\<lambda>b. fileout_prefix pn str @ [Fwrite b]) bs)" by blast
  with assms show ?thesis
    by (simp add: fo_good_for_def fo_good_def fileout_stream_write_def Let_def)
qed

interpretation fr: reliable_device "fileout_ops alloc junk pn" "fileout_stream_write pn"
    "\<lambda>d. fwritten (fo_file d)" "\<lambda>_. True" fo_sound "fo_good_for pn pg pfx" cap for cap
proof
  fix d :: fileout_stream and buf :: string
  assume g: "fo_good_for pn pg pfx d" and "buf \<noteq> []"
  with fo_good_write [OF g, of buf]
  show "\<exists>d' n. fileout_stream_write pn d buf = Some (d', E0, n) \<and> 0 < n \<and> fo_good_for pn pg pfx d'" by auto
qed (simp add: fo_good_for_def fo_good_def fo_sound_def)

lemma fwritten_blocks: "fwritten (concat (map (\<lambda>b. fileout_prefix pn str @ [Fwrite b]) blocks)) = concat blocks"
  by (induction blocks) simp_all

text \<open>A new stream, in any of the buffering modes.\<close>

lemma fileout_created:
  assumes "smap_fileout_stream_create (\<lambda>_. True) junk pn True True file pfx pg = Some (E0, Some s)"
    and "fo_file file = []" "fo_events file = []" "fo_flushes file = []"
  shows "out_ok fo_sound s" "str_buftype s = smap_buffer_line" "\<not> has_flag s SMAP_STREAM_SEEK"
    "\<not> has_flag s SMAP_STREAM_EXPBUF" "str_cur s = 0" "str_bufsize s = 1024" "window s = []"
    "fo_good_for pn pg pfx (str_dev s)" "fo_file (str_dev s) = []" "str_flags s = SMAP_STREAM_WRITE"
    "str_level s = 0" "str_buffer s \<noteq> None"
  using assms
  by (auto simp: smap_fileout_stream_create_def smap_stream_create_def smap_stream_ref_def
      smap_stream_set_buffer_def fileout_ops_def no_ops_def out_ok_def stream_wf_def bufmem_def SIZE_MAX_def
      fo_sound_def window_def fo_good_for_def fo_good_def hasfl_def split: if_splits)

lemma fileout_flush:
  assumes "out_ok fo_sound s" "str_buftype s = smap_buffer_line" "\<not> has_flag s SMAP_STREAM_SEEK"
    and "fo_good_for pn pg pfx (str_dev s)"
  shows "\<exists>s'. smap_stream_flush (fileout_ops alloc junk pn) s = Some (s', E0)
    \<and> fo_good_for pn pg pfx (str_dev s') \<and> fwritten (fo_file (str_dev s')) = fo.total s"
proof -
  from fr.flush_ok [OF assms(1-3) _ _ assms(4), where all = True and cap = "str_level s" and alloc = alloc and junk = junk] assms(4) obtain s1 where
    s1: "stream_flush_buffer (fileout_ops alloc junk pn) s True = Some (s1, E0)" "fo_good_for pn pg pfx (str_dev s1)"
    by auto
  from fo.flush_all [OF s1(1) assms(1,2)] have "fwritten (fo_file (str_dev s1)) = fo.total s" by simp
  moreover have "op_flush (fileout_ops alloc junk pn) = Some fileout_stream_flush"
    by (simp add: fileout_ops_def)
  moreover have "fileout_stream_flush (str_dev s1) = Some (str_dev s1, E0)"
    using s1(2) by (simp add: fileout_stream_flush_def fo_good_for_def fo_good_def)
  ultimately show ?thesis
    using s1 by (auto simp: smap_stream_flush_def clr_flag_def)
qed

section \<open>Properties\<close>

text \<open>C25. Whatever is written to a new stream over a file that does not fail, and then flushed, is
  accepted and reaches the file completely and in order, cut into blocks each
  of which is preceded by exactly the name of the program and the prefix that
  were asked for.\<close>

theorem fileout_writes:
  assumes mk: "smap_fileout_stream_create (\<lambda>_. True) junk pn True True file pfx pg = Some (E0, Some s)"
    and "fo_file file = []" "fo_events file = []" "fo_flushes file = []"
  shows "\<exists>s1 s2 blocks. smap_stream_write (fileout_ops (\<lambda>_. True) junk pn) s buf p = Some (s1, E0, Some (length buf))
    \<and> smap_stream_flush (fileout_ops (\<lambda>_. True) junk pn) s1 = Some (s2, E0)
    \<and> concat blocks = buf
    \<and> fo_file (str_dev s2) = concat (map (\<lambda>b. (if pg then [Fprintf pn] else [])
         @ (case pfx of Some t \<Rightarrow> [Fprintf t] | None \<Rightarrow> []) @ [Fwrite b]) blocks)"
proof -
  let ?ops = "fileout_ops (\<lambda>_. True) junk pn"
  note c = fileout_created [OF assms]
  from fr.write_loop_ok_plain [OF c(1-4) _ c(5,8), of 1024 "\<lambda>_. True" junk buf 0] c(6) obtain s1 m where
    w: "stream_write_loop ?ops s buf 0 = Some (s1, E0, m)" "fo_good_for pn pg pfx (str_dev s1)" by auto
  from fo.write_loop_conserves [OF w(1) c(1,2)] have
    o: "fo.total s1 = fo.total s @ buf" "out_ok fo_sound s1" "out_frame s s1" "m = length buf" by auto
  note f = out_frame_flags [OF o(3)]
  from fileout_flush [OF o(2) _ _ w(2), of "\<lambda>_. True" junk] f(4,5) c(2,3) obtain s2 where
    s2: "smap_stream_flush ?ops s1 = Some (s2, E0)" "fo_good_for pn pg pfx (str_dev s2)"
    "fwritten (fo_file (str_dev s2)) = fo.total s1" by auto
  from s2(2) obtain blocks where
    b: "fo_file (str_dev s2) = concat (map (\<lambda>b. fileout_prefix pn (str_dev s2) @ [Fwrite b]) blocks)"
    by (auto simp: fo_good_for_def fo_good_def)
  have "concat blocks = buf"
    using s2(3) o(1) c(7,9) unfolding b fwritten_blocks by (simp add: fo.total_def)
  moreover have "fileout_prefix pn (str_dev s2) = (if pg then [Fprintf pn] else [])
         @ (case pfx of Some t \<Rightarrow> [Fprintf t] | None \<Rightarrow> [])"
    using s2(2) by (simp add: fileout_prefix_def fo_good_for_def)
  moreover have "smap_stream_write ?ops s buf p = Some (s1, E0, Some (length buf))"
    using w(1) o(4) c(2) by (simp add: smap_stream_write_def)
  ultimately show ?thesis using s2(1) b by (intro exI [of _ s1] exI [of _ s2] exI [of _ blocks]) simp
qed

definition no_file :: fileout_stream where
  "no_file = \<lparr>fo_file = [], fo_pfx = None, fo_pgopt = False, fo_events = [], fo_flushes = []\<rparr>"

theorem fileout_writes_witness:
  "\<exists>s s1 s2 blocks. smap_fileout_stream_create (\<lambda>_. True) 0 ''smapd'' True True no_file (Some ''debug'') True = Some (E0, Some s)
    \<and> smap_stream_write (fileout_ops (\<lambda>_. True) 0 ''smapd'') s ''ready'' False = Some (s1, E0, Some 5)
    \<and> smap_stream_flush (fileout_ops (\<lambda>_. True) 0 ''smapd'') s1 = Some (s2, E0)
    \<and> concat blocks = ''ready''
    \<and> fo_file (str_dev s2) = concat (map (\<lambda>b. [Fprintf ''smapd'', Fprintf ''debug'', Fwrite b]) blocks)"
proof -
  obtain s where mk: "smap_fileout_stream_create (\<lambda>_. True) 0 ''smapd'' True True no_file (Some ''debug'') True = Some (E0, Some s)"
    by (auto simp: smap_fileout_stream_create_def smap_stream_create_def smap_stream_set_buffer_def
        smap_stream_ref_def fileout_ops_def no_ops_def)
  from fileout_writes [OF mk, of "''ready''" False] mk show ?thesis by (simp add: no_file_def eval_nat_numeral)
qed

text \<open>A fully buffered stream never returns from a write of more bytes than its buffer
  has: when the buffer is full, the flush writes it out but does not empty it,
  so that the loop neither copies a byte nor ends (and the file keeps growing).\<close>

theorem full_buffered_write_hangs:
  assumes mk: "smap_fileout_stream_create (\<lambda>_. True) junk pn True True file pfx pg = Some (E0, Some s)"
    and "fo_file file = []" "fo_events file = []" "fo_flushes file = []"
    and sb: "smap_stream_set_buffer (fileout_ops (\<lambda>_. True) junk pn) s smap_buffer_full n = Some (s1, E0)"
    and n: "0 < n" "n \<le> SIZE_MAX" "n < length buf"
  shows "smap_stream_write (fileout_ops (\<lambda>_. True) junk pn) s1 buf p = None"
proof -
  let ?ops = "fileout_ops (\<lambda>_. True) junk pn"
  note c = fileout_created [OF mk assms(2-4)]
  from fileout_flush [OF c(1-3,8), of "\<lambda>_. True" junk] obtain s0 where
    fl: "smap_stream_flush ?ops s = Some (s0, E0)" "fo_good_for pn pg pfx (str_dev s0)" by blast
  have clean: "\<not> hasfl (str_flags s) STR_DIRTY" "\<not> hasfl (str_flags s) STR_WRT" by (simp_all add: c(10) hasfl_def)
  then have s0: "str_flags s0 = SMAP_STREAM_WRITE"
    using fl(1) c(10,11)
    by (auto simp: smap_stream_flush_def stream_flush_buffer_def flush_finish_def stream_advance_buffer_def
        clr_flag_def clrfl_def hasfl_def bind_eq_Some_conv size_sub_def split: if_splits)
  have s1: "s1 = s0\<lparr>str_buftype := smap_buffer_full, str_buffer := Some (replicate n (CHR 0x00)), str_bufsize := n,
      str_cur := 0, str_level := 0\<rparr>"
    using sb n(1) c(12) fl(1) by (auto simp: smap_stream_set_buffer_def fileout_ops_def no_ops_def Let_def)
  define s2 where "s2 = set_flag STR_DIRTY (s1\<lparr>str_buffer := Some (take n buf), str_level := n\<rparr>)"
  have st: "buf_store s1 0 (take n buf) = Some (s1\<lparr>str_buffer := Some (take n buf)\<rparr>)"
    using n by (auto simp: buf_store_def memcpy_at_def s1 bufmem_def)
  have "out_ok fo_sound s2"
    using n fl(2) by (auto simp: s2_def s1 out_ok_def stream_wf_def bufmem_def set_flag_def s0 hasfl_def setfl_def
        fo_good_for_def fo_good_def fo_sound_def)
  then have "stream_write_loop ?ops s2 (drop n buf) n = None"
    using n fl(2) by (intro fr.full_buffer_write_stuck [where pg = pg and pfx = pfx and cap = n])
      (auto simp: s2_def s1 set_flag_def s0 hasfl_def setfl_def)
  then show ?thesis
    using n st by (auto simp: smap_stream_write_def s1 stream_write_loop.simps [of _ _ buf] stream_buffer_full_p_def
        BUFFER_FULL_P_def Let_def s2_def)
qed

theorem full_buffered_write_hangs_witness:
  "\<exists>s s1. smap_fileout_stream_create (\<lambda>_. True) 0 ''smapd'' True True no_file None False = Some (E0, Some s)
    \<and> smap_stream_set_buffer (fileout_ops (\<lambda>_. True) 0 ''smapd'') s smap_buffer_full 4 = Some (s1, E0)
    \<and> smap_stream_write (fileout_ops (\<lambda>_. True) 0 ''smapd'') s1 ''ready'' False = None"
proof -
  obtain s where mk: "smap_fileout_stream_create (\<lambda>_. True) 0 ''smapd'' True True no_file None False = Some (E0, Some s)"
    by (auto simp: smap_fileout_stream_create_def smap_stream_create_def smap_stream_set_buffer_def
        smap_stream_ref_def fileout_ops_def no_ops_def)
  have nf: "fo_file no_file = []" "fo_events no_file = []" "fo_flushes no_file = []" by (simp_all add: no_file_def)
  note c = fileout_created [OF mk nf]
  from fileout_flush [OF c(1-3,8), of "\<lambda>_. True" 0] obtain s1 where
    "smap_stream_set_buffer (fileout_ops (\<lambda>_. True) 0 ''smapd'') s smap_buffer_full 4 = Some (s1, E0)"
    using c(12) by (auto simp: smap_stream_set_buffer_def fileout_ops_def no_ops_def Let_def)
  with full_buffered_write_hangs [OF mk nf this, of "''ready''" False] mk show ?thesis
    by (auto simp: SIZE_MAX_def)
qed

end
