(* ===== verification/Smap_Url.thy ===== *)
theory Smap_Url
  imports Smap_Prelude
begin

text \<open>
  Socket addresses given as URLs (\<open>lib/url.c\<close>): \<open>unix://path\<close>, \<open>local://path\<close>,
  an absolute file name, or \<open>inet://host:port\<close>.

  The name services of the C library are parameters (\<open>url_env\<close>), as are the
  outcomes of the allocations, numbered from 0 in the order in which one call makes them.
  \<open>None\<close> is a store past the end of the array \<open>sun_path\<close>.
\<close>

section \<open>Definitions\<close>

datatype url_error =
    SMAP_URLE_NOMEM | SMAP_URLE_INVALID | SMAP_URLE_PORT | SMAP_URLE_NAME2LONG | SMAP_URLE_NOABS
  | SMAP_URLE_NOPORT | SMAP_URLE_BADPORT | SMAP_URLE_UNKPORT | SMAP_URLE_UNKHOST
  | SMAP_URLE_BADFAMILY | SMAP_URLE_BADPROTO | URLE_minus1

text \<open>The addresses; the number of a port is in network byte order.\<close>

datatype url_addr = S_UN string | S_IN "32 word" "16 word"

text \<open>\<open>ue_host\<close>: the address, if it is one of the family \<open>AF_INET\<close>, of a known host.\<close>

record url_env =
  ue_alloc :: "nat \<Rightarrow> bool"
  ue_service :: "string \<Rightarrow> 16 word option"
  ue_host :: "string \<Rightarrow> 32 word option option"

definition SUN_PATH_SIZE :: nat where "SUN_PATH_SIZE = 108"

definition htons :: "16 word \<Rightarrow> 16 word" where
  "htons w = push_bit 8 w OR drop_bit 8 w"

definition smap_url_strerror :: "url_error option \<Rightarrow> string" where
  "smap_url_strerror er =
     (case er of
        None \<Rightarrow> ''no error''
      | Some SMAP_URLE_NOMEM \<Rightarrow> ''not enough memory''
      | Some SMAP_URLE_INVALID \<Rightarrow> ''malformed URL''
      | Some SMAP_URLE_PORT \<Rightarrow> ''port is meaningless for UNIX sockets''
      | Some SMAP_URLE_NAME2LONG \<Rightarrow> ''UNIX socket name too long''
      | Some SMAP_URLE_NOABS \<Rightarrow> ''UNIX socket name must be absolute''
      | Some SMAP_URLE_NOPORT \<Rightarrow> ''missing port number''
      | Some SMAP_URLE_BADPORT \<Rightarrow> ''bad port number''
      | Some SMAP_URLE_UNKPORT \<Rightarrow> ''unknown port name''
      | Some SMAP_URLE_UNKHOST \<Rightarrow> ''unknown host name''
      | Some SMAP_URLE_BADFAMILY \<Rightarrow> ''unsupported address family''
      | Some SMAP_URLE_BADPROTO \<Rightarrow> ''unsupported protocol''
      | Some URLE_minus1 \<Rightarrow> ''unrecognized error'')"

text \<open>The port and the path; the allocations are those from number 1 on.\<close>

definition split_url :: "url_env \<Rightarrow> string \<Rightarrow> url_error + (string option \<times> string)" where
  "split_url ue connstr =
     (case memchr (CHR '':'') connstr of
        None \<Rightarrow> if ue_alloc ue 1 then Inr (None, connstr) else Inl SMAP_URLE_NOMEM
      | Some p \<Rightarrow>
          if \<not> ue_alloc ue 1 then Inl SMAP_URLE_NOMEM
          else if \<not> ue_alloc ue 2 then Inl SMAP_URLE_NOMEM
          else Inr (Some (drop (p + 1) connstr), take p connstr))"

definition split_connection :: "url_env \<Rightarrow> string \<Rightarrow> url_error + (string \<times> string option \<times> string)" where
  "split_connection ue connstr =
     (case memchr (CHR '':'') connstr of
        None \<Rightarrow>
          if connstr \<noteq> [] \<and> hd connstr = CHR ''/'' then
            if \<not> ue_alloc ue 0 then Inl URLE_minus1
            else if \<not> ue_alloc ue 1 then Inl SMAP_URLE_NOMEM
            else Inr (''unix'', None, connstr)
          else Inl SMAP_URLE_NOABS
      | Some p \<Rightarrow>
          if \<not> ue_alloc ue 0 then Inl SMAP_URLE_NOMEM
          else
            let connstr' = drop (p + 1) connstr in
            if take 2 connstr' = ''//'' then
              (case split_url ue (drop 2 connstr') of
                 Inl e \<Rightarrow> Inl e
               | Inr (port, path) \<Rightarrow> Inr (take p connstr, port, path))
            else Inl SMAP_URLE_INVALID)"

text \<open>
  The number of a port is stored in a \<open>short\<close> and read back before it is compared, so
  that the comparison is of the truncated number with itself.  The path is
  never null here, and so the branch for \<open>INADDR_ANY\<close> is not reached.
\<close>

definition parse_port :: "url_env \<Rightarrow> string \<Rightarrow> url_error + 16 word" where
  "parse_port ue port =
     (case strtol port 0 of
        (v, p) \<Rightarrow>
          let pnum = word_of_int v :: 16 word; num = sint pnum in
          if p = [] then
            if num \<noteq> sint pnum then Inl SMAP_URLE_BADPORT else Inr (htons pnum)
          else (case ue_service ue port of
                  None \<Rightarrow> Inl SMAP_URLE_UNKPORT
                | Some s_port \<Rightarrow> Inr s_port))"

definition parse_url0 ::
  "url_env \<Rightarrow> string \<Rightarrow> string option \<Rightarrow> string \<Rightarrow> (url_error + url_addr) option" where
  "parse_url0 ue proto port path =
     (let copied = (\<lambda>addr. if ue_alloc ue 3 then Inr addr else Inl SMAP_URLE_NOMEM) in
      if proto = ''unix'' \<or> proto = ''local'' then
        if port \<noteq> None then Some (Inl SMAP_URLE_PORT)
        else if length path > SUN_PATH_SIZE then Some (Inl SMAP_URLE_NAME2LONG)
        else if length path + 1 > SUN_PATH_SIZE then None
        else Some (copied (S_UN path))
      else if proto = ''inet'' then
        (case port of
           None \<Rightarrow> Some (Inl SMAP_URLE_NOPORT)
         | Some pt \<Rightarrow>
             (case parse_port ue pt of
                Inl e \<Rightarrow> Some (Inl e)
              | Inr pnum \<Rightarrow>
                  (case ue_host ue path of
                     None \<Rightarrow> Some (Inl SMAP_URLE_UNKHOST)
                   | Some None \<Rightarrow> Some (Inl SMAP_URLE_BADFAMILY)
                   | Some (Some a) \<Rightarrow> Some (copied (S_IN a pnum)))))
      else Some (Inl SMAP_URLE_BADPROTO))"

definition smap_url_parse :: "url_env \<Rightarrow> string \<Rightarrow> (url_error + url_addr) option" where
  "smap_url_parse ue connstr =
     (case split_connection ue connstr of
        Inl e \<Rightarrow> Some (Inl e)
      | Inr (proto, port, path) \<Rightarrow> parse_url0 ue proto port path)"

section \<open>Lemmas\<close>

lemma split_url_path: "CHR '':'' \<notin> set path \<Longrightarrow> \<forall>n. ue_alloc ue n \<Longrightarrow> split_url ue path = Inr (None, path)"
  by (simp add: split_url_def memchr_None [THEN iffD2])

lemma split_url_port:
  "CHR '':'' \<notin> set host \<Longrightarrow> \<forall>n. ue_alloc ue n \<Longrightarrow> split_url ue (host @ CHR '':'' # port) = Inr (Some port, host)"
  by (simp add: split_url_def)

lemma split_proto:
  assumes "CHR '':'' \<notin> set proto" "\<forall>n. ue_alloc ue n"
  shows "split_connection ue (proto @ ''://'' @ rest) =
    (case split_url ue rest of Inl e \<Rightarrow> Inl e | Inr (port, path) \<Rightarrow> Inr (proto, port, path))"
  using assms by (simp add: split_connection_def split: sum.split prod.split)

lemma port_truncated:
  assumes "strtol port 0 = (n, [])"
  shows "parse_port ue port = Inr (htons (word_of_int n))"
  using assms by (simp add: parse_port_def Let_def)

section \<open>Properties\<close>

text \<open>C29. UNIX sockets.  An absolute file name without a colon and the URLs \<open>unix://\<close> and
  \<open>local://\<close> of it give the address of that file if the name fits with its
  terminating zero; a longer name is refused, except that one that fills the
  array exactly is stored with its zero past the end of the array.\<close>

theorem url_unix:
  assumes "CHR '':'' \<notin> set path" "path \<noteq> []" "hd path = CHR ''/''" "\<forall>n. ue_alloc ue n"
    and "url \<in> {path, ''unix://'' @ path, ''local://'' @ path}"
  shows "smap_url_parse ue url =
    (if length path < 108 then Some (Inr (S_UN path))
     else if length path = 108 then None else Some (Inl SMAP_URLE_NAME2LONG))"
proof -
  have "split_connection ue url \<in> {Inr (''unix'', None, path), Inr (''local'', None, path)}"
    using assms split_proto [of "''unix''" ue path] split_proto [of "''local''" ue path] split_url_path [of path ue]
    by (auto simp: split_connection_def memchr_None [THEN iffD2])
  then show ?thesis using assms(4) by (auto simp: smap_url_parse_def parse_url0_def SUN_PATH_SIZE_def)
qed

definition demo_names :: url_env where
  "demo_names = \<lparr>ue_alloc = \<lambda>_. True, ue_service = (\<lambda>s. if s = ''smap'' then Some 0xF00B else None),
     ue_host = (\<lambda>h. if h = ''10.10.1.11'' then Some (Some 0x0B010A0A) else None)\<rparr>"

theorem url_unix_witness: "smap_url_parse demo_names ''unix:///smap.sock'' = Some (Inr (S_UN ''/smap.sock''))"
  using url_unix [of "''/smap.sock''" demo_names "''unix:///smap.sock''"] by (simp add: demo_names_def)

text \<open>C30. Internet sockets.  For a known host and a port given as a number in any notation, the address
  is that of the host with the port in network byte order.  Numbers that are
  not ports are not refused: they are reduced modulo 65536.\<close>

theorem url_inet:
  assumes "CHR '':'' \<notin> set host" "\<forall>n. ue_alloc ue n" "ue_host ue host = Some (Some a)"
    and "strtol port 0 = (v, [])"
  shows "smap_url_parse ue (''inet://'' @ host @ CHR '':'' # port) =
    Some (Inr (S_IN a (htons (word_of_int (v mod 65536)))))"
proof -
  have w: "(word_of_int (v mod 65536) :: 16 word) = word_of_int v"
    by (simp add: word_of_int_eq_iff take_bit_eq_mod)
  show ?thesis
    using assms split_proto [of "''inet''" ue "host @ CHR '':'' # port"]
    by (simp add: smap_url_parse_def split_url_port parse_url0_def port_truncated w)
qed

theorem url_inet_witness:
  "smap_url_parse demo_names ''inet://10.10.1.11:68592'' = Some (Inr (S_IN 0x0B010A0A (htons 3056)))"
proof -
  have "strtol ''68592'' 0 = (68592, [])"
    by (simp add: strtol_def isspace_def strtoul_base_def strtoul_digits_def digit_val_def number_of_def Let_def)
  from url_inet [OF _ _ _ this, of "''10.10.1.11''" demo_names "0x0B010A0A"] show ?thesis
    by (simp add: demo_names_def)
qed

end
