(* ===== verification/Smap_Privs.thy ===== *)
theory Smap_Privs
  imports Smap_Prelude
begin

text \<open>
  Switching to the privileges of an unprivileged user (\<open>src/userprivs.c\<close>).

  The user and group databases and the calls that change the credentials of the
  process are parameters (\<open>user_db\<close>, \<open>cred_ops\<close>).  What the daemon relies on of the latter is
  the locale \<open>posix_creds\<close>, the documented behaviour of these calls;
  \<open>posix_ops\<close> is a kernel with this behaviour.
\<close>

section \<open>Definitions\<close>

text \<open>\<open>pi_gids\<close> is the allocated array of \<open>pi_gc\<close> elements (null when \<open>pi_gc\<close> is 0).\<close>

record privinfo =
  pi_uid :: nat
  pi_gids :: "nat list"
  pi_gc :: nat
  pi_gi :: nat
  pi_allgroups :: bool

text \<open>\<open>udb_name\<close>: \<open>getpwnam\<close>; \<open>udb_uid\<close>: the name \<open>getpwuid\<close> finds; \<open>udb_groups\<close>: the entries
  that \<open>getgrent\<close> enumerates, with their members.\<close>

record user_db =
  udb_name :: "string \<Rightarrow> (nat \<times> nat) option"
  udb_group :: "string \<Rightarrow> nat option"
  udb_uid :: "nat \<Rightarrow> string option"
  udb_groups :: "(nat \<times> string list) list"

text \<open>\<open>None\<close>: a store outside the array.\<close>

definition privinfo_add_grpgid :: "privinfo \<Rightarrow> nat \<Rightarrow> privinfo option" where
  "privinfo_add_grpgid pi gid =
     (let pi = (if pi_gc pi = 0 then pi\<lparr>pi_gc := 16, pi_gids := replicate 16 0, pi_gi := 0\<rparr> else pi);
          pi = (if pi_gi pi = pi_gc pi
                then pi\<lparr>pi_gc := 2 * pi_gc pi,
                        pi_gids := pi_gids pi @ replicate (2 * pi_gc pi - length (pi_gids pi)) 0\<rparr>
                else pi)
      in if pi_gi pi < length (pi_gids pi)
         then Some (pi\<lparr>pi_gids := (pi_gids pi)[pi_gi pi := gid], pi_gi := pi_gi pi + 1\<rparr>)
         else None)"

definition privinfo_set_user :: "user_db \<Rightarrow> privinfo \<Rightarrow> string \<Rightarrow> privinfo option" where
  "privinfo_set_user db pi name =
     (case udb_name db name of
        None \<Rightarrow> Some pi
      | Some (uid, gid) \<Rightarrow> privinfo_add_grpgid (pi\<lparr>pi_uid := uid\<rparr>) gid)"

definition privinfo_add_grpnam :: "user_db \<Rightarrow> privinfo \<Rightarrow> string \<Rightarrow> privinfo option" where
  "privinfo_add_grpnam db pi name =
     (case udb_group db name of None \<Rightarrow> Some pi | Some gid \<Rightarrow> privinfo_add_grpgid pi gid)"

fun get_user_groups_loop :: "string \<Rightarrow> (nat \<times> string list) list \<Rightarrow> privinfo \<Rightarrow> privinfo option" where
  "get_user_groups_loop user [] pi = Some pi"
| "get_user_groups_loop user ((gid, mem) # grs) pi = do {
     pi \<leftarrow> (if user \<in> set mem then privinfo_add_grpgid pi gid else Some pi);
     get_user_groups_loop user grs pi
   }"

definition get_user_groups :: "user_db \<Rightarrow> privinfo \<Rightarrow> privinfo option" where
  "get_user_groups db pi =
     (case udb_uid db (pi_uid pi) of
        None \<Rightarrow> Some pi
      | Some user \<Rightarrow> get_user_groups_loop user (udb_groups db) pi)"

definition privinfo_expand_user_groups :: "user_db \<Rightarrow> privinfo \<Rightarrow> privinfo option" where
  "privinfo_expand_user_groups db pi =
     (if pi_allgroups pi then do {
        pi \<leftarrow> get_user_groups db pi;
        Some (pi\<lparr>pi_allgroups := False\<rparr>)
      }
      else Some pi)"

text \<open>The calls on credentials of type \<open>'c\<close>; those that change them return the code as well.\<close>

record 'c cred_ops =
  c_geteuid :: "'c \<Rightarrow> nat"
  c_getuid :: "'c \<Rightarrow> nat"
  c_getegid :: "'c \<Rightarrow> nat"
  c_setgroups :: "nat list \<Rightarrow> 'c \<Rightarrow> 'c \<times> int"
  c_setegid :: "nat \<Rightarrow> 'c \<Rightarrow> 'c \<times> int"
  c_setgid :: "nat \<Rightarrow> 'c \<Rightarrow> 'c \<times> int"
  c_setuid :: "nat \<Rightarrow> 'c \<Rightarrow> 'c \<times> int"
  c_setreuid :: "nat \<Rightarrow> 'c \<Rightarrow> 'c \<times> int"

text \<open>The group, with the configuration for \<open>setegid\<close>.\<close>

definition switch_gid :: "'c cred_ops \<Rightarrow> nat \<Rightarrow> 'c \<Rightarrow> 'c \<times> int" where
  "switch_gid ops gid c =
     (case c_setegid ops gid c of
        (c, rc) \<Rightarrow>
          if rc = 0 \<and> gid \<noteq> 0 then
            (case c_setgid ops gid c of
               (c, rc) \<Rightarrow> (c, if rc = 0 \<and> c_getegid ops c \<noteq> gid then 1 else rc))
          else (c, rc))"

text \<open>The user, with the second attempt by \<open>setreuid\<close>.  Whether \<open>setuid\<close> was
  enough: \<close>

definition uid_not_set :: "'c cred_ops \<Rightarrow> nat \<Rightarrow> int \<Rightarrow> 'c \<Rightarrow> bool" where
  "uid_not_set ops uid r c \<longleftrightarrow>
     r \<noteq> 0 \<or> c_geteuid ops c \<noteq> uid
     \<or> c_getuid ops c \<noteq> uid \<and> (c_geteuid ops c = 0 \<or> c_getuid ops c = 0)"

definition switch_uid :: "'c cred_ops \<Rightarrow> nat \<Rightarrow> 'c \<Rightarrow> 'c \<times> int" where
  "switch_uid ops uid c =
     (case c_setuid ops uid c of
        (c, r) \<Rightarrow>
          if uid_not_set ops uid r c then
            if c_geteuid ops c \<noteq> uid then
              (case c_setreuid ops uid c of
                 (c, r1) \<Rightarrow>
                   (case c_setuid ops uid c of
                      (c, r2) \<Rightarrow> (c, if r1 < 0 \<or> r2 < 0 then 1 else 0)))
            else (c, 1)
          else (c, 0))"

text \<open>The checks at the end: neither root nor another effective user can be resumed.\<close>

definition check_dropped :: "'c cred_ops \<Rightarrow> nat \<Rightarrow> 'c \<Rightarrow> int \<Rightarrow> 'c \<times> int" where
  "check_dropped ops uid c rc =
     (let euid = c_geteuid ops c in
      case c_setuid ops 0 c of
        (c, r) \<Rightarrow>
          if uid \<noteq> 0 \<and> r = 0 then (c, 1)
          else if uid \<noteq> euid then
            (case c_setuid ops euid c of (c, r) \<Rightarrow> (c, if r = 0 then 1 else rc))
          else (c, rc))"

text \<open>\<open>None\<close>: there is no group in the array, which is a null pointer then.\<close>

definition switch_to_privs :: "'c cred_ops \<Rightarrow> privinfo \<Rightarrow> 'c \<Rightarrow> ('c \<times> int) option" where
  "switch_to_privs ops pi c =
     (if pi_uid pi = 0 then Some (c, 0)
      else
        case (if c_geteuid ops c = 0 then c_setgroups ops (take (pi_gi pi) (pi_gids pi)) c else (c, 0)) of
          (c, r) \<Rightarrow>
            if r \<noteq> 0 then Some (c, 1)
            else if pi_gids pi = [] then None
            else (case switch_gid ops (hd (pi_gids pi)) c of
                    (c, rc) \<Rightarrow>
                      if rc = 0 then
                        (case switch_uid ops (pi_uid pi) c of
                           (c, rc) \<Rightarrow> Some (check_dropped ops (pi_uid pi) c rc))
                      else Some (c, rc)))"

section \<open>The array of groups\<close>

definition privs_inv :: "privinfo \<Rightarrow> bool" where
  "privs_inv pi \<longleftrightarrow> length (pi_gids pi) = pi_gc pi \<and> pi_gi pi \<le> pi_gc pi"

definition privs_groups :: "privinfo \<Rightarrow> nat list" where
  "privs_groups pi = take (pi_gi pi) (pi_gids pi)"

lemma add_grpgid:
  assumes "privs_inv pi"
  shows "\<exists>pi'. privinfo_add_grpgid pi gid = Some pi' \<and> privs_inv pi' \<and> pi_uid pi' = pi_uid pi
    \<and> pi_allgroups pi' = pi_allgroups pi \<and> privs_groups pi' = privs_groups pi @ [gid]"
proof -
  have t: "take (Suc n) (xs[n := gid]) = take n xs @ [gid]" if "n < length xs" for n and xs :: "nat list"
    using that by (simp add: take_Suc_conv_app_nth)
  show ?thesis
    using assms
    by (auto simp: privinfo_add_grpgid_def privs_inv_def privs_groups_def Let_def t)
qed

text \<open>Moreover, a user other than root has a group.\<close>

definition user_inv :: "privinfo \<Rightarrow> bool" where
  "user_inv pi \<longleftrightarrow> privs_inv pi \<and> (pi_uid pi \<noteq> 0 \<longrightarrow> 0 < pi_gi pi)"

lemma add_grpgid_user:
  assumes "privs_inv pi"
  shows "\<exists>pi'. privinfo_add_grpgid pi gid = Some pi' \<and> user_inv pi'"
proof -
  from add_grpgid [OF assms] obtain pi' where
    "privinfo_add_grpgid pi gid = Some pi'" "privs_inv pi'" "privs_groups pi' = privs_groups pi @ [gid]" by blast
  then show ?thesis by (cases "pi_gi pi'") (auto simp: user_inv_def privs_groups_def)
qed

lemma user_groups_loop:
  assumes "privs_inv pi"
  shows "\<exists>pi'. get_user_groups_loop user grs pi = Some pi' \<and> privs_inv pi' \<and> pi_uid pi' = pi_uid pi
    \<and> privs_groups pi' = privs_groups pi @ map fst (filter (\<lambda>g. user \<in> set (snd g)) grs)"
  using assms
proof (induction grs arbitrary: pi)
  case (Cons g grs)
  obtain gid mem where g: "g = (gid, mem)" by (cases g)
  show ?case
  proof (cases "user \<in> set mem")
    case True
    from add_grpgid [OF Cons.prems, of gid] obtain pi1 where
      p: "privinfo_add_grpgid pi gid = Some pi1" "privs_inv pi1" "pi_uid pi1 = pi_uid pi"
      "privs_groups pi1 = privs_groups pi @ [gid]" by blast
    from Cons.IH [OF p(2)] show ?thesis using p True by (auto simp: g)
  next
    case False
    with Cons.IH [OF Cons.prems] show ?thesis by (simp add: g)
  qed
qed simp

section \<open>The calls of the kernel\<close>

text \<open>The documented behaviour that switching relies on; \<open>ids\<close> are the real, effective and saved user
  and group of a process, \<open>grps\<close> its supplementary groups.\<close>

locale posix_creds =
  fixes ops :: "'c cred_ops"
    and uids :: "'c \<Rightarrow> nat \<times> nat \<times> nat"
    and gids :: "'c \<Rightarrow> nat \<times> nat \<times> nat"
    and grps :: "'c \<Rightarrow> nat list"
  assumes getters: "c_getuid ops c = fst (uids c)" "c_geteuid ops c = fst (snd (uids c))"
      "c_getegid ops c = fst (snd (gids c))"
    and setgroups_root: "fst (snd (uids c)) = 0 \<Longrightarrow>
      \<exists>c'. c_setgroups ops gs c = (c', 0) \<and> uids c' = uids c \<and> gids c' = gids c \<and> grps c' = gs"
    and setegid_root: "fst (snd (uids c)) = 0 \<Longrightarrow>
      \<exists>c'. c_setegid ops g c = (c', 0) \<and> uids c' = uids c \<and> grps c' = grps c
        \<and> gids c' = (fst (gids c), g, snd (snd (gids c)))"
    and setgid_root: "fst (snd (uids c)) = 0 \<Longrightarrow>
      \<exists>c'. c_setgid ops g c = (c', 0) \<and> uids c' = uids c \<and> grps c' = grps c \<and> gids c' = (g, g, g)"
    and setuid_root: "fst (snd (uids c)) = 0 \<Longrightarrow>
      \<exists>c'. c_setuid ops u c = (c', 0) \<and> uids c' = (u, u, u) \<and> grps c' = grps c \<and> gids c' = gids c"
    and setuid_refused: "fst (snd (uids c)) \<noteq> 0 \<Longrightarrow> u \<noteq> fst (uids c) \<Longrightarrow> u \<noteq> snd (snd (uids c)) \<Longrightarrow>
      c_setuid ops u c = (c, -1)"
begin

lemma switch_gid_root:
  assumes "fst (snd (uids c)) = 0"
  shows "\<exists>c'. switch_gid ops g c = (c', 0) \<and> uids c' = uids c \<and> grps c' = grps c
    \<and> fst (snd (gids c')) = g \<and> (g \<noteq> 0 \<longrightarrow> gids c' = (g, g, g))"
proof -
  from setegid_root [OF assms, of g] obtain c1 where
    c1: "c_setegid ops g c = (c1, 0)" "uids c1 = uids c" "grps c1 = grps c"
    "gids c1 = (fst (gids c), g, snd (snd (gids c)))" by blast
  from setgid_root [of c1 g] c1(2) assms obtain c2 where
    "c_setgid ops g c1 = (c2, 0)" "uids c2 = uids c1" "grps c2 = grps c1" "gids c2 = (g, g, g)" by auto
  with c1 show ?thesis by (cases "g = 0") (simp_all add: switch_gid_def getters)
qed

lemma switch_uid_root:
  assumes "fst (snd (uids c)) = 0"
  shows "\<exists>c'. switch_uid ops u c = (c', 0) \<and> uids c' = (u, u, u) \<and> grps c' = grps c \<and> gids c' = gids c"
  using setuid_root [OF assms, of u] by (auto simp: switch_uid_def uid_not_set_def getters)

lemma switch_root:
  assumes "fst (snd (uids c)) = 0" "pi_uid pi \<noteq> 0" "pi_gids pi \<noteq> []"
  shows "\<exists>c'. switch_to_privs ops pi c = Some (c', 0) \<and> uids c' = (pi_uid pi, pi_uid pi, pi_uid pi)
    \<and> grps c' = take (pi_gi pi) (pi_gids pi) \<and> fst (snd (gids c')) = hd (pi_gids pi)
    \<and> (hd (pi_gids pi) \<noteq> 0 \<longrightarrow> gids c' = (hd (pi_gids pi), hd (pi_gids pi), hd (pi_gids pi)))
    \<and> c_setuid ops 0 c' = (c', -1)"
proof -
  let ?g = "hd (pi_gids pi)" and ?u = "pi_uid pi"
  from setgroups_root [OF assms(1), of "take (pi_gi pi) (pi_gids pi)"] obtain c1 where
    c1: "c_setgroups ops (take (pi_gi pi) (pi_gids pi)) c = (c1, 0)" "uids c1 = uids c"
    "grps c1 = take (pi_gi pi) (pi_gids pi)" by blast
  from switch_gid_root [of c1 ?g] c1(2) assms(1) obtain c2 where
    c2: "switch_gid ops ?g c1 = (c2, 0)" "uids c2 = uids c" "grps c2 = grps c1"
    "fst (snd (gids c2)) = ?g" "?g \<noteq> 0 \<longrightarrow> gids c2 = (?g, ?g, ?g)" by auto
  from switch_uid_root [of c2 ?u] c2(2) assms(1) obtain c3 where
    c3: "switch_uid ops ?u c2 = (c3, 0)" "uids c3 = (?u, ?u, ?u)" "grps c3 = grps c2" "gids c3 = gids c2" by auto
  have "c_setuid ops 0 c3 = (c3, -1)" by (rule setuid_refused) (use c3(2) assms(2) in auto)
  then show ?thesis
    using assms c1 c2 c3 by (simp add: switch_to_privs_def check_dropped_def getters)
qed

end

text \<open>A kernel: a process may always become root's choice, and another one its real or saved user.\<close>

record creds =
  cr_uids :: "nat \<times> nat \<times> nat"
  cr_gids :: "nat \<times> nat \<times> nat"
  cr_groups :: "nat list"

definition set_id :: "bool \<Rightarrow> nat \<Rightarrow> nat \<times> nat \<times> nat \<Rightarrow> (nat \<times> nat \<times> nat) \<times> int" where
  "set_id root n ids =
     (if root then ((n, n, n), 0)
      else if n = fst ids \<or> n = snd (snd ids) then ((fst ids, n, snd (snd ids)), 0)
      else (ids, -1))"

definition posix_ops :: "creds cred_ops" where
  "posix_ops =
     (let root = (\<lambda>c. fst (snd (cr_uids c)) = 0) in
      \<lparr>c_geteuid = \<lambda>c. fst (snd (cr_uids c)), c_getuid = \<lambda>c. fst (cr_uids c),
       c_getegid = \<lambda>c. fst (snd (cr_gids c)),
       c_setgroups = \<lambda>gs c. if root c then (c\<lparr>cr_groups := gs\<rparr>, 0) else (c, -1),
       c_setegid = \<lambda>g c. if root c \<or> g = fst (cr_gids c) \<or> g = snd (snd (cr_gids c))
         then (c\<lparr>cr_gids := (fst (cr_gids c), g, snd (snd (cr_gids c)))\<rparr>, 0) else (c, -1),
       c_setgid = \<lambda>g c. (case set_id (root c) g (cr_gids c) of (ids, r) \<Rightarrow> (c\<lparr>cr_gids := ids\<rparr>, r)),
       c_setuid = \<lambda>u c. (case set_id (root c) u (cr_uids c) of (ids, r) \<Rightarrow> (c\<lparr>cr_uids := ids\<rparr>, r)),
       c_setreuid = \<lambda>u c. if root c \<or> u = fst (snd (cr_uids c)) \<or> u = fst (cr_uids c)
         then (c\<lparr>cr_uids := (u, fst (snd (cr_uids c)), fst (snd (cr_uids c)))\<rparr>, 0) else (c, -1)\<rparr>)"

interpretation pc: posix_creds posix_ops cr_uids cr_gids cr_groups
  by unfold_locales (auto simp: posix_ops_def set_id_def)

section \<open>Properties\<close>

text \<open>C23. Dropping the privileges of root.  For a known user other than root, the configured user and
  (if asked for) all the groups with that user as a member are collected
  without a store outside the array; then, on a kernel with the documented
  behaviour, switching succeeds: the real, effective and saved user are the wanted one, the
  supplementary groups are exactly the collected ones, the group is the user's group, and
  root cannot be resumed.\<close>

theorem drop_privileges:
  assumes "posix_creds ops uids gids grps" "fst (snd (uids c)) = 0"
    and "udb_name db name = Some (uid, gid)" "uid \<noteq> 0" "udb_uid db uid = Some user"
  shows "\<exists>pi1 pi2 c'. privinfo_set_user db
        \<lparr>pi_uid = 0, pi_gids = [], pi_gc = 0, pi_gi = 0, pi_allgroups = ag\<rparr> name = Some pi1
    \<and> privinfo_expand_user_groups db pi1 = Some pi2
    \<and> switch_to_privs ops pi2 c = Some (c', 0) \<and> uids c' = (uid, uid, uid)
    \<and> grps c' = gid # (if ag then map fst (filter (\<lambda>g. user \<in> set (snd g)) (udb_groups db)) else [])
    \<and> fst (snd (gids c')) = gid \<and> (gid \<noteq> 0 \<longrightarrow> gids c' = (gid, gid, gid))
    \<and> c_setuid ops 0 c' = (c', -1)"
proof -
  let ?gs = "gid # (if ag then map fst (filter (\<lambda>g. user \<in> set (snd g)) (udb_groups db)) else [])"
  from add_grpgid [of "\<lparr>pi_uid = uid, pi_gids = [], pi_gc = 0, pi_gi = 0, pi_allgroups = ag\<rparr>" gid] obtain pi1 where
    p1: "privinfo_set_user db \<lparr>pi_uid = 0, pi_gids = [], pi_gc = 0, pi_gi = 0, pi_allgroups = ag\<rparr> name = Some pi1"
    "privs_inv pi1" "pi_uid pi1 = uid" "pi_allgroups pi1 = ag" "privs_groups pi1 = [gid]"
    using assms(3) by (auto simp: privinfo_set_user_def privs_inv_def privs_groups_def)
  obtain pi2 where p2: "privinfo_expand_user_groups db pi1 = Some pi2" "pi_uid pi2 = uid" "privs_groups pi2 = ?gs"
  proof (cases ag)
    case True
    from user_groups_loop [OF p1(2), of user "udb_groups db"] that p1 True assms(5) show thesis
      by (auto simp: privinfo_expand_user_groups_def get_user_groups_def privs_groups_def)
  qed (use that p1 in \<open>auto simp: privinfo_expand_user_groups_def\<close>)
  then have g: "pi_gids pi2 \<noteq> []" "hd (pi_gids pi2) = gid"
    by (cases "pi_gids pi2"; cases "pi_gi pi2"; simp add: privs_groups_def)+
  from posix_creds.switch_root [OF assms(1,2) _ g(1)] g(2) p2 assms(4) obtain c' where
    "switch_to_privs ops pi2 c = Some (c', 0)" "uids c' = (uid, uid, uid)" "grps c' = ?gs"
    "fst (snd (gids c')) = gid" "gid \<noteq> 0 \<longrightarrow> gids c' = (gid, gid, gid)" "c_setuid ops 0 c' = (c', -1)"
    by (auto simp: privs_groups_def)
  with p1(1) p2(1) show ?thesis by blast
qed

definition mail_db :: user_db where
  "mail_db = \<lparr>udb_name = (\<lambda>n. if n = ''smap'' then Some (70, 71) else None), udb_group = (\<lambda>_. None),
     udb_uid = (\<lambda>u. if u = 70 then Some ''smap'' else None),
     udb_groups = [(12, [''postfix'', ''smap'']), (13, [''news'']), (14, [''smap''])]\<rparr>"

theorem drop_privileges_witness:
  "\<exists>pi1 pi2 c'. privinfo_set_user mail_db
        \<lparr>pi_uid = 0, pi_gids = [], pi_gc = 0, pi_gi = 0, pi_allgroups = True\<rparr> ''smap'' = Some pi1
    \<and> privinfo_expand_user_groups mail_db pi1 = Some pi2
    \<and> switch_to_privs posix_ops pi2 \<lparr>cr_uids = (0, 0, 0), cr_gids = (0, 0, 0), cr_groups = [0]\<rparr> = Some (c', 0)
    \<and> cr_uids c' = (70, 70, 70) \<and> cr_groups c' = [71, 12, 14] \<and> cr_gids c' = (71, 71, 71)"
  using drop_privileges [OF pc.posix_creds_axioms, of "\<lparr>cr_uids = (0, 0, 0), cr_gids = (0, 0, 0), cr_groups = [0]\<rparr>"
      mail_db "''smap''" 70 71 "''smap''" True]
  by (fastforce simp: mail_db_def)

text \<open>C24. Success is never reported without proof: on any kernel whatsoever, if switching to a user other than root
  returns 0, then an attempt to become root again has been made at the end and has failed, and so has
  one to resume an effective user other than the wanted one.\<close>

theorem switch_reports_honestly:
  assumes "switch_to_privs ops pi c = Some (c', 0)" "pi_uid pi \<noteq> 0"
  shows "\<exists>c1 c2 r. c_setuid ops 0 c1 = (c2, r) \<and> r \<noteq> 0
    \<and> (if c_geteuid ops c1 = pi_uid pi then c' = c2
       else \<exists>r'. c_setuid ops (c_geteuid ops c1) c2 = (c', r') \<and> r' \<noteq> 0)"
proof -
  from assms obtain c1 rc where "check_dropped ops (pi_uid pi) c1 rc = (c', 0)"
    by (auto simp: switch_to_privs_def split: prod.splits if_splits)
  moreover obtain c2 r where "c_setuid ops 0 c1 = (c2, r)" by (cases "c_setuid ops 0 c1")
  ultimately show ?thesis using assms(2)
    by (intro exI [of _ c1] exI [of _ c2] exI [of _ r])
      (auto simp: check_dropped_def Let_def split: prod.splits if_splits)
qed

theorem switch_reports_honestly_witness:
  "\<exists>c' c1 c2 r. switch_to_privs posix_ops \<lparr>pi_uid = 70, pi_gids = [71], pi_gc = 1, pi_gi = 1, pi_allgroups = False\<rparr>
      \<lparr>cr_uids = (0, 0, 0), cr_gids = (0, 0, 0), cr_groups = [0]\<rparr> = Some (c', 0)
    \<and> c_setuid posix_ops 0 c1 = (c2, r) \<and> r \<noteq> 0"
proof -
  let ?pi = "\<lparr>pi_uid = 70, pi_gids = [71], pi_gc = 1, pi_gi = 1, pi_allgroups = False\<rparr>"
  let ?c = "\<lparr>cr_uids = (0, 0, 0), cr_gids = (0, 0, 0), cr_groups = [0]\<rparr>"
  from pc.switch_root [of ?c ?pi] obtain c' where "switch_to_privs posix_ops ?pi ?c = Some (c', 0)" by auto
  with switch_reports_honestly [OF this] show ?thesis by fastforce
qed

end
