(* ===== verification/Smap_Wordsplit.thy ===== *)
theory Smap_Wordsplit
  imports Smap_Prelude
begin

text \<open>
  The word splitter (\<open>lib/wordsplit.c\<close>).  A line is scanned into a list of nodes, references
  to segments of the input; variables in them are expanded, quotes and escapes removed,
  adjacent nodes joined, and the texts stored in an array of words.

  The doubly-linked list of nodes is a list; text is read through \<open>mem_at\<close>, which is \<open>None\<close> behind
  the terminating null byte, so that a result \<open>None\<close> stands for an access outside of
  the memory.  Allocation succeeds (otherwise the callers' flags abort the program), and the output for debugging is
  left out.
\<close>

section \<open>Flags and characters\<close>

abbreviation (input) WRDSF_APPEND :: flagword where "WRDSF_APPEND \<equiv> 0x1"
abbreviation (input) WRDSF_DOOFFS :: flagword where "WRDSF_DOOFFS \<equiv> 0x2"
abbreviation (input) WRDSF_NOCMD :: flagword where "WRDSF_NOCMD \<equiv> 0x4"
abbreviation (input) WRDSF_REUSE :: flagword where "WRDSF_REUSE \<equiv> 0x8"
abbreviation (input) WRDSF_UNDEF :: flagword where "WRDSF_UNDEF \<equiv> 0x20"
abbreviation (input) WRDSF_NOVAR :: flagword where "WRDSF_NOVAR \<equiv> 0x40"
abbreviation (input) WRDSF_WS :: flagword where "WRDSF_WS \<equiv> 0x100"
abbreviation (input) WRDSF_QUOTE :: flagword where "WRDSF_QUOTE \<equiv> 0x200"
abbreviation (input) WRDSF_SQUEEZE_DELIMS :: flagword where "WRDSF_SQUEEZE_DELIMS \<equiv> 0x400"
abbreviation (input) WRDSF_RETURN_DELIMS :: flagword where "WRDSF_RETURN_DELIMS \<equiv> 0x800"
abbreviation (input) WRDSF_SED_EXPR :: flagword where "WRDSF_SED_EXPR \<equiv> 0x1000"
abbreviation (input) WRDSF_DELIM :: flagword where "WRDSF_DELIM \<equiv> 0x2000"
abbreviation (input) WRDSF_COMMENT :: flagword where "WRDSF_COMMENT \<equiv> 0x4000"
abbreviation (input) WRDSF_ENV :: flagword where "WRDSF_ENV \<equiv> 0x40000"
abbreviation (input) WRDSF_GETVAR :: flagword where "WRDSF_GETVAR \<equiv> 0x80000"
abbreviation (input) WRDSF_NOSPLIT :: flagword where "WRDSF_NOSPLIT \<equiv> 0x200000"
abbreviation (input) WRDSF_KEEPUNDEF :: flagword where "WRDSF_KEEPUNDEF \<equiv> 0x400000"
abbreviation (input) WRDSF_CESCAPES :: flagword where "WRDSF_CESCAPES \<equiv> 0x1000000"
abbreviation (input) WRDSF_ENV_KV :: flagword where "WRDSF_ENV_KV \<equiv> 0x4000000"

text \<open>\<open>NOVAR\<close>, \<open>NOCMD\<close>, \<open>QUOTE\<close>, \<open>SQUEEZE_DELIMS\<close> and \<open>CESCAPES\<close>.\<close>

abbreviation (input) WRDSF_DEFFLAGS :: flagword where "WRDSF_DEFFLAGS \<equiv> 0x1000644"

datatype wrdse =
    WRDSE_QUOTE | WRDSE_NOSUPP | WRDSE_USAGE | WRDSE_CBRACE | WRDSE_UNDEF

abbreviation (input) NUL :: char where "NUL \<equiv> CHR 0x00"
abbreviation (input) BSL :: char where "BSL \<equiv> CHR 0x5C"
abbreviation (input) DQ :: char where "DQ \<equiv> CHR 0x22"
abbreviation (input) SQ :: char where "SQ \<equiv> CHR 0x27"

definition ISWS :: "char \<Rightarrow> bool" where
  "ISWS c \<longleftrightarrow> c = CHR '' '' \<or> c = CHR 0x09 \<or> c = NL"

definition ISPUNCT :: "char \<Rightarrow> bool" where
  "ISPUNCT c \<longleftrightarrow> (let n = (of_char c :: nat) in n = 0 \<or> 33 \<le> n \<and> n \<le> 47 \<or> 58 \<le> n \<and> n \<le> 64 \<or> 91 \<le> n \<and> n \<le> 96
     \<or> 123 \<le> n \<and> n \<le> 126)"

definition ISALPHA :: "char \<Rightarrow> bool" where
  "ISALPHA c \<longleftrightarrow> (let n = (of_char c :: nat) in 65 \<le> n \<and> n \<le> 90 \<or> 97 \<le> n \<and> n \<le> 122)"

definition ISDIGIT :: "char \<Rightarrow> bool" where
  "ISDIGIT c \<longleftrightarrow> (let n = (of_char c :: nat) in 48 \<le> n \<and> n \<le> 57)"

text \<open>\<open>strchr\<close> finds the terminating null byte, too.\<close>

definition ISXDIGIT :: "char \<Rightarrow> bool" where
  "ISXDIGIT c \<longleftrightarrow> c = NUL \<or> c \<in> set ''abcdefABCDEF''"

definition ISPRINT :: "char \<Rightarrow> bool" where
  "ISPRINT c \<longleftrightarrow> (let n = (of_char c :: nat) in 32 \<le> n \<and> n \<le> 127)"

definition ISVARBEG :: "char \<Rightarrow> bool" where "ISVARBEG c \<longleftrightarrow> ISALPHA c \<or> c = CHR ''_''"
definition ISVARCHR :: "char \<Rightarrow> bool" where "ISVARCHR c \<longleftrightarrow> ISALPHA c \<or> ISDIGIT c \<or> c = CHR ''_''"

definition mem_at :: "string \<Rightarrow> nat \<Rightarrow> char option" where
  "mem_at mem i = (if i < length mem then Some (mem ! i) else if i = length mem then Some NUL else None)"

section \<open>The splitter and its nodes\<close>

datatype node_val = NullNode | Segm nat nat | Word string

record wordsplit_node =
  wn_val :: node_val
  wn_quote :: bool
  wn_noexpand :: bool
  wn_join :: bool
  wn_sexp :: bool

text \<open>The array of words has \<open>length ws_wordv\<close> slots (0: it is a null pointer).\<close>

record wordsplit_s =
  ws_wordc :: nat
  ws_wordv :: "string option list"
  ws_offs :: nat
  ws_flags :: flagword
  ws_delim :: string
  ws_comment :: "string option"
  ws_env :: "string list"
  ws_getvar :: "string \<Rightarrow> string option"
  ws_input :: string
  ws_endp :: nat
  ws_nodes :: "wordsplit_node list"

definition ISDELIM :: "wordsplit_s \<Rightarrow> char \<Rightarrow> bool" where
  "ISDELIM wsp c \<longleftrightarrow> c = NUL \<or> c \<in> set (ws_delim wsp)"

definition iscomment :: "wordsplit_s \<Rightarrow> char \<Rightarrow> bool" where
  "iscomment wsp c \<longleftrightarrow> (case ws_comment wsp of None \<Rightarrow> False | Some cs \<Rightarrow> c = NUL \<or> c \<in> set cs)"

text \<open>The slots of the words after the offset are cleared.\<close>

definition wordsplit_free_words :: "wordsplit_s \<Rightarrow> wordsplit_s" where
  "wordsplit_free_words ws =
     ws\<lparr>ws_wordv := map (\<lambda>(i, w). if ws_offs ws \<le> i \<and> i < ws_offs ws + ws_wordc ws then None else w) (enumerate 0 (ws_wordv ws)), ws_wordc := 0\<rparr>"

text \<open>The fields that the caller has set (delimiters, comments, offset) are in the argument.\<close>

definition wordsplit_init :: "wordsplit_s \<Rightarrow> string \<Rightarrow> flagword \<Rightarrow> wrdse + wordsplit_s" where
  "wordsplit_init wsp input flags =
     (if \<not> hasfl flags WRDSF_NOVAR \<and> \<not> hasfl flags WRDSF_ENV \<and> \<not> hasfl flags WRDSF_GETVAR then Inl WRDSE_USAGE
      else if \<not> hasfl flags WRDSF_NOCMD then Inl WRDSE_NOSUPP
      else
        let wsp = wsp\<lparr>ws_flags := flags, ws_input := input\<rparr>;
            wsp = (if hasfl flags WRDSF_DOOFFS then wsp else wsp\<lparr>ws_offs := 0\<rparr>);
            wsp = (if hasfl flags WRDSF_DELIM then wsp else wsp\<lparr>ws_delim := [CHR '' '', CHR 0x09, NL]\<rparr>);
            wsp = (if hasfl flags WRDSF_COMMENT then wsp else wsp\<lparr>ws_comment := None\<rparr>);
            wsp = (if hasfl flags WRDSF_REUSE then
                     if hasfl flags WRDSF_APPEND then wsp
                     else wordsplit_free_words wsp
                   else wsp\<lparr>ws_wordv := [], ws_wordc := 0\<rparr>)
        in Inr (wsp\<lparr>ws_endp := 0, ws_nodes := []\<rparr>))"

text \<open>The new size of the array.\<close>

definition alloc_space :: "wordsplit_s \<Rightarrow> nat \<Rightarrow> wordsplit_s" where
  "alloc_space wsp count =
     (let offs = (if hasfl (ws_flags wsp) WRDSF_DOOFFS then ws_offs wsp else 0);
          resize = (\<lambda>n xs. take n xs @ replicate (n - length xs) None)
      in if ws_wordv wsp = [] then
           wsp\<lparr>ws_wordv := replicate (if offs + count > 128 then count else 128) None\<rparr>
         else if length (ws_wordv wsp) < offs + ws_wordc wsp + count then
           wsp\<lparr>ws_wordv := resize (if offs + ws_wordc wsp + count > 128 then count else 128) (ws_wordv wsp)\<rparr>
         else wsp)"

text \<open>The memory a node's text is in, where it starts there, and its length.\<close>

definition wsnode_ptr :: "wordsplit_s \<Rightarrow> wordsplit_node \<Rightarrow> string \<times> nat" where
  "wsnode_ptr wsp p = (case wn_val p of NullNode \<Rightarrow> ([], 0) | Word w \<Rightarrow> (w, 0) | Segm b e \<Rightarrow> (ws_input wsp, b))"

definition wsnode_len :: "wordsplit_node \<Rightarrow> nat" where
  "wsnode_len p = (case wn_val p of NullNode \<Rightarrow> 0 | Word w \<Rightarrow> length w | Segm b e \<Rightarrow> e - b)"

definition wsnode_text :: "wordsplit_s \<Rightarrow> wordsplit_node \<Rightarrow> string" where
  "wsnode_text wsp p = (case wsnode_ptr wsp p of (mem, b) \<Rightarrow> take (wsnode_len p) (drop b mem))"

definition wordsplit_add_segm ::
  "wordsplit_node list \<Rightarrow> nat \<Rightarrow> nat \<Rightarrow> bool \<Rightarrow> wordsplit_node \<Rightarrow> wordsplit_node list" where
  "wordsplit_add_segm nodes beg end emptyok flg =
     (if end = beg \<and> \<not> emptyok then nodes else nodes @ [flg\<lparr>wn_val := Segm beg end\<rparr>])"

definition noflags :: wordsplit_node where
  "noflags = \<lparr>wn_val = NullNode, wn_quote = False, wn_noexpand = False, wn_join = False, wn_sexp = False\<rparr>"

text \<open>Setting or clearing the flag of the last node.\<close>

definition tail_join :: "bool \<Rightarrow> wordsplit_node list \<Rightarrow> wordsplit_node list" where
  "tail_join b nodes = (if nodes = [] then [] else butlast nodes @ [(last nodes)\<lparr>wn_join := b\<rparr>])"

section \<open>Scanning\<close>

text \<open>A substitution of \<open>sed\<close>, from its delimiter on; \<open>state\<close> counts the delimiters.\<close>

function sed_body :: "string \<Rightarrow> char \<Rightarrow> nat \<Rightarrow> nat \<Rightarrow> nat \<times> nat" where
  "sed_body command delim i state =
     (if i < length command then
        if state = 3 then
          if command ! i = delim \<or> \<not> (ISALPHA (command ! i) \<or> ISDIGIT (command ! i)) then (i, state)
          else sed_body command delim (i + 1) state
        else if command ! i = BSL then sed_body command delim (i + 2) state
        else if command ! i = delim then sed_body command delim (i + 1) (state + 1)
        else sed_body command delim (i + 1) state
      else (i, state))"
  by pat_completeness auto
termination by (relation "measure (\<lambda>(command, delim, i, state). length command - i)") auto

declare sed_body.simps [simp del]

lemma sed_body_ge: "i \<le> fst (sed_body command delim i state)"
proof (induction command delim i state rule: sed_body.induct)
  case (1 command delim i state)
  then show ?case by (subst sed_body.simps) (auto split: if_split)
qed

function skip_sed_expr :: "string \<Rightarrow> nat \<Rightarrow> nat option" where
  "skip_sed_expr command i = do {
     c \<leftarrow> mem_at command i;
     let i = (if c = CHR '';'' then i + 1 else i);
     c \<leftarrow> mem_at command i;
     if \<not> (c = CHR ''s'' \<and> i + 3 < length command \<and> ISPUNCT (command ! (i + 1))) then Some i
     else (case sed_body command (command ! (i + 1)) (i + 2) 1 of
             (i, state) \<Rightarrow>
               if state = 3 \<and> i < length command \<and> command ! i = CHR '';'' then skip_sed_expr command i else Some i)
   }"
  by pat_completeness auto
termination
proof (relation "measure (\<lambda>(command, i). length command - i)", goal_cases)
  case (2 command i c j d k s)
  have "j + 2 \<le> k" using sed_body_ge [of "j + 2" command "command ! (j + 1)" 1] 2(5) by (metis fst_conv)
  moreover have "i \<le> j" using 2(2) by simp
  ultimately show ?case using 2(6) by auto
qed simp

declare skip_sed_expr.simps [simp del]

definition skip_delim :: "wordsplit_s \<Rightarrow> nat" where
  "skip_delim wsp =
     (let start = ws_endp wsp;
          start = (if hasfl (ws_flags wsp) WRDSF_SQUEEZE_DELIMS
                   then start + length (takeWhile (ISDELIM wsp) (drop (start + 1) (ws_input wsp)))
                   else start)
      in if hasfl (ws_flags wsp) WRDSF_RETURN_DELIMS then start else start + 1)"

text \<open>Where the quoted string that starts before \<open>j\<close> ends.\<close>

function find_quote :: "string \<Rightarrow> char \<Rightarrow> nat \<Rightarrow> nat option" where
  "find_quote command q j =
     (if j < length command then
        if command ! j = q then Some j
        else find_quote command q (if q = DQ \<and> command ! j = BSL then j + 2 else j + 1)
      else None)"
  by pat_completeness auto
termination by (relation "measure (\<lambda>(command, q, j). length command - j)") auto

declare find_quote.simps [simp del]

lemma find_quote_Some:
  "find_quote command q j = Some k \<Longrightarrow> j \<le> k \<and> k < length command \<and> command ! k = q"
proof (induction command q j rule: find_quote.induct)
  case (1 command q j)
  then show ?case by (subst (asm) find_quote.simps) (auto split: if_splits)
qed

definition scan_qstring ::
  "wordsplit_s \<Rightarrow> wordsplit_node list \<Rightarrow> nat \<Rightarrow> (wordsplit_node list \<times> nat) option" where
  "scan_qstring wsp nodes start =
     (let q = ws_input wsp ! start in
      case find_quote (ws_input wsp) q (start + 1) of
        None \<Rightarrow> None
      | Some j \<Rightarrow>
          Some (wordsplit_add_segm nodes (start + 1) j True
                  (noflags\<lparr>wn_quote := True, wn_noexpand := (q = SQ)\<rparr>), j))"

text \<open>The loop over the characters of a word: an error, a comment up to \<open>j\<close>, or
  the position after the word, the start of its last piece and whether to join that.\<close>

datatype scan_res =
    ScanError
  | ScanComment "wordsplit_node list" nat
  | ScanEnd "wordsplit_node list" nat nat bool

function scan_chars :: "wordsplit_s \<Rightarrow> wordsplit_node list \<Rightarrow> nat \<Rightarrow> nat \<Rightarrow> bool \<Rightarrow> scan_res" where
  "scan_chars wsp nodes start i join =
     (let command = ws_input wsp; quote = hasfl (ws_flags wsp) WRDSF_QUOTE in
      if i < length command then
        if iscomment wsp (command ! i) then
          ScanComment (wordsplit_add_segm nodes start i False noflags)
            (i + 1 + length (takeWhile (\<lambda>c. c \<noteq> NL) (drop (i + 1) command)))
        else if quote \<and> command ! i = BSL then
          if i + 1 = length command then ScanEnd nodes start (i + 1) join
          else scan_chars wsp nodes start (i + 2) join
        else if quote \<and> (command ! i = SQ \<or> command ! i = DQ) then
          (let nodes = (if join then tail_join True nodes else nodes);
               nodes = wordsplit_add_segm nodes start i False (noflags\<lparr>wn_join := True\<rparr>)
           in case scan_qstring wsp nodes i of
                None \<Rightarrow> ScanError
              | Some (nodes, j) \<Rightarrow>
                  if ISDELIM wsp (command ! j) then ScanEnd nodes (j + 1) j True
                  else scan_chars wsp nodes (j + 1) (j + 1) True)
        else if ISDELIM wsp (command ! i) then ScanEnd nodes start i join
        else scan_chars wsp nodes start (i + 1) join
      else ScanEnd nodes start i join)"
  by pat_completeness auto
termination
proof (relation "measure (\<lambda>(wsp, nodes, start, i, join). length (ws_input wsp) - i)", goal_cases)
  case (3 wsp nodes start i join command quote nodes1 nodes2 p nodes3 j)
  then have "i + 1 \<le> j" by (auto simp: scan_qstring_def Let_def split: option.splits dest: find_quote_Some)
  with 3 show ?case by simp
qed auto

declare scan_chars.simps [simp del]

text \<open>A segment that ends before its start has a length that wraps around.\<close>

datatype scan_word_res = WRDS_EOF | WRDS_OK wordsplit_s | WRDS_ERR wrdse

definition scan_word :: "wordsplit_s \<Rightarrow> nat \<Rightarrow> scan_word_res option" where
  "scan_word wsp start =
     (let command = ws_input wsp;
          finish = (\<lambda>nodes start i join flg emptyok.
            let nodes = (if join \<and> i > start then tail_join True nodes else nodes)
            in if i < start then None else Some (WRDS_OK (wsp\<lparr>ws_nodes := wordsplit_add_segm nodes start i emptyok flg, ws_endp := i\<rparr>)))
      in if length command \<le> start then Some WRDS_EOF
         else if hasfl (ws_flags wsp) WRDSF_SED_EXPR \<and> command ! start = CHR ''s'' \<and> start + 3 < length command
              \<and> ISPUNCT (command ! (start + 1)) then do {
           i \<leftarrow> skip_sed_expr command start;
           finish (ws_nodes wsp) start i False (noflags\<lparr>wn_sexp := True\<rparr>) False
         }
         else if \<not> ISDELIM wsp (command ! start) then
           (case scan_chars wsp (ws_nodes wsp) start start False of
              ScanError \<Rightarrow> Some (WRDS_ERR WRDSE_QUOTE)
            | ScanComment nodes j \<Rightarrow> Some (WRDS_OK (wsp\<lparr>ws_nodes := nodes, ws_endp := j\<rparr>))
            | ScanEnd nodes start i join \<Rightarrow> finish nodes start i join noflags False)
         else if hasfl (ws_flags wsp) WRDSF_RETURN_DELIMS then
           finish (ws_nodes wsp) start
             (start + 1 + length (takeWhile (ISDELIM wsp) (drop (start + 1) command))) False noflags False
         else finish (ws_nodes wsp) start start False noflags
                (\<not> hasfl (ws_flags wsp) WRDSF_SQUEEZE_DELIMS))"

text \<open>Every word ends behind its start, so that the loop over the words ends, too.\<close>

fun scan_end :: "scan_res \<Rightarrow> nat option" where
  "scan_end ScanError = None"
| "scan_end (ScanComment nodes j) = Some j"
| "scan_end (ScanEnd nodes start i join) = Some i"

lemma scan_qstring_end:
  "scan_qstring wsp nodes i = Some (nodes', j) \<Longrightarrow> i < j \<and> j < length (ws_input wsp)"
  by (auto simp: scan_qstring_def Let_def split: option.splits dest: find_quote_Some)

lemma scan_chars_ge: "scan_end (scan_chars wsp nodes start i join) = Some k \<Longrightarrow> i \<le> k"
proof (induction "length (ws_input wsp) - i" arbitrary: nodes start i join rule: less_induct)
  case less
  have ih: "scan_end (scan_chars wsp nodes' start' i' join') = Some k \<Longrightarrow> i < i' \<Longrightarrow> i < length (ws_input wsp) \<Longrightarrow> i \<le> k"
    for nodes' start' i' join'
    using less.hyps [OF diff_less_mono2] by (meson less_imp_le order_trans)
  from less.prems show ?case
    by (subst (asm) scan_chars.simps)
      (auto simp: Let_def split: if_splits option.splits prod.splits dest!: scan_qstring_end dest: ih)
qed

lemma scan_chars_gt:
  assumes "scan_end (scan_chars wsp nodes i i join) = Some k" "i < length (ws_input wsp)"
    "\<not> ISDELIM wsp (ws_input wsp ! i)"
  shows "i < k"
  using assms
  by (subst (asm) scan_chars.simps)
    (auto simp: Let_def split: if_splits option.splits prod.splits dest!: scan_chars_ge dest: scan_qstring_end)

lemma sed_body_res: "sed_body command delim i state = (j, s) \<Longrightarrow> i \<le> j"
  using sed_body_ge [of i command delim state] by simp

lemma skip_sed_ge: "skip_sed_expr command i = Some j \<Longrightarrow> i \<le> j"
proof (induction "length command - i" arbitrary: i rule: less_induct)
  case less
  have ih: "skip_sed_expr command i' = Some j \<Longrightarrow> i < i' \<Longrightarrow> i < length command \<Longrightarrow> i \<le> j" for i'
    using less.hyps [OF diff_less_mono2] by (meson less_imp_le order_trans)
  from less.prems show ?case
    by (subst (asm) skip_sed_expr.simps)
      (auto simp: Let_def bind_eq_Some_conv split: if_splits prod.splits dest!: sed_body_res dest: ih)
qed

lemma skip_sed_gt:
  assumes "skip_sed_expr command i = Some j" "command ! i = CHR ''s''" "i + 3 < length command"
    "ISPUNCT (command ! (i + 1))"
  shows "i < j"
  using assms
  by (subst (asm) skip_sed_expr.simps)
    (auto simp: Let_def mem_at_def split: if_splits prod.splits dest!: sed_body_res skip_sed_ge)

lemma scan_word_progress:
  assumes "scan_word wsp start = Some (WRDS_OK wsp')"
  shows "start < skip_delim wsp' \<and> ws_input wsp' = ws_input wsp \<and> start < length (ws_input wsp)
    \<and> wsp' = wsp\<lparr>ws_nodes := ws_nodes wsp', ws_endp := ws_endp wsp'\<rparr>"
proof -
  have s: "start < length (ws_input wsp)"
    "wsp' = wsp\<lparr>ws_nodes := ws_nodes wsp', ws_endp := ws_endp wsp'\<rparr>"
    using assms
    by (auto simp: scan_word_def Let_def bind_eq_Some_conv split: if_splits scan_res.splits)
  let ?e = "start < ws_endp wsp' \<or> start = ws_endp wsp' \<and> \<not> hasfl (ws_flags wsp) WRDSF_RETURN_DELIMS"
  have "?e" if "\<not> ISDELIM wsp (ws_input wsp ! start)"
    using assms that s(1) scan_chars_gt [of wsp "ws_nodes wsp" start False]
    by (auto simp: scan_word_def Let_def bind_eq_Some_conv split: if_splits scan_res.splits dest: skip_sed_gt)
  moreover have "?e" if "ISDELIM wsp (ws_input wsp ! start)"
    using assms that s(1)
    by (auto simp: scan_word_def Let_def bind_eq_Some_conv split: if_splits dest: skip_sed_gt)
  ultimately have "?e" by blast
  moreover have "ws_endp wsp' \<le> skip_delim wsp'" "\<not> hasfl (ws_flags wsp) WRDSF_RETURN_DELIMS \<Longrightarrow> ws_endp wsp' < skip_delim wsp'"
    by (subst s(2), simp add: skip_delim_def Let_def)+
  ultimately have "start < skip_delim wsp'" by auto
  moreover have "ws_input wsp' = ws_input wsp" by (subst s(2)) simp
  ultimately show ?thesis using s by blast
qed

function scan_words :: "wordsplit_s \<Rightarrow> nat \<Rightarrow> (wrdse + wordsplit_s) option" where
  "scan_words wsp start = do {
     r \<leftarrow> scan_word wsp start;
     (case r of
        WRDS_EOF \<Rightarrow> Some (Inr wsp)
      | WRDS_ERR e \<Rightarrow> Some (Inl e)
      | WRDS_OK wsp \<Rightarrow> scan_words wsp (skip_delim wsp))
   }"
  by pat_completeness auto
termination
  by (relation "measure (\<lambda>(wsp, start). length (ws_input wsp) - start)")
    (auto dest!: scan_word_progress intro: diff_less_mono2)

declare scan_words.simps [simp del]

definition wordsplit_trimws :: "wordsplit_s \<Rightarrow> wordsplit_s" where
  "wordsplit_trimws wsp =
     wsp\<lparr>ws_nodes := map (\<lambda>p.
        if wn_quote p then p
        else case wn_val p of
            Segm b e \<Rightarrow>
              (let seg = take (e - b) (drop b (ws_input wsp));
                   lead = length (takeWhile ISWS seg);
                   rest = drop lead seg
               in p\<lparr>wn_val := Segm (b + lead) (b + lead + length (dropWhile ISWS (rev rest)))\<rparr>)
          | _ \<Rightarrow> p) (ws_nodes wsp)\<rparr>"

section \<open>Quotes and escapes\<close>

definition quote_transtab :: "(char \<times> char) list" where
  "quote_transtab =
     [(BSL, BSL), (CHR ''a'', CHR 0x07), (CHR ''b'', CHR 0x08), (CHR ''f'', CHR 0x0C), (CHR ''n'', CHR 0x0A),
      (CHR ''r'', CHR 0x0D), (CHR ''t'', CHR 0x09), (CHR ''v'', CHR 0x0B)]"

definition wordsplit_c_unquote_char :: "char \<Rightarrow> char" where
  "wordsplit_c_unquote_char c = (case map_of quote_transtab c of Some d \<Rightarrow> d | None \<Rightarrow> c)"

definition wordsplit_c_quote_char :: "char \<Rightarrow> char option" where
  "wordsplit_c_quote_char c = map_option fst (find (\<lambda>(a, b). b = c) (rev quote_transtab))"

definition to_num :: "char \<Rightarrow> int" where
  "to_num c =
     (if ISDIGIT c then of_char c - 48
      else if ISXDIGIT c then (if 97 \<le> (of_char c :: int) then of_char c - 32 else of_char c) - 65 + 10
      else 255)"

text \<open>The value and how many characters were used.\<close>

fun xtonum :: "string \<Rightarrow> nat \<Rightarrow> int \<Rightarrow> nat \<Rightarrow> int \<Rightarrow> (int \<times> nat) option" where
  "xtonum mem src base 0 val = Some (val, 0)"
| "xtonum mem src base (Suc cnt) val = do {
     c \<leftarrow> mem_at mem src;
     if (of_char c :: nat) > 127 \<or> to_num c \<ge> base then Some (val, 0)
     else do {
       (v, i) \<leftarrow> xtonum mem (src + 1) base cnt (val * base + to_num c);
       Some (v, Suc i)
     }
   }"

definition wordsplit_c_quoted_length :: "string \<Rightarrow> bool \<Rightarrow> nat \<times> bool" where
  "wordsplit_c_quoted_length str quote_hex =
     (sum_list (map (\<lambda>c.
        if c = CHR '' '' then 1 else if c = DQ then 2
        else if c \<noteq> CHR 0x09 \<and> c \<noteq> BSL \<and> ISPRINT c then 1
        else if quote_hex then 3
        else if wordsplit_c_quote_char c \<noteq> None then 2 else 4) str),
      list_ex (\<lambda>c. c = CHR '' '' \<or> c = DQ) str)"

definition char_of_int :: "int \<Rightarrow> char" where
  "char_of_int v = char_of (nat (v mod 256))"

text \<open>The copy of the \<open>n\<close> characters at \<open>b\<close>, from the \<open>i\<close>-th on.\<close>

function sh_unquote :: "string \<Rightarrow> nat \<Rightarrow> nat \<Rightarrow> nat \<Rightarrow> string option" where
  "sh_unquote mem b n i =
     (if i < n then do {
        c \<leftarrow> mem_at mem (b + i);
        let j = (if c = BSL then i + 1 else i);
        d \<leftarrow> mem_at mem (b + j);
        rest \<leftarrow> sh_unquote mem b n (j + 1);
        Some (d # rest)
      }
      else Some [])"
  by pat_completeness auto
termination by (relation "measure (\<lambda>(mem, b, n, i). n - i)") auto

function c_unquote :: "string \<Rightarrow> nat \<Rightarrow> nat \<Rightarrow> nat \<Rightarrow> string option" where
  "c_unquote mem b n i =
     (if i < n then do {
        c \<leftarrow> mem_at mem (b + i);
        if c = BSL then do {
          d \<leftarrow> mem_at mem (b + i + 1);
          (v, off) \<leftarrow>
            (if d = CHR ''x'' \<or> d = CHR ''X'' then
               if n - (i + 1) < 2 then Some (0, 0) else map_option (map_prod id (\<lambda>k. if k = 0 then 0 else k + 1)) (xtonum mem (b + i + 2) 16 2 0)
             else if ISDIGIT d then
               if n - (i + 1) < 1 then Some (0, 0) else xtonum mem (b + i + 1) 8 3 0
             else Some (of_char (wordsplit_c_unquote_char d), 1));
          if off = 0 then do { rest \<leftarrow> c_unquote mem b n (i + 2); Some (BSL # d # rest) }
          else do { rest \<leftarrow> c_unquote mem b n (i + 1 + off); Some (char_of_int v # rest) }
        }
        else do { rest \<leftarrow> c_unquote mem b n (i + 1); Some (c # rest) }
      }
      else Some [])"
  by pat_completeness auto
termination by (relation "measure (\<lambda>(mem, b, n, i). n - i)") auto

declare sh_unquote.simps [simp del] c_unquote.simps [simp del]

text \<open>The destination has room for \<open>n\<close> characters and a null byte; the word is read up to its first null byte.\<close>

definition unquote_copy :: "bool \<Rightarrow> string \<Rightarrow> nat \<Rightarrow> nat \<Rightarrow> string option" where
  "unquote_copy cescapes mem b n = do {
     dst \<leftarrow> (if cescapes then c_unquote mem b n 0 else sh_unquote mem b n 0);
     if n < length dst then None else Some (takeWhile (\<lambda>c. c \<noteq> NUL) dst)
   }"

definition hex_digit :: "nat \<Rightarrow> char" where "hex_digit n = (if n < 10 then char_of (48 + n) else char_of (55 + n))"
definition oct3 :: "char \<Rightarrow> string" where
  "oct3 c = (let n = (of_char c :: nat) in [char_of (48 + n div 64), char_of (48 + n div 8 mod 8), char_of (48 + n mod 8)])"

definition quote_one :: "bool \<Rightarrow> char \<Rightarrow> string" where
  "quote_one quote_hex c =
     (if c = DQ then [BSL, c]
      else if c \<noteq> CHR 0x09 \<and> c \<noteq> BSL \<and> ISPRINT c then [c]
      else if quote_hex then [CHR ''%'', hex_digit (of_char c div 16), hex_digit (of_char c mod 16)]
      else case wordsplit_c_quote_char c of Some d \<Rightarrow> [BSL, d] | None \<Rightarrow> BSL # oct3 c)"

definition wordsplit_c_quote_copy :: "string \<Rightarrow> bool \<Rightarrow> string" where
  "wordsplit_c_quote_copy src quote_hex = concat (map (quote_one quote_hex) src)"

section \<open>From nodes to words\<close>

definition quoteremoval_node :: "wordsplit_s \<Rightarrow> wordsplit_node \<Rightarrow> wordsplit_node option" where
  "quoteremoval_node wsp p =
     (if hasfl (ws_flags wsp) WRDSF_QUOTE \<and> \<not> wn_noexpand p then
        (case wsnode_ptr wsp p of (mem, b) \<Rightarrow>
           do { w \<leftarrow> unquote_copy (hasfl (ws_flags wsp) WRDSF_CESCAPES) mem b (wsnode_len p); Some (p\<lparr>wn_val := Word w\<rparr>) })
      else Some p)"

definition wsnode_quoteremoval :: "wordsplit_s \<Rightarrow> wordsplit_s option" where
  "wsnode_quoteremoval wsp = do {
     nodes \<leftarrow> those (map (quoteremoval_node wsp) (ws_nodes wsp));
     Some (wsp\<lparr>ws_nodes := nodes\<rparr>)
   }"

text \<open>The text of a node and of those it is joined with; \<open>None\<close> is the end of the list.\<close>

fun join_run :: "wordsplit_s \<Rightarrow> wordsplit_node list \<Rightarrow> (string \<times> wordsplit_node list) option" where
  "join_run wsp [] = None"
| "join_run wsp (p # ps) =
     (if wn_join p then do { (t, rest) \<leftarrow> join_run wsp ps; Some (wsnode_text wsp p @ t, rest) }
      else Some (wsnode_text wsp p, ps))"

lemma join_run_shorter: "join_run wsp ps = Some (t, rest) \<Longrightarrow> length rest < length ps"
  by (induction ps arbitrary: t rest) (force split: if_splits simp: bind_eq_Some_conv)+

function coalesce_nodes :: "wordsplit_s \<Rightarrow> wordsplit_node list \<Rightarrow> wordsplit_node list option" where
  "coalesce_nodes wsp [] = Some []"
| "coalesce_nodes wsp (p # ps) =
     (if wn_join p then do {
        (t, rest) \<leftarrow> join_run wsp (p # ps);
        nodes \<leftarrow> coalesce_nodes wsp rest;
        Some (p\<lparr>wn_join := False, wn_val := Word t\<rparr> # nodes)
      }
      else do { nodes \<leftarrow> coalesce_nodes wsp ps; Some (p # nodes) })"
  by pat_completeness auto
termination
  by (relation "measure (\<lambda>(wsp, ps). length ps)") (auto dest!: join_run_shorter simp del: join_run.simps)

definition wsnode_coalesce :: "wordsplit_s \<Rightarrow> wordsplit_s option" where
  "wsnode_coalesce wsp = do { nodes \<leftarrow> coalesce_nodes wsp (ws_nodes wsp); Some (wsp\<lparr>ws_nodes := nodes\<rparr>) }"

fun store_words :: "wordsplit_s \<Rightarrow> string list \<Rightarrow> wordsplit_s option" where
  "store_words wsp [] =
     (let k = ws_offs wsp + ws_wordc wsp in
      if k < length (ws_wordv wsp) then Some (wsp\<lparr>ws_wordv := (ws_wordv wsp)[k := None]\<rparr>) else None)"
| "store_words wsp (w # ws) =
     (let k = ws_offs wsp + ws_wordc wsp in
      if k < length (ws_wordv wsp)
      then store_words (wsp\<lparr>ws_wordv := (ws_wordv wsp)[k := Some w], ws_wordc := ws_wordc wsp + 1\<rparr>) ws
      else None)"

definition wordsplit_finish :: "wordsplit_s \<Rightarrow> wordsplit_s option" where
  "wordsplit_finish wsp =
     store_words (alloc_space wsp (length (ws_nodes wsp) + 1)) (map (wsnode_text wsp) (ws_nodes wsp))"

text \<open>The stages before and after the expansion of variables.\<close>

definition wordsplit_scan :: "wordsplit_s \<Rightarrow> (wrdse + wordsplit_s) option" where
  "wordsplit_scan wsp =
     (let trim = (\<lambda>wsp. if hasfl (ws_flags wsp) WRDSF_WS then wordsplit_trimws wsp else wsp) in
      if hasfl (ws_flags wsp) WRDSF_NOSPLIT then
        Some (Inr (trim (wsp\<lparr>ws_nodes :=
          wordsplit_add_segm (ws_nodes wsp) 0 (length (ws_input wsp)) False (noflags\<lparr>wn_quote := True\<rparr>)\<rparr>)))
      else map_option (map_sum id (\<lambda>wsp. trim (wsp\<lparr>ws_nodes := tail_join False (ws_nodes wsp)\<rparr>))) (scan_words wsp 0))"

definition wordsplit_words :: "wordsplit_s \<Rightarrow> wordsplit_s option" where
  "wordsplit_words wsp = do {
     wsp \<leftarrow> wsnode_quoteremoval wsp;
     wsp \<leftarrow> wsnode_coalesce wsp;
     wsp \<leftarrow> wordsplit_finish wsp;
     Some (wsp\<lparr>ws_nodes := []\<rparr>)
   }"

text \<open>The result: the words after the offset.\<close>

definition ws_result :: "wordsplit_s \<Rightarrow> string list" where
  "ws_result wsp = map the (take (ws_wordc wsp) (drop (ws_offs wsp) (ws_wordv wsp)))"

section \<open>Variables\<close>

fun find_env_kv :: "string list \<Rightarrow> string \<Rightarrow> string option" where
  "find_env_kv (k # v # env) name = (if k = name then Some v else find_env_kv env name)"
| "find_env_kv env name = None"

definition wordsplit_find_env :: "wordsplit_s \<Rightarrow> string \<Rightarrow> string option" where
  "wordsplit_find_env wsp name =
     (if \<not> hasfl (ws_flags wsp) WRDSF_ENV then None
      else if hasfl (ws_flags wsp) WRDSF_ENV_KV then find_env_kv (ws_env wsp) name
      else map_option (drop (length name + 1))
             (find (\<lambda>var. take (length name + 1) var = name @ [CHR ''='']) (ws_env wsp)))"

datatype cbrace_state = st_init | st_squote | st_dquote

text \<open>The position of the closing brace; the outer \<open>None\<close> is a read behind the memory.\<close>

function find_closing_cbrace :: "string \<Rightarrow> nat \<Rightarrow> nat \<Rightarrow> nat \<Rightarrow> cbrace_state \<Rightarrow> nat \<Rightarrow> nat option option" where
  "find_closing_cbrace mem str i len state level =
     (if i < len then do {
        c \<leftarrow> mem_at mem (str + i);
        (case state of
           st_init \<Rightarrow>
             if c = CHR ''{'' then find_closing_cbrace mem str (i + 1) len st_init (level + 1)
             else if c = CHR ''}'' then
               if level = 1 then Some (Some i) else find_closing_cbrace mem str (i + 1) len st_init (level - 1)
             else if c = DQ then find_closing_cbrace mem str (i + 1) len st_dquote level
             else if c = SQ then find_closing_cbrace mem str (i + 1) len st_squote level
             else find_closing_cbrace mem str (i + 1) len st_init level
         | st_squote \<Rightarrow> find_closing_cbrace mem str (i + 1) len (if c = SQ then st_init else st_squote) level
         | st_dquote \<Rightarrow>
             if c = BSL then find_closing_cbrace mem str (i + 2) len st_dquote level
             else find_closing_cbrace mem str (i + 1) len (if c = DQ then st_init else st_dquote) level)
      }
      else Some None)"
  by pat_completeness auto
termination by (relation "measure (\<lambda>(mem, str, i, len, state, level). len - i)") auto

declare find_closing_cbrace.simps [simp del]

text \<open>The end of a name in braces.\<close>

function brace_name :: "string \<Rightarrow> nat \<Rightarrow> nat \<Rightarrow> nat \<Rightarrow> nat option" where
  "brace_name mem str len i =
     (if i < len then do {
        c \<leftarrow> mem_at mem (str + i);
        if c = CHR ''}'' \<or> c = CHR '':'' then Some i else brace_name mem str len (i + 1)
      }
      else Some i)"
  by pat_completeness auto
termination by (relation "measure (\<lambda>(mem, str, len, i). len - i)") auto

declare brace_name.simps [simp del]

text \<open>The name of the variable and where the reference ends; a character that starts no name gives \<open>None\<close> for the name.\<close>

definition var_name :: "string \<Rightarrow> nat \<Rightarrow> nat \<Rightarrow> (wrdse + string option \<times> nat) option" where
  "var_name mem str len = do {
     c \<leftarrow> mem_at mem str;
     if ISVARBEG c then
       let i = 1 + length (takeWhile ISVARCHR (take (len - 1) (drop (str + 1) mem)))
       in Some (Inr (Some (take i (drop str mem)), str + i - 1))
     else if c = CHR ''{'' then do {
       let str = str + 1;
       let len = len - 1;
       i \<leftarrow> brace_name mem str len 1;
       c \<leftarrow> mem_at mem (str + i);
       if c = CHR '':'' then do {
         r \<leftarrow> find_closing_cbrace mem str (i + 1) len st_init 1;
         (case r of
            None \<Rightarrow> Some (Inl WRDSE_CBRACE)
          | Some j \<Rightarrow> Some (Inr (Some (take i (drop str mem)), str + j)))
       }
       else if c = CHR ''}'' then Some (Inr (Some (take i (drop str mem)), str + i))
       else Some (Inl WRDSE_CBRACE)
     }
     else Some (Inr (None, str))
   }"

definition wordsplit_plain :: "wordsplit_s \<Rightarrow> string \<Rightarrow> flagword \<Rightarrow> (wrdse + wordsplit_s) option" where
  "wordsplit_plain wsp input flags =
     (case wordsplit_init wsp input flags of
        Inl e \<Rightarrow> Some (Inl e)
      | Inr wsp \<Rightarrow> do {
          r \<leftarrow> wordsplit_scan wsp;
          (case r of Inl e \<Rightarrow> Some (Inl e) | Inr wsp \<Rightarrow> map_option Inr (wordsplit_words wsp))
        })"

text \<open>The value of a variable: \<open>None\<close> if it is not defined and has to be kept.\<close>

definition var_value :: "wordsplit_s \<Rightarrow> string \<Rightarrow> wrdse + string option" where
  "var_value wsp name =
     (case wordsplit_find_env wsp name of
        Some v \<Rightarrow> Inr (Some v)
      | None \<Rightarrow>
          if hasfl (ws_flags wsp) WRDSF_GETVAR then Inr (ws_getvar wsp name)
          else if hasfl (ws_flags wsp) WRDSF_UNDEF then Inl WRDSE_UNDEF
          else if hasfl (ws_flags wsp) WRDSF_KEEPUNDEF then Inr None
          else Inr (Some []))"

definition word_node :: "string \<Rightarrow> bool \<Rightarrow> bool \<Rightarrow> wordsplit_node" where
  "word_node w quote join = \<lparr>wn_val = Word w, wn_quote = quote, wn_noexpand = True, wn_join = join, wn_sexp = False\<rparr>"

text \<open>The nodes of the words of a value; only the last one is joined with what follows.\<close>

definition value_nodes :: "string list \<Rightarrow> bool \<Rightarrow> wordsplit_node list" where
  "value_nodes ws join =
     (if ws = [] then []
      else map (\<lambda>w. word_node w False False) (butlast ws) @ [word_node (last ws) False join])"

text \<open>The nodes for a variable whose reference is \<open>sz\<close> characters from \<open>start\<close> on.\<close>

definition expand_value ::
  "wordsplit_s \<Rightarrow> string \<Rightarrow> nat \<Rightarrow> nat \<Rightarrow> string \<Rightarrow> bool \<Rightarrow> bool \<Rightarrow> (wrdse + wordsplit_node list) option" where
  "expand_value wsp mem start sz name quote join =
     (case var_value wsp name of
        Inl e \<Rightarrow> Some (Inl e)
      | Inr (Some v) \<Rightarrow>
          if quote then Some (Inr [word_node v True join])
          else if v = [] then Some (Inr [noflags])
          else map_option (map_sum id (\<lambda>ws. value_nodes (ws_result ws) join)) (wordsplit_plain wsp v 0x2444)
      | Inr None \<Rightarrow>
          if hasfl (ws_flags wsp) WRDSF_KEEPUNDEF
          then Some (Inr [word_node (take sz (drop start mem)) quote join])
          else Some (Inr [noflags]))"

definition expvar ::
  "wordsplit_s \<Rightarrow> string \<Rightarrow> nat \<Rightarrow> nat \<Rightarrow> bool \<Rightarrow> bool \<Rightarrow> (wrdse + wordsplit_node list \<times> nat) option" where
  "expvar wsp mem str len quote join = do {
     r \<leftarrow> var_name mem str len;
     (case r of
        Inl e \<Rightarrow> Some (Inl e)
      | Inr (name, pend) \<Rightarrow>
          map_option (map_sum id (\<lambda>nodes. (nodes, pend)))
            (case name of
               None \<Rightarrow> do {
                 c \<leftarrow> mem_at mem str;
                 Some (Inr [(word_node (if c = NUL then ''$'' else [CHR ''$'', c]) quote join)\<lparr>wn_noexpand := False\<rparr>])
               }
             | Some name \<Rightarrow> expand_value wsp mem (str - 1) (pend + 2 - str) name quote join))
   }"

definition node_split_prefix :: "wordsplit_s \<Rightarrow> wordsplit_node \<Rightarrow> nat \<Rightarrow> nat \<Rightarrow> bool \<Rightarrow> wordsplit_node list" where
  "node_split_prefix wsp node beg len join =
     (if len = 0 then []
      else [noflags\<lparr>wn_join := join, wn_val :=
              (case wn_val node of
                 Segm b e \<Rightarrow> Segm (b + beg) (b + beg + len)
               | _ \<Rightarrow> Word (take len (drop beg (wsnode_text wsp node))))\<rparr>])"

lemma var_name_ge: "var_name mem str len = Some (Inr (n, pend)) \<Longrightarrow> str \<le> pend"
  by (auto simp: var_name_def bind_eq_Some_conv Let_def split: if_splits option.splits)

lemma map_sum_result [simp]:
  "map_option (map_sum id f) r = Some (Inr y) \<longleftrightarrow> (\<exists>z. r = Some (Inr z) \<and> y = f z)"
  "map_option (map_sum id f) r = Some (Inl e) \<longleftrightarrow> r = Some (Inl e)"
  "map_option (map_sum id f) r = None \<longleftrightarrow> r = None"
  by (cases r; (cases "the r")?; force)+

lemma expvar_ge:
  assumes "expvar wsp mem str len quote join = Some (Inr (nodes, pend))"
  shows "str \<le> pend"
proof -
  from assms obtain r where r: "var_name mem str len = Some r"
    "(case r of Inl e \<Rightarrow> Some (Inl e) | Inr (name, pend) \<Rightarrow> map_option (map_sum id (\<lambda>nodes. (nodes, pend)))
        (case name of
           None \<Rightarrow> mem_at mem str \<bind>
             (\<lambda>c. Some (Inr [(word_node (if c = NUL then ''$'' else [CHR ''$'', c]) quote join)\<lparr>wn_noexpand := False\<rparr>]))
         | Some name \<Rightarrow> expand_value wsp mem (str - 1) (pend + 2 - str) name quote join)) = Some (Inr (nodes, pend))"
    unfolding expvar_def bind_eq_Some_conv by blast
  then obtain name p' where n: "r = Inr (name, p')" by (cases r) auto
  with r(2) have "p' = pend" by (simp only: sum.case prod.case map_sum_result) auto
  with r(1) n show ?thesis by (auto dest: var_name_ge)
qed

text \<open>The new nodes are inserted after the old one, which is removed unless there are none; \<open>p\<close>, \<open>str\<close> and \<open>off\<close>
  are the variables of the loop.\<close>

function expand_loop ::
  "wordsplit_s \<Rightarrow> wordsplit_node \<Rightarrow> string \<Rightarrow> nat \<Rightarrow> nat \<Rightarrow> nat \<Rightarrow> nat \<Rightarrow> wordsplit_node list \<Rightarrow>
   (wrdse + wordsplit_node list) option" where
  "expand_loop wsp node mem end p str off out =
     (if p < end then do {
        c \<leftarrow> mem_at mem p;
        if c = BSL then expand_loop wsp node mem end (p + 2) str off out
        else if c = CHR ''$'' then do {
          let n = p - str;
          let out = tail_join True out @ node_split_prefix wsp node off n True;
          r \<leftarrow> expvar wsp mem (p + 1) (wsnode_len node - n) (wn_quote node) (wn_join node);
          (case r of
             Inl e \<Rightarrow> Some (Inl e)
           | Inr (nodes, pend) \<Rightarrow>
               expand_loop wsp node mem end (pend + 1) (pend + 1) (off + (pend - str + 1)) (out @ nodes))
        }
        else expand_loop wsp node mem end (p + 1) str off out
      }
      else if p > str then
        Some (Inr (tail_join True out @ node_split_prefix wsp node off (p - str) (wn_join node)))
      else Some (Inr out))"
  by pat_completeness auto
termination
  by (relation "measure (\<lambda>(wsp, node, mem, end, p, str, off, out). end - p)") (auto dest!: expvar_ge)

declare expand_loop.simps [simp del]

definition node_expand_vars :: "wordsplit_s \<Rightarrow> wordsplit_node \<Rightarrow> (wrdse + wordsplit_node list) option" where
  "node_expand_vars wsp node =
     (case wsnode_ptr wsp node of (mem, b) \<Rightarrow>
        map_option (map_sum id (\<lambda>out. if out = [] then [node] else out))
          (expand_loop wsp node mem (b + wsnode_len node) b b 0 []))"

fun expand_nodes :: "wordsplit_s \<Rightarrow> wordsplit_node list \<Rightarrow> (wrdse + wordsplit_node list) option" where
  "expand_nodes wsp [] = Some (Inr [])"
| "expand_nodes wsp (p # ps) = do {
     r \<leftarrow> (if wn_noexpand p then Some (Inr [p]) else node_expand_vars wsp p);
     (case r of
        Inl e \<Rightarrow> Some (Inl e)
      | Inr out \<Rightarrow> map_option (map_sum id (\<lambda>ps. out @ ps)) (expand_nodes wsp ps))
   }"

text \<open>Removing the null nodes; the node before the last one is not to be joined any more.\<close>

fun remove_null :: "wordsplit_node list \<Rightarrow> wordsplit_node list \<Rightarrow> wordsplit_node list" where
  "remove_null kept [] = kept"
| "remove_null kept (p # ps) =
     (if wn_val p = NullNode then remove_null (if ps = [] then tail_join False kept else kept) ps
      else remove_null (kept @ [p]) ps)"

definition wordsplit_varexp :: "wordsplit_s \<Rightarrow> (wrdse + wordsplit_s) option" where
  "wordsplit_varexp wsp =
     map_option (map_sum id (\<lambda>nodes. wsp\<lparr>ws_nodes := remove_null [] nodes\<rparr>)) (expand_nodes wsp (ws_nodes wsp))"

section \<open>The whole\<close>

definition wordsplit :: "wordsplit_s \<Rightarrow> string \<Rightarrow> flagword \<Rightarrow> (wrdse + wordsplit_s) option" where
  "wordsplit wsp command flags =
     (case wordsplit_init wsp command flags of
        Inl e \<Rightarrow> Some (Inl e)
      | Inr wsp \<Rightarrow> do {
          r \<leftarrow> wordsplit_scan wsp;
          (case r of
             Inl e \<Rightarrow> Some (Inl e)
           | Inr wsp \<Rightarrow> do {
               r \<leftarrow> (if hasfl (ws_flags wsp) WRDSF_NOVAR then Some (Inr wsp) else wordsplit_varexp wsp);
               (case r of Inl e \<Rightarrow> Some (Inl e) | Inr wsp \<Rightarrow> map_option Inr (wordsplit_words wsp))
             })
        })"

section \<open>The names of the variables in a template\<close>

text \<open>The number of the references, for the size of the array; a backslash before the end is skipped together with the null byte.\<close>

fun varnames_count :: "string \<Rightarrow> nat option" where
  "varnames_count [] = Some 0"
| "varnames_count (c # cs) =
     (if c = BSL then (case cs of [] \<Rightarrow> None | d # ds \<Rightarrow> varnames_count ds)
      else if c = CHR ''$'' then map_option Suc (varnames_count cs)
      else varnames_count cs)"

function varnames_loop :: "string \<Rightarrow> string list" where
  "varnames_loop p =
     (case p of
        [] \<Rightarrow> []
      | c # cs \<Rightarrow>
          if c = BSL then varnames_loop cs
          else if c = CHR ''$'' then
            (case cs of
               [] \<Rightarrow> []
             | d # ds \<Rightarrow>
                 if d = CHR ''{'' then
                   (let kw = takeWhile (\<lambda>c. c \<noteq> CHR '':'' \<and> c \<noteq> CHR ''}'') ds
                    in (if kw = [] then [] else [kw]) @ varnames_loop (drop (length kw) ds))
                 else if ISVARBEG d then
                   (let kw = d # takeWhile ISVARCHR ds in kw # varnames_loop (drop (length kw) cs))
                 else varnames_loop cs)
          else varnames_loop cs)"
  by pat_completeness auto
termination by (relation "measure length") auto

declare varnames_loop.simps [simp del]

text \<open>\<open>old\<close> are the names found before, if the result is appended to them.\<close>

definition wordsplit_varnames :: "string \<Rightarrow> string list \<Rightarrow> string list option" where
  "wordsplit_varnames input old = do {
     count \<leftarrow> varnames_count input;
     let names = varnames_loop input;
     if length names \<le> count then Some (old @ names) else None
   }"

end
