(* ===== verification/Smap_Wordsplit_Laws.thy ===== *)
theory Smap_Wordsplit_Laws
  imports Smap_Wordsplit
begin

text \<open>
  What the word splitter computes: lines without quotes, escapes and variables are cut at
  the delimiters; quoting words and splitting the line gives the words back; and what
  happens at the end of a line, and with empty variables.
\<close>

section \<open>Lines without quotes\<close>

function plain_words :: "(char \<Rightarrow> bool) \<Rightarrow> string \<Rightarrow> string list" where
  "plain_words d s =
     (let r = dropWhile d s in
      if r = [] then [] else takeWhile (\<lambda>c. \<not> d c) r # plain_words d (dropWhile (\<lambda>c. \<not> d c) r))"
  by pat_completeness auto
termination
proof (relation "measure (\<lambda>(d, s). length s)", goal_cases)
  case (2 d s r)
  then obtain c cs where r: "dropWhile d s = c # cs" "\<not> d c"
    using hd_dropWhile [of d s] by (cases "dropWhile d s") auto
  have "length (dropWhile (\<lambda>c. \<not> d c) cs) \<le> length cs" by (rule length_dropWhile_le)
  moreover have "length (c # cs) \<le> length s" using r(1) length_dropWhile_le [of d s] by simp
  ultimately show ?case using 2 r by simp
qed simp

declare plain_words.simps [simp del]

lemma plain_words_simps [simp]:
  "plain_words d [] = []"
  "plain_words d (dropWhile d s) = plain_words d s"
  by (simp_all add: plain_words.simps [of d "[]"] plain_words.simps [of d s] plain_words.simps [of d "dropWhile d s"])

text \<open>The flags under which a line is cut at runs of delimiters.\<close>

definition squeezing :: "flagword \<Rightarrow> bool" where
  "squeezing f \<longleftrightarrow> hasfl f WRDSF_SQUEEZE_DELIMS \<and> \<not> hasfl f WRDSF_RETURN_DELIMS \<and> \<not> hasfl f WRDSF_SED_EXPR
     \<and> \<not> hasfl f WRDSF_NOSPLIT \<and> \<not> hasfl f WRDSF_WS"

definition plain_char :: "wordsplit_s \<Rightarrow> char \<Rightarrow> bool" where
  "plain_char wsp c \<longleftrightarrow> c \<noteq> NUL \<and> c \<noteq> BSL \<and> c \<noteq> SQ \<and> c \<noteq> DQ \<and> \<not> iscomment wsp c"

lemma scan_chars_plain:
  assumes "\<forall>c \<in> set (ws_input wsp). plain_char wsp c" "i \<le> length (ws_input wsp)"
  shows "scan_chars wsp nodes start i False =
    ScanEnd nodes start (i + length (takeWhile (\<lambda>c. \<not> ISDELIM wsp c) (drop i (ws_input wsp)))) False"
  using assms(2)
proof (induction "length (ws_input wsp) - i" arbitrary: i)
  case 0
  then show ?case by (subst scan_chars.simps) simp
next
  case (Suc n)
  let ?s = "ws_input wsp"
  from Suc have i: "i < length ?s" by simp
  then have c: "plain_char wsp (?s ! i)" using assms(1) by simp
  have d: "drop i ?s = ?s ! i # drop (Suc i) ?s" using i by (simp add: Cons_nth_drop_Suc)
  show ?case
  proof (cases "ISDELIM wsp (?s ! i)")
    case True
    with i c show ?thesis by (subst scan_chars.simps) (simp add: d plain_char_def Let_def)
  next
    case False
    have "scan_chars wsp nodes start i False = scan_chars wsp nodes start (i + 1) False"
      using i c False by (subst scan_chars.simps) (simp add: plain_char_def Let_def)
    also have "\<dots> = ScanEnd nodes start (Suc i + length (takeWhile (\<lambda>c. \<not> ISDELIM wsp c) (drop (Suc i) ?s))) False"
      using Suc.hyps(1) [of "Suc i"] Suc.hyps(2) i by simp
    finally show ?thesis using False by (simp add: d)
  qed
qed

text \<open>Where the scan of a word and of the delimiters after it ends.\<close>

definition word_end :: "wordsplit_s \<Rightarrow> nat \<Rightarrow> nat" where
  "word_end wsp i = i + length (takeWhile (\<lambda>c. \<not> ISDELIM wsp c) (drop i (ws_input wsp)))"

lemma drop_word_end: "drop (word_end wsp i) (ws_input wsp) = dropWhile (\<lambda>c. \<not> ISDELIM wsp c) (drop i (ws_input wsp))"
  by (simp add: word_end_def dropWhile_eq_drop add.commute)

lemma word_end_text:
  "take (word_end wsp i - i) (drop i (ws_input wsp)) = takeWhile (\<lambda>c. \<not> ISDELIM wsp c) (drop i (ws_input wsp))"
  by (simp add: word_end_def takeWhile_eq_take [symmetric])

lemma skip_delim_drop:
  assumes "squeezing (ws_flags wsp)"
    "ws_endp wsp < length (ws_input wsp) \<Longrightarrow> ISDELIM wsp (ws_input wsp ! ws_endp wsp)"
  shows "drop (skip_delim wsp) (ws_input wsp) = dropWhile (ISDELIM wsp) (drop (ws_endp wsp) (ws_input wsp))"
proof (cases "ws_endp wsp < length (ws_input wsp)")
  case True
  have d: "drop (ws_endp wsp) (ws_input wsp) = ws_input wsp ! ws_endp wsp # drop (Suc (ws_endp wsp)) (ws_input wsp)"
    using True by (simp add: Cons_nth_drop_Suc)
  show ?thesis using assms True
    by (simp add: d skip_delim_def squeezing_def Let_def dropWhile_eq_drop add.commute)
next
  case False
  then show ?thesis using assms(1) by (simp add: skip_delim_def squeezing_def Let_def)
qed

definition plain_node :: "nat \<Rightarrow> nat \<Rightarrow> wordsplit_node" where
  "plain_node b e = noflags\<lparr>wn_val := Segm b e\<rparr>"

text \<open>One word: the node for it and the rest of the line.\<close>

lemma scan_word_plain:
  assumes "\<forall>c \<in> set (ws_input wsp). plain_char wsp c" "squeezing (ws_flags wsp)" "start < length (ws_input wsp)"
  shows "\<exists>wsp'. scan_word wsp start = Some (WRDS_OK wsp')
    \<and> drop (skip_delim wsp') (ws_input wsp) = dropWhile (ISDELIM wsp)
        (dropWhile (\<lambda>c. \<not> ISDELIM wsp c) (drop start (ws_input wsp)))
    \<and> wsp' = wsp\<lparr>ws_nodes := ws_nodes wsp @ (if ISDELIM wsp (ws_input wsp ! start) then []
          else [plain_node start (word_end wsp start)]), ws_endp := ws_endp wsp'\<rparr>"
proof (cases "ISDELIM wsp (ws_input wsp ! start)")
  case True
  let ?w = "wsp\<lparr>ws_endp := start\<rparr>"
  have r: "scan_word wsp start = Some (WRDS_OK ?w)"
    using assms True by (simp add: scan_word_def Let_def squeezing_def wordsplit_add_segm_def)
  have s: "drop start (ws_input wsp) = ws_input wsp ! start # drop (Suc start) (ws_input wsp)"
    using assms(3) by (simp add: Cons_nth_drop_Suc)
  have "drop (skip_delim ?w) (ws_input ?w) = dropWhile (ISDELIM ?w) (drop (ws_endp ?w) (ws_input ?w))"
    by (rule skip_delim_drop) (use assms True in \<open>simp_all add: ISDELIM_def\<close>)
  moreover have "ISDELIM ?w = ISDELIM wsp" by (simp add: fun_eq_iff ISDELIM_def)
  ultimately show ?thesis using r True s by (intro exI [of _ ?w]) simp
next
  case False
  let ?e = "word_end wsp start"
  let ?w = "wsp\<lparr>ws_nodes := ws_nodes wsp @ [plain_node start ?e], ws_endp := ?e\<rparr>"
  have s: "drop start (ws_input wsp) = ws_input wsp ! start # drop (Suc start) (ws_input wsp)"
    using assms(3) by (simp add: Cons_nth_drop_Suc)
  have e: "start < ?e" using False by (simp add: word_end_def s)
  have r: "scan_word wsp start = Some (WRDS_OK ?w)"
    using assms False e scan_chars_plain [OF assms(1), of start "ws_nodes wsp" start]
    by (simp add: scan_word_def Let_def squeezing_def wordsplit_add_segm_def word_end_def plain_node_def)
  have d: "ISDELIM ?w = ISDELIM wsp" by (simp add: fun_eq_iff ISDELIM_def)
  have "ISDELIM wsp (ws_input wsp ! ?e)" if "?e < length (ws_input wsp)"
    using that nth_length_takeWhile [of "\<lambda>c. \<not> ISDELIM wsp c" "drop start (ws_input wsp)"] assms(3)
    by (simp add: word_end_def)
  then have "drop (skip_delim ?w) (ws_input ?w) = dropWhile (ISDELIM ?w) (drop (ws_endp ?w) (ws_input ?w))"
    by (intro skip_delim_drop) (use assms(2) in \<open>simp_all add: ISDELIM_def\<close>)
  with r False d show ?thesis by (intro exI [of _ ?w]) (simp add: drop_word_end)
qed

text \<open>The nodes of a line.\<close>

lemma scan_words_plain:
  assumes "\<forall>c \<in> set (ws_input wsp). plain_char wsp c" "squeezing (ws_flags wsp)"
  shows "\<exists>segs e. scan_words wsp start = Some (Inr (wsp\<lparr>ws_nodes := ws_nodes wsp @ map (\<lambda>(b, e). plain_node b e) segs,
       ws_endp := e\<rparr>))
    \<and> map (\<lambda>(b, e). take (e - b) (drop b (ws_input wsp))) segs = plain_words (ISDELIM wsp) (drop start (ws_input wsp))
    \<and> (\<forall>(b, e) \<in> set segs. b < e \<and> e \<le> length (ws_input wsp))"
  using assms
proof (induction "length (ws_input wsp) - start" arbitrary: wsp start rule: less_induct)
  case less
  let ?s = "ws_input wsp"
  show ?case
  proof (cases "start < length ?s")
    case False
    then have "scan_words wsp start = Some (Inr wsp)" by (subst scan_words.simps) (simp add: scan_word_def Let_def)
    with False show ?thesis by (intro exI [of _ "[]"] exI [of _ "ws_endp wsp"]) simp
  next
    case True
    let ?n = "if ISDELIM wsp (?s ! start) then [] else [(start, word_end wsp start)]"
    from scan_word_plain [OF less.prems True] obtain w where
      w: "scan_word wsp start = Some (WRDS_OK w)"
      "drop (skip_delim w) ?s = dropWhile (ISDELIM wsp) (dropWhile (\<lambda>c. \<not> ISDELIM wsp c) (drop start ?s))"
      "w = wsp\<lparr>ws_nodes := ws_nodes wsp @ (if ISDELIM wsp (?s ! start) then [] else [plain_node start (word_end wsp start)]),
         ws_endp := ws_endp w\<rparr>" by blast
    have same: "ws_input w = ?s" "ws_flags w = ws_flags wsp" "ISDELIM w = ISDELIM wsp" "plain_char w = plain_char wsp"
      by (subst w(3), simp add: fun_eq_iff ISDELIM_def plain_char_def iscomment_def)+
    have lt: "length (ws_input w) - skip_delim w < length ?s - start"
      using scan_word_progress [OF w(1)] True by (auto intro: diff_less_mono2)
    from less.hyps [OF lt] less.prems same obtain segs e where
      s: "scan_words w (skip_delim w) = Some (Inr (w\<lparr>ws_nodes := ws_nodes w @ map (\<lambda>(b, e). plain_node b e) segs, ws_endp := e\<rparr>))"
      "map (\<lambda>(b, e). take (e - b) (drop b ?s)) segs = plain_words (ISDELIM wsp) (drop (skip_delim w) ?s)"
      "\<forall>(b, e) \<in> set segs. b < e \<and> e \<le> length ?s"
      by auto
    have "scan_words wsp start = scan_words w (skip_delim w)" by (subst scan_words.simps) (simp add: w(1))
    also have "\<dots> = Some (Inr (wsp\<lparr>ws_nodes := ws_nodes wsp @ map (\<lambda>(b, e). plain_node b e) (?n @ segs), ws_endp := e\<rparr>))"
      unfolding s(1) by (subst (1 2) w(3)) simp
    finally have r: "scan_words wsp start =
      Some (Inr (wsp\<lparr>ws_nodes := ws_nodes wsp @ map (\<lambda>(b, e). plain_node b e) (?n @ segs), ws_endp := e\<rparr>))" .
    have d: "drop start ?s = ?s ! start # drop (Suc start) ?s" using True by (simp add: Cons_nth_drop_Suc)
    have "plain_words (ISDELIM wsp) (drop start ?s) =
      (if ISDELIM wsp (?s ! start) then [] else [takeWhile (\<lambda>c. \<not> ISDELIM wsp c) (drop start ?s)])
        @ plain_words (ISDELIM wsp) (drop (skip_delim w) ?s)"
    proof (cases "ISDELIM wsp (?s ! start)")
      case True
      then have "drop (skip_delim w) ?s = dropWhile (ISDELIM wsp) (drop start ?s)" using w(2) by (simp add: d)
      with True show ?thesis by simp
    next
      case False
      then show ?thesis unfolding w(2) by (subst plain_words.simps) (simp add: d)
    qed
    moreover have "start < word_end wsp start" if "\<not> ISDELIM wsp (?s ! start)" using that by (simp add: word_end_def d)
    moreover have "word_end wsp start \<le> length ?s"
      using length_takeWhile_le [of "\<lambda>c. \<not> ISDELIM wsp c" "drop start ?s"] True by (simp add: word_end_def)
    ultimately show ?thesis using r s(2,3)
      by (intro exI [of _ "?n @ segs"] exI [of _ e]) (simp add: word_end_text)
  qed
qed

section \<open>Storing the words\<close>

lemma store_words_result:
  assumes "ws_offs wsp + ws_wordc wsp + length ws < length (ws_wordv wsp)"
  shows "\<exists>wsp'. store_words wsp ws = Some wsp'
    \<and> wsp' = wsp\<lparr>ws_wordv := ws_wordv wsp', ws_wordc := ws_wordc wsp + length ws\<rparr>
    \<and> take (ws_offs wsp + ws_wordc wsp) (ws_wordv wsp') = take (ws_offs wsp + ws_wordc wsp) (ws_wordv wsp)
    \<and> take (length ws) (drop (ws_offs wsp + ws_wordc wsp) (ws_wordv wsp')) = map Some ws"
  using assms
proof (induction ws arbitrary: wsp)
  case Nil
  then show ?case by (simp add: Let_def)
next
  case (Cons w ws)
  let ?k = "ws_offs wsp + ws_wordc wsp"
  let ?w = "wsp\<lparr>ws_wordv := (ws_wordv wsp)[?k := Some w], ws_wordc := ws_wordc wsp + 1\<rparr>"
  from Cons.IH [of ?w] Cons.prems obtain wsp' where
    i: "store_words ?w ws = Some wsp'" "wsp' = ?w\<lparr>ws_wordv := ws_wordv wsp', ws_wordc := ws_wordc ?w + length ws\<rparr>"
    "take (Suc ?k) (ws_wordv wsp') = take (Suc ?k) ((ws_wordv wsp)[?k := Some w])"
    "take (length ws) (drop (Suc ?k) (ws_wordv wsp')) = map Some ws" by auto
  have len: "?k < length (ws_wordv wsp)" using Cons.prems by simp
  have s: "take (Suc ?k) ((ws_wordv wsp)[?k := Some w]) = take ?k (ws_wordv wsp) @ [Some w]"
    using len by (simp add: take_Suc_conv_app_nth)
  then have "length (take (Suc ?k) (ws_wordv wsp')) = Suc ?k" using i(3) len by simp
  then have k: "?k < length (ws_wordv wsp')" by (simp add: min_def split: if_splits)
  have "take (Suc ?k) (ws_wordv wsp') = take ?k (ws_wordv wsp') @ [ws_wordv wsp' ! ?k]"
    using k by (simp add: take_Suc_conv_app_nth)
  with i(3) s have "take ?k (ws_wordv wsp') = take ?k (ws_wordv wsp)" "ws_wordv wsp' ! ?k = Some w" by simp_all
  moreover have "drop ?k (ws_wordv wsp') = ws_wordv wsp' ! ?k # drop (Suc ?k) (ws_wordv wsp')"
    using k by (simp add: Cons_nth_drop_Suc)
  ultimately show ?case using i len
    by (intro exI [of _ wsp']) (simp add: Let_def)
qed

lemma those_map_Some:
  "list_all2 (\<lambda>p q. f p = Some q) ps qs \<Longrightarrow> those (map f ps) = Some qs"
  by (induction rule: list_all2_induct) auto

lemma coalesce_unjoined: "list_all (\<lambda>p. \<not> wn_join p) ps \<Longrightarrow> coalesce_nodes wsp ps = Some ps"
  by (induction ps) auto

lemma alloc_space_room:
  assumes "ws_wordc wsp = 0" "\<not> hasfl (ws_flags wsp) WRDSF_DOOFFS"
  shows "n \<le> length (ws_wordv (alloc_space wsp n))" "alloc_space wsp n = wsp\<lparr>ws_wordv := ws_wordv (alloc_space wsp n)\<rparr>"
  using assms by (auto simp: alloc_space_def Let_def)

lemma wsnode_text_cong: "ws_input w = ws_input w' \<Longrightarrow> wsnode_text w p = wsnode_text w' p"
  by (simp add: wsnode_text_def wsnode_ptr_def split: node_val.split)

text \<open>The words of a list of nodes none of which is to be joined.\<close>

lemma wordsplit_words_result:
  assumes "list_all2 (\<lambda>p p'. quoteremoval_node wsp p = Some p') (ws_nodes wsp) nodes"
    and "list_all (\<lambda>p. \<not> wn_join p) nodes" "map (wsnode_text wsp) nodes = ws"
    and "ws_offs wsp = 0" "ws_wordc wsp = 0" "\<not> hasfl (ws_flags wsp) WRDSF_DOOFFS"
  shows "\<exists>r. wordsplit_words wsp = Some r \<and> ws_result r = ws \<and> ws_wordc r = length ws"
proof -
  let ?w = "wsp\<lparr>ws_nodes := nodes\<rparr>"
  have txt': "wsnode_text ?w = wsnode_text wsp" by (rule ext, rule wsnode_text_cong) simp
  have q: "wsnode_quoteremoval wsp = Some ?w" using those_map_Some [OF assms(1)] by (simp add: wsnode_quoteremoval_def)
  have c: "wsnode_coalesce ?w = Some ?w" using coalesce_unjoined [OF assms(2)] by (simp add: wsnode_coalesce_def)
  let ?a = "alloc_space ?w (length nodes + 1)"
  have a: "length nodes + 1 \<le> length (ws_wordv ?a)" "?a = ?w\<lparr>ws_wordv := ws_wordv ?a\<rparr>"
    using alloc_space_room [of ?w "length nodes + 1"] assms(5,6) by simp_all
  have f: "ws_offs ?a = 0" "ws_wordc ?a = 0" using assms(4,5) by (subst a(2), simp)+
  have "length ws = length nodes" using assms(3) by auto
  with a(1) f store_words_result [of ?a ws] obtain r where
    "store_words ?a ws = Some r" "r = ?a\<lparr>ws_wordv := ws_wordv r, ws_wordc := ws_wordc ?a + length ws\<rparr>"
    "take (length ws) (ws_wordv r) = map Some ws" by auto
  moreover from this(2) f have "ws_offs r = 0" "ws_wordc r = length ws" by (metis add_0 wordsplit_s.select_convs(1,3) wordsplit_s.surjective wordsplit_s.update_convs(1,2))+
  ultimately show ?thesis using q c txt' assms(3)
    by (intro exI [of _ "r\<lparr>ws_nodes := []\<rparr>"]) (simp add: wordsplit_words_def wordsplit_finish_def ws_result_def)
qed

text \<open>Text without escapes is copied.\<close>

lemma mem_at_lt: "i < length mem \<Longrightarrow> mem_at mem i = Some (mem ! i)"
  by (simp add: mem_at_def)

lemma unquote_plain:
  assumes "b + n \<le> length mem" "\<forall>c \<in> set (take n (drop b mem)). c \<noteq> BSL \<and> c \<noteq> NUL"
  shows "unquote_copy ce mem b n = Some (take n (drop b mem))"
proof -
  have at: "mem_at mem (b + i) = Some (mem ! (b + i))" "mem ! (b + i) \<noteq> BSL"
    "drop i (take n (drop b mem)) = mem ! (b + i) # drop (Suc i) (take n (drop b mem))" if "i < n" for i
  proof -
    show "mem_at mem (b + i) = Some (mem ! (b + i))" using that assms(1) by (simp add: mem_at_lt)
    have l: "i < length (take n (drop b mem))" "take n (drop b mem) ! i = mem ! (b + i)" using that assms(1) by auto
    then show "mem ! (b + i) \<noteq> BSL" using assms(2) nth_mem by metis
    show "drop i (take n (drop b mem)) = mem ! (b + i) # drop (Suc i) (take n (drop b mem))"
      using l by (metis Cons_nth_drop_Suc)
  qed
  have c: "c_unquote mem b n i = Some (drop i (take n (drop b mem)))"
    and s: "sh_unquote mem b n i = Some (drop i (take n (drop b mem)))" if "i \<le> n" for i
  proof -
    show "c_unquote mem b n i = Some (drop i (take n (drop b mem)))" using that
    proof (induction "n - i" arbitrary: i)
      case 0
      then show ?case by (subst c_unquote.simps) simp
    next
      case (Suc k)
      then have "i < n" "c_unquote mem b n (Suc i) = Some (drop (Suc i) (take n (drop b mem)))" by simp_all
      with at [of i] show ?case by (subst c_unquote.simps) simp
    qed
    show "sh_unquote mem b n i = Some (drop i (take n (drop b mem)))" using that
    proof (induction "n - i" arbitrary: i)
      case 0
      then show ?case by (subst sh_unquote.simps) simp
    next
      case (Suc k)
      then have "i < n" "sh_unquote mem b n (Suc i) = Some (drop (Suc i) (take n (drop b mem)))" by simp_all
      with at [of i] show ?case by (subst sh_unquote.simps) simp
    qed
  qed
  have "takeWhile (\<lambda>c. c \<noteq> NUL) (take n (drop b mem)) = take n (drop b mem)"
    using assms(2) by (intro takeWhile_eq_all_conv [THEN iffD2]) blast
  with c [of 0] s [of 0] assms(1) show ?thesis by (simp add: unquote_copy_def)
qed

text \<open>Neither variables nor escapes: the expansion keeps the text.\<close>

lemma expand_loop_plain:
  assumes "\<forall>i < e. mem ! i \<noteq> BSL \<and> mem ! i \<noteq> CHR ''$''" "e \<le> length mem" "p \<le> e" "s \<le> p"
  shows "expand_loop wsp node mem e p s off [] =
    Some (Inr (if s < e then node_split_prefix wsp node off (e - s) (wn_join node) else []))"
  using assms(3,4)
proof (induction "e - p" arbitrary: p)
  case 0
  then show ?case by (subst expand_loop.simps) (simp add: tail_join_def)
next
  case (Suc n)
  then have p: "p < e" by simp
  then have "mem_at mem p = Some (mem ! p)" "mem ! p \<noteq> BSL" "mem ! p \<noteq> CHR ''$''" using assms(1,2) by (auto simp: mem_at_lt)
  with p have "expand_loop wsp node mem e p s off [] = expand_loop wsp node mem e (p + 1) s off []"
    by (subst expand_loop.simps) simp
  with Suc p show ?case by simp
qed

lemma expand_nodes_plain:
  assumes "\<forall>c \<in> set (ws_input wsp). c \<noteq> BSL \<and> c \<noteq> CHR ''$''" "\<forall>(b, e) \<in> set segs. b < e \<and> e \<le> length (ws_input wsp)"
  shows "expand_nodes wsp (map (\<lambda>(b, e). plain_node b e) segs) = Some (Inr (map (\<lambda>(b, e). plain_node b e) segs))"
  using assms(2)
proof (induction segs)
  case (Cons s segs)
  obtain b e where s: "s = (b, e)" by (cases s)
  with Cons.prems have be: "b < e" "e \<le> length (ws_input wsp)" by auto
  have "expand_loop wsp (plain_node b e) (ws_input wsp) e b b 0 [] = Some (Inr [plain_node b e])"
    using be assms(1) by (subst expand_loop_plain) (auto simp: node_split_prefix_def plain_node_def noflags_def)
  then have "node_expand_vars wsp (plain_node b e) = Some (Inr [plain_node b e])"
    using be by (simp add: node_expand_vars_def wsnode_ptr_def wsnode_len_def plain_node_def)
  with Cons s show ?case by (simp add: plain_node_def noflags_def)
qed simp

lemma remove_null_none: "list_all (\<lambda>p. wn_val p \<noteq> NullNode) ps \<Longrightarrow> remove_null kept ps = kept @ ps"
  by (induction ps arbitrary: kept) auto

lemma plain_words_cong:
  assumes "\<forall>c \<in> set s. d c = d' c"
  shows "plain_words d s = plain_words d' s"
  using assms
proof (induction d s rule: plain_words.induct)
  case (1 d s)
  let ?r = "dropWhile d s"
  have e: "dropWhile d s = dropWhile d' s" using 1(2) by (intro dropWhile_cong) auto
  have sub: "set ?r \<subseteq> set s" using set_dropWhileD by fast
  with 1(2) have r: "takeWhile (\<lambda>c. \<not> d c) ?r = takeWhile (\<lambda>c. \<not> d' c) ?r"
    "dropWhile (\<lambda>c. \<not> d c) ?r = dropWhile (\<lambda>c. \<not> d' c) ?r" by (auto intro!: takeWhile_cong dropWhile_cong)
  have "\<forall>c \<in> set (dropWhile (\<lambda>c. \<not> d c) ?r). d c = d' c" using 1(2) sub set_dropWhileD by fastforce
  with 1(1) [OF refl] have "?r \<noteq> [] \<Longrightarrow>
    plain_words d (dropWhile (\<lambda>c. \<not> d c) ?r) = plain_words d' (dropWhile (\<lambda>c. \<not> d c) ?r)" by blast
  with e r show ?case by (subst (1 2) plain_words.simps) (simp add: Let_def)
qed

text \<open>What the flags have to be for a call that stores the words in an array of its own.\<close>

definition fresh_flags :: "flagword \<Rightarrow> bool" where
  "fresh_flags f \<longleftrightarrow> hasfl f WRDSF_NOCMD \<and> \<not> hasfl f WRDSF_DOOFFS \<and> \<not> hasfl f WRDSF_APPEND
     \<and> (hasfl f WRDSF_NOVAR \<or> hasfl f WRDSF_ENV \<or> hasfl f WRDSF_GETVAR)"

definition delims :: "wordsplit_s \<Rightarrow> flagword \<Rightarrow> string" where
  "delims wsp flags = (if hasfl flags WRDSF_DELIM then ws_delim wsp else [CHR '' '', CHR 0x09, NL])"

definition comments :: "wordsplit_s \<Rightarrow> flagword \<Rightarrow> string" where
  "comments wsp flags = (if hasfl flags WRDSF_COMMENT then case ws_comment wsp of None \<Rightarrow> [] | Some cs \<Rightarrow> cs else [])"

lemma wordsplit_init_fresh:
  assumes "fresh_flags flags"
  shows "\<exists>w. wordsplit_init wsp line flags = Inr w \<and> ws_flags w = flags \<and> ws_input w = line \<and> ws_nodes w = []
    \<and> ws_offs w = 0 \<and> ws_wordc w = 0 \<and> ws_delim w = delims wsp flags
    \<and> (\<forall>c. c \<noteq> NUL \<longrightarrow> iscomment w c = (c \<in> set (comments wsp flags))) \<and> ws_env w = ws_env wsp"
proof -
  let ?w = "wsp\<lparr>ws_flags := flags, ws_input := line, ws_offs := 0, ws_delim := delims wsp flags,
    ws_comment := (if hasfl flags WRDSF_COMMENT then ws_comment wsp else None),
    ws_wordv := (if hasfl flags WRDSF_REUSE then ws_wordv (wordsplit_free_words (wsp\<lparr>ws_offs := 0\<rparr>)) else []), ws_wordc := 0,
    ws_endp := 0, ws_nodes := []\<rparr>"
  have "wordsplit_init wsp line flags = Inr ?w"
    using assms unfolding fresh_flags_def wordsplit_init_def Let_def delims_def
    by (cases "hasfl flags WRDSF_DELIM"; cases "hasfl flags WRDSF_COMMENT"; cases "hasfl flags WRDSF_REUSE") (simp_all add: wordsplit_free_words_def)
  moreover have "iscomment ?w c = (c \<in> set (comments wsp flags))" if "c \<noteq> NUL" for c
    using that by (cases "hasfl flags WRDSF_COMMENT"; cases "ws_comment wsp") (simp_all add: iscomment_def comments_def)
  ultimately show ?thesis by simp
qed

lemma wordsplit_plain_line:
  assumes "fresh_flags flags" "squeezing flags" "hasfl flags WRDSF_NOVAR \<or> CHR ''$'' \<notin> set line"
    and "\<forall>c \<in> set line. c \<notin> {NUL, BSL, SQ, DQ} \<union> set (comments wsp flags)"
  shows "\<exists>r. wordsplit wsp line flags = Some (Inr r)
    \<and> ws_result r = plain_words (\<lambda>c. c \<in> set (delims wsp flags)) line"
proof -
  from wordsplit_init_fresh [OF assms(1)] obtain w where
    w: "wordsplit_init wsp line flags = Inr w" "ws_flags w = flags" "ws_input w = line" "ws_nodes w = []"
    "ws_offs w = 0" "ws_wordc w = 0" "ws_delim w = delims wsp flags"
    "\<forall>c. c \<noteq> NUL \<longrightarrow> iscomment w c = (c \<in> set (comments wsp flags))" by metis
  have p: "\<forall>c \<in> set (ws_input w). plain_char w c" using assms(4) w(3,8) by (auto simp: plain_char_def)
  from scan_words_plain [OF p, of 0] assms(2) w obtain segs e where
    s: "scan_words w 0 = Some (Inr (w\<lparr>ws_nodes := map (\<lambda>(b, e). plain_node b e) segs, ws_endp := e\<rparr>))"
    "map (\<lambda>(b, e). take (e - b) (drop b line)) segs = plain_words (ISDELIM w) line"
    "\<forall>(b, e) \<in> set segs. b < e \<and> e \<le> length line" by auto
  let ?n = "map (\<lambda>(b, e). plain_node b e) segs"
  define w1 where "w1 = w\<lparr>ws_nodes := ?n, ws_endp := e\<rparr>"
  have nj: "tail_join False ?n = ?n"
    by (cases segs rule: rev_cases) (auto simp: tail_join_def plain_node_def noflags_def)
  have sc: "wordsplit_scan w = Some (Inr w1)"
    using s(1) assms(2) w(2) nj by (simp add: wordsplit_scan_def squeezing_def Let_def w1_def)
  have i1: "ws_input w1 = line" "ws_flags w1 = flags" "ws_nodes w1 = ?n" "ws_offs w1 = 0" "ws_wordc w1 = 0"
    using w by (simp_all add: w1_def)
  have ve: "(if hasfl (ws_flags w1) WRDSF_NOVAR then Some (Inr w1) else wordsplit_varexp w1) = Some (Inr w1)"
  proof (cases "hasfl flags WRDSF_NOVAR")
    case False
    have "expand_nodes w1 ?n = Some (Inr ?n)"
      by (rule expand_nodes_plain) (use assms(3,4) False i1(1) s(3) in auto)
    moreover have "remove_null [] ?n = ?n" by (subst remove_null_none) (auto simp: list_all_iff plain_node_def)
    ultimately show ?thesis using False i1 by (simp add: wordsplit_varexp_def w1_def)
  qed (simp add: i1)
  define ns where "ns = map (\<lambda>(b, e). if hasfl flags WRDSF_QUOTE
    then (plain_node b e)\<lparr>wn_val := Word (take (e - b) (drop b line))\<rparr> else plain_node b e) segs"
  have q: "list_all2 (\<lambda>p p'. quoteremoval_node w1 p = Some p') (ws_nodes w1) ns"
  proof -
    have "unquote_copy ce line b (e - b) = Some (take (e - b) (drop b line))" if "(b, e) \<in> set segs" for b e ce
      using that s(3) assms(4) by (intro unquote_plain) (fastforce dest: in_set_takeD in_set_dropD)+
    then show ?thesis
      by (auto simp: i1 ns_def list_all2_map1 list_all2_map2 list_all2_same quoteremoval_node_def plain_node_def
          wsnode_ptr_def wsnode_len_def noflags_def)
  qed
  have j: "list_all (\<lambda>p. \<not> wn_join p) ns" by (auto simp: ns_def list_all_iff plain_node_def noflags_def split: if_splits)
  have m: "take (min (length line - a) k) (drop a line) = take k (drop a line)" for a k by (simp add: min_def)
  have t: "map (wsnode_text w1) ns = plain_words (ISDELIM w) line"
    unfolding s(2) [symmetric] ns_def
    by (auto simp: wsnode_text_def wsnode_ptr_def wsnode_len_def plain_node_def i1 m)
  have d: "\<not> hasfl (ws_flags w1) WRDSF_DOOFFS" using assms(1) i1 by (simp add: fresh_flags_def)
  from wordsplit_words_result [OF q j t i1(4,5) d] obtain r where
    "wordsplit_words w1 = Some r" "ws_result r = plain_words (ISDELIM w) line" by blast
  moreover have "plain_words (ISDELIM w) line = plain_words (\<lambda>c. c \<in> set (delims wsp flags)) line"
    using assms(4) w(7) by (intro plain_words_cong) (auto simp: ISDELIM_def)
  ultimately show ?thesis using w(1) sc ve by (simp add: wordsplit_def)
qed

section \<open>Quoting and unquoting\<close>

lemma mem_at_mid: "k < length xs \<Longrightarrow> i = length pre + k \<Longrightarrow> mem_at (pre @ xs @ suf) i = Some (xs ! k)"
  by (simp add: mem_at_def nth_append)

lemma char_of_int_of_char [simp]: "char_of_int (of_char c) = c"
proof -
  have "nat ((of_char c :: int) mod 256) = of_char c" by (metis of_char_mod_256 nat_int of_nat_of_char)
  then show ?thesis by (simp add: char_of_int_def)
qed

lemma oct_digit:
  assumes "k < 8"
  shows "(of_char (char_of (48 + k) :: char) :: nat) = 48 + k" "to_num (char_of (48 + k)) = int k" "ISDIGIT (char_of (48 + k))"
    "char_of (48 + k) \<noteq> DQ" "char_of (48 + k) \<noteq> BSL" "char_of (48 + k) \<noteq> CHR ''x''" "char_of (48 + k) \<noteq> CHR ''X''"
proof -
  show n: "(of_char (char_of (48 + k) :: char) :: nat) = 48 + k" using assms by simp
  show "ISDIGIT (char_of (48 + k))" unfolding ISDIGIT_def n Let_def using assms by simp
  have "(of_char (char_of (48 + k) :: char) :: int) = int (48 + k)" using n by (metis of_nat_of_char)
  with \<open>ISDIGIT (char_of (48 + k))\<close> show "to_num (char_of (48 + k)) = int k" by (simp add: to_num_def)
  have ne: "char_of (48 + k) \<noteq> c" if "(of_char c :: nat) < 48 \<or> 56 \<le> (of_char c :: nat)" for c :: char
    using n that assms by auto
  show "char_of (48 + k) \<noteq> DQ" "char_of (48 + k) \<noteq> BSL" "char_of (48 + k) \<noteq> CHR ''x''" "char_of (48 + k) \<noteq> CHR ''X''"
    by (rule ne, simp)+
qed

lemma transtab_escapes:
  "\<forall>(d, c) \<in> set quote_transtab. d \<noteq> CHR ''x'' \<and> d \<noteq> CHR ''X'' \<and> \<not> ISDIGIT d \<and> wordsplit_c_unquote_char d = c \<and> d \<noteq> DQ"
  by (simp add: quote_transtab_def wordsplit_c_unquote_char_def ISDIGIT_def)

lemma quote_char_Some:
  assumes "wordsplit_c_quote_char c = Some d"
  shows "d \<noteq> CHR ''x'' \<and> d \<noteq> CHR ''X'' \<and> \<not> ISDIGIT d \<and> wordsplit_c_unquote_char d = c \<and> d \<noteq> DQ"
proof -
  from assms obtain i where "i < length (rev quote_transtab)" "rev quote_transtab ! i = (d, c)"
    unfolding wordsplit_c_quote_char_def by (auto simp: find_Some_iff simp del: length_rev)
  then have "(d, c) \<in> set quote_transtab" by (metis nth_mem set_rev)
  from bspec [OF transtab_escapes this] show ?thesis unfolding prod.case .
qed

text \<open>The forms of a quoted character.\<close>

lemma quote_one_cases:
  obtains (plain) "quote_one False c = [c]" "c \<noteq> BSL" "c \<noteq> DQ"
  | (escape) d where "quote_one False c = [BSL, d]" "d \<noteq> CHR ''x''" "d \<noteq> CHR ''X''" "\<not> ISDIGIT d" "wordsplit_c_unquote_char d = c"
  | (octal) "quote_one False c = BSL # oct3 c"
proof (cases "c = DQ")
  case True
  then show thesis
    using escape [of DQ] by (simp add: quote_one_def ISDIGIT_def wordsplit_c_unquote_char_def quote_transtab_def)
next
  case False
  show thesis
  proof (cases "c \<noteq> CHR 0x09 \<and> c \<noteq> BSL \<and> ISPRINT c")
    case True
    with False plain show thesis by (simp add: quote_one_def)
  next
    case np: False
    show thesis
    proof (cases "wordsplit_c_quote_char c")
      case None
      with np False octal show thesis by (simp add: quote_one_def)
    next
      case (Some d)
      with np False escape [of d] quote_char_Some [OF Some] show thesis by (simp add: quote_one_def)
    qed
  qed
qed

lemma xtonum_digit:
  assumes "mem_at mem src = Some (char_of (48 + k))" "k < 8"
  shows "xtonum mem src 8 (Suc cnt) val = map_option (map_prod id Suc) (xtonum mem (src + 1) 8 cnt (val * 8 + int k))"
proof -
  have "\<not> (of_char (char_of (48 + k) :: char) :: nat) > 127" "\<not> to_num (char_of (48 + k)) \<ge> 8"
    unfolding oct_digit(1,2) [OF assms(2)] using assms(2) by simp_all
  then show ?thesis using assms(1) oct_digit(2) [OF assms(2)]
    by (cases "xtonum mem (src + 1) 8 cnt (val * 8 + int k)") (auto simp del: of_char_of)
qed

lemma unquote_one:
  assumes "mem = pre @ quote_one False c @ suf" "b + i = length pre" "i + length (quote_one False c) \<le> n"
  shows "c_unquote mem b n i = map_option ((#) c) (c_unquote mem b n (i + length (quote_one False c)))"
proof (cases c rule: quote_one_cases)
  case plain
  have "mem_at mem (b + i) = Some c" using mem_at_mid [of 0 "[c]" _ pre suf] assms(1,2) plain by simp
  with plain assms(3) show ?thesis by (subst c_unquote.simps) (auto simp: map_option_case split: option.split)
next
  case (escape d)
  have "mem_at mem (b + i) = Some BSL" "mem_at mem (b + i + 1) = Some d"
    using mem_at_mid [of 0 "[BSL, d]" _ pre suf] mem_at_mid [of 1 "[BSL, d]" _ pre suf] assms(1,2) escape by simp_all
  with escape assms(3) show ?thesis by (subst c_unquote.simps) (auto simp: map_option_case split: option.split)
next
  case octal
  define m where "m = (of_char c :: nat)"
  have m: "m < 256" unfolding m_def by (rule nat_of_char_less_256)
  define d1 d2 d3 where "d1 = m div 64" and "d2 = m div 8 mod 8" and "d3 = m mod 8"
  have d: "d1 < 8" "d2 < 8" "d3 < 8" using m by (auto simp: d1_def d2_def d3_def)
  let ?q = "[BSL, char_of (48 + d1), char_of (48 + d2), char_of (48 + d3)]"
  have q: "quote_one False c = ?q" using octal by (simp add: oct3_def Let_def m_def [symmetric] d1_def d2_def d3_def)
  have at: "mem_at mem (b + i) = Some BSL" "mem_at mem (b + i + 1) = Some (char_of (48 + d1))"
    "mem_at mem (b + i + 1 + 1) = Some (char_of (48 + d2))" "mem_at mem (b + i + 1 + 1 + 1) = Some (char_of (48 + d3))"
    using mem_at_mid [of 0 ?q _ pre suf] mem_at_mid [of 1 ?q _ pre suf] mem_at_mid [of 2 ?q _ pre suf]
      mem_at_mid [of 3 ?q _ pre suf] assms(1,2) q by (simp_all add: eval_nat_numeral)
  have v: "(int d1 * 8 + int d2) * 8 + int d3 = of_char c"
  proof -
    have "m div 64 = m div 8 div 8" by (simp add: div_mult2_eq [symmetric])
    then have "(d1 * 8 + d2) * 8 + d3 = m" by (simp only: d1_def d2_def d3_def div_mult_mod_eq)
    then have "int ((d1 * 8 + d2) * 8 + d3) = int m" by (rule arg_cong)
    then show ?thesis by (simp add: m_def of_nat_of_char)
  qed
  have x: "xtonum mem (b + i + 1) 8 3 0 = Some (of_char c, 3)"
    unfolding numeral_3_eq_3 xtonum_digit [OF at(2) d(1)] xtonum_digit [OF at(3) d(2)] xtonum_digit [OF at(4) d(3)]
    by (simp add: v [symmetric])
  have "i + length (quote_one False c) = 4 + i" using q by simp
  with at(1,2) x oct_digit(3,6,7) [OF d(1)] assms(3) show ?thesis
    by (subst c_unquote.simps) (auto simp: add.commute [of i 4] map_option_case split: option.split)
qed

lemma find_quote_one:
  assumes "mem = pre @ quote_one False c @ suf"
  shows "find_quote mem DQ (length pre) = find_quote mem DQ (length pre + length (quote_one False c))"
proof -
  have step: "find_quote (pre @ x # suf) DQ (length pre) = find_quote (pre @ x # suf) DQ (Suc (length pre))"
    if "x \<noteq> DQ" "x \<noteq> BSL" for pre x suf
    using that by (subst find_quote.simps) (simp add: nth_append)
  have esc: "find_quote (pre @ BSL # x # suf) DQ (length pre) = find_quote (pre @ BSL # x # suf) DQ (Suc (Suc (length pre)))"
    for pre x suf
    by (subst find_quote.simps) (simp add: nth_append)
  show ?thesis
  proof (cases c rule: quote_one_cases)
    case plain
    with assms step show ?thesis by simp
  next
    case (escape d)
    with assms esc show ?thesis by simp
  next
    case octal
    have "\<exists>a b d. oct3 c = [a, b, d] \<and> b \<noteq> DQ \<and> b \<noteq> BSL \<and> d \<noteq> DQ \<and> d \<noteq> BSL"
      by (simp add: oct3_def Let_def oct_digit)
    then obtain a b d where o: "oct3 c = [a, b, d]" "b \<noteq> DQ" "b \<noteq> BSL" "d \<noteq> DQ" "d \<noteq> BSL" by blast
    have "find_quote mem DQ (length pre) = find_quote mem DQ (Suc (Suc (length pre)))"
      using esc [of pre a] assms octal o(1) by simp
    also have "\<dots> = find_quote mem DQ (Suc (Suc (Suc (length pre))))"
      using step [of b "pre @ [BSL, a]"] assms octal o by simp
    also have "\<dots> = find_quote mem DQ (Suc (Suc (Suc (Suc (length pre)))))"
      using step [of d "pre @ [BSL, a, b]"] assms octal o by simp
    finally show ?thesis using octal o(1) by simp
  qed
qed

text \<open>A quoted word in a line: its end is found, and its text is the word.\<close>

abbreviation (input) quoted :: "string \<Rightarrow> string" where "quoted w \<equiv> wordsplit_c_quote_copy w False"

lemma quoted_simps [simp]: "quoted [] = []" "quoted (c # w) = quote_one False c @ quoted w"
  by (simp_all add: wordsplit_c_quote_copy_def)

lemma find_quote_quoted: "find_quote (pre @ quoted w @ DQ # suf) DQ (length pre) = Some (length pre + length (quoted w))"
proof (induction w arbitrary: pre)
  case Nil
  then show ?case by (subst find_quote.simps) simp
next
  case (Cons c w)
  from find_quote_one [of _ pre c "quoted w @ DQ # suf"] Cons.IH [of "pre @ quote_one False c"] show ?case by simp
qed

lemma c_unquote_quoted:
  assumes "b + i = length pre" "n = i + length (quoted w)"
  shows "c_unquote (pre @ quoted w @ suf) b n i = Some w"
  using assms
proof (induction w arbitrary: pre i)
  case Nil
  then show ?case by (subst c_unquote.simps) simp
next
  case (Cons c w)
  from Cons.IH [of "i + length (quote_one False c)" "pre @ quote_one False c"] Cons.prems
    unquote_one [of _ pre c "quoted w @ suf" b i n] show ?case by simp
qed

lemma quoted_length: "length w \<le> length (quoted w)"
proof (induction w)
  case (Cons c w)
  have "1 \<le> length (quote_one False c)" by (cases c rule: quote_one_cases) simp_all
  with Cons show ?case by simp
qed simp

lemma unquote_quoted:
  assumes "NUL \<notin> set w"
  shows "unquote_copy True (pre @ quoted w @ suf) (length pre) (length (quoted w)) = Some w"
proof -
  have "takeWhile (\<lambda>c. c \<noteq> NUL) w = w" using assms by (intro takeWhile_eq_all_conv [THEN iffD2]) auto
  then show ?thesis using c_unquote_quoted [of "length pre" 0 pre "length (quoted w)" w suf] quoted_length [of w]
    by (simp add: unquote_copy_def)
qed

section \<open>Lines of quoted words\<close>

fun quote_line :: "string list \<Rightarrow> string" where
  "quote_line [] = []"
| "quote_line (w # ws) = DQ # quoted w @ DQ # (if ws = [] then [] else CHR '' '' # quote_line ws)"

definition quote_node :: "nat \<Rightarrow> nat \<Rightarrow> wordsplit_node" where
  "quote_node b e = noflags\<lparr>wn_quote := True, wn_val := Segm b e\<rparr>"

text \<open>The settings under which such a line is read back.\<close>

definition quoting :: "wordsplit_s \<Rightarrow> bool" where
  "quoting wsp \<longleftrightarrow> squeezing (ws_flags wsp) \<and> hasfl (ws_flags wsp) WRDSF_QUOTE \<and> hasfl (ws_flags wsp) WRDSF_CESCAPES
     \<and> ISDELIM wsp (CHR '' '') \<and> \<not> ISDELIM wsp DQ \<and> \<not> iscomment wsp DQ \<and> \<not> iscomment wsp (CHR '' '')"

lemma scan_word_quoted:
  assumes "quoting wsp" "ws_input wsp = pre @ DQ # quoted w @ DQ # rest" "rest = [] \<or> (\<exists>t. rest = CHR '' '' # t)"
  shows "scan_word wsp (length pre) = Some (WRDS_OK (wsp\<lparr>
      ws_nodes := ws_nodes wsp @ [quote_node (length pre + 1) (length pre + 1 + length (quoted w))],
      ws_endp := length pre + length (quoted w) + 2\<rparr>))"
proof -
  let ?s = "ws_input wsp" and ?i = "length pre" and ?j = "length pre + 1 + length (quoted w)"
  have at: "?s ! ?i = DQ" "?s ! ?j = DQ" "?i < length ?s" "Suc ?j \<le> length ?s"
    using assms(2) by (simp_all add: nth_append)
  have q: "scan_qstring wsp nodes ?i = Some (nodes @ [quote_node (?i + 1) ?j], ?j)" for nodes
    using find_quote_quoted [of "pre @ [DQ]" w rest] at(1) assms(2)
    by (simp add: scan_qstring_def wordsplit_add_segm_def quote_node_def noflags_def)
  have e: "scan_chars wsp nodes (?j + 1) (?j + 1) True = ScanEnd nodes (?j + 1) (?j + 1) True" for nodes
  proof (cases "rest = []")
    case True
    then have "length ?s = ?j + 1" using assms(2) by simp
    then show ?thesis by (subst scan_chars.simps) simp
  next
    case False
    with assms(3) obtain t where t: "rest = CHR '' '' # t" by blast
    then have "?s ! (?j + 1) = CHR '' ''" "?j + 1 < length ?s" using assms(2) by (simp_all add: nth_append)
    then show ?thesis using assms(1) by (subst scan_chars.simps) (simp add: quoting_def)
  qed
  have "scan_chars wsp nodes ?i ?i False = scan_chars wsp (nodes @ [quote_node (?i + 1) ?j]) (?j + 1) (?j + 1) True" for nodes
    using assms(1) at q [of nodes] by (subst scan_chars.simps) (simp add: quoting_def wordsplit_add_segm_def)
  with e at assms(1) show ?thesis
    by (simp add: scan_word_def quoting_def squeezing_def wordsplit_add_segm_def)
qed

lemma skip_delim_quoted:
  assumes "quoting wsp" "ws_input wsp = pre @ CHR '' '' # DQ # t" "ws_endp wsp = length pre"
  shows "skip_delim wsp = length pre + 1"
  using assms by (simp add: skip_delim_def quoting_def squeezing_def)

lemma scan_words_quoted:
  assumes "quoting wsp" "ws_input wsp = pre @ quote_line ws"
  shows "\<exists>segs e. scan_words wsp (length pre) =
      Some (Inr (wsp\<lparr>ws_nodes := ws_nodes wsp @ map (\<lambda>(b, e). quote_node b e) segs, ws_endp := e\<rparr>))
    \<and> list_all2 (\<lambda>(b, e) w. \<exists>p s. ws_input wsp = p @ quoted w @ s \<and> b = length p \<and> e = b + length (quoted w)) segs ws"
  using assms
proof (induction ws arbitrary: pre wsp)
  case Nil
  then have "scan_words wsp (length pre) = Some (Inr wsp)"
    by (subst scan_words.simps) (simp add: scan_word_def)
  then show ?case by (intro exI [of _ "[]"] exI [of _ "ws_endp wsp"]) simp
next
  case (Cons w ws)
  let ?rest = "if ws = [] then [] else CHR '' '' # quote_line ws"
  let ?n = "(length pre + 1, length pre + 1 + length (quoted w))"
  let ?w = "wsp\<lparr>ws_nodes := ws_nodes wsp @ [quote_node (fst ?n) (snd ?n)], ws_endp := length pre + length (quoted w) + 2\<rparr>"
  have s: "ws_input wsp = pre @ DQ # quoted w @ DQ # ?rest" using Cons.prems(2) by simp
  have r: "scan_word wsp (length pre) = Some (WRDS_OK ?w)"
    using scan_word_quoted [OF Cons.prems(1) s] by auto
  have q: "quoting ?w" using Cons.prems(1) by (simp add: quoting_def ISDELIM_def iscomment_def)
  have u: "scan_words wsp (length pre) = scan_words ?w (skip_delim ?w)" by (subst scan_words.simps) (simp add: r)
  have n: "\<exists>p s. ws_input wsp = p @ quoted w @ s \<and> fst ?n = length p \<and> snd ?n = fst ?n + length (quoted w)"
    using s by (intro exI [of _ "pre @ [DQ]"] exI [of _ "DQ # ?rest"]) simp
  show ?case
  proof (cases "ws = []")
    case True
    have "length (ws_input ?w) \<le> skip_delim ?w"
      using s True Cons.prems(1) by (simp add: skip_delim_def quoting_def squeezing_def Let_def)
    then have "scan_words ?w (skip_delim ?w) = Some (Inr ?w)" by (subst scan_words.simps) (simp add: scan_word_def)
    with u n True show ?thesis by (intro exI [of _ "[?n]"] exI [of _ "ws_endp ?w"]) simp
  next
    case False
    then obtain t where t: "quote_line ws = DQ # t" by (cases ws) auto
    let ?pre = "pre @ DQ # quoted w @ [DQ]"
    have "skip_delim ?w = length ?pre + 1"
      by (rule skip_delim_quoted [OF q]) (use s False t in auto)
    moreover have "ws_input ?w = (?pre @ [CHR '' '']) @ quote_line ws" using s False by simp
    ultimately obtain segs e where
      "scan_words ?w (skip_delim ?w) = Some (Inr (?w\<lparr>ws_nodes := ws_nodes ?w @ map (\<lambda>(b, e). quote_node b e) segs, ws_endp := e\<rparr>))"
      "list_all2 (\<lambda>(b, e) w. \<exists>p s. ws_input wsp = p @ quoted w @ s \<and> b = length p \<and> e = b + length (quoted w)) segs ws"
      using Cons.IH [OF q, of "?pre @ [CHR '' '']"] by auto
    with u n show ?thesis by (intro exI [of _ "?n # segs"] exI [of _ e]) simp
  qed
qed

lemma wordsplit_quote_line:
  assumes "fresh_flags flags" "squeezing flags" "hasfl flags WRDSF_NOVAR" "hasfl flags WRDSF_QUOTE" "hasfl flags WRDSF_CESCAPES"
    and "\<not> hasfl flags WRDSF_DELIM" "{DQ, CHR '' ''} \<inter> set (comments wsp flags) = {}" "\<forall>w \<in> set ws. NUL \<notin> set w"
  shows "\<exists>r. wordsplit wsp (quote_line ws) flags = Some (Inr r) \<and> ws_result r = ws"
proof -
  let ?l = "quote_line ws"
  from wordsplit_init_fresh [OF assms(1)] obtain w where
    w: "wordsplit_init wsp ?l flags = Inr w" "ws_flags w = flags" "ws_input w = ?l" "ws_nodes w = []"
    "ws_offs w = 0" "ws_wordc w = 0" "ws_delim w = delims wsp flags"
    "\<forall>c. c \<noteq> NUL \<longrightarrow> iscomment w c = (c \<in> set (comments wsp flags))" by metis
  have q: "quoting w" using assms(2,4-7) w(2,7,8) by (auto simp: quoting_def ISDELIM_def delims_def)
  from scan_words_quoted [OF q, of "[]" ws] w(3,4) obtain segs e where
    s: "scan_words w 0 = Some (Inr (w\<lparr>ws_nodes := map (\<lambda>(b, e). quote_node b e) segs, ws_endp := e\<rparr>))"
    "list_all2 (\<lambda>(b, e) w. \<exists>p s. ?l = p @ quoted w @ s \<and> b = length p \<and> e = b + length (quoted w)) segs ws" by auto
  let ?n = "map (\<lambda>(b, e). quote_node b e) segs"
  define w1 where "w1 = w\<lparr>ws_nodes := ?n, ws_endp := e\<rparr>"
  have nj: "tail_join False ?n = ?n"
    by (cases segs rule: rev_cases) (auto simp: tail_join_def quote_node_def noflags_def)
  have sc: "wordsplit_scan w = Some (Inr w1)"
    using s(1) assms(2) w(2) nj by (simp add: wordsplit_scan_def squeezing_def Let_def w1_def)
  have i1: "ws_input w1 = ?l" "ws_flags w1 = flags" "ws_nodes w1 = ?n" "ws_offs w1 = 0" "ws_wordc w1 = 0"
    using w by (simp_all add: w1_def)
  define ns where "ns = map (\<lambda>w. noflags\<lparr>wn_quote := True, wn_val := Word w\<rparr>) ws"
  have un: "quoteremoval_node w1 (quote_node b e) = Some (noflags\<lparr>wn_quote := True, wn_val := Word v\<rparr>)"
    if "v \<in> set ws" "?l = p @ quoted v @ s" "b = length p" "e = b + length (quoted v)" for p s v b e
    using unquote_quoted [of v p s] assms(4,5,8) that i1(1,2)
    by (simp add: quoteremoval_node_def quote_node_def wsnode_ptr_def wsnode_len_def noflags_def)
  have "list_all2 (\<lambda>x v. quoteremoval_node w1 ((\<lambda>(b, e). quote_node b e) x) = Some (noflags\<lparr>wn_quote := True, wn_val := Word v\<rparr>)) segs ws"
    using s(2) by (rule list.rel_mono_strong) (use un in auto)
  then have q: "list_all2 (\<lambda>p p'. quoteremoval_node w1 p = Some p') (ws_nodes w1) ns"
    unfolding i1(3) ns_def by (simp add: list_all2_map1 list_all2_map2)
  have j: "list_all (\<lambda>p. \<not> wn_join p) ns" by (simp add: ns_def list_all_iff noflags_def)
  have t: "map (wsnode_text w1) ns = ws"
    by (simp add: ns_def wsnode_text_def wsnode_ptr_def wsnode_len_def comp_def)
  have d: "\<not> hasfl (ws_flags w1) WRDSF_DOOFFS" using assms(1) i1 by (simp add: fresh_flags_def)
  from wordsplit_words_result [OF q j t i1(4,5) d] obtain r where
    "wordsplit_words w1 = Some r" "ws_result r = ws" by blast
  with w(1) sc assms(3) i1(2) show ?thesis by (simp add: wordsplit_def)
qed

lemma default_flags:
  assumes "flags \<in> {0x1000644, 0x10146C4, 0x10146CC}"
  shows "fresh_flags flags \<and> squeezing flags \<and> hasfl flags WRDSF_NOVAR \<and> hasfl flags WRDSF_QUOTE \<and> hasfl flags WRDSF_CESCAPES
    \<and> \<not> hasfl flags WRDSF_DELIM"
  using assms by (auto simp: fresh_flags_def squeezing_def hasfl_numeral)

section \<open>Properties\<close>

text \<open>C34. Quoting.  The words of any list, each quoted by \<open>wordsplit_c_quote_copy\<close> and put in double quotes, and
  separated by blanks, are exactly the words that the splitter reads from that line: nothing is lost for any bytes
  but null, whether or not comments are recognised.\<close>

theorem wordsplit_roundtrip:
  assumes "\<forall>w \<in> set ws. NUL \<notin> set w" "flags \<in> {0x1000644, 0x10146C4, 0x10146CC}" "ws_comment wsp = Some ''#''"
  shows "\<exists>r. wordsplit wsp (quote_line ws) flags = Some (Inr r) \<and> ws_result r = ws"
proof (rule wordsplit_quote_line)
  show "fresh_flags flags" "squeezing flags" "hasfl flags WRDSF_NOVAR" "hasfl flags WRDSF_QUOTE" "hasfl flags WRDSF_CESCAPES"
    "\<not> hasfl flags WRDSF_DELIM"
    using default_flags [OF assms(2)] by blast+
  show "{DQ, CHR '' ''} \<inter> set (comments wsp flags) = {}" using assms(3) by (cases "hasfl flags WRDSF_COMMENT") (simp_all add: comments_def)
qed (use assms(1) in blast)

definition conf_ws :: wordsplit_s where
  "conf_ws = \<lparr>ws_wordc = 0, ws_wordv = [], ws_offs = 0, ws_flags = 0, ws_delim = [], ws_comment = Some ''#'', ws_env = [],
     ws_getvar = Map.empty, ws_input = [], ws_endp = 0, ws_nodes = []\<rparr>"

theorem wordsplit_roundtrip_witness:
  "\<exists>r. wordsplit conf_ws (quote_line [''a b'', [], [DQ, BSL, CHR 0x09, CHR 0xE9], ''#'']) 0x1000644 = Some (Inr r)
    \<and> ws_result r = [''a b'', [], [DQ, BSL, CHR 0x09, CHR 0xE9], ''#'']"
  by (rule wordsplit_roundtrip) (simp_all add: conf_ws_def)

text \<open>C35. Lines of the configuration.  A line without quotes, backslashes and comment characters is cut at the blanks, with any number of
  them between, before and after the words; this holds for the flags of the reader before and after the first
  assignment of a variable, then for lines without variables.\<close>

theorem wordsplit_plain_words:
  assumes "\<forall>c \<in> set line. c \<notin> {NUL, BSL, SQ, DQ, CHR ''#''}" "ws_comment wsp = Some ''#''"
    and "flags \<in> {0x10146C4, 0x10146CC} \<or> flags \<in> {0x1454684, 0x145468C} \<and> CHR ''$'' \<notin> set line"
  shows "\<exists>r. wordsplit wsp line flags = Some (Inr r)
    \<and> ws_result r = plain_words (\<lambda>c. c \<in> {CHR '' '', CHR 0x09, NL}) line"
proof -
  have f: "fresh_flags flags" "squeezing flags" "hasfl flags WRDSF_NOVAR \<or> CHR ''$'' \<notin> set line"
    "\<not> hasfl flags WRDSF_DELIM" "hasfl flags WRDSF_COMMENT"
    using assms(3) by (auto simp: fresh_flags_def squeezing_def hasfl_numeral)
  have "\<forall>c \<in> set line. c \<notin> {NUL, BSL, SQ, DQ} \<union> set (comments wsp flags)"
    using assms(1,2) f(5) by (simp add: comments_def)
  from wordsplit_plain_line [OF f(1-3) this] f(4) show ?thesis by (simp add: delims_def)
qed

theorem wordsplit_plain_words_witness:
  "\<exists>r. wordsplit conf_ws '' server  main '' 0x10146C4 = Some (Inr r) \<and> ws_result r = [''server'', ''main'']"
proof -
  have "plain_words (\<lambda>c. c \<in> {CHR '' '', CHR 0x09, NL}) '' server  main '' = [''server'', ''main'']"
    by (simp add: plain_words.simps)
  with wordsplit_plain_words [of "'' server  main ''" conf_ws "0x10146C4"] show ?thesis by (simp add: conf_ws_def)
qed

section \<open>Faults and surprises\<close>

definition split_result :: "string list \<Rightarrow> string \<Rightarrow> flagword \<Rightarrow> (wrdse + string list) option" where
  "split_result env line flags = map_option (map_sum id ws_result) (wordsplit (conf_ws\<lparr>ws_env := env\<rparr>) line flags)"

text \<open>A variable with an empty value at the end of a word joins the word with the next one.\<close>

lemma empty_variable_joins: "split_result [''X=''] ''foo$X bar'' 0x1454684 = Some (Inr [''foobar''])"
  by code_simp

text \<open>A hexadecimal escape at the end of the line takes the null byte for a digit, and an octal one reads behind it.\<close>

lemma hex_escape_at_end: "split_result [] (''a '' @ [BSL] @ ''xa'') 0x10146C4 = Some (Inr [''a'', ''i''])"
  by code_simp

lemma octal_escape_at_end: "split_result [] (''a '' @ [BSL] @ ''1'') 0x10146C4 = None"
  by code_simp

text \<open>A reference that is not closed reads behind the end of the line.\<close>

lemma open_brace_overrun: "split_result [''A=x''] ''${A'' 0x1454684 = None"
  by code_simp

text \<open>A dollar sign before the closing quote takes the quote for the name of the variable.\<close>

lemma dollar_takes_quote: "split_result [] [DQ, CHR ''$'', DQ] 0x1454684 = Some (Inr [[CHR ''$'', DQ]])"
  by code_simp

text \<open>A comment after a quoted and an unquoted part separates them.\<close>

lemma comment_separates: "split_result [] ([DQ] @ ''a'' @ [DQ] @ ''b#c'') 0x10146C4 = Some (Inr [''a'', ''b''])"
  by code_simp

text \<open>Appending to a full array shrinks it.\<close>

lemma append_overruns:
  "store_words (alloc_space (conf_ws\<lparr>ws_wordc := 128, ws_wordv := replicate 129 None, ws_flags := 0x1000645\<rparr>) 2) [''w''] = None"
  by (simp add: alloc_space_def conf_ws_def hasfl_numeral Let_def)

text \<open>The length computed for a quoted string is that of the copy.\<close>

lemma c_quoted_length: "fst (wordsplit_c_quoted_length w hex) = length (wordsplit_c_quote_copy w hex)"
proof (induction w)
  case (Cons c w)
  have "length (quote_one hex c) =
    (if c = CHR '' '' then 1 else if c = DQ then 2 else if c \<noteq> CHR 0x09 \<and> c \<noteq> BSL \<and> ISPRINT c then 1
     else if hex then 3 else if wordsplit_c_quote_char c \<noteq> None then 2 else 4)"
    by (auto simp: quote_one_def oct3_def Let_def ISPRINT_def split: option.split)
  with Cons show ?case by (simp add: wordsplit_c_quoted_length_def wordsplit_c_quote_copy_def)
qed (simp add: wordsplit_c_quoted_length_def wordsplit_c_quote_copy_def)

text \<open>The array of names is large enough for templates without escapes, but not for escaped references.\<close>

lemma varnames_fit:
  assumes "BSL \<notin> set s"
  shows "\<exists>n. varnames_count s = Some n \<and> n = length (filter ((=) (CHR ''$'')) s) \<and> length (varnames_loop s) \<le> n"
proof -
  have c: "varnames_count s = Some (length (filter ((=) (CHR ''$'')) s))" if "BSL \<notin> set s" for s
    using that by (induction s) auto
  have "length (varnames_loop s) \<le> length (filter ((=) (CHR ''$'')) s)" if "BSL \<notin> set s" for s
    using that
  proof (induction s rule: length_induct)
    case (1 s)
    have drop: "length (filter ((=) (CHR ''$'')) (drop k xs)) \<le> length (filter ((=) (CHR ''$'')) xs)" for k xs
      by (metis append_take_drop_id filter_append le_add2 length_append)
    show ?case
    proof (cases s)
      case (Cons c cs)
      have ih: "length (varnames_loop (drop k cs)) \<le> length (filter ((=) (CHR ''$'')) cs)" for k
      proof -
        have "length (drop k cs) < length s" "BSL \<notin> set (drop k cs)" using 1(2) Cons by (auto dest: in_set_dropD)
        with 1(1) have "length (varnames_loop (drop k cs)) \<le> length (filter ((=) (CHR ''$'')) (drop k cs))" by blast
        with drop [of k cs] show ?thesis by (rule order_trans [rotated])
      qed
      show ?thesis
      proof (cases "c = CHR ''$''")
        case True
        show ?thesis
        proof (cases cs)
          case Nil
          with Cons True show ?thesis by (subst varnames_loop.simps) simp
        next
          case ds: (Cons d ds)
          have k: "drop (length kw) ds = drop (Suc (length kw)) cs" for kw :: string using ds by simp
          show ?thesis
            using ih [of "Suc (length (takeWhile (\<lambda>c. c \<noteq> CHR '':'' \<and> c \<noteq> CHR ''}'') ds))"]
              ih [of "Suc (length (takeWhile ISVARCHR ds))"] ih [of 0] ds Cons True
            by (subst varnames_loop.simps) (auto simp: Let_def)
        qed
      next
        case False
        with Cons 1(2) ih [of 0] show ?thesis by (subst varnames_loop.simps) auto
      qed
    qed (subst varnames_loop.simps, simp)
  qed
  with c assms show ?thesis by blast
qed

lemma varnames_overrun: "wordsplit_varnames [BSL, CHR ''$'', CHR ''A''] [] = None"
  by code_simp

end
