(* ===== verification/Smap_Cfg.thy ===== *)
theory Smap_Cfg
  imports Smap_Wordsplit_Laws
begin

text \<open>
  The reader of configuration files (\<open>src/cfg.c\<close>): logical lines, assignments to
  variables, and the table-driven interpretation of statements.

  A line is split into words by \<open>wordsplit\<close> of \<open>Smap_Wordsplit\<close>; the variables are
  expanded after the first assignment.  A result \<open>Inl code\<close> is the exit of the process with that
  code; \<open>None\<close> stands for an access outside of the allocated memory, or for not returning.
\<close>

section \<open>Reading lines\<close>

record cfg_in =
  ci_text :: string
  ci_feof :: bool
  ci_line :: nat
  ci_cur_line :: nat

text \<open>\<open>fgets\<close> with an array of \<open>n\<close> bytes.\<close>

definition fgets :: "nat \<Rightarrow> cfg_in \<Rightarrow> cfg_in \<times> string option" where
  "fgets n f =
     (if ci_text f = [] then (f\<lparr>ci_feof := True\<rparr>, None)
      else
        let lim = take (n - 1) (ci_text f);
            chunk = (case memchr NL lim of Some i \<Rightarrow> take (i + 1) lim | None \<Rightarrow> lim)
        in (f\<lparr>ci_text := drop (length chunk) (ci_text f),
              ci_feof := ci_feof f \<or> memchr NL lim = None \<and> length (ci_text f) < n - 1\<rparr>, Some chunk))"

text \<open>\<open>buf\<close> is the C string in the buffer of \<open>sz\<close> bytes; \<open>off\<close> is where the next piece goes.\<close>

partial_function (option) read_line_loop ::
  "nat \<Rightarrow> nat \<Rightarrow> string \<Rightarrow> cfg_in \<Rightarrow> (cfg_in \<times> nat \<times> nat \<times> string) option" where
  "read_line_loop sz off buf f =
     (let sz = (if sz - off < 8 then 2 * sz else sz) in
      case fgets (sz - off) f of (f, r) \<Rightarrow>
        if r = None then Some (f, sz, off, buf)
        else
          let buf = takeWhile (\<lambda>c. c \<noteq> CHR 0x00) (take off buf @ the r) in
          if buf = [] then read_line_loop sz off buf f
          else if last buf \<noteq> NL then read_line_loop sz (length buf) buf f
          else
            let buf = butlast buf; f = f\<lparr>ci_cur_line := ci_cur_line f + 1\<rparr> in
            if buf = [] then read_line_loop sz off buf f
            else if last buf = CHR 0x5C then read_line_loop sz (length buf - 1) buf f
            else Some (f, sz, length buf, buf))"

definition read_line :: "nat \<Rightarrow> cfg_in \<Rightarrow> (cfg_in \<times> nat \<times> nat \<times> string) option" where
  "read_line sz f =
     (if ci_feof f then Some (f, sz, 0, [])
      else read_line_loop (if sz = 0 then 512 else sz) 0 [] (f\<lparr>ci_line := ci_cur_line f\<rparr>))"

section \<open>Values\<close>

definition cfg_chkargc :: "nat \<Rightarrow> nat \<Rightarrow> nat \<Rightarrow> bool" where
  "cfg_chkargc wordc mn mx \<longleftrightarrow> wordc < mn \<or> 0 < mx \<and> mx < wordc"

definition cfg_parse_bool :: "string \<Rightarrow> int option" where
  "cfg_parse_bool str =
     (if str \<in> set [''yes'', ''on'', ''t'', ''true'', ''1''] then Some 1
      else if str \<in> set [''no'', ''off'', ''nil'', ''false'', ''0''] then Some 0
      else None)"

text \<open>The conversions of an \<open>unsigned long\<close> to \<open>int\<close> and back, and to \<open>unsigned\<close>.\<close>

definition parse_int :: "string \<Rightarrow> nat \<Rightarrow> bool \<Rightarrow> int option" where
  "parse_int str base sign =
     (case strtoul str base of
        (n, p) \<Rightarrow>
          if p \<noteq> [] then None
          else if sign then
            let i = sint (word_of_nat n :: 32 word) in
            if i mod 2 ^ 64 = int n then Some i else None
          else
            let u = unat (word_of_nat n :: 32 word) in
            if u = n then Some (sint (word_of_nat u :: 32 word)) else None)"

definition wrdse_to_ex :: "wrdse \<Rightarrow> int" where
  "wrdse_to_ex code = (case code of WRDSE_QUOTE \<Rightarrow> 78 | WRDSE_NOSUPP \<Rightarrow> 70 | _ \<Rightarrow> 69)"

section \<open>Variables\<close>

definition is_idstart :: "char \<Rightarrow> bool" where
  "is_idstart c \<longleftrightarrow> (let n = (of_char c :: nat) in 65 \<le> n \<and> n \<le> 90 \<or> 97 \<le> n \<and> n \<le> 122 \<or> n = 95)"

definition asgn_p :: "string \<Rightarrow> bool" where
  "asgn_p buf =
     (let p = dropWhile (\<lambda>c. c = CHR '' '' \<or> c = CHR 0x09) buf in
      p \<noteq> [] \<and> is_idstart (hd p) \<and>
      (let q = dropWhile (\<lambda>c. is_idstart c \<or> is_digit c) p in q \<noteq> [] \<and> hd q = CHR ''=''))"

text \<open>The array of variables: \<open>None\<close> is the null pointer that ends it.  Whether the beginnings of two assignments, up to the equal sign of the first, agree.\<close>

fun same_var :: "string \<Rightarrow> string \<Rightarrow> bool" where
  "same_var [] var = False"
| "same_var (c # name) [] = False"
| "same_var (c # name) (d # var) = (c = d \<and> (c = CHR ''='' \<or> same_var name var))"

fun find_env_var :: "string option list \<Rightarrow> string \<Rightarrow> nat option" where
  "find_env_var [] name = None"
| "find_env_var (None # env) name = Some 0"
| "find_env_var (Some var # env) name =
     (if same_var name var then Some 0 else map_option Suc (find_env_var env name))"

definition asgn :: "string option list \<Rightarrow> string \<Rightarrow> string option list option" where
  "asgn env word =
     (if env = [] then Some ((replicate 16 None)[0 := Some word])
      else do {
        n \<leftarrow> find_env_var env word;
        let env = (if env ! n = None \<and> n = length env - 1
                   then env @ replicate (length env) None else env);
        if n + 1 < length env then Some (env[n := Some word, n + 1 := None]) else None
      })"

definition env_vars :: "string option list \<Rightarrow> string list" where
  "env_vars env = map the (takeWhile (\<lambda>v. v \<noteq> None) env)"

section \<open>Statements\<close>

datatype kw_type =
    KWT_STRING | KWT_BOOL | KWT_INT | KWT_INT_O | KWT_INT_X | KWT_UINT | KWT_UINT_O | KWT_UINT_X
  | KWT_ARR | KWT_FUN | KWT_EOF

text \<open>The state of the reader: the file, whether there were errors, and the
  settings \<open>'s\<close> of the program.\<close>

record 's cfg_state =
  cf_in :: cfg_in
  cf_errors :: bool
  cf_conf :: 's

text \<open>An entry of a table; a pointer to a variable is the assignment to it.
  A handler returns the code, or exits.\<close>

record 's cfg_kw =
  kw_kw :: string
  kw_type :: kw_type
  kw_ival :: "(int \<Rightarrow> 's \<Rightarrow> 's) option"
  kw_sval :: "(string \<Rightarrow> 's \<Rightarrow> 's) option"
  kw_aval :: "(string list \<Rightarrow> 's \<Rightarrow> 's) option"
  kw_fun :: "(string list \<Rightarrow> 's cfg_state \<Rightarrow> (int + 's cfg_state \<times> int) option) option"

definition find_cfg_kw :: "'s cfg_kw list \<Rightarrow> string \<Rightarrow> 's cfg_kw option" where
  "find_cfg_kw kwtab word = find (\<lambda>k. kw_kw k = word) kwtab"

definition cfg_error :: "'s cfg_state \<Rightarrow> 's cfg_state" where
  "cfg_error st = st\<lparr>cf_errors := True\<rparr>"

definition cfg_set_int :: "'s cfg_kw \<Rightarrow> int option \<Rightarrow> 's cfg_state \<Rightarrow> 's cfg_state option" where
  "cfg_set_int kwp v st =
     (case v of
        None \<Rightarrow> Some (cfg_error st)
      | Some i \<Rightarrow> do {
          setter \<leftarrow> kw_ival kwp;
          Some (st\<lparr>cf_conf := setter i (cf_conf st)\<rparr>)
        })"

definition save_words :: "'s cfg_kw \<Rightarrow> string list \<Rightarrow> 's cfg_state \<Rightarrow> 's cfg_state option" where
  "save_words kwp wordv st = do {
     ival \<leftarrow> kw_ival kwp;
     aval \<leftarrow> kw_aval kwp;
     Some (st\<lparr>cf_conf := aval (tl wordv) (ival (int (length wordv) - 1) (cf_conf st))\<rparr>)
   }"

definition kwt_base :: "kw_type \<Rightarrow> nat" where
  "kwt_base t = (if t = KWT_INT_O \<or> t = KWT_UINT_O then 8 else if t = KWT_INT_X \<or> t = KWT_UINT_X then 16 else 10)"

text \<open>The switch over the type: the new state, unless the number of words is wrong.\<close>

definition cfg_assign :: "'s cfg_kw \<Rightarrow> string list \<Rightarrow> 's cfg_state \<Rightarrow> ('s cfg_state \<times> bool) option" where
  "cfg_assign kwp wordv st =
     (let bad = (\<lambda>mx. cfg_chkargc (length wordv) 2 mx);
          go = map_option (\<lambda>st. (st, True));
          stop = Some (cfg_error st, False)
      in case kw_type kwp of
           KWT_STRING \<Rightarrow>
             if bad 2 then stop
             else go (do { setter \<leftarrow> kw_sval kwp; Some (st\<lparr>cf_conf := setter (wordv ! 1) (cf_conf st)\<rparr>) })
         | KWT_BOOL \<Rightarrow>
             if bad 2 then stop else go (cfg_set_int kwp (cfg_parse_bool (wordv ! 1)) st)
         | KWT_ARR \<Rightarrow> if bad 0 then stop else go (save_words kwp wordv st)
         | KWT_FUN \<Rightarrow> go (Some st)
         | KWT_EOF \<Rightarrow> go (Some st)
         | t \<Rightarrow>
             if bad 2 then stop
             else go (cfg_set_int kwp
                        (parse_int (wordv ! 1) (kwt_base t) (t \<in> {KWT_INT, KWT_INT_O, KWT_INT_X})) st))"

text \<open>The handler, and whether the loop ends.\<close>

definition cfg_call :: "'s cfg_kw \<Rightarrow> string list \<Rightarrow> 's cfg_state \<Rightarrow> (int + 's cfg_state \<times> bool) option" where
  "cfg_call kwp wordv st =
     (let eof = (kw_type kwp = KWT_EOF) in
      case kw_fun kwp of
        None \<Rightarrow> Some (Inr (st, eof))
      | Some f \<Rightarrow> do {
          r \<leftarrow> f wordv st;
          Some (case r of
                  Inl code \<Rightarrow> Inl code
                | Inr (st, rc) \<Rightarrow>
                    if eof then Inr (if rc < 0 then (cfg_error st, True) else (st, rc \<noteq> 0))
                    else Inr (if rc \<noteq> 0 then cfg_error st else st, False))
        })"

text \<open>What is local to the loop: the size of the buffer, the variables and whether
  they are expanded.\<close>

record cfg_loop =
  cl_size :: nat
  cl_env :: "string option list"
  cl_vars :: bool

definition cfg_words ::
  "'s cfg_kw list \<Rightarrow> string list \<Rightarrow> cfg_loop \<Rightarrow> 's cfg_state \<Rightarrow>
   (int + cfg_loop \<times> 's cfg_state \<times> bool) option" where
  "cfg_words kwtab wordv cl st =
     (if wordv = [] then Some (Inr (cl, st, False))
      else if asgn_p (hd wordv) then
        if length wordv > 1 then Some (Inr (cl, cfg_error st, False))
        else do {
          env \<leftarrow> asgn (cl_env cl) (hd wordv);
          Some (Inr (cl\<lparr>cl_env := env, cl_vars := True\<rparr>, st, False))
        }
      else case find_cfg_kw kwtab (hd wordv) of
          None \<Rightarrow> Some (Inr (cl, cfg_error st, False))
        | Some kwp \<Rightarrow> do {
            (st, go) \<leftarrow> cfg_assign kwp wordv st;
            if \<not> go then Some (Inr (cl, st, False))
            else do {
              r \<leftarrow> cfg_call kwp wordv st;
              Some (map_sum id (\<lambda>(st, eof). (cl, st, eof)) r)
            }
          })"

text \<open>Splitting a line: the flags are \<open>DEFFLAGS\<close>, \<open>ERROR\<close>, \<open>COMMENT\<close> and \<open>ENOMEMABRT\<close>, and \<open>ENV\<close> and
  \<open>KEEPUNDEF\<close> instead of \<open>NOVAR\<close> if there are variables; the array of words of the line before is
  used again (\<open>REUSE\<close>), but is emptied first.\<close>

definition cfg_ws :: "string list \<Rightarrow> wordsplit_s" where
  "cfg_ws env = \<lparr>ws_wordc = 0, ws_wordv = [], ws_offs = 0, ws_flags = 0, ws_delim = [], ws_comment = Some ''#'', ws_env = env,
     ws_getvar = Map.empty, ws_input = [], ws_endp = 0, ws_nodes = []\<rparr>"

definition cfg_wordsplit :: "string list option \<Rightarrow> string \<Rightarrow> (wrdse + string list) option" where
  "cfg_wordsplit env buf =
     map_option (map_sum id ws_result)
       (case env of
          None \<Rightarrow> wordsplit (cfg_ws []) buf 0x10146C4
        | Some vars \<Rightarrow> wordsplit (cfg_ws vars) buf 0x1454684)"

partial_function (option) parse_config_from ::
  "'s cfg_kw list \<Rightarrow> cfg_loop \<Rightarrow> 's cfg_state \<Rightarrow>
   (int + 's cfg_state) option" where
  "parse_config_from kwtab cl st = do {
     (f, sz, off, buf) \<leftarrow> read_line (cl_size cl) (cf_in st);
     let cl = cl\<lparr>cl_size := sz\<rparr>;
     let st = st\<lparr>cf_in := f\<rparr>;
     if off = 0 then Some (Inr st)
     else do {
       w \<leftarrow> cfg_wordsplit (if cl_vars cl then Some (env_vars (cl_env cl)) else None) buf;
       if isl w then Some (Inl (wrdse_to_ex (projl w)))
       else do {
         r \<leftarrow> cfg_words kwtab (projr w) cl st;
         if isl r then Some (Inl (projl r))
         else if snd (snd (projr r)) then Some (Inr (fst (snd (projr r))))
         else parse_config_from kwtab (fst (projr r)) (fst (snd (projr r)))
       }
     }
   }"

definition parse_config_loop ::
  "'s cfg_kw list \<Rightarrow> 's cfg_state \<Rightarrow>
   (int + 's cfg_state) option" where
  "parse_config_loop kwtab st =
     parse_config_from kwtab \<lparr>cl_size = 0, cl_env = [], cl_vars = False\<rparr> st"

text \<open>The file is \<open>None\<close> if it cannot be opened; \<open>errs\<close> are the errors before.\<close>

definition parse_config ::
  "string option \<Rightarrow> 's cfg_kw list \<Rightarrow> bool \<Rightarrow> 's \<Rightarrow>
   (int + 's \<times> int) option" where
  "parse_config file_text kwtab errs conf =
     (case file_text of
        None \<Rightarrow> Some (Inr (conf, -1))
      | Some t \<Rightarrow> do {
          r \<leftarrow> parse_config_loop kwtab
                 \<lparr>cf_in = \<lparr>ci_text = t, ci_feof = False, ci_line = 0, ci_cur_line = 1\<rparr>, cf_errors = errs, cf_conf = conf\<rparr>;
          Some (map_sum id (\<lambda>st. (cf_conf st, if cf_errors st then 1 else 0)) r)
        })"

section \<open>Logical lines\<close>

lemma line_rest_shorter:
  assumes "NL \<in> set t"
  shows "length (tl (dropWhile (\<lambda>c. c \<noteq> NL) t)) < length t"
proof -
  have "length (dropWhile (\<lambda>c. c \<noteq> NL) t) \<le> length t" by (rule length_dropWhile_le)
  with assms show ?thesis by (cases "dropWhile (\<lambda>c. c \<noteq> NL) t") auto
qed

text \<open>
  The specification of the reader: physical lines are joined as long as they
  end with a backslash, empty ones are skipped; \<open>acc\<close> is what has been joined
  already.  The result is the line, its length, the rest of the text and the
  number of the line ends passed.  A backslash before the end of the file stays in
  the line but is not counted in its length (\<open>trail\<close>).
\<close>

function logical_line :: "string \<Rightarrow> string \<Rightarrow> string \<Rightarrow> string \<times> nat \<times> string \<times> nat" where
  "logical_line acc trail txt' =
     (if txt' = [] then (acc @ trail, length acc, [], 0)
      else if NL \<notin> set txt' then (acc @ txt', length acc + length txt', [], 0)
      else
        let full = acc @ takeWhile (\<lambda>c. c \<noteq> NL) txt'; rest = tl (dropWhile (\<lambda>c. c \<noteq> NL) txt');
            cont = (\<lambda>(l, n, r, k). (l, n, r, Suc k))
        in if full = [] then cont (logical_line [] [] rest)
           else if last full = CHR 0x5C then cont (logical_line (butlast full) (CHR 0x5C # []) rest)
           else (full, length full, rest, 1))"
  by pat_completeness auto
termination
  by (relation "measure (\<lambda>(acc, trail, t). length t)") (auto simp: line_rest_shorter [simplified])

declare logical_line.simps [simp del]

lemma logical_piece:
  assumes "p \<noteq> []" "NL \<notin> set p"
  shows "logical_line (acc @ p) [] t = logical_line acc trail (p @ t)"
proof (cases "NL \<in> set t")
  case True
  have "takeWhile (\<lambda>c. c \<noteq> NL) (p @ t) = p @ takeWhile (\<lambda>c. c \<noteq> NL) t"
    "dropWhile (\<lambda>c. c \<noteq> NL) (p @ t) = dropWhile (\<lambda>c. c \<noteq> NL) t"
    using assms(2) by (auto intro!: takeWhile_append2 dropWhile_append2)
  moreover have "t \<noteq> []" using True by auto
  ultimately show ?thesis using True assms by (simp add: logical_line.simps [of _ _ t] logical_line.simps [of _ _ "p @ t"])
next
  case False
  then show ?thesis
    using assms by (simp add: logical_line.simps [of _ _ t] logical_line.simps [of _ _ "p @ t"])
qed

lemma logical_newline:
  assumes "NL \<notin> set p"
  shows "logical_line acc trail (p @ NL # t) =
    (let full = acc @ p; cont = (\<lambda>(l, n, r, k). (l, n, r, Suc k)) in
     if full = [] then cont (logical_line [] [] t)
     else if last full = CHR 0x5C then cont (logical_line (butlast full) (CHR 0x5C # []) t)
     else (full, length full, t, 1))"
proof -
  have "takeWhile (\<lambda>c. c \<noteq> NL) (p @ NL # t) = p" "dropWhile (\<lambda>c. c \<noteq> NL) (p @ NL # t) = NL # t"
    using assms by (induction p) auto
  then show ?thesis by (subst logical_line.simps) (simp add: Let_def)
qed

text \<open>What \<open>fgets\<close> delivers: a piece of a line, or the end of one.\<close>

lemma fgets_piece:
  assumes "fgets n f = (f', Some chunk)" "2 \<le> n"
  shows "ci_text f = chunk @ ci_text f'" "chunk \<noteq> []" "length chunk < n" "ci_cur_line f' = ci_cur_line f"
    "ci_line f' = ci_line f" "NL \<notin> set (butlast chunk)"
proof -
  let ?lim = "take (n - 1) (ci_text f)"
  have ne: "ci_text f \<noteq> []" using assms(1) by (auto simp: fgets_def split: if_splits)
  have c: "chunk = (case memchr NL ?lim of Some i \<Rightarrow> take (i + 1) ?lim | None \<Rightarrow> ?lim)"
    and f': "ci_text f' = drop (length chunk) (ci_text f)" "ci_cur_line f' = ci_cur_line f" "ci_line f' = ci_line f"
    using assms(1) ne by (auto simp: fgets_def Let_def simp del: One_nat_def)
  have "\<exists>k. 0 < k \<and> k \<le> n - 1 \<and> k \<le> length (ci_text f) \<and> chunk = take k (ci_text f)"
  proof (cases "memchr NL ?lim")
    case None
    with c have "chunk = take (min (n - 1) (length (ci_text f))) (ci_text f)" by (simp add: take_all_iff min_def)
    then show ?thesis using ne assms(2) by (intro exI [of _ "min (n - 1) (length (ci_text f))"]) auto
  next
    case (Some i)
    then have "i < length ?lim" using memchr_Some by blast
    then have "i + 1 \<le> n - 1" "i + 1 \<le> length (ci_text f)" by simp_all
    moreover from this have "take (i + 1) ?lim = take (i + 1) (ci_text f)" by (simp add: min_def)
    ultimately show ?thesis using c Some by (intro exI [of _ "i + 1"]) simp
  qed
  then obtain k where k: "0 < k" "k \<le> n - 1" "k \<le> length (ci_text f)" "chunk = take k (ci_text f)" by blast
  then show "ci_text f = chunk @ ci_text f'" "length chunk < n" "chunk \<noteq> []"
    using f'(1) assms(2) ne by auto
  show "ci_cur_line f' = ci_cur_line f" "ci_line f' = ci_line f" by fact+
  show "NL \<notin> set (butlast chunk)"
  proof (cases "memchr NL ?lim")
    case None
    then show ?thesis using c memchr_None [of NL ?lim] by (auto dest: in_set_butlastD)
  next
    case (Some i)
    with memchr_Some [OF Some] c show ?thesis by (auto simp: butlast_take)
  qed
qed

lemma fgets_end: "fgets n f = (f', None) \<Longrightarrow> ci_text f = [] \<and> f' = f\<lparr>ci_feof := True\<rparr>"
  by (auto simp: fgets_def Let_def split: if_splits)

lemma last_split:
  assumes "b \<noteq> []"
  shows "take (length b - 1) b = butlast b" "drop (length b - 1) b = [last b]"
  using assms by (cases b rule: rev_cases; simp)+

lemma read_line_step:
  assumes "fgets (sz1 - off) f = (f1, Some chunk)" "sz1 = (if sz - off < 8 then 2 * sz else sz)"
    and "CHR 0x00 \<notin> set (take off buf)" "CHR 0x00 \<notin> set chunk" "chunk \<noteq> []"
  shows "read_line_loop sz off buf f =
    (let b = take off buf @ chunk in
     if last chunk \<noteq> NL then read_line_loop sz1 (length b) b f1
     else let b = take off buf @ butlast chunk; f = f1\<lparr>ci_cur_line := ci_cur_line f1 + 1\<rparr> in
       if b = [] then read_line_loop sz1 off b f
       else if last b = CHR 0x5C then read_line_loop sz1 (length b - 1) b f
       else Some (f, sz1, length b, b))"
proof -
  have tw: "takeWhile (\<lambda>c. c \<noteq> CHR 0x00) (take off buf @ chunk) = take off buf @ chunk"
    using assms(3,4) by (auto simp: takeWhile_eq_all_conv)
  show ?thesis
    using assms(1,5)
    by (subst read_line_loop.simps)
      (simp only: assms(2) [symmetric] Let_def prod.case option.distinct option.sel tw if_False append_is_Nil_conv
        last_appendR butlast_append simp_thms if_True cong: if_cong)
qed

lemma read_line_loop_logical:
  assumes "8 \<le> sz" "off < sz" "off \<le> length buf" "CHR 0x00 \<notin> set (take off buf)" "CHR 0x00 \<notin> set (ci_text f)"
    and "NL \<notin> set (take off buf)"
    and "logical_line (take off buf) (drop off buf) (ci_text f) = (l, n, rest, k)"
  shows "\<exists>f' sz'. read_line_loop sz off buf f = Some (f', sz', n, l) \<and> ci_text f' = rest
    \<and> ci_line f' = ci_line f \<and> ci_cur_line f' = ci_cur_line f + k \<and> 8 \<le> sz'"
  using assms
proof (induction "length (ci_text f)" arbitrary: sz off buf f k rule: less_induct)
  case less
  define sz1 where "sz1 = (if sz - off < 8 then 2 * sz else sz)"
  have sz1: "8 \<le> sz1" "off + 2 \<le> sz1" using less.prems(1,2) by (auto simp: sz1_def)
  obtain f1 r where g: "fgets (sz1 - off) f = (f1, r)" by (cases "fgets (sz1 - off) f")
  show ?case
  proof (cases r)
    case None
    note e = fgets_end [OF g [unfolded None]]
    with less.prems(7) have "l = buf" "n = off" "rest = []" "k = 0"
      using less.prems(3) by (auto simp: logical_line.simps)
    then show ?thesis using e g None sz1 by (subst read_line_loop.simps) (simp add: sz1_def [symmetric] Let_def)
  next
    case (Some chunk)
    note p = fgets_piece [OF g [unfolded Some]]
    have two: "2 \<le> sz1 - off" using sz1 by simp
    note p = p [OF two]
    have shorter: "length (ci_text f1) < length (ci_text f)" using p(1,2) by simp
    let ?acc = "take off buf"
    have nul: "CHR 0x00 \<notin> set chunk" "CHR 0x00 \<notin> set (ci_text f1)" using less.prems(5) p(1) by auto
    note step = read_line_step [OF g [unfolded Some] sz1_def less.prems(4) nul(1) p(2)]
    show ?thesis
    proof (cases "last chunk = NL")
      case False
      then have nl: "NL \<notin> set chunk" using p(2,6) by (cases chunk rule: rev_cases) auto
      have "logical_line (?acc @ chunk) [] (ci_text f1) = (l, n, rest, k)"
        using less.prems(7) logical_piece [OF p(2) nl] p(1) by metis
      then have "\<exists>f' sz'. read_line_loop sz1 (length (?acc @ chunk)) (?acc @ chunk) f1 = Some (f', sz', n, l)
          \<and> ci_text f' = rest \<and> ci_line f' = ci_line f1 \<and> ci_cur_line f' = ci_cur_line f1 + k \<and> 8 \<le> sz'"
        using less.prems p sz1 nul nl by (intro less.hyps [OF shorter]) auto
      then show ?thesis using False p(4,5) by (simp add: step)
    next
      case True
      then obtain q where q: "chunk = q @ [NL]" "NL \<notin> set q" using p(2,6) by (cases chunk rule: rev_cases) auto
      let ?f = "f1\<lparr>ci_cur_line := ci_cur_line f1 + 1\<rparr>"
      have tx: "ci_text f = q @ NL # ci_text f1" using p(1) q by simp
      have full: "length (?acc @ q) < sz1" using p(3) q sz1 less.prems(3) by simp
      note lg = less.prems(7) [unfolded tx logical_newline [OF q(2)]]
      show ?thesis
      proof (cases "?acc @ q = [] \<or> last (?acc @ q) = CHR 0x5C")
        case False
        then show ?thesis using lg q(1) p(4,5) sz1 by (auto simp: step Let_def)
      next
        case stop: True
        let ?b = "?acc @ q"
        define off1 where "off1 = (if ?b = [] then off else length ?b - 1)"
        have acc1: "take off1 ?b = butlast ?b \<and> drop off1 ?b = (if ?b = [] then [] else [CHR 0x5C]) \<and> off1 < sz1 \<and> off1 \<le> length ?b"
        proof (cases "?b = []")
          case True
          then have "off = 0" using less.prems(3) by auto
          with True sz1 show ?thesis by (simp add: off1_def)
        next
          case False
          with stop full last_split [of ?b] show ?thesis by (auto simp: off1_def)
        qed
        obtain k1 where k: "k = Suc k1" "logical_line (take off1 ?b) (drop off1 ?b) (ci_text ?f) = (l, n, rest, k1)"
          using lg stop acc1 by (cases "?b = []") (auto simp: Let_def split: prod.splits if_splits)
        have "\<exists>f' sz'. read_line_loop sz1 off1 ?b ?f = Some (f', sz', n, l)
          \<and> ci_text f' = rest \<and> ci_line f' = ci_line ?f \<and> ci_cur_line f' = ci_cur_line ?f + k1 \<and> 8 \<le> sz'"
          using shorter sz1 acc1 k nul less.prems(4,6) q
          by (intro less.hyps) (auto dest!: in_set_butlastD simp: off1_def simp del: butlast_append take_append)
        then show ?thesis using stop q(1) p(4,5) k(1)
          by (auto simp: step Let_def off1_def split: if_splits)
      qed
    qed
  qed
qed

lemma set_tl_subset: "set (tl xs) \<subseteq> set xs"
  by (cases xs) auto

lemma logical_rest:
  assumes "logical_line acc trail t = (l, n, rest, k)"
  shows "set rest \<subseteq> set t \<and> (t \<noteq> [] \<longrightarrow> length rest < length t)"
  using assms
proof (induction acc trail t arbitrary: l n rest k rule: logical_line.induct)
  case (1 acc trail t)
  show ?case
  proof (cases "NL \<in> set t")
    case False
    with 1(3) show ?thesis by (auto simp: logical_line.simps [of acc trail t] split: if_splits)
  next
    case True
    let ?r = "tl (dropWhile (\<lambda>c. c \<noteq> NL) t)"
    have "set ?r \<subseteq> set (dropWhile (\<lambda>c. c \<noteq> NL) t)" by (rule set_tl_subset)
    moreover have "set (dropWhile (\<lambda>c. c \<noteq> NL) t) \<subseteq> set t" using set_dropWhileD by fast
    ultimately have r: "set ?r \<subseteq> set t" "length ?r < length t" using line_rest_shorter [OF True] by auto
    have ih: "set rest \<subseteq> set ?r \<and> length rest \<le> length ?r"
      if "logical_line acc' trail' ?r = (l', n', rest, k')"
        "\<And>l n rest k. logical_line acc' trail' ?r = (l, n, rest, k) \<Longrightarrow> set rest \<subseteq> set ?r \<and> (?r \<noteq> [] \<longrightarrow> length rest < length ?r)"
      for acc' trail' l' n' k'
      using that(1) that(2) [OF that(1)] by (cases "?r = []") (auto simp: logical_line.simps)
    have "rest = ?r \<or> set rest \<subseteq> set ?r \<and> length rest \<le> length ?r"
      using 1(3) True ih [of "[]" "[]"] ih [of "butlast (acc @ takeWhile (\<lambda>c. c \<noteq> NL) t)" "[CHR 0x5C]"] 1(1,2)
      by (auto simp: logical_line.simps [of acc trail t] Let_def split: if_splits prod.splits)
    with r show ?thesis by auto
  qed
qed

lemma read_line_logical:
  assumes "CHR 0x00 \<notin> set (ci_text f)" "\<not> ci_feof f" "sz = 0 \<or> 8 \<le> sz"
    and "logical_line [] [] (ci_text f) = (l, n, rest, k)"
  shows "\<exists>f' sz'. read_line sz f = Some (f', sz', n, l) \<and> ci_text f' = rest
    \<and> ci_line f' = ci_cur_line f \<and> ci_cur_line f' = ci_cur_line f + k \<and> 8 \<le> sz'"
  using assms read_line_loop_logical [of "if sz = 0 then 512 else sz" 0 "[]" "f\<lparr>ci_line := ci_cur_line f\<rparr>" l n rest k]
  by (auto simp: read_line_def)

section \<open>Variables and their array\<close>

definition env_ok :: "string option list \<Rightarrow> bool" where
  "env_ok env \<longleftrightarrow> env = [] \<or> (\<exists>vars rest. env = map Some vars @ None # rest)"

lemma find_env_var_append:
  "find_env_var (map Some vars @ None # env) name = Some (length (takeWhile (\<lambda>v. \<not> same_var name v) vars))"
  by (induction vars) auto

lemma env_vars_array [simp]: "env_vars (map Some vars @ None # env) = vars"
  by (induction vars) (auto simp: env_vars_def)

lemma asgn_array:
  assumes "env_ok env"
  shows "\<exists>env'. asgn env word = Some env' \<and> env_ok env' \<and> env' \<noteq> []
    \<and> env_vars env' = takeWhile (\<lambda>v. \<not> same_var word v) (env_vars env) @ [word]"
proof (cases "env = []")
  case True
  have "(replicate 16 None)[0 := Some word] = map Some [word] @ None # replicate 14 None"
    by (simp add: numeral_eq_Suc)
  moreover from this have "env_ok ((replicate 16 None)[0 := Some word])"
    unfolding env_ok_def by blast
  ultimately show ?thesis using True by (auto simp: asgn_def env_vars_def)
next
  case False
  with assms obtain vars tail where e: "env = map Some vars @ None # tail" by (auto simp: env_ok_def)
  define pre where "pre = takeWhile (\<lambda>v. \<not> same_var word v) vars"
  define n where "n = length pre"
  have n: "n \<le> length vars" "take n vars = pre"
    by (simp_all add: n_def pre_def length_takeWhile_le takeWhile_eq_take [symmetric])
  have f: "find_env_var env word = Some n" by (simp add: e find_env_var_append n_def pre_def)
  define big where "big = (if env ! n = None \<and> n = length env - 1 then env @ replicate (length env) None else env)"
  have none: "env ! n = None \<longleftrightarrow> n = length vars" using n by (auto simp: e nth_append)
  obtain tail' where big: "big = map Some vars @ None # tail'" "n + 1 < length big"
  proof (cases "n = length vars \<and> tail = []")
    case True
    then have "big = env @ replicate (length env) None" using none by (simp add: big_def e)
    with True show thesis by (intro that) (simp_all add: e)
  next
    case False
    then have "big = env" using n none by (auto simp: big_def e)
    moreover have "n + 1 < length env" using False n(1) by (cases tail) (auto simp: e)
    ultimately show thesis by (intro that [of tail]) (simp_all add: e)
  qed
  define rest where "rest = drop (n + 2) big"
  have "take n big = map Some pre" using n by (simp add: big take_map)
  then have upd: "big[n := Some word, n + 1 := None] = map Some (pre @ [word]) @ None # rest"
    using big(2) n_def by (simp add: rest_def upd_conv_take_nth_drop take_Suc_conv_app_nth)
  have "asgn env word = Some (map Some (pre @ [word]) @ None # rest)"
    using False f big(2) upd by (simp add: asgn_def big_def Let_def split del: if_split)
  moreover have "env_ok (map Some (pre @ [word]) @ None # rest)" unfolding env_ok_def by blast
  moreover have "env_vars (map Some (pre @ [word]) @ None # rest) = takeWhile (\<lambda>v. \<not> same_var word v) (env_vars env) @ [word]"
    by (simp only: env_vars_array e pre_def)
  ultimately show ?thesis by (intro exI conjI) auto
qed

section \<open>Tables of statements\<close>

text \<open>Lines without quotes and variables are cut at the blanks.\<close>

abbreviation (input) blank :: "char \<Rightarrow> bool" where "blank c \<equiv> c \<in> set [CHR '' '', CHR 0x09, NL]"

lemma cfg_wordsplit_plain:
  assumes "\<forall>c \<in> set l. c \<notin> {NUL, BSL, SQ, DQ, CHR ''#'', CHR ''$''}"
  shows "cfg_wordsplit env l = Some (Inr (plain_words blank l))"
proof -
  have w: "\<exists>r. wordsplit (cfg_ws vars) l flags = Some (Inr r) \<and> ws_result r = plain_words blank l"
    if "fresh_flags flags" "squeezing flags" "hasfl flags WRDSF_COMMENT" "\<not> hasfl flags WRDSF_DELIM" for vars flags
    using wordsplit_plain_line [of flags l "cfg_ws vars"] that assms
    by (auto simp: comments_def delims_def cfg_ws_def)
  from w [of "0x10146C4" "[]"] w [of "0x1454684" "the env"] show ?thesis
    by (cases env) (auto simp: cfg_wordsplit_def fresh_flags_def squeezing_def hasfl_numeral)
qed

text \<open>The logical lines of a text, and the texts without null bytes whose lines, with any variables, are
  split into words that \<open>ok\<close> admits.\<close>

function logical_lines :: "string \<Rightarrow> string list" where
  "logical_lines t = (if t = [] then [] else case logical_line [] [] t of (l, n, rest, k) \<Rightarrow> l # logical_lines rest)"
  by pat_completeness auto
termination
  by (relation "measure length") (auto dest!: logical_rest [OF sym])

declare logical_lines.simps [simp del]

text \<open>The exit codes that the word splitter gives rise to in a text.\<close>

definition splitter_code :: "string \<Rightarrow> int \<Rightarrow> bool" where
  "splitter_code t code \<longleftrightarrow> (\<exists>l \<in> set (logical_lines t). \<exists>env e. cfg_wordsplit env l = Some (Inl e) \<and> code = wrdse_to_ex e)"

definition text_ok :: "(string list \<Rightarrow> bool) \<Rightarrow> string \<Rightarrow> bool" where
  "text_ok ok t \<longleftrightarrow> CHR 0x00 \<notin> set t
     \<and> (\<forall>l \<in> set (logical_lines t). \<forall>env. \<exists>w. cfg_wordsplit env l = Some w \<and> (\<forall>ws. w = Inr ws \<longrightarrow> ok ws))"

lemma logical_lines_step:
  assumes "logical_line [] [] t = (l, n, rest, k)"
  shows "set (logical_lines rest) \<subseteq> set (logical_lines t)" "t \<noteq> [] \<Longrightarrow> l \<in> set (logical_lines t)"
  using assms by (cases "t = []"; auto simp: logical_lines.simps [of t] logical_line.simps)+

text \<open>What a handler, and the reader as a whole, may do to the state: the marks of errors stay, and
  the text is only consumed.\<close>

definition cfg_le :: "'s cfg_state \<Rightarrow> 's cfg_state \<Rightarrow> bool" where
  "cfg_le st st' \<longleftrightarrow> (cf_errors st \<longrightarrow> cf_errors st')
     \<and> set (ci_text (cf_in st')) \<subseteq> set (ci_text (cf_in st))
     \<and> set (logical_lines (ci_text (cf_in st'))) \<subseteq> set (logical_lines (ci_text (cf_in st)))
     \<and> length (ci_text (cf_in st')) \<le> length (ci_text (cf_in st))"

lemma cfg_le_refl [simp]: "cfg_le st st"
  by (simp add: cfg_le_def)

lemma cfg_le_trans [trans]: "cfg_le a b \<Longrightarrow> cfg_le b c \<Longrightarrow> cfg_le a c"
  by (auto simp: cfg_le_def)

lemma cfg_le_upd [simp]:
  "cfg_le (st\<lparr>cf_conf := c\<rparr>) st' = cfg_le st st'" "cfg_le st (st'\<lparr>cf_conf := c\<rparr>) = cfg_le st st'"
  "cfg_le st (cfg_error st)"
  by (simp_all add: cfg_le_def cfg_error_def)

lemma cfg_le_text_ok:
  assumes "text_ok ok (ci_text (cf_in st))" "cfg_le st st'"
  shows "text_ok ok (ci_text (cf_in st'))"
  using assms by (auto simp: text_ok_def cfg_le_def)

lemma cfg_le_code: "cfg_le st st' \<Longrightarrow> splitter_code (ci_text (cf_in st')) code \<Longrightarrow> splitter_code (ci_text (cf_in st)) code"
  by (auto simp: cfg_le_def splitter_code_def)

text \<open>The outcome of the reader or of a part of it: a code of the splitter, or a later state with the invariant.\<close>

definition outcome_ok :: "('s \<Rightarrow> bool) \<Rightarrow> 's cfg_state \<Rightarrow> int + 's cfg_state \<Rightarrow> bool" where
  "outcome_ok sinv st r = (case r of Inl code \<Rightarrow> splitter_code (ci_text (cf_in st)) code | Inr st' \<Rightarrow> sinv (cf_conf st') \<and> cfg_le st st')"

lemma outcome_simps [simp]:
  "outcome_ok sinv st (Inl code) = splitter_code (ci_text (cf_in st)) code"
  "outcome_ok sinv st (Inr st') = (sinv (cf_conf st') \<and> cfg_le st st')"
  by (simp_all add: outcome_ok_def)

lemma outcome_trans: "cfg_le st st' \<Longrightarrow> outcome_ok sinv st' r \<Longrightarrow> outcome_ok sinv st r"
  by (auto simp: outcome_ok_def intro: cfg_le_trans cfg_le_code split: sum.splits)

lemma cfg_assign_le:
  assumes "cfg_assign k ws st = Some (st', go)"
  shows "cfg_le st st'"
  using assms
  by (auto simp: cfg_assign_def cfg_set_int_def save_words_def Let_def bind_eq_Some_conv
      split: kw_type.splits if_splits option.splits)

text \<open>
  A table whose assignments and handlers return, when they are called in a
  state with the invariant \<open>inv\<close> and for words that \<open>ok\<close> admits, and keep the
  invariant: then the reader returns for every text, and keeps the invariant, too.
\<close>

locale cfg_table =
  fixes kwtab :: "'s cfg_kw list"
    and inv :: "'s \<Rightarrow> bool"
    and ok :: "string list \<Rightarrow> bool"
  assumes assign_returns: "k \<in> set kwtab \<Longrightarrow> kw_kw k = hd ws \<Longrightarrow> ok ws \<Longrightarrow> inv (cf_conf st) \<Longrightarrow>
      \<exists>st' go. cfg_assign k ws st = Some (st', go) \<and> inv (cf_conf st')"
    and fun_returns: "k \<in> set kwtab \<Longrightarrow> kw_kw k = hd ws \<Longrightarrow> ws \<noteq> [] \<Longrightarrow> kw_fun k = Some f \<Longrightarrow> ok ws \<Longrightarrow> inv (cf_conf st) \<Longrightarrow>
      text_ok ok (ci_text (cf_in st)) \<Longrightarrow>
      \<exists>r. f ws st = Some r \<and> outcome_ok inv st (map_sum id fst r)"
begin

lemma call_returns:
  assumes "k \<in> set kwtab" "kw_kw k = hd ws" "ws \<noteq> []" "ok ws" "inv (cf_conf st)"
    "text_ok ok (ci_text (cf_in st))"
  shows "\<exists>r. cfg_call k ws st = Some r \<and> outcome_ok inv st (map_sum id fst r)"
proof (cases "kw_fun k")
  case None
  with assms(5) show ?thesis by (simp add: cfg_call_def)
next
  case (Some f)
  from fun_returns [OF assms(1-3) Some assms(4-6)] obtain r where
    r: "f ws st = Some r" "outcome_ok inv st (map_sum id fst r)" by blast
  have "inv (cf_conf (cfg_error st')) \<and> cfg_le st (cfg_error st')" if "inv (cf_conf st') \<and> cfg_le st st'" for st'
    using that cfg_le_trans cfg_le_upd(3) by (fastforce simp: cfg_error_def)
  with r show ?thesis by (auto simp: cfg_call_def Some split: sum.split)
qed

lemma words_return:
  assumes "ok ws" "inv (cf_conf st)" "text_ok ok (ci_text (cf_in st))" "env_ok (cl_env cl)"
  shows "\<exists>r. cfg_words kwtab ws cl st = Some r \<and>
    outcome_ok inv st (map_sum id (fst \<circ> snd) r) \<and>
    (\<forall>cl' st' eof. r = Inr (cl', st', eof) \<longrightarrow> env_ok (cl_env cl') \<and> cl_size cl' = cl_size cl)"
proof (cases "ws = [] \<or> asgn_p (hd ws)")
  case True
  have "\<exists>env'. asgn (cl_env cl) w = Some env' \<and> env_ok env'" for w using asgn_array [OF assms(4)] by blast
  then obtain env' where a: "asgn (cl_env cl) (hd ws) = Some env'" "env_ok env'" by blast
  show ?thesis
  proof (cases "ws = []")
    case True
    with assms show ?thesis by (simp add: cfg_words_def)
  next
    case False
    with True a assms show ?thesis by (cases "length ws > 1") (simp_all add: cfg_words_def cfg_error_def cfg_le_def)
  qed
next
  case False
  show ?thesis
  proof (cases "find_cfg_kw kwtab (hd ws)")
    case None
    with False assms show ?thesis by (auto simp: cfg_words_def cfg_error_def cfg_le_def)
  next
    case (Some k)
    then have k: "k \<in> set kwtab" "kw_kw k = hd ws" by (auto simp: find_cfg_kw_def find_Some_iff)
    from assign_returns [OF k assms(1,2)] obtain st1 go where
      a: "cfg_assign k ws st = Some (st1, go)" "inv (cf_conf st1)" by blast
    note le = cfg_assign_le [OF a(1)]
    from call_returns [OF k _ assms(1) a(2) cfg_le_text_ok [OF assms(3) le]] False obtain r where
      r: "cfg_call k ws st1 = Some r"
      "outcome_ok inv st1 (map_sum id fst r)" by blast
    from outcome_trans [OF le r(2)] have "outcome_ok inv st (map_sum id fst r)" .
    with r(1) a le assms(4) False Some show ?thesis by (cases r) (auto simp: cfg_words_def)
  qed
qed

lemma loop_returns:
  assumes "inv (cf_conf st)" "text_ok ok (ci_text (cf_in st))" "env_ok (cl_env cl)"
    and "cl_size cl = 0 \<or> 8 \<le> cl_size cl"
  shows "\<exists>r. parse_config_from kwtab cl st = Some r \<and> outcome_ok inv st r"
  using assms
proof (induction "length (ci_text (cf_in st))" arbitrary: st cl rule: less_induct)
  case less
  show ?case
  proof (cases "ci_feof (cf_in st)")
    case True
    with less.prems show ?thesis by (subst parse_config_from.simps) (simp add: read_line_def)
  next
    case False
    obtain l n rest k where lg: "logical_line [] [] (ci_text (cf_in st)) = (l, n, rest, k)" by (metis prod_cases4)
    from less.prems(2) have nul: "CHR 0x00 \<notin> set (ci_text (cf_in st))" by (simp add: text_ok_def)
    from read_line_logical [OF nul False less.prems(4) lg] obtain f sz where
      rl: "read_line (cl_size cl) (cf_in st) = Some (f, sz, n, l)" "ci_text f = rest" "8 \<le> sz" by blast
    define st1 where "st1 = st\<lparr>cf_in := f\<rparr>"
    define cl1 where "cl1 = cl\<lparr>cl_size := sz\<rparr>"
    have ne: "ci_text (cf_in st) \<noteq> []" if "n \<noteq> 0" using lg that by (auto simp: logical_line.simps)
    note rest = logical_rest [OF lg]
    have le: "cfg_le st st1" using rest rl(2) lg logical_lines_step(1) [OF lg]
      by (cases "ci_text (cf_in st) = []") (auto simp: cfg_le_def st1_def logical_line.simps)
    have pre: "inv (cf_conf st1)" "text_ok ok (ci_text (cf_in st1))" "env_ok (cl_env cl1)"
      using less.prems cfg_le_text_ok [OF less.prems(2) le] by (simp_all add: st1_def cl1_def)
    let ?w = "cfg_wordsplit (if cl_vars cl1 then Some (env_vars (cl_env cl1)) else None) l"
    note unf = parse_config_from.simps [of kwtab cl st, unfolded rl(1) Option.bind.simps prod.case
        Let_def, folded st1_def cl1_def]
    show ?thesis
    proof (cases "n = 0")
      case True
      then show ?thesis using pre le by (auto simp: unf)
    next
      case n: False
      from n logical_lines_step(2) [OF lg ne] have mem: "l \<in> set (logical_lines (ci_text (cf_in st)))" by simp
      with less.prems(2) obtain w where
        w: "?w = Some w" "\<forall>ws. w = Inr ws \<longrightarrow> ok ws" unfolding text_ok_def by blast
      show ?thesis
      proof (cases w)
        case (Inl err)
        with w(1) mem have "splitter_code (ci_text (cf_in st)) (wrdse_to_ex err)" by (auto simp: splitter_code_def)
        with Inl n w show ?thesis by (simp add: unf)
      next
        case ws: (Inr ws)
        with w(2) have "ok ws" by simp
        from words_return [OF this pre(1,2,3)] obtain r where
          r: "cfg_words kwtab ws cl1 st1 = Some r"
          "outcome_ok inv st1 (map_sum id (fst \<circ> snd) r)"
          "\<forall>cl' st' eof. r = Inr (cl', st', eof) \<longrightarrow> env_ok (cl_env cl') \<and> cl_size cl' = cl_size cl1" by blast
        show ?thesis
        proof (cases r)
          case (Inl code)
          with n w(1) ws r(1) outcome_trans [OF le r(2)] show ?thesis by (simp add: unf)
        next
          case (Inr q)
          obtain cl2 st2 eof where q: "q = (cl2, st2, eof)" by (cases q)
          with r(2,3) Inr have i: "inv (cf_conf st2)" "cfg_le st1 st2" "env_ok (cl_env cl2)" "cl_size cl2 = cl_size cl1" by auto
          have lt: "length (ci_text (cf_in st2)) < length (ci_text (cf_in st))"
            using i(2) rest rl(2) ne n by (auto simp: cfg_le_def st1_def)
          from i(2) le have le2: "cfg_le st st2" using cfg_le_trans by blast
          have step: "parse_config_from kwtab cl st =
              (if eof then Some (Inr st2) else parse_config_from kwtab cl2 st2)"
            using n w(1) ws r(1) Inr q by (simp add: unf)
          have "cl_size cl2 = 0 \<or> 8 \<le> cl_size cl2" using i(4) rl(3) by (simp add: cl1_def)
          from less.hyps [OF lt i(1) cfg_le_text_ok [OF less.prems(2) le2] i(3) this] obtain r2 where
            "parse_config_from kwtab cl2 st2 = Some r2"
            "outcome_ok inv st2 r2" by blast
          then show ?thesis unfolding step using i(1) le2 outcome_trans [OF le2] by (cases eof) auto
        qed
      qed
    qed
  qed
qed

end

section \<open>Properties\<close>



text \<open>C33. Numbers in the configuration.  What is stored is in the range of an \<open>int\<close>; a
  signed number is accepted exactly if it is the value (modulo two to the 64) of an \<open>int\<close>, so that
  negative numbers are read correctly, and an unsigned one exactly if it fits in 32
  bits; anything that is not a number is refused.\<close>

theorem parse_int_range:
  assumes "strtoul str base = (n, rest)"
  shows "(rest \<noteq> [] \<longrightarrow> parse_int str base sign = None)
    \<and> (rest = [] \<longrightarrow> (\<forall>i. parse_int str base True = Some i \<longleftrightarrow> - (2 ^ 31) \<le> i \<and> i < 2 ^ 31 \<and> i mod 2 ^ 64 = int n))
    \<and> (rest = [] \<longrightarrow> (\<forall>i. parse_int str base False = Some i \<longleftrightarrow>
          n < 2 ^ 32 \<and> i = (if n < 2 ^ 31 then int n else int n - 2 ^ 32)))"
proof -
  have u: "unat (word_of_nat n :: 32 word) = n \<longleftrightarrow> n < 2 ^ 32"
    by (simp add: unat_of_nat mod_eq_self_iff_div_eq_0 div_eq_0_iff)
  have signed: "parse_int str base True = Some i \<longleftrightarrow> - (2 ^ 31) \<le> i \<and> i < 2 ^ 31 \<and> i mod 2 ^ 64 = int n"
    if "rest = []" for i
  proof
    assume "parse_int str base True = Some i"
    then have "i = sint (word_of_nat n :: 32 word)" "i mod 2 ^ 64 = int n"
      using assms that by (auto simp: parse_int_def Let_def split: if_splits)
    then show "- (2 ^ 31) \<le> i \<and> i < 2 ^ 31 \<and> i mod 2 ^ 64 = int n"
      using sint_range32 [of "word_of_nat n"] by blast
  next
    assume "- (2 ^ 31) \<le> i \<and> i < 2 ^ 31 \<and> i mod 2 ^ 64 = int n"
    with sint_int_back [of i n] assms that show "parse_int str base True = Some i"
      by (simp add: parse_int_def Let_def)
  qed
  have unsigned: "parse_int str base False = Some i \<longleftrightarrow> n < 2 ^ 32 \<and> i = (if n < 2 ^ 31 then int n else int n - 2 ^ 32)"
    if "rest = []" for i
  proof (cases "n < 2 ^ 32")
    case True
    then have "parse_int str base False = Some (sint (word_of_nat n :: 32 word))"
      using assms that u by (simp add: parse_int_def Let_def)
    with True sint_small [OF True] show ?thesis by auto
  next
    case False
    with assms that u show ?thesis by (simp add: parse_int_def Let_def)
  qed
  have "rest \<noteq> [] \<Longrightarrow> parse_int str base sign = None" using assms by (simp add: parse_int_def)
  with signed unsigned show ?thesis by blast
qed

theorem parse_int_range_witness: "parse_int ''-8'' 10 True = Some (- 8) \<and> parse_int ''-8'' 10 False = None"
proof -
  have "strtoul ''-8'' 10 = (18446744073709551608, [])"
    by (simp add: strtoul_def isspace_def strtoul_base_def strtoul_digits_def digit_val_def number_of_def Let_def
        SIZE_MAX_def)
  from parse_int_range [OF this] show ?thesis by simp
qed

text \<open>Assignments to variables.  A new variable is added behind the others; but an
  assignment to one that exists drops all the variables that were assigned after it.  The array is never overrun.\<close>

theorem asgn_forgets:
  assumes "env_ok env"
  shows "\<exists>env'. asgn env word = Some env' \<and> env_ok env'
    \<and> env_vars env' = takeWhile (\<lambda>v. \<not> same_var word v) (env_vars env) @ [word]"
  using asgn_array [OF assms, of word] by blast

theorem asgn_forgets_witness:
  "\<exists>env1 env2 env3. asgn [] ''A=1'' = Some env1 \<and> asgn env1 ''B=2'' = Some env2 \<and> env_vars env2 = [''A=1'', ''B=2'']
    \<and> asgn env2 ''A=3'' = Some env3 \<and> env_vars env3 = [''A=3'']"
proof -
  have "env_ok []" by (simp add: env_ok_def)
  from asgn_forgets [OF this, of "''A=1''"] obtain env1 where
    1: "asgn [] ''A=1'' = Some env1" "env_ok env1" "env_vars env1 = [''A=1'']"
    by (auto simp: env_vars_def [of "[]"])
  from asgn_forgets [OF 1(2), of "''B=2''"] 1(3) obtain env2 where
    2: "asgn env1 ''B=2'' = Some env2" "env_ok env2" "env_vars env2 = [''A=1'', ''B=2'']" by auto
  from asgn_forgets [OF 2(2), of "''A=3''"] 2(3) obtain env3 where
    "asgn env2 ''A=3'' = Some env3" "env_vars env3 = [''A=3'']" by auto
  with 1 2 show ?thesis by blast
qed

end
