(* ===== verification/Smap_Config.thy ===== *)
theory Smap_Config
  imports Smap_Cfg Smap_Url Smap_Privs Smap_Smapd Smap_Srvman
begin

text \<open>
  The configuration of the daemon (\<open>src/smapd.c\<close>, \<open>src/log.c\<close>): the handlers of
  the statements and the two tables that the reader of \<open>Smap_Cfg\<close> interprets.

  \<open>smapd_conf\<close> holds the variables that the statements set, together with the
  tables of modules, databases, rules and servers that they fill; the data
  of a server are its privileges.  A pointer to a server is its number in
  the list (no server is released while the configuration is read).
\<close>

section \<open>State\<close>

record ('h, 're) smapd_conf =
  sc_inetd_mode :: int
  sc_pidfile :: "string option"
  sc_foreground :: int
  sc_idle_timeout :: int
  sc_log_to_stderr :: int
  sc_log_tag :: "string option"
  sc_log_facility :: int
  sc_trace_option :: int
  sc_trace_patterns :: "string list"
  sc_debug :: debug_state
  sc_global_privs :: privinfo
  sc_param :: srvman_param
  sc_srvman :: "privinfo srvman"
  sc_modules :: "'h modules"
  sc_rules :: "'re dispatch_rule list"

text \<open>The environment: the name of the file, the name
  services, and the outcomes of the allocations for the table of debugging levels.\<close>

record 're conf_env =
  cv_file :: string
  cv_url :: url_env
  cv_users :: user_db
  cv_query :: "'re query_env"
  cv_debug_alloc :: bool
  cv_debug_dup :: bool

type_synonym ('h, 're) cstate = "('h, 're) smapd_conf cfg_state"
type_synonym ('h, 're) handler = "string list \<Rightarrow> ('h, 're) cstate \<Rightarrow> (int + ('h, 're) cstate \<times> int) option"

definition upd_conf :: "(('h, 're) smapd_conf \<Rightarrow> ('h, 're) smapd_conf) \<Rightarrow> ('h, 're) cstate \<Rightarrow> ('h, 're) cstate" where
  "upd_conf f st = st\<lparr>cf_conf := f (cf_conf st)\<rparr>"

text \<open>Returning a code; the check of the number of words that starts every handler.\<close>

definition ret :: "int \<Rightarrow> ('h, 're) cstate \<Rightarrow> (int + ('h, 're) cstate \<times> int) option" where
  "ret rc st = Some (Inr (st, rc))"

definition chkargc :: "nat \<Rightarrow> nat \<Rightarrow> ('h, 're) handler \<Rightarrow> ('h, 're) handler" where
  "chkargc mn mx h ws st = (if cfg_chkargc (length ws) mn mx then ret 1 (cfg_error st) else h ws st)"

text \<open>\<open>CFG_GETNUM\<close> for a variable of \<open>w\<close> bits.\<close>

definition CFG_GETNUM :: "nat \<Rightarrow> string \<Rightarrow> nat option" where
  "CFG_GETNUM w str =
     (case strtoul str 0 of (n, p) \<Rightarrow> if p \<noteq> [] then None else if n mod 2 ^ w \<noteq> n then None else Some n)"

section \<open>Global settings\<close>

definition bool_invert :: "('h, 're) handler" where
  "bool_invert ws st =
     ret 0 (upd_conf (\<lambda>c. c\<lparr>sc_log_to_stderr := (if sc_log_to_stderr c = 0 then 1 else 0)\<rparr>) st)"

definition kw_facility :: "int kwtab" where
  "kw_facility =
     [(''USER'', 8), (''user'', 8), (''DAEMON'', 24), (''daemon'', 24), (''AUTH'', 32), (''auth'', 32),
      (''AUTHPRIV'', 80), (''authpriv'', 80), (''MAIL'', 16), (''mail'', 16), (''CRON'', 72), (''cron'', 72),
      (''LOCAL0'', 128), (''local0'', 128), (''LOCAL1'', 136), (''local1'', 136), (''LOCAL2'', 144), (''local2'', 144),
      (''LOCAL3'', 152), (''local3'', 152), (''LOCAL4'', 160), (''local4'', 160), (''LOCAL5'', 168), (''local5'', 168),
      (''LOCAL6'', 176), (''local6'', 176), (''LOCAL7'', 184), (''local7'', 184)]"

definition syslog_fname_to_n :: "string \<Rightarrow> int option" where
  "syslog_fname_to_n str = smap_kwtab_nametotok kw_facility str"

definition set_syslog_facility :: "('h, 're) handler" where
  "set_syslog_facility = chkargc 2 2 (\<lambda>ws st.
     case syslog_fname_to_n (ws ! 1) of
       None \<Rightarrow> ret 1 st
     | Some n \<Rightarrow> ret 0 (upd_conf (\<lambda>c. c\<lparr>sc_log_facility := n\<rparr>) st))"

definition cfg_debug :: "'re conf_env \<Rightarrow> ('h, 're) handler" where
  "cfg_debug ev = chkargc 2 2 (\<lambda>ws st. do {
     (d, rc) \<leftarrow> smap_debug_set (cv_debug_alloc ev) (cv_debug_dup ev) (sc_debug (cf_conf st)) (ws ! 1);
     ret (if rc \<noteq> 0 then 1 else 0) (upd_conf (\<lambda>c. c\<lparr>sc_debug := d\<rparr>) st)
   })"

definition cfg_trace_pattern :: "('h, 're) handler" where
  "cfg_trace_pattern = chkargc 2 0 (\<lambda>ws st.
     ret 0 (upd_conf (\<lambda>c. c\<lparr>sc_trace_patterns := sc_trace_patterns c @ tl ws\<rparr>) st))"

definition cfg_user :: "'re conf_env \<Rightarrow> ('h, 're) handler" where
  "cfg_user ev = chkargc 2 2 (\<lambda>ws st. do {
     pi \<leftarrow> privinfo_set_user (cv_users ev) (sc_global_privs (cf_conf st)) (ws ! 1);
     ret 0 (upd_conf (\<lambda>c. c\<lparr>sc_global_privs := pi\<rparr>) st)
   })"

fun add_groups :: "user_db \<Rightarrow> string list \<Rightarrow> privinfo \<Rightarrow> privinfo option" where
  "add_groups db [] pi = Some pi"
| "add_groups db (w # ws) pi = do { pi \<leftarrow> privinfo_add_grpnam db pi w; add_groups db ws pi }"

definition cfg_group :: "'re conf_env \<Rightarrow> ('h, 're) handler" where
  "cfg_group ev = chkargc 2 0 (\<lambda>ws st. do {
     pi \<leftarrow> add_groups (cv_users ev) (tl ws) (sc_global_privs (cf_conf st));
     ret 0 (upd_conf (\<lambda>c. c\<lparr>sc_global_privs := pi\<rparr>) st)
   })"

definition cfg_socket_mode :: "('h, 're) handler" where
  "cfg_socket_mode = chkargc 2 2 (\<lambda>ws st.
     case parse_mode_string (ws ! 1) of
       None \<Rightarrow> ret 1 st
     | Some m \<Rightarrow> ret 0 (upd_conf (\<lambda>c. c\<lparr>sc_param := (sc_param c)\<lparr>sp_socket_mode := m\<rparr>\<rparr>) st))"

definition cfg_global_max_children :: "('h, 're) handler" where
  "cfg_global_max_children = chkargc 2 2 (\<lambda>ws st.
     case CFG_GETNUM 64 (ws ! 1) of
       None \<Rightarrow> ret 1 st
     | Some n \<Rightarrow> ret 0 (upd_conf (\<lambda>c. c\<lparr>sc_param := (sc_param c)\<lparr>sp_max_children := n\<rparr>\<rparr>) st))"

definition cfg_load_path :: "nat \<Rightarrow> ('h, 're) handler" where
  "cfg_load_path pathid = chkargc 2 2 (\<lambda>ws st.
     ret 0 (upd_conf (\<lambda>c. c\<lparr>sc_modules := add_load_path (sc_modules c) (ws ! 1) pathid\<rparr>) st))"

definition cfg_module :: "'re conf_env \<Rightarrow> ('h, 're) handler" where
  "cfg_module ev = chkargc 3 0 (\<lambda>ws st.
     case module_declare (sc_modules (cf_conf st)) (cv_file ev) (ci_line (cf_in st)) (ws ! 1) (drop 2 ws) of
       (ms, rc, _) \<Rightarrow> ret (if rc \<noteq> 0 then 1 else 0) (upd_conf (\<lambda>c. c\<lparr>sc_modules := ms\<rparr>) st))"

definition cfg_database :: "'re conf_env \<Rightarrow> ('h, 're) handler" where
  "cfg_database ev = chkargc 3 0 (\<lambda>ws st.
     case database_declare (sc_modules (cf_conf st)) (cv_file ev) (ci_line (cf_in st)) (ws ! 1) (ws ! 2) (drop 2 ws) of
       (ms, rc, _) \<Rightarrow> ret (if rc \<noteq> 0 then 1 else 0) (upd_conf (\<lambda>c. c\<lparr>sc_modules := ms\<rparr>) st))"

definition cfg_dispatch :: "'re conf_env \<Rightarrow> ('h, 're) handler" where
  "cfg_dispatch ev = chkargc 3 0 (\<lambda>ws st. do {
     (rules, rc) \<leftarrow> parse_dispatch (cv_query ev) (cv_file ev) (ci_line (cf_in st)) (sc_rules (cf_conf st)) (tl ws);
     ret rc (upd_conf (\<lambda>c. c\<lparr>sc_rules := rules\<rparr>) st)
   })"

section \<open>Settings of a server\<close>

definition conf_server :: "nat \<Rightarrow> ('h, 're) smapd_conf \<Rightarrow> privinfo smap_server option" where
  "conf_server p c = find (\<lambda>s. srv_ptr s = p) (sm_servers (sc_srvman c))"

definition set_server :: "privinfo smap_server \<Rightarrow> ('h, 're) smapd_conf \<Rightarrow> ('h, 're) smapd_conf" where
  "set_server srv c = c\<lparr>sc_srvman := update_server (sc_srvman c) srv\<rparr>"

text \<open>A handler on the server \<open>p\<close>: the new server and the code.\<close>

definition on_server ::
  "nat \<Rightarrow> nat \<Rightarrow> nat \<Rightarrow> (string list \<Rightarrow> privinfo smap_server \<Rightarrow> (privinfo smap_server \<times> int) option) \<Rightarrow> ('h, 're) handler"
where
  "on_server p mn mx h = chkargc mn mx (\<lambda>ws st. do {
     srv \<leftarrow> conf_server p (cf_conf st);
     (srv', rc) \<leftarrow> h ws srv;
     ret rc (upd_conf (set_server srv') st)
   })"

definition cfg_backlog :: "nat \<Rightarrow> ('h, 're) handler" where
  "cfg_backlog p = on_server p 2 2 (\<lambda>ws srv. Some
     (case CFG_GETNUM 32 (ws ! 1) of
        None \<Rightarrow> (srv, 1)
      | Some n \<Rightarrow> (smap_server_set_backlog srv (sint (word_of_nat n :: 32 word)), 0)))"

text \<open>An invalid value is marked as an error by the parser of the value.\<close>

definition cfg_server_flag :: "nat \<Rightarrow> flagword \<Rightarrow> ('h, 're) handler" where
  "cfg_server_flag p flag = on_server p 2 2 (\<lambda>ws srv. Some
     (case cfg_parse_bool (ws ! 1) of
        None \<Rightarrow> (srv, 1)
      | Some n \<Rightarrow> (smap_server_set_flags srv flag (if n \<noteq> 0 then srvman_bitop_set else srvman_bitop_clr), 0)))"

definition cfg_reuseaddr :: "nat \<Rightarrow> ('h, 're) handler" where
  "cfg_reuseaddr p = cfg_server_flag p SRV_KEEP_EXISTING"

definition cfg_single_process :: "nat \<Rightarrow> ('h, 're) handler" where
  "cfg_single_process p = cfg_server_flag p SRV_SINGLE_PROCESS"

definition cfg_max_children :: "nat \<Rightarrow> ('h, 're) handler" where
  "cfg_max_children p = on_server p 2 2 (\<lambda>ws srv. Some
     (case CFG_GETNUM 64 (ws ! 1) of
        None \<Rightarrow> (srv, 1)
      | Some n \<Rightarrow> (smap_server_set_max_children srv n, 0)))"

definition get_server_privinfo :: "privinfo smap_server \<Rightarrow> privinfo" where
  "get_server_privinfo srv =
     (case srv_data srv of
        Some pi \<Rightarrow> pi
      | None \<Rightarrow> \<lparr>pi_uid = 0, pi_gids = [], pi_gc = 0, pi_gi = 0, pi_allgroups = False\<rparr>)"

definition cfg_srv_user :: "'re conf_env \<Rightarrow> nat \<Rightarrow> ('h, 're) handler" where
  "cfg_srv_user ev p = on_server p 2 2 (\<lambda>ws srv. do {
     pi \<leftarrow> privinfo_set_user (cv_users ev) (get_server_privinfo srv) (ws ! 1);
     Some (smap_server_set_data srv (Some pi), 0)
   })"

definition cfg_srv_group :: "'re conf_env \<Rightarrow> nat \<Rightarrow> ('h, 're) handler" where
  "cfg_srv_group ev p = on_server p 2 0 (\<lambda>ws srv. do {
     pi \<leftarrow> add_groups (cv_users ev) (tl ws) (get_server_privinfo srv);
     Some (smap_server_set_data srv (Some pi), 0)
   })"

definition cfg_srv_allgroups :: "nat \<Rightarrow> ('h, 're) handler" where
  "cfg_srv_allgroups p = on_server p 2 2 (\<lambda>ws srv.
     Some (smap_server_set_data srv (Some ((get_server_privinfo srv)\<lparr>pi_allgroups := True\<rparr>)), 0))"

text \<open>An identifier as a value of \<open>uid_t\<close> or \<open>gid_t\<close>; \<open>None\<close> is minus one.\<close>

definition id_value :: "nat \<Rightarrow> nat option" where
  "id_value n = (let m = n mod 2 ^ 32 in if m = 2 ^ 32 - 1 then None else Some m)"

text \<open>A user and the group it implies, and a group; the outer \<open>None\<close> is a name that is unknown.\<close>

definition chown_user :: "user_db \<Rightarrow> string \<Rightarrow> bool \<Rightarrow> (nat option \<times> nat option) option" where
  "chown_user db user has_group =
     (if user = [] then Some (None, None)
      else case udb_name db user of
          Some (uid, gid) \<Rightarrow> Some (id_value uid, if has_group then None else id_value gid)
        | None \<Rightarrow> (case strtoul user 0 of (n, p) \<Rightarrow> if p \<noteq> [] then None else Some (id_value n, None)))"

definition chown_group :: "user_db \<Rightarrow> string \<Rightarrow> nat option option" where
  "chown_group db grp =
     (case udb_group db grp of
        Some gid \<Rightarrow> Some (id_value gid)
      | None \<Rightarrow> (case strtoul grp 0 of (n, p) \<Rightarrow> if p \<noteq> [] then None else Some (id_value n)))"

definition chown_server :: "user_db \<Rightarrow> string \<Rightarrow> privinfo smap_server \<Rightarrow> (privinfo smap_server \<times> int) option" where
  "chown_server db word srv =
     (let user = takeWhile (\<lambda>c. c \<noteq> CHR ''.'' \<and> c \<noteq> CHR '':'') word;
          has_group = length user < length word;
          grp = drop (length user + 1) word
      in case chown_user db user has_group of
           None \<Rightarrow> Some (srv, 1)
         | Some (uid, gid) \<Rightarrow>
             (case (if has_group \<and> grp \<noteq> [] then chown_group db grp else Some gid) of
                None \<Rightarrow> Some (srv, 1)
              | Some gid \<Rightarrow> do {
                  srv \<leftarrow> (if uid \<noteq> None \<and> gid \<noteq> None then do {
                            pi \<leftarrow> privinfo_add_grpgid (get_server_privinfo srv) (the gid);
                            Some (smap_server_set_data srv (Some pi)) }
                          else Some srv);
                  Some (smap_server_set_owner srv uid gid, 0)
                }))"

definition cfg_srv_chown :: "'re conf_env \<Rightarrow> nat \<Rightarrow> ('h, 're) handler" where
  "cfg_srv_chown ev p = on_server p 2 2 (\<lambda>ws srv. chown_server (cv_users ev) (ws ! 1) srv)"

definition cfg_srv_socket_mode :: "nat \<Rightarrow> ('h, 're) handler" where
  "cfg_srv_socket_mode p = on_server p 2 2 (\<lambda>ws srv. Some
     (case parse_mode_string (ws ! 1) of
        None \<Rightarrow> (srv, 1)
      | Some m \<Rightarrow> (smap_server_set_mode srv m, 0)))"

section \<open>Tables\<close>

definition kw_fn :: "string \<Rightarrow> ('h, 're) handler \<Rightarrow> ('h, 're) smapd_conf cfg_kw" where
  "kw_fn name f = \<lparr>kw_kw = name, kw_type = KWT_FUN, kw_ival = None, kw_sval = None, kw_aval = None, kw_fun = Some f\<rparr>"

definition kw_int :: "string \<Rightarrow> kw_type \<Rightarrow> (int \<Rightarrow> ('h, 're) smapd_conf \<Rightarrow> ('h, 're) smapd_conf) \<Rightarrow> ('h, 're) smapd_conf cfg_kw" where
  "kw_int name t v = \<lparr>kw_kw = name, kw_type = t, kw_ival = Some v, kw_sval = None, kw_aval = None, kw_fun = None\<rparr>"

definition kw_str :: "string \<Rightarrow> (string \<Rightarrow> ('h, 're) smapd_conf \<Rightarrow> ('h, 're) smapd_conf) \<Rightarrow> ('h, 're) smapd_conf cfg_kw" where
  "kw_str name v = \<lparr>kw_kw = name, kw_type = KWT_STRING, kw_ival = None, kw_sval = Some v, kw_aval = None, kw_fun = None\<rparr>"

definition server_kwtab :: "'re conf_env \<Rightarrow> nat \<Rightarrow> ('h, 're) smapd_conf cfg_kw list" where
  "server_kwtab ev p =
     [\<lparr>kw_kw = ''end'', kw_type = KWT_EOF, kw_ival = None, kw_sval = None, kw_aval = None, kw_fun = None\<rparr>,
      kw_fn ''backlog'' (cfg_backlog p),
      kw_fn ''reuseaddr'' (cfg_reuseaddr p),
      kw_fn ''max-children'' (cfg_max_children p),
      kw_fn ''single-process'' (cfg_single_process p),
      kw_fn ''user'' (cfg_srv_user ev p),
      kw_fn ''group'' (cfg_srv_group ev p),
      \<lparr>kw_kw = ''allgroups'', kw_type = KWT_BOOL, kw_ival = None, kw_sval = None, kw_aval = None,
       kw_fun = Some (cfg_srv_allgroups p)\<rparr>,
      kw_fn ''socket-owner'' (cfg_srv_chown ev p),
      kw_fn ''socket-mode'' (cfg_srv_socket_mode p)]"

text \<open>The parser of addresses, with the sizes of the two structures; \<open>None\<close> is the fault of a
  name that does not fit.\<close>

definition server_address :: "url_env \<Rightarrow> string \<Rightarrow> (sockaddr \<times> nat) option option" where
  "server_address ue url =
     (case smap_url_parse ue url of
        None \<Rightarrow> None
      | Some (Inl e) \<Rightarrow> Some None
      | Some (Inr (S_UN path)) \<Rightarrow> Some (Some (AF_UNIX path, 110))
      | Some (Inr (S_IN a port)) \<Rightarrow> Some (Some (AF_INET a, 16)))"

definition cfg_server :: "'re conf_env \<Rightarrow> ('h, 're) handler" where
  "cfg_server ev = chkargc 3 4 (\<lambda>ws st. do {
     let sm = sc_srvman (cf_conf st);
     let p = length (sm_servers sm);
     sa \<leftarrow> server_address (cv_url ev) (ws ! 2);
     (case smap_server_new (\<lambda>_. sa) p (ws ! 1) (ws ! 2) 0 of
        None \<Rightarrow> ret 1 st
      | Some srv \<Rightarrow>
          let st = upd_conf (\<lambda>c. c\<lparr>sc_srvman := smap_srvman_attach_server sm srv\<rparr>) st in
          if length ws = 4 then
            if ws ! 3 \<noteq> ''begin'' then ret 1 st
            else do {
              r \<leftarrow> parse_config_loop (server_kwtab ev p) st;
              (case r of Inl code \<Rightarrow> Some (Inl code) | Inr st \<Rightarrow> ret 0 st)
            }
          else ret 0 st)
   })"

definition uint_value :: "int \<Rightarrow> nat" where "uint_value i = nat (i mod 2 ^ 32)"

definition smap_kwtab :: "'re conf_env \<Rightarrow> ('h, 're) smapd_conf cfg_kw list" where
  "smap_kwtab ev =
     [kw_int ''inetd-mode'' KWT_BOOL (\<lambda>i c. c\<lparr>sc_inetd_mode := i\<rparr>),
      kw_str ''pidfile'' (\<lambda>s c. c\<lparr>sc_pidfile := Some s\<rparr>),
      kw_int ''foreground'' KWT_BOOL (\<lambda>i c. c\<lparr>sc_foreground := i\<rparr>),
      kw_int ''idle-timeout'' KWT_UINT (\<lambda>i c. c\<lparr>sc_idle_timeout := i\<rparr>),
      kw_int ''log-to-stderr'' KWT_BOOL (\<lambda>i c. c\<lparr>sc_log_to_stderr := i\<rparr>),
      (kw_int ''log-to-syslog'' KWT_BOOL (\<lambda>i c. c\<lparr>sc_log_to_stderr := i\<rparr>))\<lparr>kw_fun := Some bool_invert\<rparr>,
      kw_str ''log-tag'' (\<lambda>s c. c\<lparr>sc_log_tag := Some s\<rparr>),
      kw_fn ''log-facility'' set_syslog_facility,
      kw_fn ''debug'' (cfg_debug ev),
      kw_int ''trace'' KWT_BOOL (\<lambda>i c. c\<lparr>sc_trace_option := i\<rparr>),
      kw_fn ''trace-pattern'' cfg_trace_pattern,
      kw_fn ''user'' (cfg_user ev),
      kw_fn ''group'' (cfg_group ev),
      kw_int ''allgroups'' KWT_BOOL (\<lambda>i c. c\<lparr>sc_global_privs := (sc_global_privs c)\<lparr>pi_allgroups := (i \<noteq> 0)\<rparr>\<rparr>),
      kw_fn ''socket-mode'' cfg_socket_mode,
      kw_int ''shutdown-timeout'' KWT_UINT (\<lambda>i c. c\<lparr>sc_param := (sc_param c)\<lparr>sp_shutdown_timeout := uint_value i\<rparr>\<rparr>),
      kw_int ''backlog'' KWT_INT (\<lambda>i c. c\<lparr>sc_param := (sc_param c)\<lparr>sp_backlog := i\<rparr>\<rparr>),
      kw_int ''reuseaddr'' KWT_BOOL (\<lambda>i c. c\<lparr>sc_param := (sc_param c)\<lparr>sp_reuseaddr := (i \<noteq> 0)\<rparr>\<rparr>),
      kw_fn ''max-children'' cfg_global_max_children,
      kw_int ''single-process'' KWT_BOOL (\<lambda>i c. c\<lparr>sc_param := (sc_param c)\<lparr>sp_single_process := (i \<noteq> 0)\<rparr>\<rparr>),
      kw_fn ''server'' (cfg_server ev),
      kw_fn ''load-path'' (cfg_load_path 1),
      kw_fn ''append-load-path'' (cfg_load_path 1),
      kw_fn ''prepend-load-path'' (cfg_load_path 0),
      kw_fn ''module'' (cfg_module ev),
      kw_fn ''database'' (cfg_database ev),
      kw_fn ''dispatch'' (cfg_dispatch ev)]"

section \<open>What every configuration satisfies\<close>

text \<open>
  The tables are those of a daemon that has not been started: identifiers are distinct, no
  module is loaded and no database has a handle, the servers are numbered and idle, and
  the arrays of groups are consistent.
\<close>

definition conf_inv :: "('h, 're) smapd_conf \<Rightarrow> bool" where
  "conf_inv c \<longleftrightarrow>
     ids_distinct (sc_modules c)
     \<and> list_all (\<lambda>d. db_dbh d = None \<and> \<not> db_opened d) (database_list (sc_modules c))
     \<and> list_all (\<lambda>m. \<not> mi_handle m) (module_list (sc_modules c))
     \<and> map srv_ptr (sm_servers (sc_srvman c)) = [0..<length (sm_servers (sc_srvman c))]
     \<and> list_all idle_server (sm_servers (sc_srvman c))
     \<and> list_all (\<lambda>s. user_inv (get_server_privinfo s)) (sm_servers (sc_srvman c))
     \<and> sm_num_children (sc_srvman c) = 0
     \<and> user_inv (sc_global_privs c)"

text \<open>The statements for which the handlers are known to return: \<open>allgroups\<close> with a value only where the text has no server block
  (\<open>blocks\<close>), since the table of such a block enters it with a null pointer; \<open>debug\<close> with a number, which cannot enlarge the table of
  categories; no \<open>dispatch\<close> whose conditions \<open>from\<close> fault, and no \<open>server\<close> whose address overruns its array.\<close>

definition stmt_ok :: "'re conf_env \<Rightarrow> bool \<Rightarrow> string list \<Rightarrow> bool" where
  "stmt_ok ev blocks ws \<longleftrightarrow> ws \<noteq> [] \<longrightarrow>
     (if blocks then hd ws = ''allgroups'' \<and> length ws = 2 \<longrightarrow> cfg_parse_bool (ws ! 1) = None
      else \<not> (hd ws = ''server'' \<and> length ws = 4))
     \<and> (hd ws = ''debug'' \<and> length ws = 2 \<longrightarrow> ws ! 1 \<noteq> [] \<and> is_digit (hd (ws ! 1)))
     \<and> (hd ws = ''dispatch'' \<longrightarrow> parse_dispatch (cv_query ev) (cv_file ev) 0 [] (tl ws) \<noteq> None)
     \<and> (hd ws = ''server'' \<and> 2 < length ws \<longrightarrow> smap_url_parse (cv_url ev) (ws ! 2) \<noteq> None)"

lemma user_inv_fresh [simp]: "user_inv \<lparr>pi_uid = 0, pi_gids = [], pi_gc = 0, pi_gi = 0, pi_allgroups = a\<rparr>"
  by (simp add: user_inv_def privs_inv_def)

lemma add_grpnam_inv:
  assumes "user_inv pi"
  shows "\<exists>pi'. privinfo_add_grpnam db pi w = Some pi' \<and> user_inv pi'"
  using assms add_grpgid_user by (auto simp: privinfo_add_grpnam_def user_inv_def split: option.split)

lemma add_groups_inv:
  assumes "user_inv pi"
  shows "\<exists>pi'. add_groups db ws pi = Some pi' \<and> user_inv pi'"
  using assms
proof (induction ws arbitrary: pi)
  case (Cons w ws)
  from add_grpnam_inv [OF Cons.prems, of db w] Cons.IH show ?case by force
qed simp

lemma set_user_inv:
  assumes "user_inv pi"
  shows "\<exists>pi'. privinfo_set_user db pi w = Some pi' \<and> user_inv pi'"
proof -
  have "privs_inv (pi\<lparr>pi_uid := u\<rparr>)" for u using assms by (simp add: user_inv_def privs_inv_def)
  with add_grpgid_user assms show ?thesis
    by (simp add: privinfo_set_user_def split: option.split prod.split)
qed

text \<open>What a change of the server \<open>p\<close> has to respect.\<close>

definition same_server :: "privinfo smap_server \<Rightarrow> privinfo smap_server \<Rightarrow> bool" where
  "same_server srv srv' \<longleftrightarrow> srv_ptr srv' = srv_ptr srv \<and> srv_num_children srv' = srv_num_children srv
     \<and> srv_pidtab srv' = srv_pidtab srv \<and> user_inv (get_server_privinfo srv')"

lemma conf_server_found:
  assumes "conf_inv c" "p < length (sm_servers (sc_srvman c))"
  shows "\<exists>srv. conf_server p c = Some srv \<and> srv_ptr srv = p \<and> srv \<in> set (sm_servers (sc_srvman c))"
proof -
  have "p \<in> set (map srv_ptr (sm_servers (sc_srvman c)))" using assms by (simp add: conf_inv_def)
  then show ?thesis
    by (cases "conf_server p c") (auto simp: conf_server_def find_None_iff find_Some_iff)
qed

lemma set_server_inv:
  assumes "conf_inv c" "srv \<in> set (sm_servers (sc_srvman c))" "same_server srv srv'"
  shows "conf_inv (set_server srv' c)"
    "length (sm_servers (sc_srvman (set_server srv' c))) = length (sm_servers (sc_srvman c))"
proof -
  let ?up = "\<lambda>s. if srv_ptr s = srv_ptr srv' then srv' else s"
  have ptr: "map srv_ptr (map ?up xs) = map srv_ptr xs" for xs by (induction xs) auto
  have "idle_server srv'" using assms by (auto simp: conf_inv_def same_server_def idle_server_def list_all_iff)
  then have "list_all idle_server (map ?up xs)" if "list_all idle_server xs" for xs
    using that by (auto simp: list_all_iff)
  moreover have "list_all (\<lambda>s. user_inv (get_server_privinfo s)) (map ?up xs)"
    if "list_all (\<lambda>s. user_inv (get_server_privinfo s)) xs" for xs
    using that assms(3) by (auto simp: list_all_iff same_server_def)
  ultimately show "conf_inv (set_server srv' c)"
    using assms(1) ptr [of "sm_servers (sc_srvman c)"]
    by (simp add: conf_inv_def set_server_def update_server_def)
  show "length (sm_servers (sc_srvman (set_server srv' c))) = length (sm_servers (sc_srvman c))"
    by (simp add: set_server_def update_server_def)
qed

lemma on_server_returns:
  assumes "conf_inv (cf_conf st)" "p < length (sm_servers (sc_srvman (cf_conf st)))"
    and "\<And>srv. user_inv (get_server_privinfo srv) \<Longrightarrow> \<exists>srv' rc. h ws srv = Some (srv', rc) \<and> same_server srv srv'"
  shows "\<exists>r. on_server p mn mx h ws st = Some r
    \<and> outcome_ok (\<lambda>c. conf_inv c \<and> p < length (sm_servers (sc_srvman c))) st (map_sum id fst r)"
proof (cases "cfg_chkargc (length ws) mn mx")
  case True
  with assms(1,2) show ?thesis by (simp add: on_server_def chkargc_def ret_def cfg_error_def cfg_le_def)
next
  case False
  from conf_server_found [OF assms(1,2)] obtain srv where
    s: "conf_server p (cf_conf st) = Some srv" "srv \<in> set (sm_servers (sc_srvman (cf_conf st)))" by blast
  then have "user_inv (get_server_privinfo srv)" using assms(1) by (auto simp: conf_inv_def list_all_iff)
  from assms(3) [OF this] obtain srv' rc where h: "h ws srv = Some (srv', rc)" "same_server srv srv'" by blast
  from set_server_inv [OF assms(1) s(2) h(2)] assms(2) show ?thesis
    using False s h(1) by (simp add: on_server_def chkargc_def ret_def upd_conf_def)
qed

lemma same_server_simps [simp]:
  "same_server srv srv \<longleftrightarrow> user_inv (get_server_privinfo srv)"
  "same_server srv (smap_server_set_backlog srv n) \<longleftrightarrow> user_inv (get_server_privinfo srv)"
  "same_server srv (smap_server_set_max_children srv k) \<longleftrightarrow> user_inv (get_server_privinfo srv)"
  "same_server srv (smap_server_set_mode srv k) \<longleftrightarrow> user_inv (get_server_privinfo srv)"
  "same_server srv (smap_server_set_flags srv b bop) \<longleftrightarrow> user_inv (get_server_privinfo srv)"
  "same_server srv (smap_server_set_data srv (Some pi)) \<longleftrightarrow> user_inv pi"
  "same_server srv (smap_server_set_owner srv u g) \<longleftrightarrow> user_inv (get_server_privinfo srv)"
  "same_server srv (smap_server_set_owner (smap_server_set_data srv (Some pi)) u g) \<longleftrightarrow> user_inv pi"
  by (auto simp: same_server_def smap_server_set_backlog_def smap_server_set_max_children_def
      smap_server_set_mode_def smap_server_set_flags_def smap_server_set_data_def smap_server_set_owner_def
      get_server_privinfo_def Let_def split: srvman_bitop.split)

lemma chown_server_returns:
  assumes "user_inv (get_server_privinfo srv)"
  shows "\<exists>srv' rc. chown_server db word srv = Some (srv', rc) \<and> same_server srv srv'"
proof -
  have g: "\<exists>pi. privinfo_add_grpgid (get_server_privinfo srv) g = Some pi \<and> user_inv pi" for g
    using add_grpgid_user assms by (auto simp: user_inv_def)
  have own: "\<exists>srv'. (do {
        srv \<leftarrow> (if uid \<noteq> None \<and> gid \<noteq> None then do {
                  pi \<leftarrow> privinfo_add_grpgid (get_server_privinfo srv) (the gid);
                  Some (smap_server_set_data srv (Some pi)) }
                else Some srv);
        Some (smap_server_set_owner srv uid gid, 0 :: int) }) = Some (srv', 0) \<and> same_server srv srv'" for uid gid
    using g [of "the gid"] assms by auto
  let ?user = "takeWhile (\<lambda>c. c \<noteq> CHR ''.'' \<and> c \<noteq> CHR '':'') word"
  let ?b = "length ?user < length word" and ?grp = "drop (length ?user + 1) word"
  show ?thesis
  proof (cases "chown_user db ?user ?b")
    case None
    with assms show ?thesis by (simp add: chown_server_def Let_def)
  next
    case (Some ug)
    obtain uid gid where ug: "ug = (uid, gid)" by (cases ug)
    show ?thesis
    proof (cases "if ?b \<and> ?grp \<noteq> [] then chown_group db ?grp else Some gid")
      case None
      with Some ug assms show ?thesis unfolding chown_server_def Let_def by fastforce
    next
      case (Some g)
      with \<open>chown_user db ?user ?b = Some ug\<close> ug own [of uid g] show ?thesis
        unfolding chown_server_def Let_def by fastforce
    qed
  qed
qed

lemma set_data_returns:
  assumes "\<exists>pi. m = Some pi \<and> user_inv pi"
  shows "\<exists>srv' rc. (m \<bind> (\<lambda>pi. Some (smap_server_set_data srv (Some pi), 0 :: int))) = Some (srv', rc) \<and> same_server srv srv'"
  using assms by auto

text \<open>The handlers of a server's statements return for every words.\<close>

definition server_handler :: "nat \<Rightarrow> ('h, 're) handler \<Rightarrow> bool" where
  "server_handler p f \<longleftrightarrow> (\<exists>mn mx h. f = on_server p mn mx h
    \<and> (\<forall>ws srv. user_inv (get_server_privinfo srv) \<longrightarrow> (\<exists>srv' rc. h ws srv = Some (srv', rc) \<and> same_server srv srv')))"

lemma server_handlerI:
  assumes "\<And>ws srv. user_inv (get_server_privinfo srv) \<Longrightarrow> \<exists>srv' rc. h ws srv = Some (srv', rc) \<and> same_server srv srv'"
  shows "server_handler p (on_server p mn mx h)"
  using assms unfolding server_handler_def by blast

lemma server_handlers:
  "server_handler p (cfg_backlog p)" "server_handler p (cfg_reuseaddr p)" "server_handler p (cfg_max_children p)"
  "server_handler p (cfg_single_process p)" "server_handler p (cfg_srv_user ev p)"
  "server_handler p (cfg_srv_group ev p)" "server_handler p (cfg_srv_allgroups p)"
  "server_handler p (cfg_srv_chown ev p)" "server_handler p (cfg_srv_socket_mode p)"
proof -
  show "server_handler p (cfg_backlog p)" unfolding cfg_backlog_def
    by (rule server_handlerI) (simp split: option.split)
  show "server_handler p (cfg_max_children p)" unfolding cfg_max_children_def
    by (rule server_handlerI) (simp split: option.split)
  show "server_handler p (cfg_srv_socket_mode p)" unfolding cfg_srv_socket_mode_def
    by (rule server_handlerI) (simp split: option.split)
  show "server_handler p (cfg_reuseaddr p)" "server_handler p (cfg_single_process p)"
    unfolding cfg_reuseaddr_def cfg_single_process_def cfg_server_flag_def
    by (rule server_handlerI; simp split: option.split)+
  show "server_handler p (cfg_srv_user ev p)" unfolding cfg_srv_user_def
    by (rule server_handlerI, rule set_data_returns, rule set_user_inv)
  show "server_handler p (cfg_srv_group ev p)" unfolding cfg_srv_group_def
    by (rule server_handlerI, rule set_data_returns, rule add_groups_inv)
  show "server_handler p (cfg_srv_allgroups p)" unfolding cfg_srv_allgroups_def
    by (rule server_handlerI) (simp add: user_inv_def privs_inv_def)
  show "server_handler p (cfg_srv_chown ev p)" unfolding cfg_srv_chown_def
    by (rule server_handlerI) (rule chown_server_returns)
qed

lemma server_handler_returns:
  assumes "server_handler p f" "conf_inv (cf_conf st)" "p < length (sm_servers (sc_srvman (cf_conf st)))"
  shows "\<exists>r. f ws st = Some r
    \<and> outcome_ok (\<lambda>c. conf_inv c \<and> p < length (sm_servers (sc_srvman c))) st (map_sum id fst r)"
  using assms on_server_returns unfolding server_handler_def by blast

lemma assign_keeps:
  assumes "kw_type k = KWT_FUN \<or> kw_type k = KWT_EOF \<or> kw_type k = KWT_BOOL \<and> (length ws = 2 \<longrightarrow> cfg_parse_bool (ws ! 1) = None)"
  shows "\<exists>st' go. cfg_assign k ws st = Some (st', go) \<and> cf_conf st' = cf_conf st"
  using assms by (auto simp: cfg_assign_def cfg_chkargc_def cfg_set_int_def cfg_error_def Let_def)

interpretation sk: cfg_table "server_kwtab ev p :: ('h, 're) smapd_conf cfg_kw list"
    "\<lambda>c. conf_inv c \<and> p < length (sm_servers (sc_srvman c))" "stmt_ok ev True"
proof
  fix k :: "('h, 're) smapd_conf cfg_kw" and ws :: "string list" and st :: "('h, 're) cstate"
  assume k: "k \<in> set (server_kwtab ev p)" "kw_kw k = hd ws" "stmt_ok ev True ws"
    and i: "conf_inv (cf_conf st) \<and> p < length (sm_servers (sc_srvman (cf_conf st)))"
  from k(1) have "kw_type k = KWT_FUN \<or> kw_type k = KWT_EOF \<or> kw_type k = KWT_BOOL \<and> kw_kw k = ''allgroups''"
    by (auto simp: server_kwtab_def kw_fn_def)
  moreover have "length ws = 2 \<Longrightarrow> kw_kw k = ''allgroups'' \<Longrightarrow> cfg_parse_bool (ws ! 1) = None"
    using k(2,3) by (cases "ws = []") (auto simp: stmt_ok_def)
  ultimately obtain st' go where "cfg_assign k ws st = Some (st', go)" "cf_conf st' = cf_conf st"
    using assign_keeps by blast
  with i show "\<exists>st' go. cfg_assign k ws st = Some (st', go)
      \<and> conf_inv (cf_conf st') \<and> p < length (sm_servers (sc_srvman (cf_conf st')))" by auto
next
  fix k :: "('h, 're) smapd_conf cfg_kw" and f and ws :: "string list" and st :: "('h, 're) cstate"
  assume "k \<in> set (server_kwtab ev p)" "kw_fun k = Some f" "kw_kw k = hd ws" "ws \<noteq> []"
    and i: "conf_inv (cf_conf st) \<and> p < length (sm_servers (sc_srvman (cf_conf st)))"
  then have "server_handler p f" by (auto simp: server_kwtab_def kw_fn_def server_handlers)
  with server_handler_returns i
  show "\<exists>r. f ws st = Some r
    \<and> outcome_ok (\<lambda>c. conf_inv c \<and> p < length (sm_servers (sc_srvman c))) st (map_sum id fst r)"
    by blast
qed

text \<open>The handlers of the global statements.\<close>

definition conf_step :: "('h, 're) cstate \<Rightarrow> int + ('h, 're) cstate \<times> int \<Rightarrow> bool" where
  "conf_step st r \<longleftrightarrow> outcome_ok conf_inv st (map_sum id fst r)"

lemma conf_step_ret [simp]:
  "(\<exists>r. ret rc st = Some r \<and> conf_step st r) \<longleftrightarrow> conf_inv (cf_conf st)"
  "(\<exists>r. ret rc (upd_conf g st) = Some r \<and> conf_step st r) \<longleftrightarrow> conf_inv (g (cf_conf st))"
  by (auto simp: ret_def conf_step_def upd_conf_def)

lemma chkargc_step:
  assumes "conf_inv (cf_conf st)"
    and "\<not> cfg_chkargc (length ws) mn mx \<Longrightarrow> \<exists>r. h ws st = Some r \<and> conf_step st r"
  shows "\<exists>r. chkargc mn mx h ws st = Some r \<and> conf_step st r"
  using assms by (auto simp: chkargc_def ret_def conf_step_def cfg_error_def cfg_le_def)

lemma conf_inv_upd [simp]:
  "conf_inv (c\<lparr>sc_inetd_mode := i\<rparr>) = conf_inv c" "conf_inv (c\<lparr>sc_pidfile := s\<rparr>) = conf_inv c"
  "conf_inv (c\<lparr>sc_foreground := i\<rparr>) = conf_inv c" "conf_inv (c\<lparr>sc_idle_timeout := i\<rparr>) = conf_inv c"
  "conf_inv (c\<lparr>sc_log_to_stderr := i\<rparr>) = conf_inv c" "conf_inv (c\<lparr>sc_log_tag := s\<rparr>) = conf_inv c"
  "conf_inv (c\<lparr>sc_log_facility := i\<rparr>) = conf_inv c" "conf_inv (c\<lparr>sc_trace_option := i\<rparr>) = conf_inv c"
  "conf_inv (c\<lparr>sc_trace_patterns := ss\<rparr>) = conf_inv c" "conf_inv (c\<lparr>sc_param := sp\<rparr>) = conf_inv c"
  "conf_inv (c\<lparr>sc_rules := rs\<rparr>) = conf_inv c" "conf_inv (c\<lparr>sc_debug := d\<rparr>) = conf_inv c"
  "conf_inv c \<Longrightarrow> conf_inv (c\<lparr>sc_global_privs := pi\<rparr>) = user_inv pi"
  by (simp_all add: conf_inv_def)

lemma conf_inv_modules:
  assumes "conf_inv c"
  shows "module_declare (sc_modules c) file line nm argv = (ms, rc, m) \<Longrightarrow> conf_inv (c\<lparr>sc_modules := ms\<rparr>)"
    "database_declare (sc_modules c) file line nm md argv = (ms, rc, d) \<Longrightarrow> conf_inv (c\<lparr>sc_modules := ms\<rparr>)"
    "conf_inv (c\<lparr>sc_modules := add_load_path (sc_modules c) path n\<rparr>)"
proof -
  show "conf_inv (c\<lparr>sc_modules := ms\<rparr>)" if "module_declare (sc_modules c) file line nm argv = (ms, rc, m)"
    using that assms module_declare_distinct [OF _ that]
    by (auto simp: conf_inv_def module_declare_def Let_def split: option.splits)
  show "conf_inv (c\<lparr>sc_modules := ms\<rparr>)" if "database_declare (sc_modules c) file line nm md argv = (ms, rc, d)"
    using that assms database_declare_distinct [OF _ that]
    by (auto simp: conf_inv_def database_declare_def Let_def split: option.splits)
  show "conf_inv (c\<lparr>sc_modules := add_load_path (sc_modules c) path n\<rparr>)"
    using assms by (simp add: conf_inv_def add_load_path_def ids_distinct_def Let_def)
qed

lemma simple_handlers:
  assumes "conf_inv (cf_conf st)"
  shows "\<exists>r. bool_invert ws st = Some r \<and> conf_step st r"
    "\<exists>r. set_syslog_facility ws st = Some r \<and> conf_step st r"
    "\<exists>r. cfg_trace_pattern ws st = Some r \<and> conf_step st r"
    "\<exists>r. cfg_socket_mode ws st = Some r \<and> conf_step st r"
    "\<exists>r. cfg_global_max_children ws st = Some r \<and> conf_step st r"
    "\<exists>r. cfg_load_path n ws st = Some r \<and> conf_step st r"
  unfolding bool_invert_def set_syslog_facility_def cfg_trace_pattern_def cfg_socket_mode_def
    cfg_global_max_children_def cfg_load_path_def
  using assms conf_inv_modules(3) by (auto intro!: chkargc_step split: option.split)

lemma privs_handlers:
  assumes "conf_inv (cf_conf st)"
  shows "\<exists>r. cfg_user ev ws st = Some r \<and> conf_step st r"
    "\<exists>r. cfg_group ev ws st = Some r \<and> conf_step st r"
proof -
  have i: "user_inv (sc_global_privs (cf_conf st))" using assms by (simp add: conf_inv_def)
  from set_user_inv [OF i, of "cv_users ev" "ws ! 1"] assms show "\<exists>r. cfg_user ev ws st = Some r \<and> conf_step st r"
    unfolding cfg_user_def by (intro chkargc_step) auto
  from add_groups_inv [OF i, of "cv_users ev" "tl ws"] assms show "\<exists>r. cfg_group ev ws st = Some r \<and> conf_step st r"
    unfolding cfg_group_def by (intro chkargc_step) auto
qed

lemma parse_dispatch_anywhere:
  "parse_dispatch env file line rules ws \<noteq> None \<Longrightarrow> parse_dispatch env file line' rules' ws \<noteq> None"
  by (auto simp: parse_dispatch_def parse_complex_dispatch_def split: bind_splits option.splits prod.splits if_splits)

lemma debug_number:
  "w \<noteq> [] \<Longrightarrow> is_digit (hd w) \<Longrightarrow> \<exists>d rc. smap_debug_set alloc dup st w = Some (d, rc)"
  by (simp add: smap_debug_set_def split: prod.split)

lemma debug_handler:
  assumes "conf_inv (cf_conf st)" "length ws = 2 \<Longrightarrow> ws ! 1 \<noteq> [] \<and> is_digit (hd (ws ! 1))"
  shows "\<exists>r. cfg_debug ev ws st = Some r \<and> conf_step st r"
  unfolding cfg_debug_def
proof (rule chkargc_step [OF assms(1)])
  assume "\<not> cfg_chkargc (length ws) 2 2"
  then have "length ws = 2" by (simp add: cfg_chkargc_def split: if_splits)
  with assms(2) obtain d rc where "smap_debug_set (cv_debug_alloc ev) (cv_debug_dup ev) (sc_debug (cf_conf st)) (ws ! 1) = Some (d, rc)"
    using debug_number by blast
  with assms(1) show "\<exists>r. (do {
     (d, rc) \<leftarrow> smap_debug_set (cv_debug_alloc ev) (cv_debug_dup ev) (sc_debug (cf_conf st)) (ws ! 1);
     ret (if rc \<noteq> 0 then 1 else 0) (upd_conf (\<lambda>c. c\<lparr>sc_debug := d\<rparr>) st) }) = Some r \<and> conf_step st r" by simp
qed

lemma table_handlers:
  assumes "conf_inv (cf_conf st)"
  shows "\<exists>r. cfg_module ev ws st = Some r \<and> conf_step st r"
    "\<exists>r. cfg_database ev ws st = Some r \<and> conf_step st r"
    "parse_dispatch (cv_query ev) (cv_file ev) 0 [] (tl ws) \<noteq> None \<Longrightarrow> \<exists>r. cfg_dispatch ev ws st = Some r \<and> conf_step st r"
proof -
  show "\<exists>r. cfg_module ev ws st = Some r \<and> conf_step st r" unfolding cfg_module_def
    using assms conf_inv_modules(1) [OF assms] by (intro chkargc_step) (auto split: prod.split)
  show "\<exists>r. cfg_database ev ws st = Some r \<and> conf_step st r" unfolding cfg_database_def
    using assms conf_inv_modules(2) [OF assms] by (intro chkargc_step) (auto split: prod.split)
  assume "parse_dispatch (cv_query ev) (cv_file ev) 0 [] (tl ws) \<noteq> None"
  then have "parse_dispatch (cv_query ev) (cv_file ev) (ci_line (cf_in st)) (sc_rules (cf_conf st)) (tl ws) \<noteq> None"
    by (rule parse_dispatch_anywhere)
  with assms
  show "\<exists>r. cfg_dispatch ev ws st = Some r \<and> conf_step st r"
    unfolding cfg_dispatch_def by (intro chkargc_step) auto
qed

text \<open>The texts without null bytes whose lines the word splitter can treat, and all of whose lines are statements of this kind.\<close>

definition conf_text_ok :: "'re conf_env \<Rightarrow> string \<Rightarrow> bool" where
  "conf_text_ok ev t \<longleftrightarrow> text_ok (stmt_ok ev True) t \<or> text_ok (stmt_ok ev False) t"

lemma attach_inv:
  assumes "conf_inv c" "smap_server_new up (length (sm_servers (sc_srvman c))) nm url fl = Some srv"
  shows "conf_inv (c\<lparr>sc_srvman := smap_srvman_attach_server (sc_srvman c) srv\<rparr>)"
proof -
  have "srv_ptr srv = length (sm_servers (sc_srvman c))" "idle_server srv" "user_inv (get_server_privinfo srv)"
    using assms(2) by (auto simp: smap_server_new_def idle_server_def get_server_privinfo_def split: option.splits)
  with assms(1) show ?thesis by (simp add: conf_inv_def smap_srvman_attach_server_def)
qed

lemma server_block:
  assumes "conf_inv (cf_conf st)" "p < length (sm_servers (sc_srvman (cf_conf st)))"
    "text_ok (stmt_ok ev True) (ci_text (cf_in st))"
  shows "\<exists>r. parse_config_loop (server_kwtab ev p) st = Some r \<and> outcome_ok conf_inv st r"
  using sk.loop_returns [of st p ev "\<lparr>cl_size = 0, cl_env = [], cl_vars = False\<rparr>"] assms
  by (auto simp: parse_config_loop_def env_ok_def outcome_ok_def split: sum.splits)

lemma server_handler_step:
  assumes "conf_inv (cf_conf st)" "blocks \<Longrightarrow> text_ok (stmt_ok ev True) (ci_text (cf_in st))" "\<not> blocks \<Longrightarrow> length ws \<noteq> 4"
    and url: "2 < length ws \<Longrightarrow> smap_url_parse (cv_url ev) (ws ! 2) \<noteq> None"
  shows "\<exists>r. cfg_server ev ws st = Some r \<and> conf_step st r"
  unfolding cfg_server_def
proof (rule chkargc_step [OF assms(1)])
  assume "\<not> cfg_chkargc (length ws) 3 4"
  then have "2 < length ws" by (simp add: cfg_chkargc_def)
  from url [OF this] have "server_address (cv_url ev) (ws ! 2) \<noteq> None"
    by (auto simp: server_address_def split: sum.split url_addr.split)
  then obtain sa where sa: "server_address (cv_url ev) (ws ! 2) = Some sa" by blast
  let ?sm = "sc_srvman (cf_conf st)"
  let ?p = "length (sm_servers ?sm)"
  show "\<exists>r. (do {
     let sm = sc_srvman (cf_conf st);
     let p = length (sm_servers sm);
     sa \<leftarrow> server_address (cv_url ev) (ws ! 2);
     (case smap_server_new (\<lambda>_. sa) p (ws ! 1) (ws ! 2) 0 of
        None \<Rightarrow> ret 1 st
      | Some srv \<Rightarrow>
          let st = upd_conf (\<lambda>c. c\<lparr>sc_srvman := smap_srvman_attach_server sm srv\<rparr>) st in
          if length ws = 4 then
            if ws ! 3 \<noteq> ''begin'' then ret 1 st
            else do {
              r \<leftarrow> parse_config_loop (server_kwtab ev p) st;
              (case r of Inl code \<Rightarrow> Some (Inl code) | Inr st \<Rightarrow> ret 0 st)
            }
          else ret 0 st)
   }) = Some r \<and> conf_step st r"
  proof (cases "smap_server_new (\<lambda>_. sa) ?p (ws ! 1) (ws ! 2) 0 :: privinfo smap_server option")
    case None
    with sa assms(1) show ?thesis by (simp add: Let_def del: One_nat_def)
  next
    case (Some srv)
    define st1 where "st1 = upd_conf (\<lambda>c. c\<lparr>sc_srvman := smap_srvman_attach_server ?sm srv\<rparr>) st"
    have st1: "conf_inv (cf_conf st1)" "?p < length (sm_servers (sc_srvman (cf_conf st1)))" "cfg_le st st1"
      "blocks \<Longrightarrow> text_ok (stmt_ok ev True) (ci_text (cf_in st1))"
      using attach_inv [OF assms(1) Some] assms(2) by (auto simp: st1_def upd_conf_def smap_srvman_attach_server_def)
    have rets: "\<exists>r. ret rc st' = Some r \<and> conf_step st r" if "conf_inv (cf_conf st')" "cfg_le st st'" for rc st'
      using that by (simp add: ret_def conf_step_def)
    have block: "\<exists>r'. (do {
              r \<leftarrow> parse_config_loop (server_kwtab ev ?p) st1;
              (case r of Inl code \<Rightarrow> Some (Inl code) | Inr st \<Rightarrow> ret 0 st)
            }) = Some r' \<and> conf_step st r'" if "length ws = 4"
    proof -
      from that assms(3) have blocks by blast
      from server_block [OF st1(1,2) st1(4) [OF this]] obtain r where
        r: "parse_config_loop (server_kwtab ev ?p) st1 = Some r" "outcome_ok conf_inv st1 r" by blast
      from outcome_trans [OF st1(3) r(2)] r(1) rets show ?thesis by (cases r) (auto simp: conf_step_def)
    qed
    with sa Some rets [OF st1(1,3)] show ?thesis
      by (simp add: Let_def st1_def [symmetric] del: One_nat_def)
  qed
qed

text \<open>The kinds of entries of the table of the global statements.\<close>

lemma entry_assign:
  assumes "conf_inv (cf_conf st)"
  shows "\<exists>st' go. cfg_assign (kw_fn nm f) ws st = Some (st', go) \<and> conf_inv (cf_conf st')"
    "(\<And>s. conf_inv (sv s (cf_conf st))) \<Longrightarrow>
      \<exists>st' go. cfg_assign (kw_str nm sv) ws st = Some (st', go) \<and> conf_inv (cf_conf st')"
    "(\<And>i. conf_inv (iv i (cf_conf st))) \<Longrightarrow> t \<in> {KWT_BOOL, KWT_INT, KWT_UINT} \<Longrightarrow>
      \<exists>st' go. cfg_assign ((kw_int nm t iv)\<lparr>kw_fun := h\<rparr>) ws st = Some (st', go) \<and> conf_inv (cf_conf st')"
  using assms
  by (auto simp: cfg_assign_def kw_fn_def kw_str_def kw_int_def Let_def cfg_error_def cfg_set_int_def
      split: option.split)

lemma entry_assign_int:
  assumes "conf_inv (cf_conf st)" "\<And>i. conf_inv (iv i (cf_conf st))" "t \<in> {KWT_BOOL, KWT_INT, KWT_UINT}"
  shows "\<exists>st' go. cfg_assign (kw_int nm t iv) ws st = Some (st', go) \<and> conf_inv (cf_conf st')"
  using entry_assign(3) [where iv = iv, OF assms, where nm = nm and h = None and ws = ws] by (simp add: kw_int_def)

lemma allgroups_privs:
  assumes "conf_inv c"
  shows "user_inv ((sc_global_privs c)\<lparr>pi_allgroups := b\<rparr>)"
  using assms by (simp add: conf_inv_def user_inv_def privs_inv_def)

lemma global_assign:
  assumes "k \<in> set (smap_kwtab ev)" "conf_inv (cf_conf st)"
  shows "\<exists>st' go. cfg_assign k ws st = Some (st', go) \<and> conf_inv (cf_conf st')"
proof -
  note rules = entry_assign [OF assms(2)] entry_assign_int [OF assms(2)]
  have "list_all (\<lambda>k. \<exists>st' go. cfg_assign k ws st = Some (st', go) \<and> conf_inv (cf_conf st')) (smap_kwtab ev)"
    unfolding smap_kwtab_def list.pred_inject
    by (intro conjI TrueI rules) (use assms(2) in \<open>simp_all add: allgroups_privs\<close>)
  with assms(1) show ?thesis by (auto simp: list_all_iff)
qed

definition fun_ok :: "string list \<Rightarrow> ('h, 're) cstate \<Rightarrow> ('h, 're) smapd_conf cfg_kw \<Rightarrow> bool" where
  "fun_ok ws st k \<longleftrightarrow> (\<forall>f. kw_kw k = hd ws \<and> kw_fun k = Some f \<longrightarrow> (\<exists>r. f ws st = Some r \<and> conf_step st r))"

lemma fun_okI:
  "(nm = hd ws \<Longrightarrow> \<exists>r. f ws st = Some r \<and> conf_step st r) \<Longrightarrow> fun_ok ws st (kw_fn nm f)"
  "fun_ok ws st (kw_str nm sv)" "fun_ok ws st (kw_int nm t iv)"
  "\<exists>r. h ws st = Some r \<and> conf_step st r \<Longrightarrow> fun_ok ws st ((kw_int nm t iv)\<lparr>kw_fun := Some h\<rparr>)"
  by (auto simp: fun_ok_def kw_fn_def kw_str_def kw_int_def)

lemma global_fun:
  assumes "k \<in> set (smap_kwtab ev)" "kw_kw k = hd ws" "ws \<noteq> []" "kw_fun k = Some f" "stmt_ok ev blocks ws"
    and "conf_inv (cf_conf st)" "text_ok (stmt_ok ev blocks) (ci_text (cf_in st))"
  shows "\<exists>r. f ws st = Some r \<and> conf_step st r"
proof -
  from assms(3,5) have s: "hd ws = ''debug'' \<Longrightarrow> length ws = 2 \<Longrightarrow> ws ! 1 \<noteq> [] \<and> is_digit (hd (ws ! 1))"
    "hd ws = ''dispatch'' \<Longrightarrow> parse_dispatch (cv_query ev) (cv_file ev) 0 [] (tl ws) \<noteq> None"
    "hd ws = ''server'' \<Longrightarrow> 2 < length ws \<Longrightarrow> smap_url_parse (cv_url ev) (ws ! 2) \<noteq> None"
    "hd ws = ''server'' \<Longrightarrow> \<not> blocks \<Longrightarrow> length ws \<noteq> 4"
    by (auto simp: stmt_ok_def split: if_splits)
  have srv: "\<exists>r. cfg_server ev ws st = Some r \<and> conf_step st r" if "hd ws = ''server''"
  proof (rule server_handler_step [where blocks = blocks, OF assms(6)])
    show "text_ok (stmt_ok ev True) (ci_text (cf_in st))" if blocks using assms(7) that by simp
  qed (use s(3,4) that in auto)
  note hs = simple_handlers [OF assms(6)] privs_handlers [OF assms(6)] table_handlers(1,2) [OF assms(6)]
  have d: "\<exists>r. cfg_dispatch ev ws st = Some r \<and> conf_step st r" if "''dispatch'' = hd ws"
    using table_handlers(3) [OF assms(6) s(2)] that by simp
  have g: "fun_ok ws st (kw_fn ''debug'' (cfg_debug ev))" using debug_handler [OF assms(6)] s(1) by (auto simp: fun_ok_def kw_fn_def)
  have "list_all (fun_ok ws st) (smap_kwtab ev)"
    unfolding smap_kwtab_def list.pred_inject
    by (intro conjI TrueI g fun_okI hs d srv) simp_all
  with assms(1,2,4) show ?thesis by (auto simp: list_all_iff fun_ok_def)
qed

interpretation gk: cfg_table "smap_kwtab ev :: ('h, 're) smapd_conf cfg_kw list" conf_inv
    "stmt_ok ev blocks"
proof
  fix k :: "('h, 're) smapd_conf cfg_kw" and ws :: "string list" and st :: "('h, 're) cstate"
  assume "k \<in> set (smap_kwtab ev)" "conf_inv (cf_conf st)"
  then show "\<exists>st' go. cfg_assign k ws st = Some (st', go) \<and> conf_inv (cf_conf st')" by (rule global_assign)
next
  fix k :: "('h, 're) smapd_conf cfg_kw" and f and ws :: "string list" and st :: "('h, 're) cstate"
  assume "k \<in> set (smap_kwtab ev)" "kw_kw k = hd ws" "ws \<noteq> []" "kw_fun k = Some f"
    "stmt_ok ev blocks ws" "conf_inv (cf_conf st)" "text_ok (stmt_ok ev blocks) (ci_text (cf_in st))"
  from global_fun [OF this]
  show "\<exists>r. f ws st = Some r \<and> outcome_ok conf_inv st (map_sum id fst r)" by (simp add: conf_step_def)
qed

lemma parse_config_inv:
  assumes "conf_inv c" "conf_text_ok ev t"
  shows "\<exists>r. parse_config (Some t) (smap_kwtab ev) errs c = Some r
    \<and> (case r of Inl code \<Rightarrow> splitter_code t code | Inr (c', rc) \<Rightarrow> conf_inv c' \<and> rc \<in> {0, 1} \<and> (errs \<longrightarrow> rc = 1))"
proof -
  let ?st = "\<lparr>cf_in = \<lparr>ci_text = t, ci_feof = False, ci_line = 0, ci_cur_line = 1\<rparr>, cf_errors = errs, cf_conf = c\<rparr>"
  from assms(2) obtain blocks where "text_ok (stmt_ok ev blocks) t" by (auto simp: conf_text_ok_def)
  with gk.loop_returns [of ?st ev blocks "\<lparr>cl_size = 0, cl_env = [], cl_vars = False\<rparr>"] assms(1)
  obtain r where "parse_config_loop (smap_kwtab ev) ?st = Some r" "outcome_ok conf_inv ?st r"
    by (auto simp: parse_config_loop_def env_ok_def)
  then show ?thesis by (cases r) (auto simp: parse_config_def cfg_le_def)
qed

section \<open>Properties\<close>

text \<open>C31. Reading the configuration ends.  From a fresh state of the daemon, the reader returns, or exits with the code that the word splitter's error on one of the lines
  stands for, and nested blocks of servers end with the file at the latest.  If it returns, identifiers are distinct, no module is loaded, the servers are idle, the arrays of groups
  are consistent, and an error reported before stays reported.  The text has no null bytes, the word splitter returns on its lines, and its statements are none of those that can
  fault: \<open>allgroups\<close> in a text with server blocks, \<open>debug\<close> with the name of a category, a \<open>dispatch\<close> with an address for which the parser of conditions faults, and a \<open>server\<close> with an
  address that does not fit.\<close>

theorem config_returns:
  assumes "conf_inv c" "conf_text_ok ev t"
  shows "\<exists>r. parse_config (Some t) (smap_kwtab ev) errs c = Some r
    \<and> (case r of Inl code \<Rightarrow> splitter_code t code | Inr (c', rc) \<Rightarrow> conf_inv c' \<and> rc \<in> {0, 1} \<and> (errs \<longrightarrow> rc = 1))"
  by (rule parse_config_inv [OF assms])

text \<open>A configuration and an environment for the examples.\<close>

definition demo_conf_env :: "unit conf_env" where
  "demo_conf_env =
     \<lparr>cv_file = ''smapd.conf'', cv_url = demo_names,
      cv_users = \<lparr>udb_name = Map.empty, udb_group = Map.empty, udb_uid = Map.empty, udb_groups = []\<rparr>,
      cv_query = \<lparr>qe_regcomp = (\<lambda>_ _ _. None), qe_regexec = (\<lambda>_ _. False), qe_fnmatch = (=),
        qe_inet_aton = Map.empty, qe_gethostbyname = Map.empty\<rparr>,
      cv_debug_alloc = True, cv_debug_dup = True\<rparr>"

definition demo_conf :: "(echo_database, unit) smapd_conf" where
  "demo_conf =
     \<lparr>sc_inetd_mode = 0, sc_pidfile = None, sc_foreground = 0, sc_idle_timeout = 0, sc_log_to_stderr = 0,
      sc_log_tag = None, sc_log_facility = 24, sc_trace_option = 0, sc_trace_patterns = [],
      sc_debug = \<lparr>debug_max = 0, dbg_cap = 0, debug_level = [], global_debug_level = 0\<rparr>,
      sc_global_privs = \<lparr>pi_uid = 0, pi_gids = [], pi_gc = 0, pi_gi = 0, pi_allgroups = False\<rparr>,
      sc_param = demo_param,
      sc_srvman = \<lparr>sm_servers = [], sm_num_children = 0, sm_need_cleanup = False, sm_stop = False,
        sm_recompute = True, sm_maxfd = 0, sm_fdset = []\<rparr>,
      sc_modules = \<lparr>module_list = [], database_list = [], mod_load_path = Map.empty\<rparr>, sc_rules = []\<rparr>"

definition demo_text :: string where
  "demo_text = ''module echo echo'' @ [NL, NL] @ ''server main unix:///smap.sock begin'' @ [NL]
     @ ''reuseaddr no'' @ [NL] @ ''end'' @ [NL] @ ''dispatch default '' @ [CHR 0x5C, NL] @ ''database echo''"

lemma demo_conf_inv: "conf_inv demo_conf"
  by (simp add: conf_inv_def demo_conf_def ids_distinct_def)

lemma demo_text_ok: "conf_text_ok demo_conf_env demo_text"
proof -
  have l: "logical_lines demo_text =
    [''module echo echo'', ''server main unix:///smap.sock begin'', ''reuseaddr no'', ''end'',
     ''dispatch default database echo'']"
    by (simp add: demo_text_def logical_lines.simps logical_line.simps)
  have u: "smap_url_parse demo_names ''unix:///smap.sock'' = Some (Inr (S_UN ''/smap.sock''))"
    using split_proto [of "''unix''" demo_names "''/smap.sock''"] split_url_path [of "''/smap.sock''" demo_names]
    by (simp add: smap_url_parse_def parse_url0_def SUN_PATH_SIZE_def demo_names_def)
  have "\<forall>l \<in> set (logical_lines demo_text). (\<forall>c \<in> set l. c \<notin> {NUL, BSL, SQ, DQ, CHR ''#'', CHR ''$''})
      \<and> stmt_ok demo_conf_env True (plain_words blank l)"
    unfolding l by (simp add: plain_words.simps stmt_ok_def demo_conf_env_def u parse_dispatch_def)
  moreover have "CHR 0x00 \<notin> set demo_text" by (simp add: demo_text_def)
  ultimately show ?thesis using cfg_wordsplit_plain by (auto simp: conf_text_ok_def text_ok_def)
qed

theorem config_returns_witness:
  "\<exists>r. parse_config (Some demo_text) (smap_kwtab demo_conf_env) True demo_conf = Some r
    \<and> (case r of Inl code \<Rightarrow> splitter_code demo_text code | Inr (c', rc) \<Rightarrow> conf_inv c' \<and> rc = 1)"
  using config_returns [OF demo_conf_inv demo_text_ok, of True] by (auto split: sum.splits)

text \<open>The option \<open>reuseaddr\<close> of a server works against its name: \<open>no\<close> makes the manager reuse the
  address, and \<open>yes\<close> leaves it to the global setting.\<close>

theorem reuseaddr_inverted:
  assumes "conf_server p (cf_conf st) = Some srv" "cfg_parse_bool v = Some b"
  shows "\<exists>st' srv'. cfg_reuseaddr p [''reuseaddr'', v] st = Some (Inr (st', 0))
    \<and> conf_server p (cf_conf st') = Some srv'
    \<and> (SRVMAN_REUSEADDR sp srv' \<longleftrightarrow> sp_reuseaddr sp \<or> b = 0)"
proof -
  define srv' where "srv' = smap_server_set_flags srv SRV_KEEP_EXISTING (if b \<noteq> 0 then srvman_bitop_set else srvman_bitop_clr)"
  have "cfg_reuseaddr p [''reuseaddr'', v] st = Some (Inr (upd_conf (set_server srv') st, 0))"
    using assms by (simp add: cfg_reuseaddr_def cfg_server_flag_def on_server_def chkargc_def cfg_chkargc_def ret_def srv'_def)
  moreover have ptr: "srv_ptr srv' = srv_ptr srv" by (simp add: srv'_def smap_server_set_flags_def split: srvman_bitop.split)
  have "find (\<lambda>s. srv_ptr s = p) xs = Some srv \<Longrightarrow>
      find (\<lambda>s. srv_ptr s = p) (map (\<lambda>s. if srv_ptr s = srv_ptr srv' then srv' else s) xs) = Some srv'" for xs
    using ptr by (induction xs) (auto split: if_splits simp: find_Some_iff)
  then have "conf_server p (cf_conf (upd_conf (set_server srv') st)) = Some srv'"
    using assms(1) by (simp add: conf_server_def upd_conf_def set_server_def update_server_def)
  moreover have "SRVMAN_REUSEADDR sp srv' \<longleftrightarrow> sp_reuseaddr sp \<or> b = 0"
    by (simp add: SRVMAN_REUSEADDR_def srv'_def smap_server_set_flags_def flag_simps)
  ultimately show ?thesis by blast
qed

theorem reuseaddr_inverted_witness:
  "\<exists>srv. conf_server 0 (demo_conf\<lparr>sc_srvman := (sc_srvman demo_conf)\<lparr>sm_servers := [srv]\<rparr>\<rparr>) = Some srv
    \<and> (\<exists>st' srv'. cfg_reuseaddr 0 [''reuseaddr'', ''yes'']
          \<lparr>cf_in = \<lparr>ci_text = [], ci_feof = False, ci_line = 0, ci_cur_line = 1\<rparr>, cf_errors = False,
           cf_conf = demo_conf\<lparr>sc_srvman := (sc_srvman demo_conf)\<lparr>sm_servers := [srv]\<rparr>\<rparr>\<rparr> = Some (Inr (st', 0))
        \<and> conf_server 0 (cf_conf st') = Some srv' \<and> \<not> SRVMAN_REUSEADDR demo_param srv')"
proof -
  obtain srv :: "privinfo smap_server" where srv: "srv_ptr srv = 0" by (metis smap_server.simps(1))
  let ?c = "demo_conf\<lparr>sc_srvman := (sc_srvman demo_conf)\<lparr>sm_servers := [srv]\<rparr>\<rparr>"
  let ?st = "\<lparr>cf_in = \<lparr>ci_text = [], ci_feof = False, ci_line = 0, ci_cur_line = 1\<rparr>, cf_errors = False, cf_conf = ?c\<rparr>"
  have "conf_server 0 ?c = Some srv" using srv by (simp add: conf_server_def)
  moreover have "cfg_parse_bool ''yes'' = Some 1" by (simp add: cfg_parse_bool_def)
  ultimately show ?thesis
    using reuseaddr_inverted [of 0 ?st srv "''yes''" 1 demo_param] by (simp add: demo_param_def) blast
qed

text \<open>The option \<open>allgroups\<close> in a block of a server crashes the daemon: its entry stores the value through a
  null pointer before the handler is called.\<close>

theorem server_allgroups_crashes:
  assumes "cfg_parse_bool v = Some b"
  shows "cfg_words (server_kwtab ev p) [''allgroups'', v] cl st = None"
proof -
  have "\<not> asgn_p ''allgroups''" by (simp add: asgn_p_def is_idstart_def is_digit_def Let_def)
  with assms show ?thesis
    by (simp add: cfg_words_def find_cfg_kw_def server_kwtab_def kw_fn_def cfg_assign_def cfg_set_int_def
        cfg_chkargc_def Let_def)
qed

theorem server_allgroups_crashes_witness:
  "cfg_words (server_kwtab demo_conf_env 0) [''allgroups'', ''yes''] \<lparr>cl_size = 0, cl_env = [], cl_vars = False\<rparr>
     \<lparr>cf_in = \<lparr>ci_text = [], ci_feof = False, ci_line = 0, ci_cur_line = 1\<rparr>, cf_errors = False, cf_conf = demo_conf\<rparr> = None"
  by (rule server_allgroups_crashes [where b = 1]) (simp add: cfg_parse_bool_def)

end
