(* ===== verification/Smap_Main.thy ===== *)
theory Smap_Main
  imports Smap_Config
begin

text \<open>
  The start of the daemon (\<open>main\<close> and \<open>smap_daemon\<close> of \<open>src/smapd.c\<close>): defaults, the
  configuration, the settings of the command line, the tables, the privileges and
  the opening of the servers, up to the main loop of the server manager.

  A result \<open>Inl code\<close> is the exit of the process with that code; \<open>None\<close> is a fault.
  The log, the file of the process number and the signals are left out.
\<close>

section \<open>Operations\<close>

text \<open>The variables that the command line may set, by their addresses.\<close>

definition opt_vars :: "(nat \<times> (optval \<Rightarrow> ('h, 're) smapd_conf \<Rightarrow> ('h, 're) smapd_conf)) list" where
  "opt_vars =
     (let num = (\<lambda>set v c. case v of OPT_INT i \<Rightarrow> set i c | OPT_STR s \<Rightarrow> c) in
      [(0, num (\<lambda>i c. c\<lparr>sc_inetd_mode := i\<rparr>)),
       (1, num (\<lambda>i c. c\<lparr>sc_foreground := i\<rparr>)),
       (2, num (\<lambda>i c. c\<lparr>sc_param := (sc_param c)\<lparr>sp_single_process := (i \<noteq> 0)\<rparr>\<rparr>)),
       (3, num (\<lambda>i c. c\<lparr>sc_log_to_stderr := i\<rparr>)),
       (4, \<lambda>v c. case v of OPT_STR s \<Rightarrow> c\<lparr>sc_log_tag := Some s\<rparr> | OPT_INT i \<Rightarrow> c),
       (5, num (\<lambda>i c. c\<lparr>sc_log_facility := i\<rparr>)),
       (6, num (\<lambda>i c. c\<lparr>sc_trace_option := i\<rparr>))])"

definition apply_opts :: "(nat \<rightharpoonup> optval) \<Rightarrow> ('h, 're) smapd_conf \<Rightarrow> ('h, 're) smapd_conf" where
  "apply_opts vars c =
     fold (\<lambda>(a, set) c. case vars a of None \<Rightarrow> c | Some v \<Rightarrow> set v c) opt_vars c"

definition main_defaults :: "bool \<Rightarrow> ('h, 're) smapd_conf \<Rightarrow> ('h, 're) smapd_conf" where
  "main_defaults tty c =
     (let c = (if tty then c else c\<lparr>sc_log_to_stderr := 0\<rparr>)
      in c\<lparr>sc_param := (sc_param c)\<lparr>sp_socket_mode := 384, sp_max_children := 128\<rparr>\<rparr>)"

definition main_logging :: "('h, 're) smapd_conf \<Rightarrow> ('h, 're) smapd_conf" where
  "main_logging c = (if sc_log_to_stderr c = -1 then c\<lparr>sc_log_to_stderr := sc_foreground c\<rparr> else c)"

abbreviation (input) EX_CONFIG :: int where "EX_CONFIG \<equiv> 78"

definition main_setup ::
  "'re conf_env \<Rightarrow> (string option \<Rightarrow> 'h smap_module option option) \<Rightarrow> bool \<Rightarrow> string option \<Rightarrow> bool \<Rightarrow> optlist \<Rightarrow>
   ('h, 're) smapd_conf \<Rightarrow> (int + ('h, 're) smapd_conf) option" where
  "main_setup ev dlopen tty config_file lint_mode oc c = do {
     r \<leftarrow> parse_config config_file (smap_kwtab ev) False (main_defaults tty c);
     (case r of
        Inl code \<Rightarrow> Some (Inl code)
      | Inr (c, rc) \<Rightarrow>
          if rc \<noteq> 0 then Some (Inl EX_CONFIG)
          else if lint_mode then Some (Inl 0)
          else do {
            (_, vars) \<leftarrow> optcache_flush oc Map.empty;
            let c = main_logging (apply_opts vars c);
            (ms, rules) \<leftarrow> start_modules dlopen (sc_modules c) (sc_rules c);
            Some (Inr (c\<lparr>sc_modules := ms, sc_rules := rules\<rparr>))
          })
   }"

text \<open>The groups of a server's user, and the owner of its socket; \<open>gids[0]\<close> of an empty array is a fault.\<close>

definition expand_srv_groups :: "user_db \<Rightarrow> privinfo smap_server \<Rightarrow> privinfo smap_server option" where
  "expand_srv_groups db srv =
     (case srv_data srv of
        None \<Rightarrow> Some srv
      | Some pi \<Rightarrow> do {
          pi \<leftarrow> privinfo_expand_user_groups db pi;
          let srv = smap_server_set_data srv (Some pi);
          if pi_uid pi \<noteq> 0 then
            (case smap_server_get_owner srv of
               (uid, gid) \<Rightarrow>
                 if gid = None then
                   if pi_gids pi = [] then None
                   else Some (smap_server_set_owner srv (if uid = None then id_value (pi_uid pi) else uid)
                          (id_value (hd (pi_gids pi))))
                 else do {
                   pi \<leftarrow> privinfo_add_grpgid pi (the gid);
                   Some (smap_server_set_data srv (Some pi))
                 })
          else Some srv
        })"

text \<open>\<open>detached\<close>: whether \<open>daemon\<close> succeeds; \<open>gid\<close>: the real group.  The function that is applied to every
  server by \<open>smap_srvman_iterate_data\<close> returns 0, so that no server is removed.\<close>

definition daemon_privs ::
  "'c cred_ops \<Rightarrow> user_db \<Rightarrow> nat \<Rightarrow> privinfo \<Rightarrow> 'c \<Rightarrow> (privinfo \<times> 'c \<times> int) option" where
  "daemon_privs ops db gid pi cr =
     (if gid = 0 then do {
        pi \<leftarrow> privinfo_expand_user_groups db pi;
        (cr, rc) \<leftarrow> switch_to_privs ops pi cr;
        Some (pi, cr, rc)
      }
      else Some (pi, cr, 0))"

definition smap_daemon_start ::
  "'re conf_env \<Rightarrow> 'c cred_ops \<Rightarrow> bool \<Rightarrow> nat \<Rightarrow> (nat \<Rightarrow> open_env) \<Rightarrow> ('h, 're) smapd_conf \<Rightarrow> 'c \<Rightarrow>
   (int + syscall list \<times> ('h, 're) smapd_conf \<times> 'c) option" where
  "smap_daemon_start ev ops detached gid oes c cr =
     (if sc_foreground c = 0 \<and> \<not> detached then Some (Inl EX_UNAVAILABLE)
      else do {
        (pi, cr, rc) \<leftarrow> daemon_privs ops (cv_users ev) gid (sc_global_privs c) cr;
        if rc \<noteq> 0 then Some (Inl EX_UNAVAILABLE)
        else do {
          srvs \<leftarrow> those (map (expand_srv_groups (cv_users ev)) (sm_servers (sc_srvman c)));
          (case smap_srvman_open (sc_param c) oes ((sc_srvman c)\<lparr>sm_servers := srvs\<rparr>) of
             (calls, sm, none) \<Rightarrow>
               if none then Some (Inl EX_CONFIG)
               else Some (Inr (calls, c\<lparr>sc_global_privs := pi, sc_srvman := sm\<rparr>, cr)))
        }
      })"

section \<open>Lemmas\<close>

lemma expand_user:
  assumes "user_inv pi"
  shows "\<exists>pi'. privinfo_expand_user_groups db pi = Some pi' \<and> user_inv pi' \<and> pi_uid pi' = pi_uid pi"
proof -
  have p: "privs_inv pi" using assms by (simp add: user_inv_def)
  have "\<exists>pi'. get_user_groups db pi = Some pi' \<and> user_inv pi' \<and> pi_uid pi' = pi_uid pi"
  proof (cases "udb_uid db (pi_uid pi)")
    case None
    with assms show ?thesis by (simp add: get_user_groups_def)
  next
    case (Some user)
    from user_groups_loop [OF p, of user "udb_groups db"] obtain pi' where
      l: "get_user_groups_loop user (udb_groups db) pi = Some pi'" "privs_inv pi'" "pi_uid pi' = pi_uid pi"
      "privs_groups pi' = privs_groups pi @ map fst (filter (\<lambda>g. user \<in> set (snd g)) (udb_groups db))" by blast
    have "length (privs_groups pi) \<le> length (privs_groups pi')" using l(4) by simp
    then have "0 < pi_gi pi \<Longrightarrow> 0 < pi_gi pi'" using p l(2) by (simp add: privs_groups_def privs_inv_def)
    with Some l assms show ?thesis by (simp add: get_user_groups_def user_inv_def)
  qed
  then show ?thesis using assms by (auto simp: privinfo_expand_user_groups_def user_inv_def privs_inv_def)
qed

lemma switch_returns:
  assumes "user_inv pi"
  shows "\<exists>r. switch_to_privs ops pi c = Some r"
proof (cases "pi_uid pi = 0")
  case False
  then have "pi_gids pi \<noteq> []" using assms by (auto simp: user_inv_def privs_inv_def)
  then show ?thesis by (auto simp: switch_to_privs_def split: prod.split)
qed (simp add: switch_to_privs_def)

lemma daemon_privs_returns:
  assumes "user_inv pi"
  shows "\<exists>pi' cr' rc. daemon_privs ops db gid pi cr = Some (pi', cr', rc)"
proof -
  from expand_user [OF assms] obtain pi' where e: "privinfo_expand_user_groups db pi = Some pi'" "user_inv pi'" by blast
  with switch_returns [of pi' ops cr] show ?thesis by (auto simp: daemon_privs_def)
qed

lemma expand_srv:
  assumes "user_inv (get_server_privinfo srv)"
  shows "\<exists>srv'. expand_srv_groups db srv = Some srv' \<and> srv_ptr srv' = srv_ptr srv
    \<and> srv_num_children srv' = srv_num_children srv \<and> srv_pidtab srv' = srv_pidtab srv"
proof (cases "srv_data srv")
  case None
  then show ?thesis by (simp add: expand_srv_groups_def)
next
  case (Some pi)
  with assms have "user_inv pi" by (simp add: get_server_privinfo_def)
  from expand_user [OF this] obtain pi' where
    e: "privinfo_expand_user_groups db pi = Some pi'" "user_inv pi'" by blast
  from e(2) have "pi_uid pi' \<noteq> 0 \<Longrightarrow> pi_gids pi' \<noteq> []" by (auto simp: user_inv_def privs_inv_def)
  moreover from e(2) obtain pi2 where "privinfo_add_grpgid pi' (the (srv_gid srv)) = Some pi2"
    using add_grpgid by (fastforce simp: user_inv_def)
  ultimately show ?thesis using Some e(1)
    by (auto simp: expand_srv_groups_def smap_server_get_owner_def smap_server_set_owner_def
        smap_server_set_data_def Let_def split: option.split)
qed

lemma expand_all:
  assumes "list_all (\<lambda>s. user_inv (get_server_privinfo s)) srvs" "list_all idle_server srvs"
  shows "\<exists>srvs'. those (map (expand_srv_groups db) srvs) = Some srvs' \<and> map srv_ptr srvs' = map srv_ptr srvs
    \<and> list_all idle_server srvs'"
  using assms
proof (induction srvs)
  case (Cons s srvs)
  from Cons.prems(1) have "user_inv (get_server_privinfo s)" by simp
  from expand_srv [OF this, of db] Cons show ?case by (auto simp: idle_server_def)
qed simp

lemma open_loop_keeps:
  assumes "srvman_open_loop sp oes srvs = (calls, srvs')" "distinct (map srv_ptr srvs)" "list_all idle_server srvs"
  shows "distinct (map srv_ptr srvs') \<and> set (map srv_ptr srvs') \<subseteq> set (map srv_ptr srvs) \<and> list_all idle_server srvs'
    \<and> length srvs' \<le> length srvs"
  using assms
proof (induction srvs arbitrary: calls srvs')
  case (Cons s srvs)
  obtain c1 r where o: "server_open sp (oes (srv_ptr s)) s = (c1, r)" by fastforce
  obtain c2 ps where l: "srvman_open_loop sp oes srvs = (c2, ps)" by fastforce
  from o have r: "\<And>s'. r = Some s' \<Longrightarrow> srv_ptr s' = srv_ptr s \<and> idle_server s' = idle_server s"
    by (auto simp: server_open_def idle_server_def split: prod.splits if_splits)
  from Cons.prems have d: "distinct (map srv_ptr srvs)" "list_all idle_server srvs" "srv_ptr s \<notin> set (map srv_ptr srvs)"
    "idle_server s" by auto
  note ih = Cons.IH [OF l d(1,2)]
  have e: "srvs' = (case r of None \<Rightarrow> ps | Some s' \<Rightarrow> s' # ps)" using Cons.prems(1) o l by simp
  show ?case
  proof (cases r)
    case None
    with e ih show ?thesis by auto
  next
    case (Some s')
    have "srv_ptr s' \<notin> set (map srv_ptr ps)" using r [OF Some] ih d(3) by auto
    with Some e ih d(4) r [OF Some] show ?thesis by auto
  qed
qed simp

lemma apply_opts_inv:
  "conf_inv (apply_opts vars c) = conf_inv c" "sc_modules (apply_opts vars c) = sc_modules c"
  "sc_rules (apply_opts vars c) = sc_rules c"
proof -
  have f: "f (fold (\<lambda>(a, set) c. case vars a of None \<Rightarrow> c | Some v \<Rightarrow> set v c) os c) = f c"
    if "list_all (\<lambda>(a, set). \<forall>v c. f (set v c) = f c) os" for f :: "('a, 'b) smapd_conf \<Rightarrow> 'c" and os c
    using that by (induction os arbitrary: c) (auto split: option.split)
  show "conf_inv (apply_opts vars c) = conf_inv c" unfolding apply_opts_def
    by (rule f) (simp add: opt_vars_def Let_def split: optval.split)
  show "sc_modules (apply_opts vars c) = sc_modules c" unfolding apply_opts_def
    by (rule f) (simp add: opt_vars_def Let_def split: optval.split)
  show "sc_rules (apply_opts vars c) = sc_rules c" unfolding apply_opts_def
    by (rule f) (simp add: opt_vars_def Let_def split: optval.split)
qed

lemma main_defaults_inv: "conf_inv (main_defaults tty c) = conf_inv c"
  by (simp add: main_defaults_def Let_def)

lemma main_logging_inv:
  "conf_inv (main_logging c) = conf_inv c" "sc_modules (main_logging c) = sc_modules c"
  "sc_rules (main_logging c) = sc_rules c"
  by (simp_all add: main_logging_def)

text \<open>What the set-up leaves when it returns.\<close>

lemma main_setup_ready:
  assumes "conf_inv c0" "conf_text_ok ev t" "main_setup ev dlopen tty (Some t) lint oc c0 = Some (Inr c)"
  shows "\<exists>c1. conf_inv c1 \<and> start_modules dlopen (sc_modules c1) (sc_rules c1) = Some (sc_modules c, sc_rules c)
    \<and> c = c1\<lparr>sc_modules := sc_modules c, sc_rules := sc_rules c\<rparr>"
proof -
  have i: "conf_inv (main_defaults tty c0)" using assms(1) by (simp add: main_defaults_inv)
  from parse_config_inv [OF i assms(2), of False] obtain r where
    r: "parse_config (Some t) (smap_kwtab ev) False (main_defaults tty c0) = Some r"
    "case r of Inl code \<Rightarrow> splitter_code t code | Inr (c', rc) \<Rightarrow> conf_inv c' \<and> rc \<in> {0, 1} \<and> (False \<longrightarrow> rc = 1)" by blast
  with assms(3) obtain c1 rc where
    p: "parse_config (Some t) (smap_kwtab ev) False (main_defaults tty c0) = Some (Inr (c1, rc))" "conf_inv c1"
    by (cases r) (auto simp: main_setup_def)
  with assms(3) obtain vars ms rules where
    s: "start_modules dlopen (sc_modules c1) (sc_rules c1) = Some (ms, rules)"
    "c = (main_logging (apply_opts vars c1))\<lparr>sc_modules := ms, sc_rules := rules\<rparr>"
    by (auto simp: main_setup_def bind_eq_Some_conv apply_opts_inv main_logging_inv split: if_splits prod.splits)
  have "conf_inv (main_logging (apply_opts vars c1))" using p(2) by (simp add: main_logging_inv apply_opts_inv)
  with s show ?thesis
    by (intro exI [of _ "main_logging (apply_opts vars c1)"]) (simp add: main_logging_inv apply_opts_inv)
qed

lemma modules_load_version:
  assumes "\<forall>nm pmod. dlopen nm = Some (Some pmod) \<longrightarrow> 0 < smap_version pmod"
    and "m \<in> set (module_list (smap_modules_load dlopen ms))" "mi_module m = Some pmod"
  shows "0 < smap_version pmod"
proof -
  from assms(2) obtain p where p: "loads dlopen p" "m = fst (load_module dlopen p)"
    by (auto simp: smap_modules_load_def modules_load_loop_spec)
  then have "\<exists>nm. dlopen nm = Some (Some pmod)"
    using assms(3) by (auto simp: loads_def load_module_def split: if_splits option.splits)
  with assms(1) show ?thesis by blast
qed

lemma start_modules_linked:
  assumes "conf_inv c" "\<forall>nm pmod. dlopen nm = Some (Some pmod) \<longrightarrow> 0 < smap_version pmod"
    and "start_modules dlopen (sc_modules c) (sc_rules c) = Some (ms, rules)"
  shows "list_all (rule_linked ms) rules"
proof -
  let ?ms = "smap_modules_load dlopen (sc_modules c)"
  from assms(3) have s: "init_databases ?ms = Some ms" "link_dispatch_rules ms (sc_rules c) = Some rules"
    by (auto simp: start_modules_def Let_def bind_eq_Some_conv)
  have d: "ids_distinct ?ms" using assms(1) by (simp add: conf_inv_def modules_load_distinct)
  have n: "\<forall>d \<in> set (database_list ?ms). db_dbh d = None"
    using assms(1) by (auto simp: conf_inv_def smap_modules_load_def modules_load_loop_spec list_all_iff)
  from init_databases_ready [OF s(1) modules_load_ready d n] have r: "databases_ready ms" by blast
  have ml: "module_list ms = module_list ?ms" using s(1) by (auto simp: init_databases_def bind_eq_Some_conv)
  have "0 < smap_version pmod" if "db_module ms d = Some pmod" for d pmod
    using that modules_load_version [OF assms(2), of _ "sc_modules c" pmod] ml
    by (auto simp: db_module_def bind_eq_Some_conv module_locate_def dest!: find_SomeD)
  with link_rules_linked [OF r, of "sc_rules c"] s(2) show ?thesis by fastforce
qed

lemma daemon_start_returns:
  assumes "conf_inv c1" "sc_global_privs c = sc_global_privs c1" "sc_srvman c = sc_srvman c1"
  shows "\<exists>r. smap_daemon_start ev ops detached gid oes c cr = Some r
    \<and> (\<forall>calls c' cr'. r = Inr (calls, c', cr') \<longrightarrow>
        within (sc_param c') (length (sm_servers (sc_srvman c'))) (sc_srvman c'))"
proof -
  have i: "user_inv (sc_global_privs c)" "list_all (\<lambda>s. user_inv (get_server_privinfo s)) (sm_servers (sc_srvman c))"
    "list_all idle_server (sm_servers (sc_srvman c))" "distinct (map srv_ptr (sm_servers (sc_srvman c)))"
    "sm_num_children (sc_srvman c) = 0"
    using assms by (auto simp: conf_inv_def)
  from daemon_privs_returns [OF i(1), of ops "cv_users ev" gid cr] obtain pi cr1 rc where
    p: "daemon_privs ops (cv_users ev) gid (sc_global_privs c) cr = Some (pi, cr1, rc)" by blast
  from expand_all [OF i(2,3)] obtain srvs where
    e: "those (map (expand_srv_groups (cv_users ev)) (sm_servers (sc_srvman c))) = Some srvs"
    "map srv_ptr srvs = map srv_ptr (sm_servers (sc_srvman c))" "list_all idle_server srvs" by blast
  obtain calls srvs' where o: "srvman_open_loop (sc_param c) oes srvs = (calls, srvs')" by fastforce
  from open_loop_keeps [OF o] e(2,3) i(4) have k: "distinct (map srv_ptr srvs')" "list_all idle_server srvs'" by auto
  let ?sm = "(sc_srvman c)\<lparr>sm_servers := srvs'\<rparr>"
  have "within (sc_param c) (length (sm_servers ?sm)) ?sm"
    by (rule idle_within) (use k i(5) in \<open>auto simp: ptrs_def list_all_iff\<close>)
  with p e(1) o show ?thesis by (auto simp: smap_daemon_start_def smap_srvman_open_def)
qed

lemma reachable_limits:
  assumes "within sp n sm0" "srvman_reachable sp sm0 sm"
  shows "(\<forall>srv \<in> set (sm_servers sm). srv_num_children srv = live srv
      \<and> (srv_max_children srv \<noteq> 0 \<longrightarrow> live srv \<le> srv_max_children srv))
    \<and> (sp_max_children sp \<noteq> 0 \<longrightarrow> sm_num_children sm < sp_max_children sp + n)"
  using reachable_within [OF assms(2,1)] by (auto simp: within_def srvman_inv_def srv_inv_def)

section \<open>An example\<close>

definition setup_text :: string where
  "setup_text = ''server s unix:///smap.sock'' @ [NL] @ ''module echo echo'' @ [NL] @ ''database ok echo OK'' @ [NL]
     @ ''dispatch default database ok''"



lemmas conf_eval = cfg_words_def asgn_p_def is_idstart_def is_digit_def find_cfg_kw_def smap_kwtab_def kw_fn_def kw_int_def
  kw_str_def cfg_assign_def cfg_call_def Let_def cfg_module_def cfg_database_def cfg_dispatch_def cfg_server_def chkargc_def
  cfg_chkargc_def upd_conf_def ret_def demo_conf_env_def plain_words.simps

lemma setup_read:
  "read_line 0 \<lparr>ci_text = setup_text, ci_feof = False, ci_line = 0, ci_cur_line = 1\<rparr> =
    Some (\<lparr>ci_text = ''module echo echo'' @ [NL] @ ''database ok echo OK'' @ [NL] @ ''dispatch default database ok'',
       ci_feof = False, ci_line = 1, ci_cur_line = 2\<rparr>, 512, 26, ''server s unix:///smap.sock'')"
  "read_line 512 \<lparr>ci_text = ''module echo echo'' @ [NL] @ ''database ok echo OK'' @ [NL] @ ''dispatch default database ok'',
       ci_feof = False, ci_line = 1, ci_cur_line = 2\<rparr> =
    Some (\<lparr>ci_text = ''database ok echo OK'' @ [NL] @ ''dispatch default database ok'',
       ci_feof = False, ci_line = 2, ci_cur_line = 3\<rparr>, 512, 16, ''module echo echo'')"
  "read_line 512 \<lparr>ci_text = ''database ok echo OK'' @ [NL] @ ''dispatch default database ok'',
       ci_feof = False, ci_line = 2, ci_cur_line = 3\<rparr> =
    Some (\<lparr>ci_text = ''dispatch default database ok'', ci_feof = False, ci_line = 3, ci_cur_line = 4\<rparr>, 512, 19, ''database ok echo OK'')"
  by (simp_all add: setup_text_def read_line_def read_line_loop.simps [of 512] fgets_def)

lemma setup_read_last:
  "read_line 512 \<lparr>ci_text = ''dispatch default database ok'', ci_feof = False, ci_line = 3, ci_cur_line = 4\<rparr> =
    Some (\<lparr>ci_text = [], ci_feof = True, ci_line = 4, ci_cur_line = 4\<rparr>, 512, 28, ''dispatch default database ok'')"
  by (simp add: read_line_def read_line_loop.simps [of 512] fgets_def)

lemma setup_address: "server_address demo_names ''unix:///smap.sock'' = Some (Some (AF_UNIX ''/smap.sock'', 110))"
  using split_proto [of "''unix''" demo_names "''/smap.sock''"] split_url_path [of "''/smap.sock''" demo_names]
  by (simp add: server_address_def smap_url_parse_def parse_url0_def SUN_PATH_SIZE_def demo_names_def)

abbreviation (input) demo_state where
  "demo_state f c \<equiv> \<lparr>cf_in = f, cf_errors = False, cf_conf = c\<rparr>"

definition setup_srv :: "privinfo smap_server" where
  "setup_srv = \<lparr>srv_ptr = 0, srv_id = ''s'', srv_url = ''unix:///smap.sock'', srv_sa = AF_UNIX ''/smap.sock'',
     srv_salen = 110, srv_uid = None, srv_gid = None, srv_mode = None, srv_backlog = 0, srv_fd = 0, srv_flags = 0,
     srv_data = None, srv_max_children = 0, srv_num_children = 0, srv_pidtab = []\<rparr>"

lemma setup_server:
  assumes "sm_servers (sc_srvman c) = []"
  shows "cfg_words (smap_kwtab demo_conf_env) (plain_words blank ''server s unix:///smap.sock'') cl (demo_state f c) =
    Some (Inr (cl, demo_state f (c\<lparr>sc_srvman := smap_srvman_attach_server (sc_srvman c) setup_srv\<rparr>), False))"
  using assms by (simp add: conf_eval setup_address smap_server_new_def setup_srv_def)

lemma setup_module:
  assumes "module_declare (sc_modules c) ''smapd.conf'' (ci_line f) ''echo'' [''echo''] = (ms, 0, m)"
  shows "cfg_words (smap_kwtab demo_conf_env) (plain_words blank ''module echo echo'') cl (demo_state f c) =
    Some (Inr (cl, demo_state f (c\<lparr>sc_modules := ms\<rparr>), False))"
  using assms by (simp add: conf_eval)

lemma setup_database:
  assumes "database_declare (sc_modules c) ''smapd.conf'' (ci_line f) ''ok'' ''echo'' [''echo'', ''OK''] = (ms, 0, m)"
  shows "cfg_words (smap_kwtab demo_conf_env) (plain_words blank ''database ok echo OK'') cl (demo_state f c) =
    Some (Inr (cl, demo_state f (c\<lparr>sc_modules := ms\<rparr>), False))"
  using assms by (simp add: conf_eval)

lemma setup_dispatch:
  assumes "parse_dispatch (cv_query demo_conf_env) ''smapd.conf'' (ci_line f) (sc_rules c) [''default'', ''database'', ''ok''] = Some (rules, 0)"
  shows "cfg_words (smap_kwtab demo_conf_env) (plain_words blank ''dispatch default database ok'') cl (demo_state f c) =
    Some (Inr (cl, demo_state f (c\<lparr>sc_rules := rules\<rparr>), False))"
  using assms by (simp add: conf_eval)

lemma setup_step:
  assumes "read_line sz f = Some (f', 512, n, l)"
    and "\<And>cl. cfg_words kwtab (plain_words blank l) cl (demo_state f' c) = Some (Inr (cl, demo_state f' c', False))"
    and "n \<noteq> 0" "\<forall>c \<in> set l. c \<notin> {NUL, BSL, SQ, DQ, CHR ''#'', CHR ''$''}"
  shows "parse_config_from kwtab \<lparr>cl_size = sz, cl_env = [], cl_vars = False\<rparr> (demo_state f c)
    = parse_config_from kwtab \<lparr>cl_size = 512, cl_env = [], cl_vars = False\<rparr> (demo_state f' c')"
proof -
  have w: "cfg_wordsplit env l = Some (Inr (plain_words blank l))" for env using cfg_wordsplit_plain [OF assms(4)] .
  show ?thesis using assms by (subst parse_config_from.simps) (simp add: w)
qed

definition setup_conf :: "(echo_database, unit) smapd_conf" where
  "setup_conf =
     (main_defaults True demo_conf)\<lparr>sc_srvman := smap_srvman_attach_server (sc_srvman demo_conf) setup_srv,
       sc_modules := fst (database_declare (fst (module_declare (sc_modules demo_conf) ''smapd.conf'' 2 ''echo'' [''echo'']))
         ''smapd.conf'' 3 ''ok'' ''echo'' [''echo'', ''OK'']),
       sc_rules := fst (the (parse_dispatch (cv_query demo_conf_env) ''smapd.conf'' 4 [] [''default'', ''database'', ''ok'']))\<rparr>"

lemma setup_parse:
  "parse_config (Some setup_text) (smap_kwtab demo_conf_env) False (main_defaults True demo_conf)
    = Some (Inr (setup_conf, 0))"
proof -
  let ?c0 = "main_defaults True demo_conf"
  let ?c1 = "?c0\<lparr>sc_srvman := smap_srvman_attach_server (sc_srvman ?c0) setup_srv\<rparr>"
  obtain ms1 m1 where m: "module_declare (sc_modules ?c1) ''smapd.conf'' 2 ''echo'' [''echo''] = (ms1, 0, m1)"
    by (simp add: module_declare_def module_locate_def main_defaults_def demo_conf_def Let_def)
  then obtain ms2 m2 where d: "database_declare ms1 ''smapd.conf'' 3 ''ok'' ''echo'' [''echo'', ''OK''] = (ms2, 0, m2)"
    by (auto simp: module_declare_def module_locate_def database_declare_def database_locate_def main_defaults_def
        demo_conf_def Let_def)
  obtain rules where p: "parse_dispatch (cv_query demo_conf_env) ''smapd.conf'' 4 [] [''default'', ''database'', ''ok''] = Some (rules, 0)"
    by (simp add: parse_dispatch_def parse_default_dispatch_def query_kwtab_def parse_db_clause_def eval_nat_numeral)
  let ?c2 = "?c1\<lparr>sc_modules := ms1\<rparr>" and ?c3 = "?c1\<lparr>sc_modules := ms2\<rparr>"
  let ?c4 = "?c3\<lparr>sc_rules := rules\<rparr>"
  have "parse_config_loop (smap_kwtab demo_conf_env)
      (demo_state \<lparr>ci_text = setup_text, ci_feof = False, ci_line = 0, ci_cur_line = 1\<rparr> ?c0)
    = parse_config_from (smap_kwtab demo_conf_env) \<lparr>cl_size = 512, cl_env = [], cl_vars = False\<rparr>
        (demo_state \<lparr>ci_text = [], ci_feof = True, ci_line = 4, ci_cur_line = 4\<rparr> ?c4)"
    unfolding parse_config_loop_def
    apply (subst setup_step [OF setup_read(1) setup_server])
      apply (simp_all add: main_defaults_def demo_conf_def)[3]
    apply (subst setup_step [OF setup_read(2) setup_module])
      apply (use m in simp_all)[3]
    apply (subst setup_step [OF setup_read(3) setup_database])
      apply (use d in simp_all)[3]
    apply (subst setup_step [OF setup_read_last setup_dispatch])
      apply (use p in \<open>simp_all add: main_defaults_def demo_conf_def\<close>)
    done
  also have "\<dots> = Some (Inr (demo_state \<lparr>ci_text = [], ci_feof = True, ci_line = 4, ci_cur_line = 4\<rparr> ?c4))"
    by (subst parse_config_from.simps) (simp add: read_line_def)
  finally have "parse_config (Some setup_text) (smap_kwtab demo_conf_env) False ?c0 = Some (Inr (?c4, 0))"
    by (simp add: parse_config_def)
  also have "?c4 = setup_conf"
    using m d p by (simp add: setup_conf_def main_defaults_def demo_conf_def)
  finally show ?thesis .
qed

lemma setup_text_ok: "conf_text_ok demo_conf_env setup_text"
proof -
  have l: "logical_lines setup_text =
    [''server s unix:///smap.sock'', ''module echo echo'', ''database ok echo OK'', ''dispatch default database ok'']"
    by (simp add: setup_text_def logical_lines.simps logical_line.simps)
  have "smap_url_parse demo_names ''unix:///smap.sock'' \<noteq> None"
    using setup_address by (cases "smap_url_parse demo_names ''unix:///smap.sock''") (simp_all add: server_address_def)
  then have "\<forall>l \<in> set (logical_lines setup_text). (\<forall>c \<in> set l. c \<notin> {NUL, BSL, SQ, DQ, CHR ''#'', CHR ''$''})
      \<and> stmt_ok demo_conf_env True (plain_words blank l)"
    unfolding l by (simp add: plain_words.simps stmt_ok_def demo_conf_env_def parse_dispatch_def)
  moreover have "CHR 0x00 \<notin> set setup_text" by (simp add: setup_text_def)
  ultimately show ?thesis using cfg_wordsplit_plain by (auto simp: conf_text_ok_def text_ok_def)
qed

definition no_opts :: optlist where
  "no_opts = \<lparr>oc_heap = (\<lambda>_. \<lparr>oc_ptr = 0, oc_val = OPT_INT 0, oc_next = None\<rparr>), opthead = None, opttail = None\<rparr>"

lemma setup_start: "\<exists>ms rules. start_modules echo_dlopen (sc_modules setup_conf) (sc_rules setup_conf) = Some (ms, rules)"
proof -
  have "sc_modules setup_conf = \<lparr>module_list = [\<lparr>mi_file = ''smapd.conf'', mi_line = 2, mi_id = ''echo'', mi_argv = [''echo''],
       mi_module = None, mi_handle = False\<rparr>],
     database_list = [\<lparr>db_file = ''smapd.conf'', db_line = 3, db_id = ''ok'', db_modname = ''echo'',
       db_argv = [''echo'', ''OK''], db_inst = None, db_dbh = None, db_opened = False\<rparr>],
     mod_load_path = (\<lambda>_. None)\<rparr>"
    by (simp add: setup_conf_def demo_conf_def main_defaults_def echo_eval)
  moreover have "sc_rules setup_conf = [\<lparr>dr_file = ''smapd.conf'', dr_line = 4, dr_cond = [], dr_dbname = ''ok'',
      dr_dbi = None, dr_xform = 0\<rparr>]"
    by (simp add: setup_conf_def demo_conf_env_def parse_dispatch_def parse_default_dispatch_def query_kwtab_def
        parse_db_clause_def eval_nat_numeral)
  ultimately show ?thesis
    by (simp add: start_modules_def echo_eval smap_modules_load_def init_databases_def init_database_def
        echo_init_db_def rule_fixup_def db_module_def)
qed

lemma setup_main: "\<exists>c. main_setup demo_conf_env echo_dlopen True (Some setup_text) False no_opts demo_conf = Some (Inr c)"
  using setup_start
  by (auto simp: main_setup_def setup_parse optcache_flush_def optcache_flush_from.simps [of _ None] no_opts_def
      apply_opts_inv main_logging_inv)

end
