(* ===== verification/Smap_Transform.thy ===== *)
theory Smap_Transform
  imports Smap_Prelude "HOL-Library.Monad_Syntax"
begin

text \<open>
  The s-expressions of the module \<open>sed\<close> (\<open>modules/sed/transform.c\<close>): the compiler of
  expressions \<open>s/regexp/replacement/flags\<close> and their application.  The regular expressions of
  the C library are a parameter (\<open>re_env\<close>), and so is the list of output pieces, which the
  source reaches through the function pointers \<open>tr_append\<close> and \<open>tr_reduce\<close>.  A string is
  the list of its bytes without the terminator; an access outside an array is \<open>None\<close>.  Memory
  exhaustion is left out in the compiler.
\<close>

section \<open>Data\<close>

datatype transform_type = transform_incomplete | transform_first | transform_global

datatype case_ctl_type = ctl_stop | ctl_upcase_next | ctl_locase_next | ctl_upcase | ctl_locase

datatype replace_segm =
    segm_literal string
  | segm_backref nat
  | segm_case_ctl case_ctl_type

record 're transform_expr =
  tf_type :: transform_type
  tf_match_number :: nat
  tf_regex :: 're
  tf_repl :: "replace_segm list"

datatype tre = TRE_INVAL | TRE_NOMEM | TRE_INVEXP | TRE_DELIM | TRE_TRAIL | TRE_BADFLAG | TRE_BACKREF

text \<open>\<open>re_exec\<close> returns the array of offsets, with \<open>None\<close> for a group that did not take part.\<close>

record 're re_env =
  re_comp :: "string \<Rightarrow> flagword \<Rightarrow> 're option"
  re_nsub :: "'re \<Rightarrow> nat"
  re_exec :: "'re \<Rightarrow> string \<Rightarrow> (nat \<times> nat) option list option"

abbreviation (input) REG_EXTENDED :: flagword where "REG_EXTENDED \<equiv> 1"
abbreviation (input) REG_ICASE :: flagword where "REG_ICASE \<equiv> 2"
abbreviation (input) BSLASH :: char where "BSLASH \<equiv> CHR 0x5C"

section \<open>The compiler\<close>

text \<open>The text up to the delimiter and the rest from there on; an escaped character is skipped.\<close>

fun scan_delim :: "char \<Rightarrow> string \<Rightarrow> string \<times> string" where
  "scan_delim d [] = ([], [])"
| "scan_delim d [c] = (if c = d then ([], [c]) else ([c], []))"
| "scan_delim d (c # c' # cs) =
     (if c = d then ([], c # c' # cs)
      else if c = BSLASH then apfst (\<lambda>b. c # c' # b) (scan_delim d cs)
      else apfst (\<lambda>b. c # b) (scan_delim d (c' # cs)))"

lemma strtoul_digits_shorter: "strtoul_digits b r = Some (n, r') \<Longrightarrow> length r' < length r"
  by (cases r) (auto simp: strtoul_digits_def Let_def split: if_splits)

lemma strtoul_digits_first: "digit_val c < b \<Longrightarrow> \<exists>n r. strtoul_digits b (c # cs) = Some (n, r)"
  by (simp add: strtoul_digits_def)

lemma digit_first: "is_digit c \<Longrightarrow> \<not> isspace c \<and> c \<notin> set ''+-'' \<and> digit_val c < 10"
  by (auto simp: is_digit_def isspace_def digit_val_def Let_def)

lemma strtoul_base_digit:
  assumes "is_digit c" "base = 0 \<or> base = 10"
  shows "\<exists>n r. strtoul_base base (c # cs) = Some (n, r) \<and> length r \<le> length cs"
proof -
  define b where "b = (if base = 0 then if c = CHR ''0'' then 8 else 10 else base)"
  have "digit_val c < b" using assms digit_first [of c] by (auto simp: b_def digit_val_def)
  from strtoul_digits_first [OF this, of cs] obtain n r where d: "strtoul_digits b (c # cs) = Some (n, r)" by blast
  with strtoul_digits_shorter [OF d] have n: "length r \<le> length cs" by simp
  show ?thesis
  proof (cases "\<exists>x h ds. cs = x # h # ds \<and> (base = 0 \<or> base = 16) \<and> c = CHR ''0'' \<and> x \<in> set ''xX'' \<and> digit_val h < 16")
    case True
    then obtain x h ds where cs: "cs = x # h # ds" and c: "base = 0 \<or> base = 16" "c = CHR ''0''" "x \<in> set ''xX''" "digit_val h < 16" by blast
    from strtoul_digits_first [OF c(4), of ds] obtain m q where m: "strtoul_digits 16 (h # ds) = Some (m, q)" by blast
    with cs c strtoul_digits_shorter [OF m] show ?thesis by (simp add: strtoul_base_def)
  next
    case False
    with d n show ?thesis by (auto simp: strtoul_base_def b_def split: list.split)
  qed
qed

lemma strtoul_shorter:
  assumes "(n, r) = strtoul p base" "p \<noteq> []" "is_digit (hd p)" "base = 0 \<or> base = 10"
  shows "length r < length p"
proof -
  from assms(2) obtain c cs where "p = c # cs" by (cases p) auto
  with assms strtoul_base_digit [of c base cs] digit_first [of c] show ?thesis by (auto simp: strtoul_def Let_def)
qed

text \<open>The flags.  The first argument is the rest of the expression from \<open>p\<close> on; an unknown flag gives
  the rest from there.\<close>

function parse_flags ::
  "string \<Rightarrow> transform_type \<Rightarrow> flagword \<Rightarrow> nat \<Rightarrow> string + transform_type \<times> flagword \<times> nat \<times> string" where
  "parse_flags p tt cflags mn =
     (if p = [] then Inr (tt, cflags, mn, [])
      else if hd p = CHR '';'' then Inr (tt, cflags, mn, tl p)
      else if hd p = CHR ''g'' then parse_flags (tl p) transform_global cflags mn
      else if hd p = CHR ''i'' then parse_flags (tl p) tt (setfl cflags REG_ICASE) mn
      else if hd p = CHR ''x'' then parse_flags (tl p) tt (setfl cflags REG_EXTENDED) mn
      else if is_digit (hd p) then
        (case strtoul p 0 of (n, p') \<Rightarrow> parse_flags p' tt cflags (n mod 2 ^ 32))
      else Inl p)"
  by pat_completeness auto
termination
  by (relation "measure (\<lambda>(p, _). length p)") (auto dest: strtoul_shorter)

declare parse_flags.simps [simp del]

text \<open>The segments of the replacement; a list is extended at its end.\<close>

definition add_literal_segment :: "replace_segm list \<Rightarrow> string \<Rightarrow> replace_segm list" where
  "add_literal_segment segs str = (if str \<noteq> [] then segs @ [segm_literal str] else segs)"

definition add_char_segment :: "replace_segm list \<Rightarrow> char \<Rightarrow> replace_segm list" where
  "add_char_segment segs c = segs @ [segm_literal [c]]"

definition add_backref_segment :: "replace_segm list \<Rightarrow> nat \<Rightarrow> replace_segm list" where
  "add_backref_segment segs n = segs @ [segm_backref n]"

definition add_case_ctl_segment :: "replace_segm list \<Rightarrow> case_ctl_type \<Rightarrow> replace_segm list" where
  "add_case_ctl_segment segs ctl = segs @ [segm_case_ctl ctl]"

text \<open>The segment for the character after a backslash (other than a digit).\<close>

definition escape_segment :: "replace_segm list \<Rightarrow> char \<Rightarrow> replace_segm list" where
  "escape_segment segs c =
     (if c = BSLASH then add_char_segment segs BSLASH
      else if c = CHR ''a'' then add_char_segment segs (CHR 0x07)
      else if c = CHR ''b'' then add_char_segment segs (CHR 0x08)
      else if c = CHR ''f'' then add_char_segment segs (CHR 0x0C)
      else if c = CHR ''n'' then add_char_segment segs (CHR 0x0A)
      else if c = CHR ''r'' then add_char_segment segs (CHR 0x0D)
      else if c = CHR ''t'' then add_char_segment segs (CHR 0x09)
      else if c = CHR ''v'' then add_char_segment segs (CHR 0x0B)
      else if c = CHR ''&'' then add_char_segment segs (CHR ''&'')
      else if c = CHR ''L'' then add_case_ctl_segment segs ctl_locase
      else if c = CHR ''l'' then add_case_ctl_segment segs ctl_locase_next
      else if c = CHR ''U'' then add_case_ctl_segment segs ctl_upcase
      else if c = CHR ''u'' then add_case_ctl_segment segs ctl_upcase_next
      else if c = CHR ''E'' then add_case_ctl_segment segs ctl_stop
      else add_literal_segment segs [BSLASH, c])"

text \<open>The loop over the replacement: \<open>lit\<close> is the text from \<open>beg\<close> to \<open>cur\<close>, the next argument the
  text from \<open>cur\<close> on; an error is the text behind a wrong back reference.  A backslash at
  the end makes \<open>cur\<close> run past the terminator.\<close>

function parse_repl ::
  "nat \<Rightarrow> string \<Rightarrow> string \<Rightarrow> replace_segm list \<Rightarrow> (string + replace_segm list) option" where
  "parse_repl nsub lit cur segs =
     (if cur = [] then Some (Inr (add_literal_segment segs lit))
      else if hd cur = BSLASH then
        (if tl cur = [] then None
         else let segs = add_literal_segment segs lit; cur = tl cur in
           if is_digit (hd cur) then
             (case strtoul cur 10 of (n, cur') \<Rightarrow>
                if n > nsub then Some (Inl cur')
                else parse_repl nsub [] cur' (add_backref_segment segs n))
           else parse_repl nsub [] (tl cur) (escape_segment segs (hd cur)))
      else if hd cur = CHR ''&'' then
        parse_repl nsub [] (tl cur) (add_backref_segment (add_literal_segment segs lit) 0)
      else parse_repl nsub (lit @ [hd cur]) (tl cur) segs)"
  by pat_completeness auto
termination
  by (relation "measure (\<lambda>(_, _, cur, _). length cur)") (auto dest!: strtoul_shorter simp: less_diff_conv)

declare parse_repl.simps [simp del]

text \<open>One expression: the compiled form and the rest, or the error with its position.\<close>

definition parse_transform_expr ::
  "'re re_env \<Rightarrow> string \<Rightarrow> flagword \<Rightarrow> (tre \<times> nat + 're transform_expr \<times> string) option" where
  "parse_transform_expr env expr cflags =
     (case expr of
        [] \<Rightarrow> Some (Inl (TRE_INVEXP, 0))
      | s # cs \<Rightarrow>
          if s \<noteq> CHR ''s'' then Some (Inl (TRE_INVEXP, 0))
          else (case cs of
              [] \<Rightarrow> None
            | delim # body \<Rightarrow>
              (case scan_delim delim body of (re, rest) \<Rightarrow>
                 if rest = [] then Some (Inl (TRE_DELIM, 2 + length re))
                 else (case scan_delim delim (tl rest) of (repl, rest') \<Rightarrow>
                   if rest' = [] then Some (Inl (TRE_TRAIL, 3 + length re + length repl))
                   else (case parse_flags (tl rest') transform_first cflags 0 of
                       Inl p \<Rightarrow> Some (Inl (TRE_BADFLAG, length expr - length p))
                     | Inr (tt, cflags, mn, p) \<Rightarrow>
                         (case re_comp env re cflags of
                            None \<Rightarrow> Some (Inl (TRE_INVEXP, 0))
                          | Some r \<Rightarrow>
                              if re = [] then None
                              else
                                let tt = (if hd re = CHR ''^'' \<or> last re = CHR ''$'' then transform_first else tt) in
                                map_option
                                  (map_sum (\<lambda>q. (TRE_BACKREF, length repl - length q))
                                    (\<lambda>segs. (\<lparr>tf_type = tt, tf_match_number = mn, tf_regex = r, tf_repl = segs\<rparr>, p)))
                                  (parse_repl (re_nsub env r) [] repl [])))))))"

lemma map_sum_eq_Inr: "map_sum f g x = Inr y \<longleftrightarrow> (\<exists>z. x = Inr z \<and> y = g z)"
  by (cases x) auto

lemma scan_delim_append: "fst (scan_delim d cs) @ snd (scan_delim d cs) = cs"
  by (induction d cs rule: scan_delim.induct) auto

lemma parse_flags_shorter: "parse_flags p tt cflags mn = Inr (tt', cflags', mn', r) \<Longrightarrow> length r \<le> length p"
proof (induction "length p" arbitrary: p tt cflags mn rule: less_induct)
  case less
  obtain n q where q: "strtoul p 0 = (n, q)" by (cases "strtoul p 0")
  note less_q = strtoul_shorter [OF q [symmetric]]
  note tl = less.hyps [of "tl p"] and num = less.hyps [of q]
  from less.prems less_q show ?case
    by (subst (asm) parse_flags.simps) (auto split: if_splits simp: q dest!: tl [rotated] num [rotated])
qed

lemma parse_transform_expr_cases:
  assumes "parse_transform_expr env expr cflags = Some (Inr (tf, rest))"
  obtains delim body re r repl r' tt cf mn rx segs where "expr = CHR ''s'' # delim # body"
    "scan_delim delim body = (re, r)" "r \<noteq> []" "scan_delim delim (tl r) = (repl, r')" "r' \<noteq> []"
    "parse_flags (tl r') transform_first cflags 0 = Inr (tt, cf, mn, rest)"
    "re_comp env re cf = Some rx" "re \<noteq> []" "parse_repl (re_nsub env rx) [] repl [] = Some (Inr segs)"
    "tf = \<lparr>tf_type = if hd re = CHR ''^'' \<or> last re = CHR ''$'' then transform_first else tt,
           tf_match_number = mn, tf_regex = rx, tf_repl = segs\<rparr>"
  using assms
  by (simp add: parse_transform_expr_def Let_def split: list.splits if_split_asm prod.splits sum.splits option.splits)
    (auto simp: map_sum_eq_Inr)

lemma parse_transform_expr_shorter:
  assumes "parse_transform_expr env expr cflags = Some (Inr (tf, rest))"
  shows "length rest < length expr"
  using assms
proof (cases rule: parse_transform_expr_cases)
  case e: (1 delim body re r repl r' tt cf mn rx segs)
  from e(6) have "length rest \<le> length r'" by (auto dest: parse_flags_shorter)
  moreover have "length r \<le> length body" "length r' \<le> length r"
    using scan_delim_append [of delim body] scan_delim_append [of delim "tl r"] e
    by (metis fst_conv le_add2 length_append snd_conv, metis diff_le_self fst_conv le_add2 le_trans length_append length_tl snd_conv)
  ultimately show ?thesis using e by simp
qed

function compile_loop ::
  "'re re_env \<Rightarrow> string \<Rightarrow> flagword \<Rightarrow> 're transform_expr list \<Rightarrow> (tre \<times> nat + 're transform_expr list) option" where
  "compile_loop env expr cflags tfs =
     (if expr = [] then Some (Inr tfs)
      else do {
        r \<leftarrow> parse_transform_expr env expr cflags;
        case r of
          Inl e \<Rightarrow> Some (Inl e)
        | Inr (tf, rest) \<Rightarrow> compile_loop env rest cflags (tfs @ [tf]) })"
  by pat_completeness auto
termination
  by (relation "measure (\<lambda>(_, expr, _). length expr)") (auto dest: parse_transform_expr_shorter)

declare compile_loop.simps [simp del]

text \<open>\<open>transform_compile_incr\<close> keeps the expressions compiled before, \<open>transform_compile\<close> starts with
  \<open>transform_init\<close>; after an error the list is empty.\<close>

record ('re, 'sl) transform =
  tr_list :: "'re transform_expr list"
  tr_append :: "('sl \<Rightarrow> string \<Rightarrow> 'sl \<times> bool) option"
  tr_reduce :: "('sl \<Rightarrow> ('sl \<times> string option) option) option"
  tr_cctl_buf :: string
  tr_errno :: "tre option"
  tr_errpos :: nat

definition transform_init :: "('re, 'sl) transform \<Rightarrow> ('re, 'sl) transform" where
  "transform_init tr = tr\<lparr>tr_list := [], tr_cctl_buf := [], tr_errno := None, tr_errpos := 0\<rparr>"

definition transform_compile_incr ::
  "'re re_env \<Rightarrow> ('re, 'sl) transform \<Rightarrow> string \<Rightarrow> flagword \<Rightarrow> (('re, 'sl) transform \<times> bool) option" where
  "transform_compile_incr env tr expr cflags = do {
     r \<leftarrow> compile_loop env expr cflags (tr_list tr);
     Some (case r of
         Inl (e, pos) \<Rightarrow> (tr\<lparr>tr_list := [], tr_errno := Some e, tr_errpos := pos\<rparr>, True)
       | Inr tfs \<Rightarrow> (tr\<lparr>tr_list := tfs\<rparr>, False)) }"

definition transform_compile ::
  "'re re_env \<Rightarrow> ('re, 'sl) transform \<Rightarrow> string \<Rightarrow> flagword \<Rightarrow> (('re, 'sl) transform \<times> bool) option" where
  "transform_compile env tr expr cflags = transform_compile_incr env (transform_init tr) expr cflags"

definition transform_free :: "('re, 'sl) transform \<Rightarrow> ('re, 'sl) transform" where
  "transform_free tr = tr\<lparr>tr_list := [], tr_cctl_buf := []\<rparr>"

section \<open>Application\<close>

definition TOUPPER :: "char \<Rightarrow> char" where
  "TOUPPER c = (let n = (of_char c :: nat) in if 97 \<le> n \<and> n \<le> 122 then char_of (n - 32) else c)"

definition TOLOWER :: "char \<Rightarrow> char" where
  "TOLOWER c = (let n = (of_char c :: nat) in if 65 \<le> n \<and> n \<le> 90 then char_of (n + 32) else c)"

text \<open>The conversion works on the buffer \<open>tr_cctl_buf\<close>, which is empty (a null pointer) at first and grows to the size
  of the text.  The result is the new buffer and the text it starts with.\<close>

definition run_case_conv :: "string \<Rightarrow> case_ctl_type \<Rightarrow> string \<Rightarrow> (string \<times> string) option" where
  "run_case_conv buf ctl ptr = do {
     let size = length ptr;
     let buf = ptr @ drop size buf;
     buf \<leftarrow> (case ctl of
         ctl_upcase_next \<Rightarrow> if buf = [] then None else Some (TOUPPER (hd buf) # tl buf)
       | ctl_locase_next \<Rightarrow> if buf = [] then None else Some (TOLOWER (hd buf) # tl buf)
       | ctl_upcase \<Rightarrow> Some (map TOUPPER (take size buf) @ drop size buf)
       | ctl_locase \<Rightarrow> Some (map TOLOWER (take size buf) @ drop size buf)
       | ctl_stop \<Rightarrow> Some buf);
     Some (buf, take size buf) }"

text \<open>The variables of \<open>_single_transform_name_to_slist\<close> that outlive an iteration.\<close>

record 'sl xform_state =
  xf_sink :: 'sl
  xf_buf :: string
  xf_case :: case_ctl_type
  xf_save :: case_ctl_type

definition CASE_CTL_RESET :: "'sl xform_state \<Rightarrow> 'sl xform_state" where
  "CASE_CTL_RESET x =
     (if xf_case x = ctl_upcase_next \<or> xf_case x = ctl_locase_next
      then x\<lparr>xf_case := xf_save x, xf_save := ctl_stop\<rparr> else x)"

definition transform_append :: "('sl \<Rightarrow> string \<Rightarrow> 'sl \<times> bool) \<Rightarrow> 'sl xform_state \<Rightarrow> string \<Rightarrow> 'sl xform_state \<times> bool" where
  "transform_append app x str = (case app (xf_sink x) str of (sl, bad) \<Rightarrow> (x\<lparr>xf_sink := sl\<rparr>, bad))"

text \<open>A text with the current case conversion.\<close>

definition append_conv ::
  "('sl \<Rightarrow> string \<Rightarrow> 'sl \<times> bool) \<Rightarrow> 'sl xform_state \<Rightarrow> string \<Rightarrow> ('sl xform_state \<times> bool) option" where
  "append_conv app x str =
     (if xf_case x = ctl_stop then Some (transform_append app x str)
      else do {
        (buf, out) \<leftarrow> run_case_conv (xf_buf x) (xf_case x) str;
        Some (transform_append app (CASE_CTL_RESET (x\<lparr>xf_buf := buf\<rparr>)) out) })"

definition set_case_ctl :: "case_ctl_type \<Rightarrow> 'sl xform_state \<Rightarrow> 'sl xform_state" where
  "set_case_ctl ctl x =
     (let x = (if (ctl = ctl_upcase_next \<or> ctl = ctl_locase_next) \<and> xf_save x \<in> {ctl_stop, ctl_upcase, ctl_locase}
               then x\<lparr>xf_save := xf_case x\<rparr> else x)
      in x\<lparr>xf_case := ctl\<rparr>)"

text \<open>The bytes from \<open>so\<close> up to \<open>eo\<close> of a string.\<close>

definition bytes_at :: "string \<Rightarrow> nat \<Rightarrow> nat \<Rightarrow> string option" where
  "bytes_at str so eo = (if so \<le> eo \<and> eo \<le> length str then Some (take (eo - so) (drop so str)) else None)"

fun run_segms ::
  "('sl \<Rightarrow> string \<Rightarrow> 'sl \<times> bool) \<Rightarrow> (nat \<times> nat) option list \<Rightarrow> string \<Rightarrow> replace_segm list \<Rightarrow> 'sl xform_state \<Rightarrow>
   ('sl xform_state \<times> bool) option" where
  "run_segms app rmp input [] x = Some (x, False)"
| "run_segms app rmp input (segm_literal str # segs) x = do {
     (x, bad) \<leftarrow> append_conv app x str;
     if bad then Some (x, True) else run_segms app rmp input segs x }"
| "run_segms app rmp input (segm_backref n # segs) x =
     (if n < length rmp then
        (case rmp ! n of
           None \<Rightarrow> run_segms app rmp input segs x
         | Some (so, eo) \<Rightarrow> do {
             str \<leftarrow> bytes_at input so eo;
             (x, bad) \<leftarrow> append_conv app x str;
             if bad then Some (x, True) else run_segms app rmp input segs x })
      else None)"
| "run_segms app rmp input (segm_case_ctl ctl # segs) x = run_segms app rmp input segs (set_case_ctl ctl x)"

text \<open>The offsets of the whole match.\<close>

definition match_at :: "(nat \<times> nat) option list \<Rightarrow> (nat \<times> nat) option" where
  "match_at rmp = (case rmp of m # _ \<Rightarrow> m | [] \<Rightarrow> None)"

partial_function (option) single_transform_loop ::
  "'re re_env \<Rightarrow> ('sl \<Rightarrow> string \<Rightarrow> 'sl \<times> bool) \<Rightarrow> 're transform_expr \<Rightarrow> string \<Rightarrow> nat \<Rightarrow> 'sl xform_state \<Rightarrow>
   ('sl xform_state \<times> bool) option" where
  "single_transform_loop env app tf input nmatches x =
     (if input = [] then Some (x, False)
      else (case re_exec env (tf_regex tf) input of
          Some rmp \<Rightarrow> do {
            (so, eo) \<leftarrow> match_at rmp;
            pre \<leftarrow> bytes_at input 0 so;
            (x, bad) \<leftarrow> Some (if so \<noteq> 0 then transform_append app x pre else (x, False));
            if bad then Some (x, True)
            else if tf_match_number tf \<noteq> 0 \<and> nmatches + 1 < tf_match_number tf then do {
              str \<leftarrow> bytes_at input 0 eo;
              (x, bad) \<leftarrow> Some (transform_append app x str);
              if bad then Some (x, True) else single_transform_loop env app tf (drop eo input) (nmatches + 1) x }
            else do {
              (x, bad) \<leftarrow> run_segms app rmp input (tf_repl tf) x;
              if bad then Some (x, True)
              else if tf_type tf = transform_first then Some (transform_append app x (drop eo input))
              else single_transform_loop env app tf (drop eo input) (nmatches + 1) x } }
        | None \<Rightarrow> do {
            (x, bad) \<leftarrow> Some (transform_append app x input);
            if bad then Some (x, True)
            else if tf_type tf = transform_first then Some (transform_append app x [])
            else Some (x, False) }))"

definition single_transform_name_to_slist ::
  "'re re_env \<Rightarrow> ('sl \<Rightarrow> string \<Rightarrow> 'sl \<times> bool) \<Rightarrow> 're transform_expr \<Rightarrow> string \<Rightarrow> string \<Rightarrow> 'sl \<Rightarrow>
   (string \<times> 'sl \<times> bool) option" where
  "single_transform_name_to_slist env app tf buf input sl = do {
     (x, bad) \<leftarrow> single_transform_loop env app tf input 0 \<lparr>xf_sink = sl, xf_buf = buf, xf_case = ctl_stop, xf_save = ctl_stop\<rparr>;
     Some (xf_buf x, xf_sink x, bad) }"

text \<open>The loop over the expressions; every one is applied to the same input.  The result is the last
  string that \<open>tr_reduce\<close> returned (a null pointer without expressions), or the failure.\<close>

fun transform_exprs ::
  "'re re_env \<Rightarrow> ('sl \<Rightarrow> string \<Rightarrow> 'sl \<times> bool) \<Rightarrow> ('sl \<Rightarrow> ('sl \<times> string option) option) \<Rightarrow> 're transform_expr list \<Rightarrow> string \<Rightarrow>
   string \<Rightarrow> 'sl \<Rightarrow> string option \<Rightarrow> (string \<times> 'sl \<times> (tre + string option)) option" where
  "transform_exprs env app red [] buf input sl output = Some (buf, sl, Inr output)"
| "transform_exprs env app red (tf # tfs) buf input sl output = do {
     (buf, sl, bad) \<leftarrow> single_transform_name_to_slist env app tf buf input sl;
     if bad then Some (buf, sl, Inl TRE_NOMEM)
     else do {
       (sl, bad) \<leftarrow> Some (app sl [CHR 0x00]);
       if bad then Some (buf, sl, Inl TRE_NOMEM)
       else do {
         (sl, out) \<leftarrow> red sl;
         case out of
           None \<Rightarrow> Some (buf, sl, Inl TRE_NOMEM)
         | Some s \<Rightarrow> transform_exprs env app red tfs buf input sl (Some s) } } }"

definition transform_string ::
  "'re re_env \<Rightarrow> ('re, 'sl) transform \<Rightarrow> string \<Rightarrow> 'sl \<Rightarrow> (('re, 'sl) transform \<times> 'sl \<times> (tre + string option)) option" where
  "transform_string env tr input sl =
     (let tr = tr\<lparr>tr_errno := None, tr_errpos := 0\<rparr> in
      case (tr_append tr, tr_reduce tr) of
        (Some app, Some red) \<Rightarrow> do {
          (buf, sl, r) \<leftarrow> transform_exprs env app red (tr_list tr) (tr_cctl_buf tr) input sl None;
          Some (tr\<lparr>tr_cctl_buf := buf, tr_errno := (case r of Inl e \<Rightarrow> Some e | Inr _ \<Rightarrow> None)\<rparr>, sl, r) }
      | _ \<Rightarrow> Some (tr\<lparr>tr_errno := Some TRE_INVAL\<rparr>, sl, Inl TRE_INVAL))"

text \<open>The messages: the numbers of the codes start with 1, the table with the message for the first.\<close>

definition tre_code :: "tre option \<Rightarrow> nat" where
  "tre_code e =
     (case e of None \<Rightarrow> 0 | Some TRE_INVAL \<Rightarrow> 1 | Some TRE_NOMEM \<Rightarrow> 2 | Some TRE_INVEXP \<Rightarrow> 3 | Some TRE_DELIM \<Rightarrow> 4
      | Some TRE_TRAIL \<Rightarrow> 5 | Some TRE_BADFLAG \<Rightarrow> 6 | Some TRE_BACKREF \<Rightarrow> 7)"

definition transform_errstr :: "string list" where
  "transform_errstr =
     [''invalid transform structure'', ''not enough memory'', ''invalid input expression'', ''missing 2nd delimiter'',
      ''missing trailing delimiter'', ''bad flag'', ''invalid backreference'']"

definition transform_strerror :: "('re, 'sl) transform \<Rightarrow> string" where
  "transform_strerror tr =
     (if tre_code (tr_errno tr) < length transform_errstr then transform_errstr ! tre_code (tr_errno tr) else ''unknown error'')"

end
