(* ===== verification/Smap_Transform_Laws.thy ===== *)
theory Smap_Transform_Laws
  imports Smap_Transform
begin

text \<open>
  What s-expressions do.  Compiled expressions refer to groups that exist, and the compiler
  leaves its input only in two cases.  Over any list of output pieces that keeps the law of the locale
  \<open>transform_sink\<close>, and for regular expressions whose matches are inside the text, the loop
  that applies an expression ends and writes what the reference function \<open>subst\<close> computes.
\<close>

section \<open>Compiled expressions\<close>

text \<open>Every backslash is followed by a character that it escapes.\<close>

fun escaped :: "string \<Rightarrow> bool" where
  "escaped [] \<longleftrightarrow> True"
| "escaped [c] \<longleftrightarrow> c \<noteq> BSLASH"
| "escaped (c # c' # cs) \<longleftrightarrow> (if c = BSLASH then escaped cs else escaped (c' # cs))"

lemma escaped_Cons: "c \<noteq> BSLASH \<Longrightarrow> escaped (c # cs) \<longleftrightarrow> escaped cs"
  by (cases cs) auto

lemma scan_delim_escaped: "snd (scan_delim d cs) \<noteq> [] \<Longrightarrow> escaped (fst (scan_delim d cs))"
proof (induction d cs rule: scan_delim.induct)
  case (3 d c c' cs)
  then show ?case by (auto simp: escaped_Cons)
qed auto

lemma escaped_append: "BSLASH \<notin> set ds \<Longrightarrow> escaped (ds @ r) \<longleftrightarrow> escaped r"
  by (induction ds) (auto simp: escaped_Cons)

lemma strtoul_digits_split: "strtoul_digits b r = Some (n, r') \<Longrightarrow> \<exists>ds. r = ds @ r' \<and> (\<forall>c \<in> set ds. digit_val c < b)"
  by (auto simp: strtoul_digits_def Let_def takeWhile_dropWhile_id dropWhile_eq_drop [symmetric] dest: set_takeWhileD
      intro!: exI [of _ "takeWhile (\<lambda>c. digit_val c < b) r"] split: if_splits)

lemma strtoul_10_split:
  assumes "strtoul p 10 = (n, r)" "p \<noteq> []" "is_digit (hd p)"
  shows "\<exists>ds. p = ds @ r \<and> (\<forall>c \<in> set ds. digit_val c < 10)"
proof -
  from assms(2) obtain c cs where p: "p = c # cs" by (cases p) auto
  with assms(3) have d: "is_digit c" by simp
  from strtoul_base_digit [OF d, of 10 cs] obtain m q where b: "strtoul_base 10 p = Some (m, q)" using p by auto
  with assms(1) p digit_first [OF d] have "q = r" by (auto simp: strtoul_def Let_def)
  moreover from b have "strtoul_digits 10 p = Some (m, q)" by (auto simp: strtoul_base_def split: list.splits)
  ultimately show ?thesis using strtoul_digits_split by blast
qed

lemma escaped_number:
  assumes "strtoul p 10 = (n, r)" "p \<noteq> []" "is_digit (hd p)" "escaped p"
  shows "escaped r"
proof -
  from strtoul_10_split [OF assms(1-3)] obtain ds where "p = ds @ r" "\<forall>c \<in> set ds. digit_val c < 10" by blast
  moreover then have "BSLASH \<notin> set ds" by (auto simp: digit_val_def)
  ultimately show ?thesis using assms(4) by (simp add: escaped_append)
qed

text \<open>The loop over the replacement by the shape of the text, and the induction that goes with it.\<close>

lemma parse_repl_eqs:
  "parse_repl nsub lit [] segs = Some (Inr (add_literal_segment segs lit))"
  "parse_repl nsub lit [BSLASH] segs = None"
  "is_digit e \<Longrightarrow> strtoul (e # es) 10 = (n, r) \<Longrightarrow> parse_repl nsub lit (BSLASH # e # es) segs =
     (if n > nsub then Some (Inl r) else parse_repl nsub [] r (add_backref_segment (add_literal_segment segs lit) n))"
  "\<not> is_digit e \<Longrightarrow> parse_repl nsub lit (BSLASH # e # es) segs =
     parse_repl nsub [] es (escape_segment (add_literal_segment segs lit) e)"
  "parse_repl nsub lit (CHR ''&'' # cs) segs =
     parse_repl nsub [] cs (add_backref_segment (add_literal_segment segs lit) 0)"
  "c \<noteq> BSLASH \<Longrightarrow> c \<noteq> CHR ''&'' \<Longrightarrow> parse_repl nsub lit (c # cs) segs = parse_repl nsub (lit @ [c]) cs segs"
  by (subst parse_repl.simps; simp add: Let_def)+

lemma repl_induct [case_names Nil Bs Num Esc Amp Chr]:
  assumes "P []" "P [BSLASH]"
    "\<And>e es n r. is_digit e \<Longrightarrow> strtoul (e # es) 10 = (n, r) \<Longrightarrow> P r \<Longrightarrow> P (BSLASH # e # es)"
    "\<And>e es. \<not> is_digit e \<Longrightarrow> P es \<Longrightarrow> P (BSLASH # e # es)"
    "\<And>cs. P cs \<Longrightarrow> P (CHR ''&'' # cs)"
    "\<And>c cs. c \<noteq> BSLASH \<Longrightarrow> c \<noteq> CHR ''&'' \<Longrightarrow> P cs \<Longrightarrow> P (c # cs)"
  shows "P cur"
proof (induction "length cur" arbitrary: cur rule: less_induct)
  case less
  show ?case
  proof (cases cur)
    case (Cons c cs)
    show ?thesis
    proof (cases "c = BSLASH \<and> cs \<noteq> [] \<and> is_digit (hd cs)")
      case True
      obtain n r where n: "strtoul cs 10 = (n, r)" by (cases "strtoul cs 10")
      with True have "length r < length cs" by (auto dest!: strtoul_shorter [OF n [symmetric]])
      with less [of r] Cons have "P r" by simp
      with True n Cons assms(3) [of "hd cs" "tl cs" n r] show ?thesis by simp
    next
      case False
      from less [of cs] less [of "tl cs"] Cons have "P cs" "P (tl cs)" by simp_all
      with False Cons assms show ?thesis by (cases "c = BSLASH"; cases cs; cases "c = CHR ''&''") auto
    qed
  qed (simp add: assms)
qed

lemma parse_repl_returns: "escaped cur \<Longrightarrow> parse_repl nsub lit cur segs \<noteq> None"
proof (induction cur arbitrary: lit segs rule: repl_induct)
  case (Num e es n r)
  then have "escaped (e # es)" by (subst escaped_Cons) (auto simp: is_digit_def)
  with Num escaped_number [OF Num(2)] show ?case by (simp add: parse_repl_eqs(3) [OF Num(1,2)])
qed (simp_all add: parse_repl_eqs escaped_Cons)

fun segm_ok :: "nat \<Rightarrow> replace_segm \<Rightarrow> bool" where
  "segm_ok nsub (segm_literal s) \<longleftrightarrow> s \<noteq> []"
| "segm_ok nsub (segm_backref n) \<longleftrightarrow> n \<le> nsub"
| "segm_ok nsub (segm_case_ctl ctl) \<longleftrightarrow> True"

definition expr_ok :: "'re re_env \<Rightarrow> 're transform_expr \<Rightarrow> bool" where
  "expr_ok env tf \<longleftrightarrow> tf_type tf \<noteq> transform_incomplete \<and> (\<forall>s \<in> set (tf_repl tf). segm_ok (re_nsub env (tf_regex tf)) s)"

lemmas add_segment_defs = add_literal_segment_def add_char_segment_def add_backref_segment_def add_case_ctl_segment_def

lemma escape_segment_ok: "\<forall>s \<in> set segs. segm_ok nsub s \<Longrightarrow> \<forall>s \<in> set (escape_segment segs c). segm_ok nsub s"
  by (simp add: escape_segment_def add_segment_defs)

lemma parse_repl_ok:
  assumes "parse_repl nsub lit cur segs = Some (Inr segs')" "\<forall>s \<in> set segs. segm_ok nsub s"
  shows "\<forall>s \<in> set segs'. segm_ok nsub s"
  using assms
proof (induction cur arbitrary: lit segs rule: repl_induct)
  case (Num e es n r)
  show ?case
  proof (cases "n > nsub")
    case False
    with Num(4) have "parse_repl nsub [] r (add_backref_segment (add_literal_segment segs lit) n) = Some (Inr segs')"
      by (simp add: parse_repl_eqs(3) [OF Num(1,2)])
    moreover have "\<forall>s \<in> set (add_backref_segment (add_literal_segment segs lit) n). segm_ok nsub s"
      using False Num(5) by (simp add: add_segment_defs)
    ultimately show ?thesis by (rule Num(3))
  qed (use Num(4) in \<open>simp add: parse_repl_eqs(3) [OF Num(1,2)]\<close>)
next
  case (Esc e es)
  show ?case
  proof (rule Esc(2))
    from Esc(3) show "parse_repl nsub [] es (escape_segment (add_literal_segment segs lit) e) = Some (Inr segs')"
      by (simp add: parse_repl_eqs(4) [OF Esc(1)])
    from Esc(4) show "\<forall>s \<in> set (escape_segment (add_literal_segment segs lit) e). segm_ok nsub s"
      by (intro escape_segment_ok) (simp add: add_literal_segment_def)
  qed
next
  case (Amp cs)
  show ?case
  proof (rule Amp(1))
    from Amp(2) show "parse_repl nsub [] cs (add_backref_segment (add_literal_segment segs lit) 0) = Some (Inr segs')"
      by (simp add: parse_repl_eqs(5))
    from Amp(3) show "\<forall>s \<in> set (add_backref_segment (add_literal_segment segs lit) 0). segm_ok nsub s"
      by (simp add: add_segment_defs)
  qed
next
  case (Chr c cs)
  from Chr(4,5) show ?case by (intro Chr(3) [of "lit @ [c]" segs]) (simp_all add: parse_repl_eqs(6) [OF Chr(1,2)])
qed (auto simp: parse_repl_eqs(1,2) add_literal_segment_def split: if_splits)

lemma scan_delim_Nil: "scan_delim d cs = ([], r) \<Longrightarrow> r \<noteq> [] \<Longrightarrow> \<exists>rest. cs = d # rest"
  by (cases "(d, cs)" rule: scan_delim.cases) (auto split: if_splits simp: apfst_def map_prod_def split: prod.splits)

lemma parse_flags_complete:
  "parse_flags p tt cflags mn = Inr (tt', cflags', mn', r) \<Longrightarrow> tt' = tt \<or> tt' = transform_global"
proof (induction "length p" arbitrary: p tt cflags mn rule: less_induct)
  case less
  obtain n q where q: "strtoul p 0 = (n, q)" by (cases "strtoul p 0")
  note less_q = strtoul_shorter [OF q [symmetric]]
  from less.prems less_q show ?case
    by (subst (asm) parse_flags.simps)
      (auto split: if_splits simp: q dest!: less.hyps [of "tl p", rotated] less.hyps [of q, rotated])
qed

lemma parse_expr_ok: "parse_transform_expr env expr cflags = Some (Inr (tf, rest)) \<Longrightarrow> expr_ok env tf"
  by (erule parse_transform_expr_cases) (auto simp: expr_ok_def dest: parse_repl_ok parse_flags_complete)

lemma compile_loop_ok:
  "compile_loop env expr cflags tfs = Some (Inr tfs') \<Longrightarrow> \<forall>tf \<in> set tfs. expr_ok env tf \<Longrightarrow> \<forall>tf \<in> set tfs'. expr_ok env tf"
proof (induction env expr cflags tfs rule: compile_loop.induct)
  case (1 env expr cflags tfs)
  show ?case
  proof (cases "expr = []")
    case False
    with "1.prems"(1) obtain y where y: "parse_transform_expr env expr cflags = Some y"
      "(case y of Inl e \<Rightarrow> Some (Inl e) | Inr (tf, rest) \<Rightarrow> compile_loop env rest cflags (tfs @ [tf])) = Some (Inr tfs')"
      by (subst (asm) compile_loop.simps [of env expr]) (auto simp: bind_eq_Some_conv)
    then obtain tf rest where p: "parse_transform_expr env expr cflags = Some (Inr (tf, rest))"
      "compile_loop env rest cflags (tfs @ [tf]) = Some (Inr tfs')" by (cases y) auto
    from p(1) have "expr_ok env tf" by (rule parse_expr_ok)
    with "1.IH" [OF False p(1) refl refl p(2)] "1.prems"(2) show ?thesis by simp
  qed (use 1 in \<open>simp add: compile_loop.simps\<close>)
qed

lemma parse_transform_expr_returns:
  assumes "parse_transform_expr env expr cflags = None"
  shows "expr = ''s'' \<or> (\<exists>d rest cf. expr = CHR ''s'' # d # d # rest \<and> re_comp env [] cf \<noteq> None)"
proof -
  consider "expr = ''s''" | d body r r' repl cf rx re where "expr = CHR ''s'' # d # body" "scan_delim d body = (re, r)" "r \<noteq> []"
    "scan_delim d (tl r) = (repl, r')" "r' \<noteq> []" "re_comp env re cf = Some rx"
    "re = [] \<or> parse_repl (re_nsub env rx) [] repl [] = None"
    using assms by (auto simp: parse_transform_expr_def Let_def split: list.splits if_splits prod.splits sum.splits option.splits)
  then show ?thesis
  proof cases
    case (2 d body r r' repl cf rx re)
    with scan_delim_escaped [of d "tl r"] parse_repl_returns [of repl "re_nsub env rx" "[]" "[]"] have "re = []" by auto
    with 2 scan_delim_Nil [of d body r] show ?thesis by auto
  qed simp
qed

text \<open>C37. The compiler of s-expressions leaves the bounds of its strings only for the single letter \<open>s\<close> and for an empty regular
  expression; the expressions it produces are complete, their literal segments are not empty, and their
  back references name groups that the regular expression has.\<close>

theorem compile_wf:
  "(parse_transform_expr env expr cflags = None \<longrightarrow>
      expr = ''s'' \<or> (\<exists>d rest cf. expr = CHR ''s'' # d # d # rest \<and> re_comp env [] cf \<noteq> None))
   \<and> (\<forall>tfs. compile_loop env expr cflags [] = Some (Inr tfs) \<longrightarrow> (\<forall>tf \<in> set tfs. expr_ok env tf))"
  using parse_transform_expr_returns [of env expr cflags] compile_loop_ok [of env expr cflags "[]"] by auto

section \<open>The reference\<close>

abbreviation (input) next_ctl :: "case_ctl_type set" where "next_ctl \<equiv> {ctl_upcase_next, ctl_locase_next}"

fun conv_text :: "case_ctl_type \<Rightarrow> string \<Rightarrow> string" where
  "conv_text ctl_stop s = s"
| "conv_text ctl_upcase_next s = (case s of [] \<Rightarrow> [] | c # cs \<Rightarrow> TOUPPER c # cs)"
| "conv_text ctl_locase_next s = (case s of [] \<Rightarrow> [] | c # cs \<Rightarrow> TOLOWER c # cs)"
| "conv_text ctl_upcase s = map TOUPPER s"
| "conv_text ctl_locase s = map TOLOWER s"

text \<open>The case conversion after a text, and after a control: the pair of the current and the saved one.\<close>

definition after_text :: "case_ctl_type \<times> case_ctl_type \<Rightarrow> case_ctl_type \<times> case_ctl_type" where
  "after_text cc = (if fst cc \<in> next_ctl then (snd cc, ctl_stop) else cc)"

definition after_ctl :: "case_ctl_type \<Rightarrow> case_ctl_type \<times> case_ctl_type \<Rightarrow> case_ctl_type \<times> case_ctl_type" where
  "after_ctl ctl cc = (ctl, if ctl \<in> next_ctl \<and> snd cc \<notin> next_ctl then fst cc else snd cc)"

text \<open>The text of a replacement, given the texts of the groups.\<close>

fun segms_text ::
  "(nat \<Rightarrow> string option) \<Rightarrow> replace_segm list \<Rightarrow> case_ctl_type \<times> case_ctl_type \<Rightarrow> string \<times> case_ctl_type \<times> case_ctl_type" where
  "segms_text grp [] cc = ([], cc)"
| "segms_text grp (segm_literal s # segs) cc = apfst ((@) (conv_text (fst cc) s)) (segms_text grp segs (after_text cc))"
| "segms_text grp (segm_backref n # segs) cc =
     (case grp n of
        None \<Rightarrow> segms_text grp segs cc
      | Some s \<Rightarrow> apfst ((@) (conv_text (fst cc) s)) (segms_text grp segs (after_text cc)))"
| "segms_text grp (segm_case_ctl ctl # segs) cc = segms_text grp segs (after_ctl ctl cc)"

definition group_text :: "(nat \<times> nat) option list \<Rightarrow> string \<Rightarrow> nat \<Rightarrow> string option" where
  "group_text rmp input n = map_option (\<lambda>(so, eo). take (eo - so) (drop so input)) (rmp ! n)"

text \<open>The substitution: the text before a match, the replacement, and the rest, which is searched again for a global
  expression.\<close>

function subst :: "'re re_env \<Rightarrow> 're transform_expr \<Rightarrow> string \<Rightarrow> case_ctl_type \<times> case_ctl_type \<Rightarrow> string" where
  "subst env tf input cc =
     (if input = [] then []
      else (case re_exec env (tf_regex tf) input of
          None \<Rightarrow> input
        | Some rmp \<Rightarrow>
            (case the (rmp ! 0) of (so, eo) \<Rightarrow>
             (case segms_text (group_text rmp input) (tf_repl tf) cc of (t, cc') \<Rightarrow>
                take so input @ t
                @ (if tf_type tf = transform_first \<or> eo = 0 then drop eo input else subst env tf (drop eo input) cc')))))"
  by pat_completeness auto
termination
  by (relation "measure (\<lambda>(env, tf, input, cc). length input)") auto

declare subst.simps [simp del]

text \<open>What the C library promises of \<open>regexec\<close>: offsets for the match and every group, inside the text.\<close>

definition re_ok :: "'re re_env \<Rightarrow> 're \<Rightarrow> bool" where
  "re_ok env rx \<longleftrightarrow> (\<forall>input rmp. re_exec env rx input = Some rmp \<longrightarrow>
     length rmp = re_nsub env rx + 1 \<and> rmp ! 0 \<noteq> None
     \<and> (\<forall>n so eo. n < length rmp \<and> rmp ! n = Some (so, eo) \<longrightarrow> so \<le> eo \<and> eo \<le> length input))"

text \<open>No empty text is converted while there is no buffer: there is one already, or no conversion of a single
  character, or the groups of the replacement are never empty.\<close>

definition conv_safe :: "replace_segm list \<Rightarrow> (nat \<times> nat) option list \<Rightarrow> string \<Rightarrow> case_ctl_type \<Rightarrow> bool" where
  "conv_safe segs rmp buf cc \<longleftrightarrow> buf \<noteq> []
     \<or> cc \<notin> next_ctl \<and> (\<forall>ctl \<in> next_ctl. segm_case_ctl ctl \<notin> set segs)
     \<or> (\<forall>n so eo. segm_backref n \<in> set segs \<and> rmp ! n = Some (so, eo) \<longrightarrow> so < eo)"

definition expr_safe :: "'re re_env \<Rightarrow> 're transform_expr \<Rightarrow> string \<Rightarrow> case_ctl_type \<Rightarrow> bool" where
  "expr_safe env tf buf cc \<longleftrightarrow> (\<forall>input rmp. re_exec env (tf_regex tf) input = Some rmp \<longrightarrow> conv_safe (tf_repl tf) rmp buf cc)"

text \<open>Each match of a global expression consumes something.\<close>

definition progresses :: "'re re_env \<Rightarrow> 're transform_expr \<Rightarrow> bool" where
  "progresses env tf \<longleftrightarrow> tf_type tf = transform_first
     \<or> (\<forall>input rmp so eo. input \<noteq> [] \<and> re_exec env (tf_regex tf) input = Some rmp \<and> rmp ! 0 = Some (so, eo) \<longrightarrow> 0 < eo)"

definition expr_good :: "'re re_env \<Rightarrow> 're transform_expr \<Rightarrow> bool" where
  "expr_good env tf \<longleftrightarrow> re_ok env (tf_regex tf) \<and> expr_ok env tf \<and> tf_match_number tf \<le> 1 \<and> progresses env tf
     \<and> expr_safe env tf [] ctl_stop"

section \<open>The interface of the output list\<close>

locale transform_sink =
  fixes app :: "'sl \<Rightarrow> string \<Rightarrow> 'sl \<times> bool"
    and red :: "'sl \<Rightarrow> ('sl \<times> string option) option"
    and inv :: "'sl \<Rightarrow> bool"
    and content :: "'sl \<Rightarrow> string"
  assumes append_law: "inv sl \<Longrightarrow> \<exists>sl'. app sl s = (sl', False) \<and> inv sl' \<and> content sl' = content sl @ s"
    and reduce_law: "inv sl \<Longrightarrow> \<exists>sl'. red sl = Some (sl', Some (content sl)) \<and> inv sl' \<and> content sl' = []"
begin

lemma transform_append_spec:
  assumes "inv (xf_sink x)"
  obtains sl' where "transform_append app x s = (x\<lparr>xf_sink := sl'\<rparr>, False)" "inv sl'" "content sl' = content (xf_sink x) @ s"
  using append_law [OF assms, of s] by (auto simp: transform_append_def)

lemma run_case_conv_spec:
  assumes "s \<noteq> [] \<or> buf \<noteq> [] \<or> ctl \<notin> next_ctl"
  obtains buf' where "run_case_conv buf ctl s = Some (buf', conv_text ctl s)" "s \<noteq> [] \<or> buf \<noteq> [] \<Longrightarrow> buf' \<noteq> []"
proof -
  from assms have "\<exists>buf'. run_case_conv buf ctl s = Some (buf', conv_text ctl s) \<and> (s \<noteq> [] \<or> buf \<noteq> [] \<longrightarrow> buf' \<noteq> [])"
    by (cases ctl; cases s; cases buf) (auto simp: run_case_conv_def Let_def)
  with that show ?thesis by blast
qed

lemma append_conv_spec:
  assumes "inv (xf_sink x)" "s \<noteq> [] \<or> xf_buf x \<noteq> [] \<or> xf_case x \<notin> next_ctl"
  shows "\<exists>x'. append_conv app x s = Some (x', False) \<and> inv (xf_sink x')
    \<and> content (xf_sink x') = content (xf_sink x) @ conv_text (xf_case x) s
    \<and> (xf_case x', xf_save x') = after_text (xf_case x, xf_save x)
    \<and> (xf_buf x \<noteq> [] \<or> s \<noteq> [] \<and> xf_case x \<noteq> ctl_stop \<longrightarrow> xf_buf x' \<noteq> [])"
proof (cases "xf_case x = ctl_stop")
  case True
  from assms(1) obtain sl' where "transform_append app x s = (x\<lparr>xf_sink := sl'\<rparr>, False)" "inv sl'"
    "content sl' = content (xf_sink x) @ s" by (rule transform_append_spec)
  with True show ?thesis by (simp add: append_conv_def after_text_def)
next
  case False
  from run_case_conv_spec [OF assms(2)] obtain buf' where
    b: "run_case_conv (xf_buf x) (xf_case x) s = Some (buf', conv_text (xf_case x) s)" "s \<noteq> [] \<or> xf_buf x \<noteq> [] \<Longrightarrow> buf' \<noteq> []" by blast
  define y where "y = CASE_CTL_RESET (x\<lparr>xf_buf := buf'\<rparr>)"
  have y: "xf_sink y = xf_sink x" "xf_buf y = buf'" "(xf_case y, xf_save y) = after_text (xf_case x, xf_save x)"
    by (auto simp: y_def CASE_CTL_RESET_def after_text_def)
  from assms(1) y(1) have "inv (xf_sink y)" by simp
  then obtain sl' where "transform_append app y (conv_text (xf_case x) s) = (y\<lparr>xf_sink := sl'\<rparr>, False)" "inv sl'"
    "content sl' = content (xf_sink y) @ conv_text (xf_case x) s" by (rule transform_append_spec)
  with False b y show ?thesis by (auto simp: append_conv_def y_def)
qed

lemma run_segms_spec:
  assumes "inv (xf_sink x)" "\<forall>s \<in> set segs. segm_ok nsub s" "length rmp = nsub + 1"
    "\<forall>n so eo. n < length rmp \<and> rmp ! n = Some (so, eo) \<longrightarrow> so \<le> eo \<and> eo \<le> length input"
    "conv_safe segs rmp (xf_buf x) (xf_case x)"
  shows "\<exists>x'. run_segms app rmp input segs x = Some (x', False) \<and> inv (xf_sink x')
    \<and> content (xf_sink x') = content (xf_sink x) @ fst (segms_text (group_text rmp input) segs (xf_case x, xf_save x))
    \<and> (xf_case x', xf_save x') = snd (segms_text (group_text rmp input) segs (xf_case x, xf_save x))
    \<and> (xf_buf x \<noteq> [] \<longrightarrow> xf_buf x' \<noteq> [])
    \<and> (xf_case x \<notin> next_ctl \<and> (\<forall>ctl \<in> next_ctl. segm_case_ctl ctl \<notin> set segs) \<longrightarrow> xf_case x' \<notin> next_ctl)"
  using assms(1,2,5)
proof (induction segs arbitrary: x)
  case (Cons s segs)
  have emit: ?case if run: "run_segms app rmp input (s # segs) x = do {
        (x, bad) \<leftarrow> append_conv app x str; if bad then Some (x, True) else run_segms app rmp input segs x }"
      and spec: "segms_text (group_text rmp input) (s # segs) (xf_case x, xf_save x) =
        apfst ((@) (conv_text (xf_case x) str)) (segms_text (group_text rmp input) segs (after_text (xf_case x, xf_save x)))"
      and safe: "str \<noteq> [] \<or> xf_buf x \<noteq> [] \<or> xf_case x \<notin> next_ctl" for str
  proof -
    from append_conv_spec [OF Cons.prems(1) safe] obtain y where y: "append_conv app x str = Some (y, False)" "inv (xf_sink y)"
      "content (xf_sink y) = content (xf_sink x) @ conv_text (xf_case x) str"
      "(xf_case y, xf_save y) = after_text (xf_case x, xf_save x)" "xf_buf x \<noteq> [] \<longrightarrow> xf_buf y \<noteq> []" by blast
    from y(4) have k: "xf_case x \<notin> next_ctl \<Longrightarrow> xf_case y = xf_case x" by (auto simp: after_text_def)
    with Cons.prems(3) y(5) have "conv_safe segs rmp (xf_buf y) (xf_case y)" by (auto simp: conv_safe_def)
    with Cons.IH [of y] Cons.prems(2) y(2) obtain x' where "run_segms app rmp input segs y = Some (x', False)" "inv (xf_sink x')"
      "content (xf_sink x') = content (xf_sink y) @ fst (segms_text (group_text rmp input) segs (xf_case y, xf_save y))"
      "(xf_case x', xf_save x') = snd (segms_text (group_text rmp input) segs (xf_case y, xf_save y))"
      "xf_buf y \<noteq> [] \<longrightarrow> xf_buf x' \<noteq> []"
      "xf_case y \<notin> next_ctl \<and> (\<forall>ctl \<in> next_ctl. segm_case_ctl ctl \<notin> set segs) \<longrightarrow> xf_case x' \<notin> next_ctl" by auto
    with run spec y k show ?thesis by (intro exI [of _ x']) auto
  qed
  show ?case
  proof (cases s)
    case (segm_literal str)
    with Cons.prems(2) show ?thesis by (intro emit [of str]) auto
  next
    case (segm_backref n)
    with Cons.prems(2) assms(3) have n: "n < length rmp" by simp
    show ?thesis
    proof (cases "rmp ! n")
      case None
      with Cons.prems have "conv_safe segs rmp (xf_buf x) (xf_case x)" by (auto simp: conv_safe_def)
      with Cons.IH [of x] Cons.prems None n segm_backref show ?thesis by (auto simp: group_text_def)
    next
      case (Some p)
      then obtain so eo where p: "rmp ! n = Some (so, eo)" by (cases p) auto
      with assms(4) n have b: "so \<le> eo" "eo \<le> length input" by auto
      have "so < eo \<or> xf_buf x \<noteq> [] \<or> xf_case x \<notin> next_ctl"
        using Cons.prems(3) p segm_backref unfolding conv_safe_def by (metis list.set_intros(1))
      with b p n segm_backref show ?thesis
        by (intro emit [of "take (eo - so) (drop so input)"]) (auto simp: bytes_at_def group_text_def)
    qed
  next
    case (segm_case_ctl ctl)
    let ?y = "set_case_ctl ctl x"
    have y: "xf_sink ?y = xf_sink x" "xf_buf ?y = xf_buf x" "(xf_case ?y, xf_save ?y) = after_ctl ctl (xf_case x, xf_save x)"
      by (cases "xf_save x"; auto simp: set_case_ctl_def Let_def after_ctl_def)+
    then have c: "xf_case ?y = ctl" by (simp add: after_ctl_def)
    with y Cons.prems segm_case_ctl have "conv_safe segs rmp (xf_buf ?y) (xf_case ?y)" by (auto simp: conv_safe_def)
    with Cons.IH [of ?y] Cons.prems y c segm_case_ctl show ?thesis by auto
  qed
qed auto

text \<open>One iteration with a match.\<close>

lemma single_loop_match:
  assumes "re_ok env (tf_regex tf)" "expr_ok env tf" "tf_match_number tf \<le> 1"
    and "inv (xf_sink x)" "expr_safe env tf (xf_buf x) (xf_case x)" "re_exec env (tf_regex tf) input = Some rmp" "input \<noteq> []"
  obtains z so eo t where "rmp ! 0 = Some (so, eo)" "eo \<le> length input" "inv (xf_sink z)" "content (xf_sink z) = content (xf_sink x) @ t"
    "single_transform_loop env app tf input nm x =
       (if tf_type tf = transform_first then Some (transform_append app z (drop eo input))
        else single_transform_loop env app tf (drop eo input) (nm + 1) z)"
    "subst env tf input (xf_case x, xf_save x) = t @ (if tf_type tf = transform_first \<or> eo = 0 then drop eo input
       else subst env tf (drop eo input) (xf_case z, xf_save z))"
    "expr_safe env tf (xf_buf z) (xf_case z)"
proof -
  from assms(1,6) have ok: "length rmp = re_nsub env (tf_regex tf) + 1" "rmp ! 0 \<noteq> None"
    "\<forall>n so eo. n < length rmp \<and> rmp ! n = Some (so, eo) \<longrightarrow> so \<le> eo \<and> eo \<le> length input" by (auto simp: re_ok_def)
  from ok(1,2) obtain so eo where m: "rmp ! 0 = Some (so, eo)" "match_at rmp = Some (so, eo)"
    by (cases rmp) (auto simp: match_at_def)
  with ok have b: "so \<le> eo" "eo \<le> length input" by auto
  define y where "y = fst (if so \<noteq> 0 then transform_append app x (take so input) else (x, False))"
  obtain sl where "transform_append app x (take so input) = (x\<lparr>xf_sink := sl\<rparr>, False)" "inv sl"
    "content sl = content (xf_sink x) @ take so input" using assms(4) by (rule transform_append_spec)
  then have y: "(if so \<noteq> 0 then transform_append app x (take so input) else (x, False)) = (y, False)" "inv (xf_sink y)"
    "content (xf_sink y) = content (xf_sink x) @ take so input" "xf_case y = xf_case x" "xf_save y = xf_save x" "xf_buf y = xf_buf x"
    using assms(4) by (auto simp: y_def)
  define t cc where "t = fst (segms_text (group_text rmp input) (tf_repl tf) (xf_case x, xf_save x))"
    and "cc = snd (segms_text (group_text rmp input) (tf_repl tf) (xf_case x, xf_save x))"
  have safe: "conv_safe (tf_repl tf) rmp (xf_buf y) (xf_case y)" using assms(5,6) y by (simp add: expr_safe_def)
  from assms(2) have "\<forall>s \<in> set (tf_repl tf). segm_ok (re_nsub env (tf_regex tf)) s" by (simp add: expr_ok_def)
  from run_segms_spec [OF y(2) this ok(1,3) safe] y obtain z where z: "run_segms app rmp input (tf_repl tf) y = Some (z, False)"
    "inv (xf_sink z)" "content (xf_sink z) = content (xf_sink x) @ take so input @ t" "(xf_case z, xf_save z) = cc"
    "xf_buf x \<noteq> [] \<longrightarrow> xf_buf z \<noteq> []"
    "xf_case x \<notin> next_ctl \<and> (\<forall>ctl \<in> next_ctl. segm_case_ctl ctl \<notin> set (tf_repl tf)) \<longrightarrow> xf_case z \<notin> next_ctl"
    by (auto simp: t_def cc_def)
  show thesis
  proof (rule that [OF m(1) b(2) z(2), of "take so input @ t"])
    show "single_transform_loop env app tf input nm x =
        (if tf_type tf = transform_first then Some (transform_append app z (drop eo input))
         else single_transform_loop env app tf (drop eo input) (nm + 1) z)"
      using assms(3,6,7) b z(1) m(2) y(1) by (subst single_transform_loop.simps) (simp add: bytes_at_def)
    show "subst env tf input (xf_case x, xf_save x) = (take so input @ t) @
        (if tf_type tf = transform_first \<or> eo = 0 then drop eo input else subst env tf (drop eo input) (xf_case z, xf_save z))"
      using assms(6,7) m(1) z(4) by (subst subst.simps) (simp add: t_def cc_def case_prod_beta)
    show "expr_safe env tf (xf_buf z) (xf_case z)"
      using assms(5) z(5,6) by (auto simp: expr_safe_def conv_safe_def)
  qed (use z in simp)
qed

lemma single_loop_spec:
  assumes "re_ok env (tf_regex tf)" "expr_ok env tf" "tf_match_number tf \<le> 1" "progresses env tf"
    and "inv (xf_sink x)" "expr_safe env tf (xf_buf x) (xf_case x)"
  shows "\<exists>x'. single_transform_loop env app tf input nm x = Some (x', False) \<and> inv (xf_sink x')
    \<and> content (xf_sink x') = content (xf_sink x) @ subst env tf input (xf_case x, xf_save x)"
  using assms(5,6)
proof (induction "length input" arbitrary: input nm x rule: less_induct)
  case less
  show ?case
  proof (cases "input = [] \<or> re_exec env (tf_regex tf) input = None")
    case True
    from less.prems(1) obtain sl where sl: "transform_append app x input = (x\<lparr>xf_sink := sl\<rparr>, False)" "inv sl"
      "content sl = content (xf_sink x) @ input" by (rule transform_append_spec)
    then have "inv (xf_sink (x\<lparr>xf_sink := sl\<rparr>))" by simp
    then obtain sl' where "transform_append app (x\<lparr>xf_sink := sl\<rparr>) [] = (x\<lparr>xf_sink := sl\<rparr>\<lparr>xf_sink := sl'\<rparr>, False)" "inv sl'"
      "content sl' = content sl" by (rule transform_append_spec [of _ "[]"]) simp
    with sl True less.prems show ?thesis
      by (auto simp: single_transform_loop.simps [of env app tf input] subst.simps [of env tf input])
  next
    case False
    then obtain rmp where rmp: "re_exec env (tf_regex tf) input = Some rmp" "input \<noteq> []" by auto
    obtain z so eo t where
      m: "rmp ! 0 = Some (so, eo)" "eo \<le> length input" and z: "inv (xf_sink z)" "content (xf_sink z) = content (xf_sink x) @ t"
      and run: "single_transform_loop env app tf input nm x =
       (if tf_type tf = transform_first then Some (transform_append app z (drop eo input))
        else single_transform_loop env app tf (drop eo input) (nm + 1) z)"
      and spec: "subst env tf input (xf_case x, xf_save x) = t @ (if tf_type tf = transform_first \<or> eo = 0 then drop eo input
       else subst env tf (drop eo input) (xf_case z, xf_save z))"
      and safe: "expr_safe env tf (xf_buf z) (xf_case z)"
      by (rule single_loop_match [OF assms(1-3) less.prems rmp])
    show ?thesis
    proof (cases "tf_type tf = transform_first")
      case True
      from z(1) obtain sl' where "transform_append app z (drop eo input) = (z\<lparr>xf_sink := sl'\<rparr>, False)" "inv sl'"
        "content sl' = content (xf_sink z) @ drop eo input" by (rule transform_append_spec)
      with True run spec z show ?thesis by simp
    next
      case False
      with assms(4) rmp m(1) have "0 < eo" by (auto simp: progresses_def)
      moreover from this m(2) rmp(2) have "length (drop eo input) < length input" by simp
      ultimately obtain x' where "single_transform_loop env app tf (drop eo input) (nm + 1) z = Some (x', False)" "inv (xf_sink x')"
        "content (xf_sink x') = content (xf_sink z) @ subst env tf (drop eo input) (xf_case z, xf_save z)"
        using less.hyps [of "drop eo input" z "nm + 1"] z(1) safe by blast
      with False run spec z \<open>0 < eo\<close> show ?thesis by simp
    qed
  qed
qed

lemma transform_exprs_spec:
  assumes "\<forall>tf \<in> set tfs. expr_good env tf" "inv sl" "content sl = []"
  shows "\<exists>buf' sl'. transform_exprs env app red tfs buf input sl out =
      Some (buf', sl', Inr (if tfs = [] then out else Some (subst env (last tfs) input (ctl_stop, ctl_stop) @ [CHR 0x00])))
    \<and> inv sl' \<and> content sl' = []"
  using assms
proof (induction tfs arbitrary: buf sl out)
  case (Cons tf tfs)
  then have g: "re_ok env (tf_regex tf)" "expr_ok env tf" "tf_match_number tf \<le> 1" "progresses env tf"
    "expr_safe env tf buf ctl_stop" by (auto simp: expr_good_def expr_safe_def conv_safe_def)
  let ?x = "\<lparr>xf_sink = sl, xf_buf = buf, xf_case = ctl_stop, xf_save = ctl_stop\<rparr>"
  from single_loop_spec [OF g(1-4), of ?x input 0] Cons.prems g(5) obtain x' where
    x: "single_transform_loop env app tf input 0 ?x = Some (x', False)" "inv (xf_sink x')"
    "content (xf_sink x') = subst env tf input (ctl_stop, ctl_stop)" by auto
  from append_law [OF x(2), of "[CHR 0x00]"] x(3) obtain s1 where
    s1: "app (xf_sink x') [CHR 0x00] = (s1, False)" "inv s1" "content s1 = subst env tf input (ctl_stop, ctl_stop) @ [CHR 0x00]" by auto
  from reduce_law [OF s1(2)] s1(3) obtain s2 where
    s2: "red s1 = Some (s2, Some (subst env tf input (ctl_stop, ctl_stop) @ [CHR 0x00]))" "inv s2" "content s2 = []" by auto
  from Cons.IH [OF _ s2(2,3), of "xf_buf x'" "Some (subst env tf input (ctl_stop, ctl_stop) @ [CHR 0x00])"] Cons.prems(1) x s1(1) s2(1)
  show ?case by (auto simp: single_transform_name_to_slist_def)
qed auto

lemma transform_string_spec:
  assumes "tr_append tr = Some app" "tr_reduce tr = Some red" "\<forall>tf \<in> set (tr_list tr). expr_good env tf" "inv sl" "content sl = []"
  shows "\<exists>buf' sl'. transform_string env tr input sl =
      Some (tr\<lparr>tr_cctl_buf := buf', tr_errno := None, tr_errpos := 0\<rparr>, sl',
        Inr (if tr_list tr = [] then None else Some (subst env (last (tr_list tr)) input (ctl_stop, ctl_stop) @ [CHR 0x00])))
    \<and> inv sl' \<and> content sl' = []"
proof -
  from transform_exprs_spec [OF assms(3-5), of "tr_cctl_buf tr" input None] obtain buf' sl' where
    "transform_exprs env app red (tr_list tr) (tr_cctl_buf tr) input sl None =
      Some (buf', sl', Inr (if tr_list tr = [] then None else Some (subst env (last (tr_list tr)) input (ctl_stop, ctl_stop) @ [CHR 0x00])))"
    "inv sl'" "content sl' = []" by blast
  with assms(1,2) show ?thesis by (intro exI [of _ buf'] exI [of _ sl']) (simp add: transform_string_def)
qed

end

section \<open>An instance\<close>

text \<open>Regular expressions that are plain words, found at their first occurrence.\<close>

fun find_sub :: "string \<Rightarrow> string \<Rightarrow> nat option" where
  "find_sub r [] = (if r = [] then Some 0 else None)"
| "find_sub r (c # cs) = (if take (length r) (c # cs) = r then Some 0 else map_option Suc (find_sub r cs))"

definition plain_env :: "string re_env" where
  "plain_env = \<lparr>re_comp = (\<lambda>s _. Some s), re_nsub = (\<lambda>_. 0),
     re_exec = (\<lambda>r input. map_option (\<lambda>i. [Some (i, i + length r)]) (find_sub r input))\<rparr>"

lemma find_sub_bound: "find_sub r s = Some i \<Longrightarrow> i + length r \<le> length s"
  by (induction r s arbitrary: i rule: find_sub.induct) (auto split: if_splits, metis length_Cons length_take min.cobounded1)

lemma plain_re_ok: "re_ok plain_env r"
  by (auto simp: re_ok_def plain_env_def dest: find_sub_bound)

lemma plain_progresses: "tf_regex tf \<noteq> [] \<Longrightarrow> progresses plain_env tf"
  by (auto simp: progresses_def plain_env_def)

lemma plain_safe: "(\<forall>n. segm_backref n \<notin> set (tf_repl tf)) \<Longrightarrow> expr_safe plain_env tf [] ctl_stop"
  by (simp add: expr_safe_def conv_safe_def)

text \<open>Two expressions in one argument.\<close>

theorem compile_wf_witness:
  "\<exists>tfs. compile_loop plain_env ''s,a,b,;s,c,&d,g'' 0 [] = Some (Inr tfs) \<and> length tfs = 2 \<and> list_all (expr_ok plain_env) tfs"
proof -
  have "\<exists>tfs. compile_loop plain_env ''s,a,b,;s,c,&d,g'' 0 [] = Some (Inr tfs) \<and> length tfs = 2"
    by (simp add: compile_loop.simps parse_transform_expr_def parse_flags.simps parse_repl.simps add_segment_defs plain_env_def)
  with compile_wf [of plain_env "''s,a,b,;s,c,&d,g''" 0] show ?thesis unfolding list_all_iff by blast
qed

end
