(* ===== verification/Smap_Parseopt.thy ===== *)
theory Smap_Parseopt
  imports Smap_Prelude "HOL-Library.Multiset" "HOL-Library.Monad_Syntax"
begin

text \<open>
  The parser of the arguments of modules (\<open>lib/parseopt.c\<close>).  A table of options
  describes how an argument changes the variables of the module; these are a state of
  any type, and the pointer \<open>data\<close> of an option is the update of the variable it points to.
  A store through a pointer of the wrong kind is \<open>None\<close>.
\<close>

section \<open>Data\<close>

datatype smap_opt_type =
    smap_opt_null | smap_opt_bool | smap_opt_bitmask | smap_opt_bitmask_rev | smap_opt_long
  | smap_opt_string | smap_opt_enum | smap_opt_const | smap_opt_const_string

text \<open>What \<open>data\<close> points to: nothing, an \<open>int\<close>, a \<open>long\<close> or a string.\<close>

datatype 's opt_data =
    NoData
  | IntData "(flagword \<Rightarrow> flagword) \<Rightarrow> 's \<Rightarrow> 's"
  | LongData "int \<Rightarrow> 's \<Rightarrow> 's"
  | StrData "string \<Rightarrow> 's \<Rightarrow> 's"

text \<open>The length of the name is the one that \<open>SMAP_OPTSTR\<close> computes.  The union \<open>v\<close> has two
  fields; \<open>opt_func\<close> returns true for an error.\<close>

record 's smap_option =
  opt_name :: string
  opt_type :: smap_opt_type
  opt_data :: "'s opt_data"
  opt_value :: int
  opt_enumstr :: "string list"
  opt_func :: "(string option \<Rightarrow> 's \<Rightarrow> 's \<times> bool) option"

abbreviation (input) SMAP_PARSEOPT_PARSE_ARGV0 :: flagword where "SMAP_PARSEOPT_PARSE_ARGV0 \<equiv> 1"
abbreviation (input) SMAP_PARSEOPT_PERMUTE :: flagword where "SMAP_PARSEOPT_PERMUTE \<equiv> 2"
abbreviation (input) SMAP_DELIM_EQ :: flagword where "SMAP_DELIM_EQ \<equiv> 0"
abbreviation (input) SMAP_DELIM_WS :: flagword where "SMAP_DELIM_WS \<equiv> 1"
abbreviation (input) SMAP_DELIM_MASK :: flagword where "SMAP_DELIM_MASK \<equiv> 1"
abbreviation (input) SMAP_IGNORECASE :: flagword where "SMAP_IGNORECASE \<equiv> 16"

datatype smap_parse = SMAP_PARSE_SUCCESS | SMAP_PARSE_NOENT | SMAP_PARSE_INVAL

section \<open>Operations\<close>

definition c_tolower :: "char \<Rightarrow> char" where
  "c_tolower c = (let n = (of_char c :: nat) in if 65 \<le> n \<and> n \<le> 90 then char_of (n + 32) else c)"

text \<open>The comparison selected by the flags, with result zero.\<close>

definition optcmp :: "flagword \<Rightarrow> string \<Rightarrow> string \<Rightarrow> nat \<Rightarrow> bool" where
  "optcmp flags a b n =
     (if hasfl flags SMAP_IGNORECASE then strncmp_eq (map c_tolower a) (map c_tolower b) n else strncmp_eq a b n)"

text \<open>Whether the name is followed by the delimiter, and the value behind it.\<close>

definition opt_delim :: "flagword \<Rightarrow> string \<Rightarrow> bool \<times> string" where
  "opt_delim flags rest =
     (if flags AND SMAP_DELIM_MASK = SMAP_DELIM_EQ then (rest \<noteq> [] \<and> hd rest = CHR ''='', tl rest)
      else (rest \<noteq> [] \<and> isspace (hd rest), dropWhile isspace rest))"

fun find_opt_loop ::
  "'s smap_option list \<Rightarrow> flagword \<Rightarrow> nat \<Rightarrow> bool \<Rightarrow> string \<Rightarrow> string option \<Rightarrow> ('s smap_option \<times> string option) option" where
  "find_opt_loop [] flags len isbool str v = None"
| "find_opt_loop (p # opts) flags len isbool str v =
     (if length (opt_name p) \<le> len \<and> optcmp flags (opt_name p) str (length (opt_name p))
         \<and> (\<not> isbool \<or> opt_type p = smap_opt_bool)
      then (case opt_delim flags (drop (length (opt_name p)) str) of (eq, vp) \<Rightarrow>
        if opt_type p \<in> {smap_opt_long, smap_opt_string, smap_opt_const_string, smap_opt_enum}
        then (if \<not> eq then find_opt_loop opts flags len isbool str v else Some (p, Some vp))
        else if opt_type p = smap_opt_null then Some (p, if eq then Some vp else None)
        else if eq then find_opt_loop opts flags len isbool str v
        else Some (p, v))
      else find_opt_loop opts flags len isbool str v)"

definition find_opt ::
  "'s smap_option list \<Rightarrow> string \<Rightarrow> flagword \<Rightarrow> ('s smap_option \<times> string option) option" where
  "find_opt opts str flags =
     (if 2 < length str \<and> optcmp flags str ''no'' 2
      then find_opt_loop opts flags (length str) True (drop 2 str) None
      else find_opt_loop opts flags (length str) False str (Some str))"

fun find_value :: "string list \<Rightarrow> string \<Rightarrow> int \<Rightarrow> int" where
  "find_value [] v i = -1"
| "find_value (e # es) v i = (if e = v then i else find_value es v (i + 1))"

definition store_int :: "'s opt_data \<Rightarrow> (flagword \<Rightarrow> flagword) \<Rightarrow> 's \<Rightarrow> ('s \<times> smap_parse) option" where
  "store_int d f s = (case d of IntData upd \<Rightarrow> Some (upd f s, SMAP_PARSE_SUCCESS) | _ \<Rightarrow> None)"

definition store_long :: "'s opt_data \<Rightarrow> int \<Rightarrow> 's \<Rightarrow> ('s \<times> smap_parse) option" where
  "store_long d n s = (case d of LongData upd \<Rightarrow> Some (upd n s, SMAP_PARSE_SUCCESS) | _ \<Rightarrow> None)"

definition store_str :: "'s opt_data \<Rightarrow> string option \<Rightarrow> 's \<Rightarrow> ('s \<times> smap_parse) option" where
  "store_str d v s =
     (case (d, v) of (StrData upd, Some x) \<Rightarrow> Some (upd x s, SMAP_PARSE_SUCCESS) | _ \<Rightarrow> None)"

text \<open>The assignment of the value; \<open>None\<close> as the value is the null pointer, as a result a fault.\<close>

definition opt_store :: "'s smap_option \<Rightarrow> string option \<Rightarrow> 's \<Rightarrow> ('s \<times> smap_parse) option" where
  "opt_store p v s =
     (case opt_type p of
        smap_opt_long \<Rightarrow> do {
          x \<leftarrow> v;
          case strtol x 0 of (n, r) \<Rightarrow> if r \<noteq> [] then Some (s, SMAP_PARSE_INVAL) else store_long (opt_data p) n s }
      | smap_opt_const \<Rightarrow> store_long (opt_data p) (opt_value p) s
      | smap_opt_const_string \<Rightarrow> store_str (opt_data p) v s
      | smap_opt_string \<Rightarrow> store_str (opt_data p) v s
      | smap_opt_bool \<Rightarrow>
          store_int (opt_data p)
            (\<lambda>x. if opt_value p \<noteq> 0
                 then (if v \<noteq> None then setfl x (word_of_int (opt_value p)) else clrfl x (word_of_int (opt_value p)))
                 else (if v \<noteq> None then 1 else 0)) s
      | smap_opt_bitmask \<Rightarrow> store_int (opt_data p) (\<lambda>x. setfl x (word_of_int (opt_value p))) s
      | smap_opt_bitmask_rev \<Rightarrow> store_int (opt_data p) (\<lambda>x. clrfl x (word_of_int (opt_value p))) s
      | smap_opt_enum \<Rightarrow> do {
          x \<leftarrow> v;
          let n = find_value (opt_enumstr p) x 0;
          if n = -1 then Some (s, SMAP_PARSE_INVAL) else store_int (opt_data p) (\<lambda>_. word_of_int n) s }
      | smap_opt_null \<Rightarrow> Some (s, SMAP_PARSE_SUCCESS))"

definition smap_parseline ::
  "'s smap_option list \<Rightarrow> string \<Rightarrow> flagword \<Rightarrow> 's \<Rightarrow> ('s \<times> smap_parse) option" where
  "smap_parseline opts line flags s =
     (case find_opt opts line flags of
        None \<Rightarrow> Some (s, SMAP_PARSE_NOENT)
      | Some (p, v) \<Rightarrow> do {
          (s, rc) \<leftarrow> opt_store p v s;
          Some (case opt_func p of
                  None \<Rightarrow> (s, rc)
                | Some f \<Rightarrow> (case f v s of (s, bad) \<Rightarrow> (s, if bad then SMAP_PARSE_INVAL else rc))) })"

text \<open>The first argument from position \<open>j\<close> on that is an option.\<close>

fun next_option :: "'s smap_option list \<Rightarrow> string list \<Rightarrow> nat \<Rightarrow> nat option" where
  "next_option opts [] j = None"
| "next_option opts (a # as) j = (if find_opt opts a SMAP_DELIM_EQ \<noteq> None then Some j else next_option opts as (j + 1))"

lemma opt_store_found: "opt_store p v s = Some (s', rc) \<Longrightarrow> rc \<noteq> SMAP_PARSE_NOENT"
  by (auto simp: opt_store_def store_int_def store_long_def store_str_def bind_eq_Some_conv Let_def case_prod_beta
      split: smap_opt_type.splits option.splits opt_data.splits if_splits)

lemma parseline_noent: "smap_parseline opts a flags s = Some (s', SMAP_PARSE_NOENT) \<longleftrightarrow> find_opt opts a flags = None \<and> s' = s"
  by (auto simp: smap_parseline_def bind_eq_Some_conv dest: opt_store_found split: option.splits prod.splits if_splits)

lemma next_option_Some:
  "next_option opts as j = Some k \<Longrightarrow>
   j \<le> k \<and> k - j < length as \<and> find_opt opts (as ! (k - j)) SMAP_DELIM_EQ \<noteq> None"
  by (induction opts as j rule: next_option.induct) (fastforce split: if_splits simp: Suc_diff_le)+

text \<open>The loop.  \<open>pindex\<close> tells whether the caller asks for the index of the first argument
  that is not an option; \<open>rc\<close> is the code so far.\<close>

function parseopt_loop ::
  "'s smap_option list \<Rightarrow> flagword \<Rightarrow> bool \<Rightarrow> string list \<Rightarrow> nat \<Rightarrow> int \<Rightarrow> 's \<Rightarrow> ('s \<times> string list \<times> nat \<times> int) option" where
  "parseopt_loop opts flags pindex argv i rc s =
     (if i < length argv then do {
        (s', res) \<leftarrow> smap_parseline opts (argv ! i) SMAP_DELIM_EQ s;
        case res of
          SMAP_PARSE_SUCCESS \<Rightarrow> parseopt_loop opts flags pindex argv (i + 1) rc s'
        | SMAP_PARSE_NOENT \<Rightarrow>
            if pindex then
              (if hasfl flags SMAP_PARSEOPT_PERMUTE
               then (case next_option opts (drop (i + 1) argv) (i + 1) of
                       Some j \<Rightarrow> parseopt_loop opts flags pindex (argv[j := argv ! i, i := argv ! j]) i rc s'
                     | None \<Rightarrow> Some (s', argv, i, rc))
               else Some (s', argv, i, rc))
            else parseopt_loop opts flags pindex argv (i + 1) 1 s'
        | SMAP_PARSE_INVAL \<Rightarrow> parseopt_loop opts flags pindex argv (i + 1) 1 s' }
      else Some (s, argv, i, rc))"
  by pat_completeness auto

termination
proof (relation "inv_image (less_than <*lex*> less_than)
    (\<lambda>(opts, flags, pindex, argv, i, rc, s). (length argv - i, if find_opt opts (argv ! i) SMAP_DELIM_EQ = None then 1 else 0))",
    goal_cases)
  case 3
  then show ?case by (auto simp: parseline_noent dest!: next_option_Some)
qed auto

declare parseopt_loop.simps [simp del]

definition smap_parseopt ::
  "'s smap_option list \<Rightarrow> string list \<Rightarrow> flagword \<Rightarrow> bool \<Rightarrow> 's \<Rightarrow> ('s \<times> string list \<times> nat \<times> int) option" where
  "smap_parseopt opts argv flags pindex s =
     parseopt_loop opts flags pindex argv (if hasfl flags SMAP_PARSEOPT_PARSE_ARGV0 then 0 else 1) 0 s"

section \<open>What the parser does\<close>

definition is_option :: "'s smap_option list \<Rightarrow> string \<Rightarrow> bool" where
  "is_option opts a \<longleftrightarrow> find_opt opts a SMAP_DELIM_EQ \<noteq> None"

text \<open>An option whose pointer fits its type.\<close>

definition opt_typed :: "'s smap_option \<Rightarrow> bool" where
  "opt_typed p =
     (case opt_type p of
        smap_opt_null \<Rightarrow> True
      | smap_opt_long \<Rightarrow> (case opt_data p of LongData _ \<Rightarrow> True | _ \<Rightarrow> False)
      | smap_opt_const \<Rightarrow> (case opt_data p of LongData _ \<Rightarrow> True | _ \<Rightarrow> False)
      | smap_opt_string \<Rightarrow> (case opt_data p of StrData _ \<Rightarrow> True | _ \<Rightarrow> False)
      | smap_opt_const_string \<Rightarrow> (case opt_data p of StrData _ \<Rightarrow> True | _ \<Rightarrow> False)
      | _ \<Rightarrow> (case opt_data p of IntData _ \<Rightarrow> True | _ \<Rightarrow> False))"

text \<open>The reference: the arguments one after the other, with an error remembered.\<close>

fun run_options :: "'s smap_option list \<Rightarrow> string list \<Rightarrow> int \<Rightarrow> 's \<Rightarrow> ('s \<times> int) option" where
  "run_options opts [] rc s = Some (s, rc)"
| "run_options opts (a # as) rc s = do {
     (s, res) \<leftarrow> smap_parseline opts a SMAP_DELIM_EQ s;
     run_options opts as (if res = SMAP_PARSE_SUCCESS then rc else 1) s }"

lemma find_opt_loop_value:
  assumes "find_opt_loop opts flags len isbool str v = Some (p, v')"
  shows "p \<in> set opts \<and> (opt_type p \<in> {smap_opt_long, smap_opt_string, smap_opt_const_string, smap_opt_enum} \<longrightarrow> v' \<noteq> None)"
  using assms
  by (induction opts flags len isbool str v rule: find_opt_loop.induct) (auto split: if_splits prod.splits)

lemma find_opt_value:
  assumes "find_opt opts str flags = Some (p, v)"
  shows "p \<in> set opts" "opt_type p \<in> {smap_opt_long, smap_opt_string, smap_opt_const_string, smap_opt_enum} \<Longrightarrow> v \<noteq> None"
  using assms by (auto simp: find_opt_def dest!: find_opt_loop_value split: if_splits)

lemma find_opt_loop_mem: "find_opt_loop opts flags len b str v = Some (p, v') \<Longrightarrow> p \<in> set opts"
  by (induction opts) (auto split: if_splits prod.splits)

lemma find_opt_mem: "find_opt opts str flags = Some (p, v) \<Longrightarrow> p \<in> set opts"
  by (auto simp: find_opt_def dest: find_opt_loop_mem split: if_splits)

lemma opt_store_typed:
  assumes "opt_typed p" "opt_type p \<in> {smap_opt_long, smap_opt_string, smap_opt_const_string, smap_opt_enum} \<Longrightarrow> v \<noteq> None"
  shows "\<exists>s' rc. opt_store p v s = Some (s', rc)"
  using assms
  by (cases "opt_type p")
    (auto simp: opt_typed_def opt_store_def store_int_def store_long_def store_str_def Let_def case_prod_beta
      split: opt_data.splits)

lemma parseline_typed:
  assumes "\<forall>p \<in> set opts. opt_typed p"
  shows "\<exists>s' rc. smap_parseline opts a flags s = Some (s', rc)"
proof (cases "find_opt opts a flags")
  case (Some pv)
  then obtain p v where f: "find_opt opts a flags = Some (p, v)" by (cases pv) auto
  from opt_store_typed [of p v s] assms find_opt_value [OF f] obtain s' rc where "opt_store p v s = Some (s', rc)" by blast
  with f show ?thesis by (auto simp: smap_parseline_def split: option.split prod.split)
qed (simp add: smap_parseline_def)

lemma run_options_typed:
  "\<forall>p \<in> set opts. opt_typed p \<Longrightarrow> \<exists>s' rc'. run_options opts as rc s = Some (s', rc')"
proof (induction as arbitrary: rc s)
  case (Cons a as)
  from parseline_typed [OF Cons.prems, of a SMAP_DELIM_EQ s] Cons show ?case by auto
qed simp

lemma next_option_split:
  "next_option opts as k = Some j \<Longrightarrow>
   \<exists>bs p cs. as = bs @ p # cs \<and> j = k + length bs \<and> is_option opts p \<and> (\<forall>b \<in> set bs. \<not> is_option opts b)"
proof (induction opts as k rule: next_option.induct)
  case (2 opts a as k)
  show ?case
  proof (cases "is_option opts a")
    case True
    with 2(2) have "j = k" by (simp add: is_option_def)
    with True show ?thesis by (intro exI [of _ "[]"] exI [of _ a] exI [of _ as]) simp
  next
    case False
    with 2 obtain bs p cs where "as = bs @ p # cs" "j = k + 1 + length bs" "is_option opts p" "\<forall>b \<in> set bs. \<not> is_option opts b"
      by (auto simp: is_option_def)
    with False show ?thesis by (intro exI [of _ "a # bs"] exI [of _ p] exI [of _ cs]) simp
  qed
qed simp

lemma next_option_None: "next_option opts as k = None \<longleftrightarrow> (\<forall>a \<in> set as. \<not> is_option opts a)"
  by (induction opts as k rule: next_option.induct) (auto simp: is_option_def)

lemma swap_update:
  "(pre @ a # bs @ p # cs)[Suc (length pre + length bs) := a, length pre := p] = pre @ p # bs @ a # cs"
  by (simp add: list_update_append)

lemma parseopt_loop_all:
  "i \<le> length argv \<Longrightarrow> parseopt_loop opts flags False argv i rc s =
     map_option (\<lambda>(s', rc'). (s', argv, length argv, rc')) (run_options opts (drop i argv) rc s)"
proof (induction opts flags False argv i rc s rule: parseopt_loop.induct)
  case (1 opts flags argv i rc s)
  show ?case
  proof (cases "i < length argv")
    case True
    then have d: "drop i argv = argv ! i # drop (i + 1) argv" by (simp add: Cons_nth_drop_Suc)
    from 1 True show ?thesis
      by (subst parseopt_loop.simps)
        (cases "smap_parseline opts (argv ! i) SMAP_DELIM_EQ s"; auto simp: d split: smap_parse.split)
  qed (use 1 in \<open>simp add: parseopt_loop.simps\<close>)
qed

lemma parseopt_loop_option:
  assumes "is_option opts p"
  shows "parseopt_loop opts flags pindex (pre @ p # as) (length pre) rc s = do {
     (s', res) \<leftarrow> smap_parseline opts p SMAP_DELIM_EQ s;
     parseopt_loop opts flags pindex (pre @ p # as) (length (pre @ [p])) (if res = SMAP_PARSE_SUCCESS then rc else 1) s' }"
proof (cases "smap_parseline opts p SMAP_DELIM_EQ s")
  case None
  then show ?thesis by (simp add: parseopt_loop.simps [of _ _ _ _ "length pre"])
next
  case (Some r)
  moreover have "snd r \<noteq> SMAP_PARSE_NOENT"
    using Some assms parseline_noent [of opts p SMAP_DELIM_EQ s "fst r"] by (metis is_option_def prod.collapse)
  ultimately show ?thesis
    by (cases "snd r"; cases r) (simp_all add: parseopt_loop.simps [of _ _ _ _ "length pre"])
qed

lemma parseopt_loop_other:
  assumes "\<not> is_option opts a" "hasfl flags SMAP_PARSEOPT_PERMUTE"
  shows "parseopt_loop opts flags True (pre @ a # as) (length pre) rc s =
    (case next_option opts as (length pre + 1) of
       None \<Rightarrow> Some (s, pre @ a # as, length pre, rc)
     | Some j \<Rightarrow> parseopt_loop opts flags True ((pre @ a # as)[j := a, length pre := (pre @ a # as) ! j]) (length pre) rc s)"
proof -
  from assms(1) have "smap_parseline opts a SMAP_DELIM_EQ s = Some (s, SMAP_PARSE_NOENT)" by (simp add: parseline_noent is_option_def del: not_None_eq)
  with assms(2) show ?thesis by (simp add: parseopt_loop.simps [of _ _ _ "pre @ a # as"] split: option.split)
qed

text \<open>The loop with permutation, from any position on: the options come first and in their
  order, the other arguments follow in some order.\<close>

lemma parseopt_loop_permute:
  assumes "hasfl flags SMAP_PARSEOPT_PERMUTE"
  shows "\<exists>rest. mset rest = mset (filter (\<lambda>a. \<not> is_option opts a) as)
    \<and> (\<forall>rc s. parseopt_loop opts flags True (pre @ as) (length pre) rc s =
        map_option (\<lambda>(s', rc'). (s', pre @ filter (is_option opts) as @ rest, length pre + length (filter (is_option opts) as), rc'))
          (run_options opts (filter (is_option opts) as) rc s))"
proof (induction "length as" arbitrary: pre as rule: less_induct)
  case less
  have opt: ?case if "as' = p # bs" "is_option opts p" "filter (is_option opts) as = filter (is_option opts) as'"
    "mset (filter (\<lambda>a. \<not> is_option opts a) as) = mset (filter (\<lambda>a. \<not> is_option opts a) as')" "length as' = length as"
    "\<forall>rc s. parseopt_loop opts flags True (pre @ as) (length pre) rc s = parseopt_loop opts flags True (pre @ as') (length pre) rc s"
    for as' p bs
  proof -
    from less [of bs "pre @ [p]"] that(1,5) obtain rest where
      "mset rest = mset (filter (\<lambda>a. \<not> is_option opts a) bs)"
      "\<forall>rc s. parseopt_loop opts flags True ((pre @ [p]) @ bs) (length (pre @ [p])) rc s =
        map_option (\<lambda>(s', rc'). (s', (pre @ [p]) @ filter (is_option opts) bs @ rest,
            length (pre @ [p]) + length (filter (is_option opts) bs), rc'))
          (run_options opts (filter (is_option opts) bs) rc s)" by fastforce
    with that show ?thesis
      by (intro exI [of _ rest]) (auto simp: parseopt_loop_option split: bind_split option.split)
  qed
  show ?case
  proof (cases as)
    case Nil
    then show ?thesis by (auto simp: parseopt_loop.simps)
  next
    case (Cons a bs)
    note as = this
    show ?thesis
    proof (cases "is_option opts a")
      case True
      with as show ?thesis by (intro opt [of as]) auto
    next
      case False
      note step = parseopt_loop_other [OF this assms]
      show ?thesis
      proof (cases "next_option opts bs (length pre + 1)")
        case None
        then have "\<forall>b \<in> set bs. \<not> is_option opts b" by (simp only: next_option_None)
        with as False None step show ?thesis by (intro exI [of _ as]) simp
      next
        case (Some j)
        from next_option_split [OF this] obtain cs p ds where s: "bs = cs @ p # ds" "j = length pre + 1 + length cs"
          "is_option opts p" "\<forall>b \<in> set cs. \<not> is_option opts b" by blast
        have "(pre @ a # cs @ p # ds) ! j = p" using s(2) by (simp add: nth_append)
        with s Some as False step show ?thesis
          by (intro opt [of "p # cs @ a # ds"]) (simp_all add: swap_update)
      qed
    qed
  qed
qed

text \<open>C36. With a table whose pointers fit the types, the parser of arguments returns.  Called for options only it
  treats the arguments in their order and reports an error if one of them is unknown or wrong.  Called with
  permutation it treats exactly the arguments that are options, in their order, moves them to the front,
  returns the index of the first other argument, and keeps the others up to their order.\<close>

theorem parseopt_correct:
  assumes "\<forall>p \<in> set opts. opt_typed p"
  shows "(\<exists>s' rc. run_options opts args 0 s = Some (s', rc)
        \<and> smap_parseopt opts (a0 # args) 0 False s = Some (s', a0 # args, length args + 1, rc))
    \<and> (\<exists>s' rc rest. run_options opts (filter (is_option opts) args) 0 s = Some (s', rc)
        \<and> smap_parseopt opts (a0 # args) SMAP_PARSEOPT_PERMUTE True s =
            Some (s', a0 # filter (is_option opts) args @ rest, 1 + length (filter (is_option opts) args), rc)
        \<and> mset rest = mset (filter (\<lambda>a. \<not> is_option opts a) args))"
    (is "?all \<and> ?permute")
proof
  from run_options_typed [OF assms, of args 0 s] show ?all
    by (auto simp: smap_parseopt_def hasfl_0 parseopt_loop_all)
  from parseopt_loop_permute [of SMAP_PARSEOPT_PERMUTE opts args "[a0]"]
    run_options_typed [OF assms, of "filter (is_option opts) args" 0 s]
  show ?permute by (auto simp: smap_parseopt_def hasfl_def)
qed

text \<open>A table with a flag and a string over a pair of variables.\<close>

definition demo_options :: "(flagword \<times> string) smap_option list" where
  "demo_options =
     [\<lparr>opt_name = ''icase'', opt_type = smap_opt_bitmask, opt_data = IntData apfst, opt_value = 2, opt_enumstr = [], opt_func = None\<rparr>,
      \<lparr>opt_name = ''reply'', opt_type = smap_opt_string, opt_data = StrData (\<lambda>v. apsnd (\<lambda>_. v)), opt_value = 0, opt_enumstr = [],
       opt_func = None\<rparr>]"

lemmas option_eval = demo_options_def find_opt_def optcmp_def opt_delim_def hasfl_def strncmp_eq_def smap_parseline_def
  opt_store_def store_int_def store_str_def setfl_def

lemma demo_is_option:
  "is_option demo_options ''s,a,b,'' \<longleftrightarrow> False" "is_option demo_options ''s,c,d,'' \<longleftrightarrow> False"
  "is_option demo_options ''icase'' \<longleftrightarrow> True" "is_option demo_options ''reply=OK'' \<longleftrightarrow> True"
  by (simp_all add: is_option_def option_eval)

theorem parseopt_correct_witness:
  "\<exists>rest. smap_parseopt demo_options [''sed'', ''s,a,b,'', ''icase'', ''reply=OK''] SMAP_PARSEOPT_PERMUTE True (1, ''NO'') =
     Some ((3, ''OK''), ''sed'' # ''icase'' # ''reply=OK'' # rest, 3, 0) \<and> mset rest = mset [''s,a,b,'']"
proof -
  have t: "\<forall>p \<in> set demo_options. opt_typed p" by (simp add: demo_options_def opt_typed_def)
  moreover have "run_options demo_options [''icase'', ''reply=OK''] 0 (1, ''NO'') = Some ((3, ''OK''), 0)"
    by (simp add: option_eval)
  ultimately show ?thesis
    using parseopt_correct [OF t, of "[''s,a,b,'', ''icase'', ''reply=OK'']" "(1, ''NO'')" "''sed''"]
    by (simp add: demo_is_option)
qed

text \<open>The exchange does not keep the order of the other arguments.\<close>

lemma permute_reorders:
  "smap_parseopt demo_options [''sed'', ''s,a,b,'', ''s,c,d,'', ''icase''] SMAP_PARSEOPT_PERMUTE True (1, []) =
     Some ((3, []), [''sed'', ''icase'', ''s,c,d,'', ''s,a,b,''], 2, 0)"
  by (simp add: smap_parseopt_def parseopt_loop.simps option_eval)

text \<open>Flags match any word they are a prefix of, and their negation is not known.\<close>

lemma flag_prefix_matches:
  "smap_parseline demo_options ''icasefold'' SMAP_DELIM_EQ s = Some (apfst (\<lambda>x. setfl x 2) s, SMAP_PARSE_SUCCESS)"
  "smap_parseline demo_options ''noicase'' SMAP_DELIM_EQ s = Some (s, SMAP_PARSE_NOENT)"
  by (simp_all add: option_eval)

end
