(* ===== verification/Smap_Template.thy ===== *)
theory Smap_Template
  imports Smap_Wordsplit
begin

text \<open>
  Templates of replies and queries.  The modules expand them with the word splitter, without
  splitting, and with variables from an environment of strings \<open>name=value\<close>, one of names and values in turn, or from a function.  The
  loop of the splitter is followed for templates made of plain text and references in braces.
\<close>

section \<open>The call\<close>

definition format_env :: "string \<Rightarrow> string \<Rightarrow> string" where
  "format_env var val = var @ ''='' @ val"

text \<open>The structure on the stack; only \<open>ws_env\<close> is set, and no other field is read before it is assigned.\<close>

definition env_ws :: "string list \<Rightarrow> wordsplit_s" where
  "env_ws env = \<lparr>ws_wordc = 0, ws_wordv = [], ws_offs = 0, ws_flags = 0, ws_delim = [], ws_comment = None, ws_env = env,
     ws_getvar = Map.empty, ws_input = [], ws_endp = 0, ws_nodes = []\<rparr>"

text \<open>The flags are \<open>NOSPLIT\<close>, \<open>NOCMD\<close>, \<open>ENV\<close>, \<open>ERROR\<close> and \<open>SHOWERR\<close>.  The result is the pointer \<open>ws_wordv[0]\<close>.\<close>

definition expand_reply :: "string list \<Rightarrow> string \<Rightarrow> (wrdse + string option) option" where
  "expand_reply env template = do {
     r \<leftarrow> wordsplit (env_ws env) template 0x250014;
     Some (case r of Inl e \<Rightarrow> Inl e | Inr ws \<Rightarrow> Inr (case ws_wordv ws of w # _ \<Rightarrow> w | [] \<Rightarrow> None)) }"

section \<open>Templates\<close>

text \<open>Templates: text without dollar signs and backslashes, and references in braces.\<close>

datatype piece = Lit string | Var string

fun render :: "piece \<Rightarrow> string" where
  "render (Lit s) = s"
| "render (Var v) = ''${'' @ v @ ''}''"

fun piece_ok :: "piece \<Rightarrow> bool" where
  "piece_ok (Lit s) \<longleftrightarrow> (\<forall>c \<in> set s. c \<noteq> CHR ''$'' \<and> c \<noteq> BSL)"
| "piece_ok (Var v) \<longleftrightarrow> v \<noteq> [] \<and> (\<forall>c \<in> set v. c \<noteq> CHR ''}'' \<and> c \<noteq> CHR '':'')"

fun expand_piece :: "(string \<Rightarrow> string) \<Rightarrow> piece \<Rightarrow> string" where
  "expand_piece val (Lit s) = s"
| "expand_piece val (Var v) = val v"

definition env_value :: "wordsplit_s \<Rightarrow> string \<Rightarrow> string" where
  "env_value wsp v = (case var_value wsp v of Inr (Some x) \<Rightarrow> x | _ \<Rightarrow> [])"

lemma mem_at_append: "mem_at (pre @ c # post) (length pre) = Some c"
  by (simp add: mem_at_def)

lemma brace_name_end:
  assumes "\<forall>c \<in> set v. c \<noteq> CHR ''}'' \<and> c \<noteq> CHR '':''" "i \<le> length v" "length v < len"
  shows "brace_name (pre @ v @ CHR ''}'' # post) (length pre) len i = Some (length v)"
  using assms(2)
proof (induction "length v - i" arbitrary: i)
  case 0
  with assms(3) mem_at_append [of "pre @ v" "CHR ''}''" post] show ?case by (subst brace_name.simps) simp
next
  case (Suc n)
  then have i: "i < length v" by simp
  then have "mem_at (pre @ v @ CHR ''}'' # post) (length pre + i) = Some (v ! i)"
    by (simp add: mem_at_def nth_append)
  moreover from assms(1) i have "v ! i \<noteq> CHR ''}''" "v ! i \<noteq> CHR '':''" by auto
  ultimately show ?case using Suc i assms(3) by (subst brace_name.simps) simp
qed

lemma expvar_braces:
  assumes "piece_ok (Var v)" "length v + 1 < len" "var_value wsp v = Inr (Some x)"
  shows "expvar wsp (pre @ ''${'' @ v @ ''}'' @ post) (length pre + 1) len True join =
    Some (Inr ([word_node (env_value wsp v) True join], length pre + 2 + length v))"
proof -
  let ?mem = "pre @ ''${'' @ v @ ''}'' @ post"
  have m: "mem_at ?mem (length pre + 1) = Some (CHR ''{'')" using mem_at_append [of "pre @ ''$''" "CHR ''{''"] by simp
  have e: "mem_at ?mem (length pre + 1 + 1 + length v) = Some (CHR ''}'')"
    using mem_at_append [of "pre @ ''${'' @ v" "CHR ''}''" post] by simp
  from assms(1) have "Suc 0 \<le> length v" by (cases v) auto
  with brace_name_end [of v "Suc 0" "len - 1" "pre @ ''${''" post] assms(1,2)
  have b: "brace_name ?mem (length pre + 1 + 1) (len - 1) 1 = Some (length v)" by simp
  have n: "var_name ?mem (length pre + 1) len = Some (Inr (Some v, length pre + 2 + length v))"
    using m e b by (simp add: var_name_def ISVARBEG_def ISALPHA_def Let_def)
  show ?thesis
    unfolding expvar_def n by (simp add: expand_value_def env_value_def assms(3))
qed

text \<open>Nodes that are joined into one word.\<close>

definition nodes_text :: "wordsplit_s \<Rightarrow> wordsplit_node list \<Rightarrow> string" where
  "nodes_text wsp ns = concat (map (wsnode_text wsp) ns)"

definition one_word :: "wordsplit_node list \<Rightarrow> bool" where
  "one_word ns \<longleftrightarrow> (\<forall>n \<in> set ns. wn_val n \<noteq> NullNode)
     \<and> (ns \<noteq> [] \<longrightarrow> (\<forall>n \<in> set (butlast ns). wn_join n) \<and> \<not> wn_join (last ns))"

lemma wsnode_text_join [simp]: "wsnode_text wsp (n\<lparr>wn_join := b\<rparr>) = wsnode_text wsp n"
  by (simp add: wsnode_text_def wsnode_ptr_def wsnode_len_def)

lemma nodes_text_tail_join [simp]: "nodes_text wsp (tail_join b ns) = nodes_text wsp ns"
  by (cases ns rule: rev_cases) (simp_all add: nodes_text_def tail_join_def)

lemma nodes_text_append [simp]: "nodes_text wsp (ns @ ns') = nodes_text wsp ns @ nodes_text wsp ns'"
  by (simp add: nodes_text_def)

lemma one_word_tail_join:
  assumes "one_word ns" "\<forall>n \<in> set ns'. wn_join n \<and> wn_val n \<noteq> NullNode" "\<not> wn_join n" "wn_val n \<noteq> NullNode"
  shows "one_word (tail_join True ns @ ns' @ [n])"
  using assms by (cases ns rule: rev_cases) (auto simp: one_word_def tail_join_def butlast_append)

lemma coalesce_one_word:
  assumes "one_word ns" "ns \<noteq> []"
  shows "\<exists>p. coalesce_nodes wsp ns = Some [p] \<and> wsnode_text wsp p = nodes_text wsp ns"
proof -
  have run: "join_run wsp ns = Some (nodes_text wsp ns, [])" if "one_word ns" "ns \<noteq> []" for ns
    using that
  proof (induction ns)
    case (Cons n ns)
    then show ?case by (cases "ns = []") (auto simp: one_word_def nodes_text_def)
  qed simp
  from assms(2) obtain n ms where ns: "ns = n # ms" by (cases ns) auto
  show ?thesis
  proof (cases "ms = []")
    case True
    with assms ns show ?thesis by (simp add: one_word_def nodes_text_def)
  next
    case False
    with assms ns have "wn_join n" by (simp add: one_word_def)
    with run [OF assms] ns show ?thesis
      by (simp del: join_run.simps) (simp add: wsnode_text_def wsnode_ptr_def wsnode_len_def)
  qed
qed

text \<open>The loop over a template, from a position \<open>p\<close> that a piece starts at.\<close>

locale template_split =
  fixes wsp :: wordsplit_s and node :: wordsplit_node and defined :: "string \<Rightarrow> bool"
  assumes node: "wn_quote node" "\<not> wn_join node" "wn_val node = Segm 0 (length (ws_input wsp))"
    and has_value: "defined v \<Longrightarrow> \<exists>x. var_value wsp v = Inr (Some x)"
begin

lemma expand_lit:
  assumes "ws_input wsp = pre @ s @ post" "\<forall>c \<in> set s. c \<noteq> CHR ''$'' \<and> c \<noteq> BSL"
  shows "expand_loop wsp node (ws_input wsp) (length (ws_input wsp)) (length pre) str off out =
    expand_loop wsp node (ws_input wsp) (length (ws_input wsp)) (length (pre @ s)) str off out"
  using assms
proof (induction s arbitrary: pre)
  case (Cons c s)
  have "mem_at (ws_input wsp) (length pre) = Some c" using Cons.prems(1) mem_at_append [of pre c "s @ post"] by simp
  with Cons.prems have "expand_loop wsp node (ws_input wsp) (length (ws_input wsp)) (length pre) str off out =
      expand_loop wsp node (ws_input wsp) (length (ws_input wsp)) (length (pre @ [c])) str off out"
    by (subst expand_loop.simps) simp
  with Cons.IH [of "pre @ [c]"] Cons.prems show ?case by simp
qed simp

lemma prefix_text:
  "str + n \<le> length (ws_input wsp) \<Longrightarrow>
   nodes_text wsp (node_split_prefix wsp node str n join) = take n (drop str (ws_input wsp))"
  by (simp add: node_split_prefix_def node nodes_text_def wsnode_text_def wsnode_ptr_def wsnode_len_def noflags_def)

lemma expand_pieces:
  assumes "ws_input wsp = pre @ concat (map render ps)" "\<forall>p \<in> set ps. piece_ok p \<and> (\<forall>v. p = Var v \<longrightarrow> defined v)"
    and "str \<le> length pre" "one_word out"
  shows "\<exists>ns. expand_loop wsp node (ws_input wsp) (length (ws_input wsp)) (length pre) str str out = Some (Inr ns)
    \<and> one_word ns \<and> nodes_text wsp ns = nodes_text wsp out @ drop str pre @ concat (map (expand_piece (env_value wsp)) ps)
    \<and> (ns = [] \<longrightarrow> out = [] \<and> str = length (ws_input wsp))"
  using assms
proof (induction ps arbitrary: pre str out)
  case Nil
  then show ?case
  proof (cases "str < length pre")
    case True
    obtain n where n: "node_split_prefix wsp node str (length pre - str) (wn_join node) = [n]" "\<not> wn_join n" "wn_val n \<noteq> NullNode"
      using True by (auto simp: node_split_prefix_def node noflags_def)
    have "nodes_text wsp [n] = drop str pre" using prefix_text [of str "length pre - str" "wn_join node"] n Nil True by simp
    with n Nil True one_word_tail_join [OF Nil(4), of "[]" n] show ?thesis
      by (subst expand_loop.simps) auto
  qed (auto simp: expand_loop.simps)
next
  case (Cons p ps)
  show ?case
  proof (cases p)
    case (Lit s)
    from Cons.prems Lit expand_lit [of pre s "concat (map render ps)" str str out] Cons.IH [of "pre @ s" str out] show ?thesis by auto
  next
    case (Var v)
    let ?post = "concat (map render ps)"
    define n where "n = length pre - str"
    have inp: "ws_input wsp = pre @ ''${'' @ v @ ''}'' @ ?post" using Cons.prems(1) Var by simp
    have c: "mem_at (ws_input wsp) (length pre) = Some (CHR ''$'')" using inp mem_at_append [of pre "CHR ''$''"] by simp
    let ?pre = "pre @ ''${'' @ v @ ''}''"
    let ?val = "word_node (env_value wsp v) True False"
    define out' where "out' = tail_join True out @ node_split_prefix wsp node str n True @ [?val]"
    from has_value [of v] Cons.prems(2) Var obtain x where x: "var_value wsp v = Inr (Some x)" by auto
    have e: "expvar wsp (ws_input wsp) (length pre + 1) (wsnode_len node - n) True (wn_join node) =
        Some (Inr ([?val], length pre + 2 + length v))"
      unfolding inp using Cons.prems(2) Var node x
      by (subst expvar_braces) (auto simp: wsnode_len_def n_def inp)
    have "expand_loop wsp node (ws_input wsp) (length (ws_input wsp)) (length pre) str str out =
        expand_loop wsp node (ws_input wsp) (length (ws_input wsp)) (length ?pre) (length ?pre) (length ?pre) out'"
    proof -
      have "length pre < length (ws_input wsp)" using inp by simp
      moreover have "length ?pre = length pre + 2 + length v + 1" "str + (length pre + 2 + length v - str + 1) = length ?pre"
        using Cons.prems(3) by simp_all
      ultimately show ?thesis using c e node(1)
        by (subst expand_loop.simps) (simp only: Let_def n_def [symmetric] out'_def if_True bind.bind_lunit sum.case prod.case append_assoc, simp)
    qed
    moreover have "one_word out'"
      unfolding out'_def by (rule one_word_tail_join [OF Cons.prems(4)]) (auto simp: node_split_prefix_def node noflags_def word_node_def)
    moreover have "nodes_text wsp out' = nodes_text wsp out @ drop str pre @ env_value wsp v"
      using Cons.prems(3) inp prefix_text [of str n True]
      by (simp add: out'_def n_def) (simp add: nodes_text_def wsnode_text_def wsnode_ptr_def wsnode_len_def word_node_def)
    moreover have "out' \<noteq> []" by (simp add: out'_def)
    ultimately show ?thesis
      using Cons.IH [of ?pre "length ?pre" out'] Cons.prems(2) inp Var by auto
  qed
qed

end

definition template_node :: "string \<Rightarrow> wordsplit_node" where
  "template_node t = noflags\<lparr>wn_quote := True, wn_val := Segm 0 (length t)\<rparr>"

text \<open>The flags of the modules: variables from an environment of either form, or from a function.\<close>

definition template_flags :: "flagword \<Rightarrow> bool" where
  "template_flags fl \<longleftrightarrow> fl \<in> set [0x250014, 0x4250014, 0x2290014]"

definition template_ws :: "flagword \<Rightarrow> wordsplit_s \<Rightarrow> string \<Rightarrow> wordsplit_s" where
  "template_ws fl ws t = ws\<lparr>ws_flags := fl, ws_input := t, ws_delim := [CHR '' '', CHR 0x09, NL], ws_nodes := [template_node t],
     ws_comment := None, ws_wordv := [], ws_wordc := 0, ws_offs := 0, ws_endp := 0\<rparr>"

interpretation ts: template_split "template_ws 0x250014 ws t" "template_node t" "\<lambda>_. True" for ws t
  by unfold_locales (simp_all add: template_node_def template_ws_def noflags_def flag_simps var_value_def split: option.split)

interpretation tk: template_split "template_ws 0x4250014 ws t" "template_node t" "\<lambda>_. True" for ws t
  by unfold_locales (simp_all add: template_node_def template_ws_def noflags_def flag_simps var_value_def split: option.split)

interpretation tg: template_split "template_ws 0x2290014 ws t" "template_node t" "\<lambda>v. ws_getvar ws v \<noteq> None" for ws t
  by unfold_locales (simp_all add: template_node_def template_ws_def noflags_def flag_simps var_value_def wordsplit_find_env_def)

lemma wordsplit_template:
  assumes "template_flags fl" "t \<noteq> []" "expand_loop (template_ws fl ws t) (template_node t) t (length t) 0 0 0 [] = Some (Inr ns)"
    and "one_word ns" "ns \<noteq> []"
  shows "\<exists>ws' rest. wordsplit ws t fl = Some (Inr ws') \<and> ws_wordv ws' = Some (nodes_text (template_ws fl ws t) ns) # rest"
proof -
  let ?w = "template_ws fl ws t" and ?w' = "(template_ws fl ws t)\<lparr>ws_nodes := ns\<rparr>"
  have fl: "fl = 0x250014 \<or> fl = 0x4250014 \<or> fl = 0x2290014" using assms(1) by (simp add: template_flags_def)
  have tx: "nodes_text ?w' ns = nodes_text ?w ns" "\<And>xs. wsnode_text (?w\<lparr>ws_nodes := xs\<rparr>) = wsnode_text ?w'"
    by (auto simp: nodes_text_def wsnode_text_def wsnode_ptr_def fun_eq_iff intro!: arg_cong [of _ _ concat] split: node_val.split)
  have i: "wordsplit_init ws t fl = Inr (?w\<lparr>ws_nodes := []\<rparr>)"
    using fl by (elim disjE) (simp_all add: wordsplit_init_def template_ws_def flag_simps Let_def)
  have s: "wordsplit_scan (?w\<lparr>ws_nodes := []\<rparr>) = Some (Inr ?w)"
    using assms(2) fl by (elim disjE) (simp_all add: wordsplit_scan_def template_ws_def template_node_def flag_simps wordsplit_add_segm_def Let_def)
  have n: "remove_null kept ns = kept @ ns" if "\<forall>n \<in> set ns. wn_val n \<noteq> NullNode" for kept ns
    using that by (induction ns arbitrary: kept) auto
  have v: "wordsplit_varexp ?w = Some (Inr ?w')"
    using assms(3-5) n [of ns "[]"]
    by (simp add: wordsplit_varexp_def template_ws_def node_expand_vars_def wsnode_ptr_def wsnode_len_def template_node_def noflags_def one_word_def)
  have q: "wsnode_quoteremoval ?w' = Some ?w'"
  proof -
    have "map (quoteremoval_node ?w') ns = map Some ns" using fl by (elim disjE) (simp_all add: quoteremoval_node_def template_ws_def flag_simps)
    moreover have "those (map Some xs) = Some xs" for xs :: "wordsplit_node list" by (induction xs) auto
    ultimately show ?thesis by (simp add: wsnode_quoteremoval_def del: map_eq_conv)
  qed
  from coalesce_one_word [OF assms(4,5), of ?w'] obtain p where
    p: "coalesce_nodes ?w' ns = Some [p]" "wsnode_text ?w' p = nodes_text ?w ns" using tx(1) by auto
  have "wsnode_text (?w\<lparr>ws_nodes := [p]\<rparr>) p = nodes_text ?w ns" using p(2) tx(2) [of "[p]"] by metis
  then have "\<exists>ws' rest. wordsplit_finish (?w\<lparr>ws_nodes := [p]\<rparr>) = Some ws' \<and> ws_wordv ws' = Some (nodes_text ?w ns) # rest"
    using fl by (elim disjE) (simp_all add: wordsplit_finish_def alloc_space_def template_ws_def flag_simps Let_def numeral_eq_Suc)
  with i s v q p(1) show ?thesis
    using fl by (elim disjE) (auto simp: wordsplit_def wordsplit_words_def wsnode_coalesce_def template_ws_def flag_simps)
qed

section \<open>The result\<close>

definition template_ok :: "piece list \<Rightarrow> bool" where
  "template_ok ps \<longleftrightarrow> (\<forall>p \<in> set ps. piece_ok p \<and> (case p of Var v \<Rightarrow> CHR ''='' \<notin> set v | Lit _ \<Rightarrow> True))
     \<and> concat (map render ps) \<noteq> []"

text \<open>The value of a name in a list of pairs; a name that is not there has an empty value.\<close>

definition lookup_value :: "(string \<times> string) list \<Rightarrow> string \<Rightarrow> string" where
  "lookup_value bs v = (case map_of bs v of Some x \<Rightarrow> x | None \<Rightarrow> [])"

abbreviation (input) bindings :: "(string \<times> string) list \<Rightarrow> string list" where
  "bindings bs \<equiv> map (\<lambda>(n, v). format_env n v) bs"

lemma format_env_name:
  assumes "CHR ''='' \<notin> set v" "CHR ''='' \<notin> set nm"
  shows "take (Suc (length v)) (format_env nm x) = v @ ''='' \<longleftrightarrow> v = nm"
proof
  assume "take (Suc (length v)) (format_env nm x) = v @ ''=''"
  then have "nm @ CHR ''='' # x = v @ CHR ''='' # drop (Suc (length v)) (format_env nm x)"
    using append_take_drop_id [of "Suc (length v)" "format_env nm x"] by (simp add: format_env_def)
  then have "takeWhile (\<lambda>c. c \<noteq> CHR ''='') (nm @ CHR ''='' # x) =
      takeWhile (\<lambda>c. c \<noteq> CHR ''='') (v @ CHR ''='' # drop (Suc (length v)) (format_env nm x))" by simp
  with assms show "v = nm" by (subst (asm) (1 2) takeWhile_append2) auto
qed (simp add: format_env_def)

lemma format_env_value: "drop (Suc (length nm)) (format_env nm x) = x"
  by (simp add: format_env_def)

lemma env_value_bindings:
  assumes "CHR ''='' \<notin> set v" "\<forall>b \<in> set bs. CHR ''='' \<notin> set (fst b)"
  shows "env_value (template_ws 0x250014 (env_ws (bindings bs)) t) v = lookup_value bs v"
proof -
  have "map_option (drop (Suc (length v))) (find (\<lambda>var. take (Suc (length v)) var = v @ ''='') (bindings bs)) = map_of bs v"
    using assms(2)
  proof (induction bs)
    case (Cons b bs)
    then show ?case by (cases b) (auto simp: format_env_name [OF assms(1)] format_env_value)
  qed simp
  then show ?thesis
    by (simp add: env_value_def var_value_def wordsplit_find_env_def template_ws_def env_ws_def flag_simps lookup_value_def split: option.split)
qed

text \<open>The first word of the result; \<open>defined\<close> are the variables that have a value.\<close>

lemma wordsplit_pieces:
  assumes "template_flags fl" "template_ok ps" "\<forall>v. Var v \<in> set ps \<longrightarrow> fl = 0x2290014 \<longrightarrow> ws_getvar ws v \<noteq> None"
  shows "\<exists>ws' rest. wordsplit ws (concat (map render ps)) fl = Some (Inr ws')
    \<and> ws_wordv ws' = Some (concat (map (expand_piece (env_value (template_ws fl ws (concat (map render ps))))) ps)) # rest"
proof -
  let ?t = "concat (map render ps)"
  let ?w = "template_ws fl ws ?t"
  have t: "?t \<noteq> []" "\<forall>p \<in> set ps. piece_ok p" using assms(2) by (auto simp: template_ok_def)
  have fl: "fl = 0x250014 \<or> fl = 0x4250014 \<or> fl = 0x2290014" using assms(1) by (simp add: template_flags_def)
  have inp: "ws_input ?w = ?t" by (simp add: template_ws_def)
  have "\<exists>ns. expand_loop ?w (template_node ?t) ?t (length ?t) 0 0 0 [] = Some (Inr ns) \<and> one_word ns
      \<and> nodes_text ?w ns = concat (map (expand_piece (env_value ?w)) ps) \<and> ns \<noteq> []"
  proof -
    have o: "one_word []" by (simp add: one_word_def)
    have "\<exists>ns. expand_loop ?w (template_node ?t) (ws_input ?w) (length (ws_input ?w)) (length ([] :: string)) 0 0 [] = Some (Inr ns) \<and> one_word ns
        \<and> nodes_text ?w ns = nodes_text ?w [] @ drop 0 [] @ concat (map (expand_piece (env_value ?w)) ps)
        \<and> (ns = [] \<longrightarrow> ([] :: wordsplit_node list) = [] \<and> 0 = length (ws_input ?w))"
      using fl
    proof (elim disjE)
      assume f: "fl = 0x250014"
      show ?thesis unfolding f by (rule ts.expand_pieces) (use t o in \<open>auto simp: template_ws_def\<close>)
    next
      assume f: "fl = 0x4250014"
      show ?thesis unfolding f by (rule tk.expand_pieces) (use t o in \<open>auto simp: template_ws_def\<close>)
    next
      assume f: "fl = 0x2290014"
      show ?thesis unfolding f by (rule tg.expand_pieces) (use t o f assms(3) in \<open>auto simp: template_ws_def\<close>)
    qed
    then obtain ns where "expand_loop ?w (template_node ?t) ?t (length ?t) 0 0 0 [] = Some (Inr ns)" "one_word ns"
      "nodes_text ?w ns = nodes_text ?w [] @ drop 0 [] @ concat (map (expand_piece (env_value ?w)) ps)" "ns = [] \<longrightarrow> length ?t = 0"
      unfolding inp by auto
    with t(1) show ?thesis by (intro exI [of _ ns]) (auto simp: nodes_text_def)
  qed
  then obtain ns where "expand_loop ?w (template_node ?t) ?t (length ?t) 0 0 0 [] = Some (Inr ns)" "one_word ns"
    "nodes_text ?w ns = concat (map (expand_piece (env_value ?w)) ps)" "ns \<noteq> []" by blast
  with wordsplit_template [OF assms(1) t(1)] show ?thesis by metis
qed

lemma expand_reply_template:
  assumes "template_ok ps" "\<forall>b \<in> set bs. CHR ''='' \<notin> set (fst b)"
  shows "expand_reply (bindings bs) (concat (map render ps)) = Some (Inr (Some (concat (map (expand_piece (lookup_value bs)) ps))))"
proof -
  let ?t = "concat (map render ps)" and ?env = "bindings bs"
  have "map (expand_piece (env_value (template_ws 0x250014 (env_ws ?env) ?t))) ps = map (expand_piece (lookup_value bs)) ps"
  proof (rule map_cong [OF refl])
    fix p assume "p \<in> set ps"
    with assms(1) have "case p of Var v \<Rightarrow> CHR ''='' \<notin> set v | Lit _ \<Rightarrow> True" by (auto simp: template_ok_def)
    with env_value_bindings [OF _ assms(2), of _ ?t]
    show "expand_piece (env_value (template_ws 0x250014 (env_ws ?env) ?t)) p = expand_piece (lookup_value bs) p"
      by (cases p) auto
  qed
  with wordsplit_pieces [OF _ assms(1), of "0x250014" "env_ws ?env"] show ?thesis
    unfolding expand_reply_def by (auto simp: template_flags_def)
qed

end
