(* ===== verification/Smap_Printf.thy ===== *)
theory Smap_Printf
  imports Smap_Stream
begin

text \<open>
  Formatted output to streams (\<open>lib/vasnprintf.c\<close>, \<open>lib/stream_vprintf.c\<close>, \<open>lib/stream_printf.c\<close>).  Replies of modules and requests of the client are sent in this way.
\<close>

section \<open>Operations\<close>

text \<open>The loop that grows the buffer.  The list of arguments is used again in every round although it has been consumed: \<open>fmt k\<close> is what the
  \<open>k\<close>-th call of \<open>vsnprintf\<close> produces, or \<open>None\<close> if what it does is undefined.  \<open>alloc\<close> tells which sizes can be allocated.\<close>

partial_function (option) vasnprintf_loop :: "(nat \<Rightarrow> string option) \<Rightarrow> (nat \<Rightarrow> bool) \<Rightarrow> nat \<Rightarrow> nat \<Rightarrow> (errno \<times> nat \<times> string) option" where
  "vasnprintf_loop fmt alloc k buflen = do {
     t \<leftarrow> fmt k;
     if length t \<ge> buflen then
       let newlen = (buflen * 2) mod 2 ^ 64 in
       if newlen < buflen \<or> \<not> alloc newlen then Some (ENOMEM, buflen, take (buflen - 1) t)
       else vasnprintf_loop fmt alloc (k + 1) newlen
     else Some (E0, buflen, t) }"

text \<open>The buffer of the caller and its size; the result is the code and the new buffer.\<close>

definition smap_vasnprintf ::
  "(nat \<Rightarrow> string option) \<Rightarrow> (nat \<Rightarrow> bool) \<Rightarrow> (string option \<times> nat) \<Rightarrow> (errno \<times> string option \<times> nat) option" where
  "smap_vasnprintf fmt alloc ps =
     (case ps of
        (None, sz) \<Rightarrow>
          let buflen = (if sz = 0 then 512 else sz) in
          if \<not> alloc buflen then Some (ENOMEM, None, sz)
          else do {
            (rc, len, buf) \<leftarrow> vasnprintf_loop fmt alloc 0 buflen;
            Some (if rc \<noteq> E0 then (rc, None, 0) else (E0, Some buf, len)) }
      | (Some b, sz) \<Rightarrow> do {
            (rc, len, buf) \<leftarrow> vasnprintf_loop fmt alloc 0 sz;
            Some (rc, Some buf, len) })"

text \<open>\<open>Inl\<close> is a positive code; \<open>Inr (-1)\<close> the failure of the stream.\<close>

definition smap_stream_vprintf ::
  "'d stream_ops \<Rightarrow> (nat \<Rightarrow> string option) \<Rightarrow> (nat \<Rightarrow> bool) \<Rightarrow> 'd smap_stream \<Rightarrow> ('d smap_stream \<times> (errno + int)) option" where
  "smap_stream_vprintf ops fmt alloc str = do {
     (rc, buf, len) \<leftarrow> smap_vasnprintf fmt alloc (None, 0);
     if rc \<noteq> E0 then Some (str, Inl rc)
     else do {
       buf \<leftarrow> buf;
       (str, rc, _) \<leftarrow> smap_stream_write ops str (cstr buf) False;
       Some (str, Inr (if rc = E0 then int (length (cstr buf)) else -1)) } }"

text \<open>\<open>smap_stream_printf\<close> starts the list of arguments once: the first call of \<open>vsnprintf\<close> produces the text \<open>t\<close>, a second one reads behind the arguments.\<close>

definition va_start_once :: "string \<Rightarrow> nat \<Rightarrow> string option" where
  "va_start_once t k = (if k = 0 then Some t else None)"

definition smap_stream_printf ::
  "'d stream_ops \<Rightarrow> string \<Rightarrow> (nat \<Rightarrow> bool) \<Rightarrow> 'd smap_stream \<Rightarrow> ('d smap_stream \<times> (errno + int)) option" where
  "smap_stream_printf ops t alloc str = smap_stream_vprintf ops (va_start_once t) alloc str"

text \<open>The same call in a module, whose output is the list of the blocks that it writes to its stream; memory is available, and \<open>t\<close> is made of strings, without null bytes.\<close>

definition printf_writes :: "string \<Rightarrow> string list option" where
  "printf_writes t = do {
     (rc, buf, len) \<leftarrow> smap_vasnprintf (va_start_once t) (\<lambda>_. True) (None, 0);
     if rc \<noteq> E0 then Some [] else do { buf \<leftarrow> buf; Some [buf] } }"

section \<open>Laws\<close>

text \<open>With enough memory, a text that is the same in every round is formatted completely.\<close>

lemma vasnprintf_loop_ends:
  assumes "\<forall>n. alloc n" "\<forall>k. fmt k = Some t" "0 < b" "length t < 2 ^ 62" "b < 2 ^ 63"
  shows "\<exists>len. vasnprintf_loop fmt alloc k b = Some (E0, len, t) \<and> length t < len"
  using assms(3-5)
proof (induction "length t + 1 - b" arbitrary: k b rule: less_induct)
  case less
  show ?case
  proof (cases "b \<le> length t")
    case True
    with less.prems have m: "b * 2 mod 2 ^ 64 = b * 2" "b * 2 < 2 ^ 63" by simp_all
    have "length t + 1 - b * 2 < length t + 1 - b" using True less.prems(1) by simp
    with less.hyps [of "b * 2"] less.prems m True assms(1,2) show ?thesis by (subst vasnprintf_loop.simps) (simp add: Let_def)
  next
    case False
    with assms(2) show ?thesis by (subst vasnprintf_loop.simps) simp
  qed
qed

text \<open>A short text is formatted in the first round; a longer one with the arguments that are left after it.\<close>

lemma vasnprintf_first:
  assumes "alloc 512" "fmt 0 = Some t" "length t < 512"
  shows "smap_vasnprintf fmt alloc (None, 0) = Some (E0, Some t, 512)"
  using assms by (simp add: smap_vasnprintf_def vasnprintf_loop.simps)

lemma vasnprintf_uses_arguments_twice:
  assumes "alloc 512" "alloc 1024" "fmt 0 = Some t" "length t \<ge> 512" "\<forall>u. fmt 1 = Some u \<longrightarrow> length u < 1024"
  shows "smap_vasnprintf fmt alloc (None, 0) = map_option (\<lambda>u. (E0, Some u, 1024)) (fmt 1)"
  using assms
  by (cases "fmt 1") (simp_all add: smap_vasnprintf_def vasnprintf_loop.simps [of fmt alloc 0] vasnprintf_loop.simps [of fmt alloc 1] vasnprintf_loop.simps [of fmt alloc "Suc 0"])

text \<open>Up to 511 bytes are sent as they are; for more what happens is undefined.\<close>

lemma printf_writes_eq: "printf_writes t = (if length t < 512 then Some [t] else None)"
proof (cases "length t < 512")
  case True
  with vasnprintf_first [of "\<lambda>_. True" "va_start_once t" t] show ?thesis by (simp add: printf_writes_def va_start_once_def)
next
  case False
  with vasnprintf_uses_arguments_twice [of "\<lambda>_. True" "va_start_once t" t] show ?thesis by (simp add: printf_writes_def va_start_once_def)
qed

lemma printf_line: "printf_writes (t @ [c]) = (if length t < 511 then Some [t @ [c]] else None)"
  by (simp add: printf_writes_eq)

lemma stream_printf_short:
  assumes "length t < 512" "CHR 0x00 \<notin> set t"
  shows "smap_stream_printf ops t (\<lambda>_. True) s =
    map_option (\<lambda>(s, rc, _). (s, Inr (if rc = E0 then int (length t) else -1))) (smap_stream_write ops s t False)"
proof -
  have "cstr t = t" using assms(2) by (auto simp: cstr_def takeWhile_eq_all_conv)
  with vasnprintf_first [of "\<lambda>_. True" "va_start_once t" t] assms(1) show ?thesis
    by (cases "smap_stream_write ops s t False") (auto simp: smap_stream_printf_def smap_stream_vprintf_def va_start_once_def)
qed

lemma stream_printf_long: "512 \<le> length t \<Longrightarrow> smap_stream_printf ops t (\<lambda>_. True) s = None"
  using vasnprintf_uses_arguments_twice [of "\<lambda>_. True" "va_start_once t" t]
  by (simp add: smap_stream_printf_def smap_stream_vprintf_def va_start_once_def)

end
