(* ===== verification/Smap_Sed.thy ===== *)
theory Smap_Sed
  imports Smap_Transform_Laws Smap_Parseopt Smap_Template Smap_Module Smap_Printf
begin

text \<open>
  The module \<open>sed\<close> (\<open>modules/sed/sed.c\<close>): databases that apply s-expressions to the key.  The list of
  output pieces is the instance of the interface of the transformations that the module passes to them;
  the arguments are read by the option parser, and the replies are templates that the word splitter expands.
  The static variables of the module are a record; a null pointer is \<open>None\<close>.
\<close>

section \<open>The list of output pieces\<close>

text \<open>\<open>mem n\<close> tells whether a block of \<open>n\<close> bytes can be allocated.\<close>

record sed_slist =
  sl_entries :: "string list"
  sl_total :: nat

definition slist_init :: sed_slist where
  "slist_init = \<lparr>sl_entries = [], sl_total = 0\<rparr>"

definition slist_free :: "sed_slist \<Rightarrow> sed_slist" where
  "slist_free slist = slist_init"

definition slist_new_entry :: "(nat \<Rightarrow> bool) \<Rightarrow> string \<Rightarrow> string option" where
  "slist_new_entry mem str = (if mem (24 + length str) then Some str else None)"

definition sed_slist_append :: "(nat \<Rightarrow> bool) \<Rightarrow> sed_slist \<Rightarrow> string \<Rightarrow> sed_slist \<times> bool" where
  "sed_slist_append mem slist str =
     (case slist_new_entry mem str of
        None \<Rightarrow> (slist, True)
      | Some ent \<Rightarrow> (\<lparr>sl_entries = sl_entries slist @ [ent], sl_total = sl_total slist + length str\<rparr>, False))"

fun copy_entries :: "string \<Rightarrow> nat \<Rightarrow> string list \<Rightarrow> (string \<times> nat) option" where
  "copy_entries output off [] = Some (output, off)"
| "copy_entries output off (e # es) = do { output \<leftarrow> memcpy_at output off e; copy_entries output (off + length e) es }"

definition sed_slist_reduce :: "(nat \<Rightarrow> bool) \<Rightarrow> sed_slist \<Rightarrow> (sed_slist \<times> string option) option" where
  "sed_slist_reduce mem slist =
     (if sl_total slist = 0 then Some (slist, if mem 1 then Some [] else None)
      else if \<not> mem (sl_total slist + 1) then Some (slist, None)
      else do {
        (output, off) \<leftarrow> copy_entries (replicate (sl_total slist + 1) (CHR 0x00)) 0 (sl_entries slist);
        output \<leftarrow> memcpy_at output off [CHR 0x00];
        Some (slist_init, Some (take off output)) })"

section \<open>Options\<close>

record sed_vars =
  sv_cflags :: flagword
  sv_positive_reply :: string
  sv_negative_reply :: string
  sv_onerror_reply :: "string option"

definition sed_defaults :: sed_vars where
  "sed_defaults = \<lparr>sv_cflags = REG_EXTENDED, sv_positive_reply = ''OK ${xform}'', sv_negative_reply = ''NOTFOUND'',
     sv_onerror_reply = None\<rparr>"

definition sed_flag :: "string \<Rightarrow> int \<Rightarrow> sed_vars smap_option" where
  "sed_flag nm v = \<lparr>opt_name = nm, opt_type = smap_opt_bitmask, opt_data = IntData sv_cflags_update, opt_value = v, opt_enumstr = [],
     opt_func = None\<rparr>"

definition sed_str :: "string \<Rightarrow> (string \<Rightarrow> sed_vars \<Rightarrow> sed_vars) \<Rightarrow> sed_vars smap_option" where
  "sed_str nm upd = \<lparr>opt_name = nm, opt_type = smap_opt_string, opt_data = StrData upd, opt_value = 0, opt_enumstr = [], opt_func = None\<rparr>"

text \<open>The tables of \<open>sed_init\<close> and \<open>sed_init_db\<close> differ in the variables only, the static ones or local copies of them.\<close>

definition init_option :: "sed_vars smap_option list" where
  "init_option =
     [sed_flag ''icase'' 2, sed_flag ''extended'' 1,
      sed_str ''positive-reply'' (\<lambda>s v. v\<lparr>sv_positive_reply := s\<rparr>),
      sed_str ''negative-reply'' (\<lambda>s v. v\<lparr>sv_negative_reply := s\<rparr>),
      sed_str ''onerror-reply'' (\<lambda>s v. v\<lparr>sv_onerror_reply := Some s\<rparr>)]"

definition sed_init :: "sed_vars \<Rightarrow> string list \<Rightarrow> (sed_vars \<times> int) option" where
  "sed_init def argv = do {
     (def, _, _, rc) \<leftarrow> smap_parseopt init_option argv 0 False def;
     Some (def, rc) }"

section \<open>Databases\<close>

record 're sed_db =
  sdb_tr :: "('re, sed_slist) transform"
  sdb_slist :: sed_slist
  sdb_positive_reply :: string
  sdb_negative_reply :: string
  sdb_onerror_reply :: "string option"

definition sed_transform :: "(nat \<Rightarrow> bool) \<Rightarrow> ('re, sed_slist) transform" where
  "sed_transform mem =
     (transform_init \<lparr>tr_list = [], tr_append = None, tr_reduce = None, tr_cctl_buf = [], tr_errno = None, tr_errpos = 0\<rparr>)
       \<lparr>tr_append := Some (sed_slist_append mem), tr_reduce := Some (sed_slist_reduce mem)\<rparr>"

text \<open>The arguments that are not options; true is an error in one of them.\<close>

fun sed_compile ::
  "'re re_env \<Rightarrow> flagword \<Rightarrow> string list \<Rightarrow> ('re, 'sl) transform \<Rightarrow> (('re, 'sl) transform \<times> bool) option" where
  "sed_compile env cflags [] tr = Some (tr, False)"
| "sed_compile env cflags (a # as) tr = do {
     (tr, bad) \<leftarrow> transform_compile_incr env tr a cflags;
     if bad then Some (tr, True) else sed_compile env cflags as tr }"

definition sed_init_db ::
  "'re re_env \<Rightarrow> (nat \<Rightarrow> bool) \<Rightarrow> sed_vars \<Rightarrow> string \<Rightarrow> string list \<Rightarrow> 're sed_db option option" where
  "sed_init_db env mem def dbid argv = do {
     (v, argv, i, rc) \<leftarrow> smap_parseopt init_option argv SMAP_PARSEOPT_PERMUTE True def;
     if rc \<noteq> 0 then Some None
     else if \<not> mem 128 then Some None
     else do {
       (tr, bad) \<leftarrow> sed_compile env (sv_cflags v) (drop i argv) (sed_transform mem);
       Some (if bad then None
             else Some \<lparr>sdb_tr = tr, sdb_slist = slist_init, sdb_positive_reply = sv_positive_reply v,
                        sdb_negative_reply = sv_negative_reply v, sdb_onerror_reply = sv_onerror_reply v\<rparr>) } }"

definition sed_free_db :: "'re sed_db \<Rightarrow> 're sed_db \<times> int" where
  "sed_free_db db = (db\<lparr>sdb_tr := transform_free (sdb_tr db), sdb_slist := slist_free (sdb_slist db)\<rparr>, 0)"

definition sed_xform ::
  "'re re_env \<Rightarrow> 're sed_db \<Rightarrow> smap_conninfo \<Rightarrow> string \<Rightarrow> ('re sed_db \<times> int \<times> string option) option" where
  "sed_xform env db conninfo input = do {
     (tr, sl, r) \<leftarrow> transform_string env (sdb_tr db) input (sdb_slist db);
     let db = db\<lparr>sdb_tr := tr, sdb_slist := sl\<rparr>;
     Some (case r of Inl e \<Rightarrow> (db, 1, None) | Inr out \<Rightarrow> (db, 0, map_option cstr out)) }"

definition wrdse_code :: "wrdse \<Rightarrow> int" where
  "wrdse_code e = (case e of WRDSE_QUOTE \<Rightarrow> 1 | WRDSE_NOSUPP \<Rightarrow> 3 | WRDSE_USAGE \<Rightarrow> 4 | WRDSE_CBRACE \<Rightarrow> 5 | WRDSE_UNDEF \<Rightarrow> 6)"

text \<open>The code and what is written; a null pointer as the first word is an argument that \<open>printf\<close> does not allow.\<close>

definition sed_reply :: "string \<Rightarrow> string \<Rightarrow> string \<Rightarrow> string option \<Rightarrow> (int \<times> string list) option" where
  "sed_reply reply mp key xform = do {
     let env = [format_env ''map'' mp, format_env ''key'' key]
               @ (case xform of None \<Rightarrow> [] | Some x \<Rightarrow> [format_env ''xform'' x]);
     r \<leftarrow> expand_reply env reply;
     (case r of
        Inl e \<Rightarrow> Some (wrdse_code e, [])
      | Inr w \<Rightarrow> do { w \<leftarrow> w; out \<leftarrow> printf_writes (w @ [NL]); Some (0, out) }) }"

definition sed_query ::
  "'re re_env \<Rightarrow> 're sed_db \<Rightarrow> string \<Rightarrow> string \<Rightarrow> smap_conninfo \<Rightarrow> ('re sed_db \<times> int \<times> string list) option" where
  "sed_query env db mp key conninfo = do {
     (tr, sl, r) \<leftarrow> transform_string env (sdb_tr db) key (sdb_slist db);
     let db = db\<lparr>sdb_tr := tr, sdb_slist := sl\<rparr>;
     (case r of
        Inl e \<Rightarrow>
          (case sdb_onerror_reply db of
             Some reply \<Rightarrow> do { (rc, out) \<leftarrow> sed_reply reply mp key None; Some (db, rc, out) }
           | None \<Rightarrow> Some (db, 1, []))
      | Inr None \<Rightarrow> None
      | Inr (Some output) \<Rightarrow> do {
          (rc, out) \<leftarrow> sed_reply (if key \<noteq> cstr output then sdb_positive_reply db else sdb_negative_reply db)
                        mp key (Some (cstr output));
          Some (db\<lparr>sdb_slist := slist_free (sdb_slist db)\<rparr>, rc, out) }) }"

section \<open>The list keeps the law of the interface\<close>

definition slist_inv :: "sed_slist \<Rightarrow> bool" where
  "slist_inv sl \<longleftrightarrow> sl_total sl = length (concat (sl_entries sl))"

abbreviation (input) slist_content :: "sed_slist \<Rightarrow> string" where
  "slist_content sl \<equiv> concat (sl_entries sl)"

lemma copy_entries_concat:
  "k + length (concat es) \<le> length buf \<Longrightarrow>
   copy_entries buf k es = Some (take k buf @ concat es @ drop (k + length (concat es)) buf, k + length (concat es))"
proof (induction es arbitrary: buf k)
  case (Cons e es)
  then show ?case by (simp add: memcpy_at_def ac_simps min_absorb2)
qed simp

interpretation sl: transform_sink "sed_slist_append (\<lambda>_. True)" "sed_slist_reduce (\<lambda>_. True)" slist_inv slist_content
proof unfold_locales
  fix sl s
  assume "slist_inv sl"
  then show "\<exists>sl'. sed_slist_append (\<lambda>_. True) sl s = (sl', False) \<and> slist_inv sl' \<and> slist_content sl' = slist_content sl @ s"
    by (simp add: sed_slist_append_def slist_new_entry_def slist_inv_def)
next
  fix sl
  assume "slist_inv sl"
  then show "\<exists>sl'. sed_slist_reduce (\<lambda>_. True) sl = Some (sl', Some (slist_content sl)) \<and> slist_inv sl' \<and> slist_content sl' = []"
    by (cases "concat (sl_entries sl) = []")
      (auto simp: sed_slist_reduce_def slist_inv_def slist_init_def copy_entries_concat memcpy_at_def)
qed

section \<open>Databases\<close>

lemma cstr_NUL [simp]: "cstr (s @ [CHR 0x00]) = cstr s"
  by (induction s) (auto simp: cstr_def)

text \<open>A database as \<open>sed_init_db\<close> makes it and every query leaves it.\<close>

definition sed_ready :: "'re re_env \<Rightarrow> 're sed_db \<Rightarrow> bool" where
  "sed_ready env db \<longleftrightarrow> tr_append (sdb_tr db) = Some (sed_slist_append (\<lambda>_. True))
     \<and> tr_reduce (sdb_tr db) = Some (sed_slist_reduce (\<lambda>_. True))
     \<and> (\<forall>tf \<in> set (tr_list (sdb_tr db)). expr_ok env tf)
     \<and> slist_inv (sdb_slist db) \<and> slist_content (sdb_slist db) = []"

text \<open>The key after the last expression, and the answer for two templates.\<close>

definition sed_result :: "'re re_env \<Rightarrow> 're transform_expr list \<Rightarrow> string \<Rightarrow> string" where
  "sed_result env tfs key = cstr (subst env (last tfs) key (ctl_stop, ctl_stop))"

definition sed_answer :: "'re re_env \<Rightarrow> 're transform_expr list \<Rightarrow> piece list \<Rightarrow> piece list \<Rightarrow> string \<times> string \<Rightarrow> string" where
  "sed_answer env tfs pos neg q =
     (case q of (mp, key) \<Rightarrow>
        concat (map (expand_piece (lookup_value [(''map'', mp), (''key'', key), (''xform'', sed_result env tfs key)])) (if key \<noteq> sed_result env tfs key then pos else neg)))"

lemma sed_reply_template:
  assumes "template_ok ps" "line = concat (map (expand_piece (lookup_value [(''map'', mp), (''key'', key), (''xform'', x)])) ps)"
  shows "sed_reply (concat (map render ps)) mp key (Some x) = (if length line < 511 then Some (0, [line @ [NL]]) else None)"
  using expand_reply_template [OF assms(1), of "[(''map'', mp), (''key'', key), (''xform'', x)]"] assms(2) by (simp add: sed_reply_def printf_line)

lemma sed_query_spec:
  assumes "sed_ready env db" "\<forall>tf \<in> set (tr_list (sdb_tr db)). expr_good env tf" "tr_list (sdb_tr db) \<noteq> []"
    and "template_ok pos" "template_ok neg" "sdb_positive_reply db = concat (map render pos)"
    "sdb_negative_reply db = concat (map render neg)" "length (sed_answer env (tr_list (sdb_tr db)) pos neg (mp, key)) < 511"
  shows "\<exists>db'. sed_query env db mp key ci = Some (db', 0, [sed_answer env (tr_list (sdb_tr db)) pos neg (mp, key) @ [NL]])
    \<and> sed_ready env db' \<and> tr_list (sdb_tr db') = tr_list (sdb_tr db)
    \<and> sdb_positive_reply db' = sdb_positive_reply db \<and> sdb_negative_reply db' = sdb_negative_reply db"
proof -
  let ?tfs = "tr_list (sdb_tr db)"
  from sl.transform_string_spec [of "sdb_tr db" env "sdb_slist db" key] assms(1-3) obtain buf sl' where
    "transform_string env (sdb_tr db) key (sdb_slist db) =
      Some ((sdb_tr db)\<lparr>tr_cctl_buf := buf, tr_errno := None, tr_errpos := 0\<rparr>, sl', Inr (Some (subst env (last ?tfs) key (ctl_stop, ctl_stop) @ [CHR 0x00])))"
    "slist_inv sl'" "slist_content sl' = []" by (auto simp: sed_ready_def)
  moreover have "sed_reply (if key \<noteq> sed_result env ?tfs key then sdb_positive_reply db else sdb_negative_reply db) mp key
      (Some (sed_result env ?tfs key)) = Some (0, [sed_answer env ?tfs pos neg (mp, key) @ [NL]])"
  proof -
    define x where "x = sed_result env ?tfs key"
    show ?thesis
      using assms(8) unfolding sed_answer_def prod.case x_def [symmetric] assms(6,7)
      by (cases "key = x") (simp_all add: sed_reply_template [OF assms(4) refl] sed_reply_template [OF assms(5) refl])
  qed
  ultimately show ?thesis
    using assms(1) by (simp add: sed_query_def sed_result_def sed_ready_def slist_free_def slist_init_def slist_inv_def split: if_split_asm)
qed

fun sed_queries ::
  "'re re_env \<Rightarrow> 're sed_db \<Rightarrow> smap_conninfo \<Rightarrow> (string \<times> string) list \<Rightarrow> ('re sed_db \<times> (int \<times> string list) list) option" where
  "sed_queries env db ci [] = Some (db, [])"
| "sed_queries env db ci ((mp, key) # qs) = do {
     (db, rc, out) \<leftarrow> sed_query env db mp key ci;
     (db, outs) \<leftarrow> sed_queries env db ci qs;
     Some (db, (rc, out) # outs) }"

lemma sed_queries_spec:
  assumes "sed_ready env db" "\<forall>tf \<in> set (tr_list (sdb_tr db)). expr_good env tf" "tr_list (sdb_tr db) \<noteq> []"
    and "template_ok pos" "template_ok neg" "sdb_positive_reply db = concat (map render pos)"
    "sdb_negative_reply db = concat (map render neg)" "\<forall>q \<in> set qs. length (sed_answer env (tr_list (sdb_tr db)) pos neg q) < 511"
  shows "\<exists>db'. sed_queries env db ci qs = Some (db', map (\<lambda>q. (0, [sed_answer env (tr_list (sdb_tr db)) pos neg q @ [NL]])) qs)"
  using assms(1,2,3,6,7,8)
proof (induction qs arbitrary: db)
  case (Cons q qs)
  obtain mp key where q: "q = (mp, key)" by (cases q)
  from Cons.prems(6) q have l: "length (sed_answer env (tr_list (sdb_tr db)) pos neg (mp, key)) < 511" by simp
  from sed_query_spec [OF Cons.prems(1-3) assms(4,5) Cons.prems(4,5) l, of ci] obtain db1 where
    d: "sed_query env db mp key ci = Some (db1, 0, [sed_answer env (tr_list (sdb_tr db)) pos neg (mp, key) @ [NL]])"
    "sed_ready env db1" "tr_list (sdb_tr db1) = tr_list (sdb_tr db)"
    "sdb_positive_reply db1 = sdb_positive_reply db" "sdb_negative_reply db1 = sdb_negative_reply db" by blast
  with Cons.IH [of db1] Cons.prems q show ?case by auto
qed simp

lemma compile_incr_keeps:
  assumes "transform_compile_incr env tr e cf = Some (tr', False)" "\<forall>tf \<in> set (tr_list tr). expr_ok env tf"
  shows "tr_append tr' = tr_append tr \<and> tr_reduce tr' = tr_reduce tr \<and> (\<forall>tf \<in> set (tr_list tr'). expr_ok env tf)"
proof -
  from assms(1) obtain r where r: "compile_loop env e cf (tr_list tr) = Some r"
    "(case r of Inl (e, pos) \<Rightarrow> (tr\<lparr>tr_list := [], tr_errno := Some e, tr_errpos := pos\<rparr>, True) | Inr tfs \<Rightarrow> (tr\<lparr>tr_list := tfs\<rparr>, False)) = (tr', False)"
    by (auto simp: transform_compile_incr_def bind_eq_Some_conv)
  then obtain tfs where "r = Inr tfs" "tr' = tr\<lparr>tr_list := tfs\<rparr>" by (cases r) (auto split: prod.splits)
  with r(1) compile_loop_ok assms(2) show ?thesis by fastforce
qed

lemma sed_compile_keeps:
  assumes "sed_compile env cf as tr = Some (tr', False)" "\<forall>tf \<in> set (tr_list tr). expr_ok env tf"
  shows "tr_append tr' = tr_append tr \<and> tr_reduce tr' = tr_reduce tr \<and> (\<forall>tf \<in> set (tr_list tr'). expr_ok env tf)"
  using assms
proof (induction as arbitrary: tr)
  case (Cons a as)
  then obtain t where t: "transform_compile_incr env tr a cf = Some (t, False)" "sed_compile env cf as t = Some (tr', False)"
    by (auto simp: bind_eq_Some_conv split: if_splits)
  from compile_incr_keeps [OF t(1) Cons.prems(2)] Cons.IH [OF t(2)] show ?case by simp
qed simp

lemma sed_init_db_ready: "sed_init_db env (\<lambda>_. True) def dbid argv = Some (Some db) \<Longrightarrow> sed_ready env db"
  by (auto simp: sed_init_db_def sed_ready_def bind_eq_Some_conv sed_transform_def transform_init_def slist_init_def slist_inv_def
      dest!: sed_compile_keeps split: if_splits)

lemma sed_options_typed: "\<forall>p \<in> set init_option. opt_typed p"
  by (simp add: init_option_def sed_flag_def sed_str_def opt_typed_def)

text \<open>C6. A database of the module \<open>sed\<close> answers every sequence of queries.  Let \<open>sed_init_db\<close> have made it, with at least one expression, with none that has a match number
  greater than 1, and let the matches
  of its regular expressions lie in the text, consume something where they are searched repeatedly, and have no empty
  group whose first letter is to be converted; let the answers have at most 510 bytes.  Then each query is answered by one line and the code 0: the template for
  positive replies if the last expression changes the key and the one for negative replies otherwise, with the map, the key and the
  key changed by the last expression, the only one that has an effect, in the place of the references.\<close>

theorem sed_answers:
  assumes "sed_init_db env (\<lambda>_. True) def dbid argv = Some (Some db)" "tr_list (sdb_tr db) \<noteq> []"
    and "\<forall>tf \<in> set (tr_list (sdb_tr db)). re_ok env (tf_regex tf) \<and> tf_match_number tf \<le> 1 \<and> progresses env tf
           \<and> expr_safe env tf [] ctl_stop"
    and "template_ok pos" "template_ok neg" "sdb_positive_reply db = concat (map render pos)"
      "sdb_negative_reply db = concat (map render neg)" "\<forall>q \<in> set qs. length (sed_answer env (tr_list (sdb_tr db)) pos neg q) < 511"
  shows "\<exists>db'. sed_queries env db ci qs = Some (db', map (\<lambda>q. (0, [sed_answer env (tr_list (sdb_tr db)) pos neg q @ [NL]])) qs)"
proof -
  note r = sed_init_db_ready [OF assms(1)]
  with assms(3) have "\<forall>tf \<in> set (tr_list (sdb_tr db)). expr_good env tf" by (simp add: expr_good_def sed_ready_def)
  from sed_queries_spec [OF r this assms(2,4-8)] show ?thesis .
qed

section \<open>Examples\<close>

lemmas sed_eval = sed_init_db_def init_option_def sed_flag_def sed_str_def option_eval smap_parseopt_def parseopt_loop.simps
  sed_transform_def transform_init_def transform_compile_incr_def compile_loop.simps parse_transform_expr_def
  parse_flags.simps parse_repl.simps add_segment_defs escape_segment_def is_digit_def

definition demo_expr :: "string transform_expr" where
  "demo_expr = \<lparr>tf_type = transform_global, tf_match_number = 0, tf_regex = ''ab'', tf_repl = [segm_case_ctl ctl_upcase, segm_literal ''c'']\<rparr>"

definition demo_db :: "string sed_db" where
  "demo_db = \<lparr>sdb_tr = (sed_transform (\<lambda>_. True))\<lparr>tr_list := [demo_expr]\<rparr>, sdb_slist = slist_init,
     sdb_positive_reply = ''OK ${xform}'', sdb_negative_reply = ''NO'', sdb_onerror_reply = None\<rparr>"

lemma demo_init_db:
  "sed_init_db plain_env (\<lambda>_. True) sed_defaults ''db'' [''sed'', ''s,ab,'' @ [BSLASH] @ ''Uc,g'', ''negative-reply=NO''] = Some (Some demo_db)"
  by (simp add: sed_eval sed_defaults_def plain_env_def demo_db_def demo_expr_def)

lemma upcase_eval: "TOUPPER (CHR ''c'') = CHR ''C''" "TOUPPER (CHR ''y'') = CHR ''Y''" "TOUPPER (CHR ''z'') = CHR ''Z''"
  by code_simp+

text \<open>The answers of that database: the second key is not changed.\<close>

lemma demo_answers:
  "sed_answer plain_env [demo_expr] [Lit ''OK '', Var ''xform''] [Lit ''NO''] (''m'', ''xabyab'') = ''OK xCyC''"
  "sed_answer plain_env [demo_expr] [Lit ''OK '', Var ''xform''] [Lit ''NO''] (''m'', ''ba'') = ''NO''"
  by (simp_all add: sed_answer_def sed_result_def subst.simps plain_env_def demo_expr_def group_text_def after_ctl_def after_text_def
      upcase_eval cstr_def lookup_value_def)

theorem sed_answers_witness:
  "\<exists>db'. sed_queries plain_env demo_db \<lparr>ci_src = AF_OTHER 0, ci_srclen = 0, ci_dst = AF_OTHER 0, ci_dstlen = 0\<rparr>
      [(''m'', ''xabyab''), (''m'', ''ba'')] = Some (db', [(0, [''OK xCyC'' @ [NL]]), (0, [''NO'' @ [NL]])])"
proof -
  have t: "tr_list (sdb_tr demo_db) = [demo_expr]" "sdb_positive_reply demo_db = concat (map render [Lit ''OK '', Var ''xform''])"
    "sdb_negative_reply demo_db = concat (map render [Lit ''NO''])" by (simp_all add: demo_db_def)
  have "\<forall>tf \<in> set (tr_list (sdb_tr demo_db)). re_ok plain_env (tf_regex tf) \<and> tf_match_number tf \<le> 1 \<and> progresses plain_env tf
      \<and> expr_safe plain_env tf [] ctl_stop"
    by (simp add: t plain_re_ok plain_progresses plain_safe demo_expr_def)
  moreover have "template_ok [Lit ''OK '', Var ''xform'']" "template_ok [Lit ''NO'']" by (simp_all add: template_ok_def)
  ultimately show ?thesis
    using sed_answers [OF demo_init_db, of "[Lit ''OK '', Var ''xform'']" "[Lit ''NO'']"
        "[(''m'', ''xabyab''), (''m'', ''ba'')]" "\<lparr>ci_src = AF_OTHER 0, ci_srclen = 0, ci_dst = AF_OTHER 0, ci_dstlen = 0\<rparr>"] t
    by (simp add: demo_answers)
qed

section \<open>Faults\<close>

text \<open>A database without expressions compares the key with a null pointer.\<close>

lemma no_expression_crashes: "sed_ready env db \<Longrightarrow> tr_list (sdb_tr db) = [] \<Longrightarrow> sed_query env db mp key ci = None"
  by (auto simp: sed_query_def transform_string_def sed_ready_def)

text \<open>Of several expressions only the last one has an effect.\<close>

lemma only_last_expression:
  assumes "sed_ready env db" "\<forall>tf \<in> set (tr_list (sdb_tr db)). expr_good env tf" "tr_list (sdb_tr db) = tfs @ [tf]"
  shows "\<exists>db'. sed_xform env db ci input = Some (db', 0, Some (cstr (subst env tf input (ctl_stop, ctl_stop))))"
  using sl.transform_string_spec [of "sdb_tr db" env "sdb_slist db" input] assms by (auto simp: sed_xform_def sed_ready_def)

text \<open>An escaped delimiter keeps its backslash in the replacement.\<close>

lemma escaped_delimiter_kept:
  "parse_transform_expr plain_env (''s/a/b'' @ [BSLASH] @ ''/c/'') 0 =
     Some (Inr (\<lparr>tf_type = transform_first, tf_match_number = 0, tf_regex = ''a'',
       tf_repl = [segm_literal ''b'', segm_literal [BSLASH, CHR ''/''], segm_literal ''c'']\<rparr>, []))"
  by (simp add: sed_eval plain_env_def)

text \<open>A numbered match repeats the text before the matches it skips.\<close>

lemma numbered_match_repeats:
  "single_transform_name_to_slist plain_env (\<lambda>sl s. (sl @ s, False))
     \<lparr>tf_type = transform_first, tf_match_number = 2, tf_regex = ''a'', tf_repl = [segm_literal ''X'']\<rparr> [] ''baba'' [] =
   Some ([], ''bbabX'', False)"
  by (simp add: single_transform_name_to_slist_def single_transform_loop.simps plain_env_def match_at_def bytes_at_def
      transform_append_def append_conv_def)

text \<open>The case conversion is not reset between matches.\<close>

lemma case_conversion_leaks:
  "subst plain_env \<lparr>tf_type = transform_global, tf_match_number = 0, tf_regex = ''x'',
      tf_repl = [segm_literal ''y'', segm_case_ctl ctl_upcase, segm_literal ''z'']\<rparr> ''xx'' (ctl_stop, ctl_stop) = ''yZYZ''"
  by (simp add: subst.simps plain_env_def group_text_def after_ctl_def after_text_def upcase_eval)

text \<open>The conversion of the first letter of an empty group stores through a null pointer.\<close>

lemma empty_group_crashes:
  "xf_buf x = [] \<Longrightarrow> rmp ! n = Some (i, i) \<Longrightarrow> n < length rmp \<Longrightarrow>
   run_segms app rmp input [segm_case_ctl ctl_upcase_next, segm_backref n] x = None"
  by (simp add: bytes_at_def append_conv_def set_case_ctl_def run_case_conv_def Let_def)

text \<open>The messages are those of the next code.\<close>

lemma strerror_shifted:
  "transform_strerror (tr\<lparr>tr_errno := Some TRE_NOMEM\<rparr>) = ''invalid input expression''"
  "transform_strerror (tr\<lparr>tr_errno := Some TRE_BACKREF\<rparr>) = ''unknown error''"
  by (simp_all add: transform_strerror_def tre_code_def transform_errstr_def)

text \<open>The negated options of the manual are not known.\<close>

lemma noicase_unknown: "sed_init def [''sed'', ''noicase''] = Some (def, 1)"
  by (simp add: sed_init_def sed_eval)

lemma append_conv_noerr: "\<forall>sl s. \<not> snd (app sl s) \<Longrightarrow> append_conv app x str = Some (y, bad) \<Longrightarrow> \<not> bad"
  by (auto simp: append_conv_def transform_append_def bind_eq_Some_conv case_prod_beta split: if_splits)

lemma run_segms_noerr:
  assumes "\<forall>sl s. \<not> snd (app sl s)" "run_segms app rmp s segs x = Some (z, bad)"
  shows "\<not> bad"
  using assms(2)
proof (induction segs arbitrary: x)
  case (Cons g segs)
  then show ?case
    by (cases g) (auto simp: bind_eq_Some_conv dest!: append_conv_noerr [OF assms(1)] split: if_splits option.splits)
qed simp

text \<open>From the text \<open>s\<close> the matches lead to a rest that is not empty and that the regular expression matches with the empty text at its beginning.\<close>

inductive empty_match_reached :: "'re re_env \<Rightarrow> 're \<Rightarrow> string \<Rightarrow> bool" for env re where
  empty_here: "s \<noteq> [] \<Longrightarrow> re_exec env re s = Some (Some (0, 0) # rmp) \<Longrightarrow> empty_match_reached env re s"
| empty_later: "s \<noteq> [] \<Longrightarrow> re_exec env re s = Some (Some (so, eo) # rmp) \<Longrightarrow> empty_match_reached env re (drop eo s) \<Longrightarrow>
    empty_match_reached env re s"

text \<open>In both cases the next rest is of the same kind.\<close>

lemma empty_match_next:
  "empty_match_reached env re s \<Longrightarrow> s \<noteq> [] \<and> (\<exists>so eo rmp. re_exec env re s = Some (Some (so, eo) # rmp) \<and> empty_match_reached env re (drop eo s))"
  by (cases rule: empty_match_reached.cases) (auto intro: empty_here)

text \<open>C40. A global expression, with any match number, whose matches in a text leave a rest that is not empty and at the beginning of which the regular expression matches the empty text,
  does not return, as long as memory is available for the pieces that it appends: the loop makes no progress.\<close>

theorem global_empty_match_hangs:
  assumes "tf_type tf = transform_global" "\<forall>sl s. \<not> snd (app sl s)" "empty_match_reached env (tf_regex tf) input"
  shows "single_transform_loop env app tf input nm x = None"
proof (rule ccontr)
  note noerr = run_segms_noerr [OF assms(2)]
  have a: "transform_append app y str = (y\<lparr>xf_sink := fst (app (xf_sink y) str)\<rparr>, False)" for y str
    using assms(2) by (simp add: transform_append_def case_prod_beta)
  have stuck: "e = env \<longrightarrow> a = app \<longrightarrow> t = tf \<longrightarrow> empty_match_reached env (tf_regex tf) s \<longrightarrow> False"
    if "single_transform_loop e a t s n y = Some r" for e a t s n y r
    using that
  proof (rule single_transform_loop.raw_induct
      [where P = "\<lambda>e a t s n y r. e = env \<longrightarrow> a = app \<longrightarrow> t = tf \<longrightarrow> empty_match_reached env (tf_regex tf) s \<longrightarrow> False" and xa = "(((((e, a), t), s), n), y)",
        unfolded prod.case, rotated], goal_cases)
    case (1 loop e a t s n y r)
    show ?case
    proof (intro impI)
      assume e: "e = env" "a = app" "t = tf" "empty_match_reached env (tf_regex tf) s"
      from empty_match_next [OF e(4)] obtain so eo rmp where
        m: "s \<noteq> []" "re_exec env (tf_regex tf) s = Some (Some (so, eo) # rmp)" "empty_match_reached env (tf_regex tf) (drop eo s)" by blast
      with 1(2) e assms(1) obtain n' z where "loop env app tf (drop eo s) n' z = Some r"
        by (auto simp: match_at_def a bind_eq_Some_conv dest: noerr split: if_splits)
      with 1(1) m(3) show False by blast
    qed
  qed
  assume "single_transform_loop env app tf input nm x \<noteq> None"
  then obtain r where "single_transform_loop env app tf input nm x = Some r" by auto
  with stuck assms(3) show False by blast
qed

text \<open>Regular expressions of one letter and a star, which match as many of these letters as there are at the beginning.\<close>

definition star_env :: "string re_env" where
  "star_env = \<lparr>re_comp = \<lambda>re f. if length re = 2 \<and> re ! 1 = CHR ''*'' then Some re else None, re_nsub = \<lambda>_. 0,
     re_exec = \<lambda>re s. Some [Some (0, length (takeWhile (\<lambda>c. c = hd re) s))]\<rparr>"

theorem global_empty_match_hangs_witness:
  "\<exists>tf. parse_transform_expr star_env ''s/x*/y/g'' 0 = Some (Inr (tf, []))
    \<and> single_transform_loop star_env (\<lambda>sl s. (sl @ s, False)) tf ''xxa'' 0
        \<lparr>xf_sink = [], xf_buf = [], xf_case = ctl_stop, xf_save = ctl_stop\<rparr> = None"
proof -
  let ?tf = "\<lparr>tf_type = transform_global, tf_match_number = 0, tf_regex = ''x*'', tf_repl = [segm_literal ''y'']\<rparr>"
  have c: "parse_transform_expr star_env ''s/x*/y/g'' 0 = Some (Inr (?tf, []))" by (simp add: sed_eval star_env_def)
  have "empty_match_reached star_env ''x*'' ''a''" by (rule empty_here [where rmp = "[]"]) (simp_all add: star_env_def)
  then have "empty_match_reached star_env ''x*'' ''xxa''"
    by - (rule empty_later [where so = 0 and eo = 2 and rmp = "[]"], simp_all add: star_env_def)
  then show ?thesis by (intro exI [of _ ?tf] conjI c global_empty_match_hangs) simp_all
qed

end
