(* ===== verification/Smap_Sql.thy ===== *)
theory Smap_Sql
  imports Smap_Template Smap_Module Smap_Printf
begin

text \<open>
  What the modules for SQL databases share (\<open>modules/postgres/postgres.c\<close> and \<open>modules/mysql/mysql.c\<close>): the
  defaults of replies, the variables of a query, and sending a reply.
\<close>

definition reply_or :: "string option \<Rightarrow> string option \<Rightarrow> string \<Rightarrow> string" where
  "reply_or r d dfl = (case r of Some x \<Rightarrow> x | None \<Rightarrow> (case d of Some x \<Rightarrow> x | None \<Rightarrow> dfl))"

text \<open>The strings of an environment: those before the first null pointer.\<close>

definition env_strings :: "string option list \<Rightarrow> string list" where
  "env_strings env = map the (takeWhile (\<lambda>e. e \<noteq> None) env)"

text \<open>\<open>inet_ntoa\<close> returns a pointer to one static buffer: after both calls both pointers show the second address.\<close>

definition addr_strings :: "(32 word \<Rightarrow> string) \<Rightarrow> smap_conninfo \<Rightarrow> string option \<times> string option" where
  "addr_strings ntoa ci =
     (case (ci_src ci, ci_dst ci) of
        (AF_INET s, AF_INET d) \<Rightarrow> (Some (ntoa d), Some (ntoa d))
      | (AF_INET s, _) \<Rightarrow> (Some (ntoa s), None)
      | (_, AF_INET d) \<Rightarrow> (None, Some (ntoa d))
      | _ \<Rightarrow> (None, None))"

definition send_reply :: "string \<Rightarrow> string list \<Rightarrow> (int \<times> string list) option" where
  "send_reply template env = do {
     r \<leftarrow> expand_reply env template;
     (case r of Inl e \<Rightarrow> Some (1, []) | Inr text \<Rightarrow> do { text \<leftarrow> text; out \<leftarrow> printf_writes (text @ [NL]); Some (0, out) }) }"

text \<open>The variables of a query: an environment ends at the first address that is not an Internet address.\<close>

definition query_vars :: "(32 word \<Rightarrow> string) \<Rightarrow> string \<Rightarrow> string \<Rightarrow> smap_conninfo \<Rightarrow> (string \<times> string) list" where
  "query_vars ntoa mp key ci = [(''map'', mp), (''key'', key)] @
     (case addr_strings ntoa ci of
        (Some s, Some d) \<Rightarrow> [(''src'', s), (''dst'', d)]
      | (Some s, None) \<Rightarrow> [(''src'', s)]
      | (None, _) \<Rightarrow> [])"

definition filled :: "piece list \<Rightarrow> (string \<times> string) list \<Rightarrow> string" where
  "filled ps bs = concat (map (expand_piece (lookup_value bs)) ps)"

lemma query_vars_names: "\<forall>b \<in> set (query_vars ntoa mp key ci). CHR ''='' \<notin> set (fst b)"
  by (auto simp: query_vars_def split: prod.splits option.splits)

text \<open>A line of 511 bytes and more does not survive \<open>smap_stream_printf\<close>.\<close>

lemma send_reply_template:
  assumes "template_ok ps" "\<forall>b \<in> set bs. CHR ''='' \<notin> set (fst b)"
  shows "send_reply (concat (map render ps)) (bindings bs) = (if length (filled ps bs) < 511 then Some (0, [filled ps bs @ [NL]]) else None)"
  using expand_reply_template [OF assms] by (simp add: send_reply_def filled_def printf_line)

section \<open>Counted connections\<close>

text \<open>A database is opened and closed through a counter: \<open>cnt\<close> is its value, up to \<open>lim\<close>, and \<open>inv\<close> says that the connection
  exists while it is counted.  Databases without a connection of their own share the one of the module.\<close>

datatype conn_op = ConnOpen | ConnClose

fun conn_run :: "('d \<Rightarrow> 'w \<Rightarrow> 'd \<times> 'w \<times> int) \<Rightarrow> ('d \<Rightarrow> 'w \<Rightarrow> ('d \<times> 'w) option) \<Rightarrow> conn_op list \<Rightarrow> 'd \<Rightarrow> 'w \<Rightarrow> ('d \<times> 'w) option" where
  "conn_run opn cls [] d w = Some (d, w)"
| "conn_run opn cls (ConnOpen # ops) d w = (case opn d w of (d, w, rc) \<Rightarrow> conn_run opn cls ops d w)"
| "conn_run opn cls (ConnClose # ops) d w = do { (d, w) \<leftarrow> cls d w; conn_run opn cls ops d w }"

locale counted_connection =
  fixes opn :: "'d \<Rightarrow> 'w \<Rightarrow> 'd \<times> 'w \<times> int" and cls :: "'d \<Rightarrow> 'w \<Rightarrow> ('d \<times> 'w) option"
    and inv :: "'d \<Rightarrow> bool" and cnt :: "'d \<Rightarrow> nat" and lim :: nat
  assumes open_counts: "inv d \<Longrightarrow> cnt d < lim \<Longrightarrow> opn d w = (d', w', rc) \<Longrightarrow> inv d' \<and> cnt d' = (if rc = 0 then cnt d + 1 else cnt d)"
    and close_counts: "inv d \<Longrightarrow> \<exists>d' w'. cls d w = Some (d', w') \<and> inv d' \<and> cnt d' = cnt d - 1"
begin

lemma conn_run_ok:
  "inv d \<Longrightarrow> cnt d + length ops \<le> lim \<Longrightarrow>
   \<exists>d' w'. conn_run opn cls ops d w = Some (d', w') \<and> inv d' \<and> cnt d' \<le> cnt d + length ops"
proof (induction ops arbitrary: d w)
  case (Cons a ops)
  show ?case
  proof (cases a)
    case ConnOpen
    obtain d1 w1 rc where o: "opn d w = (d1, w1, rc)" by (cases "opn d w")
    with open_counts [OF Cons.prems(1)] Cons.prems(2) have d1: "inv d1" "cnt d1 \<le> cnt d + 1" by (auto split: if_splits)
    then have "cnt d1 + length ops \<le> lim" using Cons.prems(2) by simp
    from Cons.IH [OF d1(1) this, of w1] obtain d' w' where
      "conn_run opn cls ops d1 w1 = Some (d', w')" "inv d'" "cnt d' \<le> cnt d1 + length ops" by blast
    with o d1 ConnOpen show ?thesis by auto
  next
    case ConnClose
    from close_counts [OF Cons.prems(1), of w] obtain d1 w1 where c: "cls d w = Some (d1, w1)" "inv d1" "cnt d1 = cnt d - 1" by blast
    have "cnt d1 + length ops \<le> lim" using c(3) Cons.prems(2) by simp
    from Cons.IH [OF c(2) this, of w1] obtain d' w' where
      "conn_run opn cls ops d1 w1 = Some (d', w')" "inv d'" "cnt d' \<le> cnt d1 + length ops" by blast
    with c ConnClose show ?thesis by auto
  qed
qed simp

end

end
