(* ===== verification/Smap_Postgres.thy ===== *)
theory Smap_Postgres
  imports Smap_Sql Smap_Parseopt
begin

text \<open>
  The module \<open>postgres\<close> (\<open>modules/postgres/postgres.c\<close>): databases whose queries are SQL statements made from a template.  The
  client library \<open>libpq\<close> is a parameter: a record of functions over the state \<open>'w\<close> of the
  outside world, connections \<open>'c\<close> and results \<open>'r\<close>.  A store or a read outside an array, and a null pointer that is followed,
  give \<open>None\<close>.  Memory exhaustion and debugging output are left out.
\<close>

section \<open>Data\<close>

record ('w, 'c, 'r) libpq =
  PQconnectdb :: "string option \<Rightarrow> 'w \<Rightarrow> 'c option \<times> 'w"
  PQstatus_bad :: "'c \<Rightarrow> 'w \<Rightarrow> bool"
  PQfinish :: "'c \<Rightarrow> 'w \<Rightarrow> 'w"
  PQexec :: "'c option \<Rightarrow> string option \<Rightarrow> 'w \<Rightarrow> 'r option \<times> 'w"
  PQresult_ok :: "'r \<Rightarrow> bool"
  PQntuples :: "'r \<Rightarrow> nat"
  PQfnames :: "'r \<Rightarrow> string list"
  PQgetvalue :: "'r \<Rightarrow> nat \<Rightarrow> nat \<Rightarrow> string"

abbreviation (input) MDB_OPEN :: flagword where "MDB_OPEN \<equiv> 1"
abbreviation (input) MDB_DEFDB :: flagword where "MDB_DEFDB \<equiv> 2"

record 'c modpg_db =
  pg_flags :: flagword
  pg_refcnt :: "32 word"
  pg_name :: "string option"
  pg_pgconn :: "'c option"
  pg_conninfo :: "string option"
  pg_template :: "string option"
  pg_positive_reply :: "string option"
  pg_negative_reply :: "string option"
  pg_onerror_reply :: "string option"

text \<open>A structure of zeros, as \<open>calloc\<close> returns it and the static \<open>def_db\<close> starts.\<close>

definition pg_zero :: "'c modpg_db" where
  "pg_zero = \<lparr>pg_flags = 0, pg_refcnt = 0, pg_name = None, pg_pgconn = None, pg_conninfo = None, pg_template = None,
     pg_positive_reply = None, pg_negative_reply = None, pg_onerror_reply = None\<rparr>"

definition modpg_handle :: "'c modpg_db \<Rightarrow> 'c modpg_db \<Rightarrow> 'c option" where
  "modpg_handle def db = (if hasfl (pg_flags db) MDB_DEFDB then pg_pgconn def else pg_pgconn db)"

definition modpg_positive_reply :: "'c modpg_db \<Rightarrow> 'c modpg_db \<Rightarrow> string" where
  "modpg_positive_reply def db = reply_or (pg_positive_reply db) (pg_positive_reply def) ''OK''"

definition modpg_negative_reply :: "'c modpg_db \<Rightarrow> 'c modpg_db \<Rightarrow> string" where
  "modpg_negative_reply def db = reply_or (pg_negative_reply db) (pg_negative_reply def) ''NOTFOUND''"

definition modpg_onerror_reply :: "'c modpg_db \<Rightarrow> 'c modpg_db \<Rightarrow> string" where
  "modpg_onerror_reply def db = reply_or (pg_onerror_reply db) (pg_onerror_reply def) ''NOTFOUND''"

section \<open>Connections\<close>

definition opendb :: "('w, 'c, 'r) libpq \<Rightarrow> 'c modpg_db \<Rightarrow> 'w \<Rightarrow> 'c modpg_db \<times> 'w \<times> int" where
  "opendb pq db w =
     (if hasfl (pg_flags db) MDB_OPEN then (db\<lparr>pg_refcnt := pg_refcnt db + 1\<rparr>, w, 0)
      else (case PQconnectdb pq (pg_conninfo db) w of
          (None, w) \<Rightarrow> (db\<lparr>pg_pgconn := None\<rparr>, w, 1)
        | (Some c, w) \<Rightarrow>
            if PQstatus_bad pq c w then (db\<lparr>pg_pgconn := None\<rparr>, PQfinish pq c w, 1)
            else (db\<lparr>pg_pgconn := Some c, pg_refcnt := pg_refcnt db + 1, pg_flags := setfl (pg_flags db) MDB_OPEN\<rparr>, w, 0)))"

definition closedb :: "('w, 'c, 'r) libpq \<Rightarrow> 'c modpg_db \<Rightarrow> 'w \<Rightarrow> ('c modpg_db \<times> 'w) option" where
  "closedb pq db w =
     (if hasfl (pg_flags db) MDB_OPEN then
        let db = db\<lparr>pg_refcnt := pg_refcnt db - 1\<rparr> in
        if pg_refcnt db = 0 then do {
          c \<leftarrow> pg_pgconn db;
          Some (db\<lparr>pg_pgconn := None, pg_flags := clrfl (pg_flags db) MDB_OPEN\<rparr>, PQfinish pq c w) }
        else Some (db, w)
      else Some (db, w))"

text \<open>The module works on the static database \<open>def\<close> and the one it is called for.\<close>

definition modpg_open ::
  "('w, 'c, 'r) libpq \<Rightarrow> 'c modpg_db \<Rightarrow> 'c modpg_db \<Rightarrow> 'w \<Rightarrow> 'c modpg_db \<times> 'c modpg_db \<times> 'w \<times> int" where
  "modpg_open pq def db w =
     (if hasfl (pg_flags db) MDB_DEFDB then (case opendb pq def w of (def, w, rc) \<Rightarrow> (def, db, w, rc))
      else (case opendb pq db w of (db, w, rc) \<Rightarrow> (def, db, w, rc)))"

definition modpg_close ::
  "('w, 'c, 'r) libpq \<Rightarrow> 'c modpg_db \<Rightarrow> 'c modpg_db \<Rightarrow> 'w \<Rightarrow> ('c modpg_db \<times> 'c modpg_db \<times> 'w \<times> int) option" where
  "modpg_close pq def db w = do {
     (def, w) \<leftarrow> (if hasfl (pg_flags db) MDB_DEFDB then closedb pq def w else Some (def, w));
     (db, w) \<leftarrow> closedb pq db w;
     Some (def, db, w, 0) }"

section \<open>The connection string\<close>

fun modpg_quoted_length :: "string \<Rightarrow> nat" where
  "modpg_quoted_length [] = 0"
| "modpg_quoted_length (c # cs) = (if c = CHR 0x27 \<or> c = CHR 0x5C then 2 else 1) + modpg_quoted_length cs"

text \<open>The text behind the last equality sign, if there is one.\<close>

definition strrchr_eq :: "string \<Rightarrow> (string \<times> string) option" where
  "strrchr_eq a =
     (if CHR ''='' \<in> set a
      then let v = rev (takeWhile (\<lambda>c. c \<noteq> CHR ''='') (rev a)) in Some (take (length a - length v) a, v)
      else None)"

definition conninfo_arg_length :: "string \<Rightarrow> nat" where
  "conninfo_arg_length a =
     (case strrchr_eq a of None \<Rightarrow> length a | Some (k, v) \<Rightarrow> length k + modpg_quoted_length v) + 1"

text \<open>What is written for an argument: up to the first equality sign, and the rest in quotes if it has a special character.\<close>

definition conninfo_arg :: "string \<Rightarrow> string" where
  "conninfo_arg a =
     (let k = takeWhile (\<lambda>c. c \<noteq> CHR ''='') a; r = dropWhile (\<lambda>c. c \<noteq> CHR ''='') a; k = k @ take 1 r; q = drop 1 r in
      k @ (if \<exists>c \<in> set q. c \<in> set [CHR '' '', CHR 0x09, CHR 0x5C, CHR 0x27]
           then [CHR 0x27] @ concat (map (\<lambda>c. if c = CHR 0x5C \<or> c = CHR 0x09 then [CHR 0x5C, c] else [c]) q) @ [CHR 0x27]
           else q) @ '' '')"

definition create_conninfo :: "string list \<Rightarrow> string option" where
  "create_conninfo argv =
     (let total = sum_list (map conninfo_arg_length argv); t = concat (map conninfo_arg argv) in
      if length t \<le> total \<and> t \<noteq> [] then Some (butlast t) else None)"

section \<open>Options\<close>

definition pg_str :: "string \<Rightarrow> (string \<Rightarrow> 'c modpg_db \<Rightarrow> 'c modpg_db) \<Rightarrow> 'c modpg_db smap_option" where
  "pg_str nm upd = \<lparr>opt_name = nm, opt_type = smap_opt_string, opt_data = StrData upd, opt_value = 0, opt_enumstr = [], opt_func = None\<rparr>"

text \<open>The tables of both initialisation functions; the local variables of the second one are the fields of a fresh structure.\<close>

definition pg_options :: "'c modpg_db smap_option list" where
  "pg_options =
     [pg_str ''query'' (\<lambda>s d. d\<lparr>pg_template := Some s\<rparr>), pg_str ''positive-reply'' (\<lambda>s d. d\<lparr>pg_positive_reply := Some s\<rparr>),
      pg_str ''negative-reply'' (\<lambda>s d. d\<lparr>pg_negative_reply := Some s\<rparr>), pg_str ''onerror-reply'' (\<lambda>s d. d\<lparr>pg_onerror_reply := Some s\<rparr>)]"

definition modpg_init :: "'c modpg_db \<Rightarrow> string list \<Rightarrow> ('c modpg_db \<times> int) option" where
  "modpg_init def argv = do {
     (def, argv, i, rc) \<leftarrow> smap_parseopt pg_options argv SMAP_PARSEOPT_PERMUTE True def;
     if rc \<noteq> 0 then Some (def, rc)
     else if i < length argv then do {
       ci \<leftarrow> create_conninfo (drop i argv);
       Some (def\<lparr>pg_conninfo := Some ci, pg_flags := 0, pg_name := Some ''postgres''\<rparr>, 0) }
     else Some (def, 0) }"

definition modpg_init_db :: "string \<Rightarrow> string list \<Rightarrow> 'c modpg_db option option" where
  "modpg_init_db dbid argv = do {
     (v, argv, i, rc) \<leftarrow> smap_parseopt pg_options argv SMAP_PARSEOPT_PERMUTE True pg_zero;
     if rc \<noteq> 0 then Some None
     else if i < length argv then do {
       ci \<leftarrow> create_conninfo (drop i argv);
       Some (Some (v\<lparr>pg_conninfo := Some ci, pg_flags := 0, pg_name := Some dbid\<rparr>)) }
     else Some (Some (v\<lparr>pg_flags := MDB_DEFDB, pg_name := Some dbid\<rparr>)) }"

section \<open>Queries\<close>

definition pg_special :: "char \<Rightarrow> bool" where
  "pg_special c \<longleftrightarrow> c = CHR 0x5C \<or> c = CHR 0x09 \<or> c = CHR 0x27"

definition quoted_length :: "string \<Rightarrow> nat \<times> bool" where
  "quoted_length str = (length str + length (filter pg_special str) + 1, \<exists>c \<in> set str. pg_special c)"

definition quoted_text :: "string \<Rightarrow> string" where
  "quoted_text str = concat (map (\<lambda>c. if pg_special c then [CHR 0x5C, c] else [c]) str)"

text \<open>The copy into a buffer, with the terminator.\<close>

definition quote_copy :: "string \<Rightarrow> string \<Rightarrow> string option" where
  "quote_copy buf str = memcpy_at buf 0 (quoted_text str @ [CHR 0x00])"

text \<open>The loop over the variables: \<open>buf\<close> is the buffer, empty before it is allocated; a null pointer in \<open>intab\<close> leaves
  the slot of the variable empty.\<close>

fun fill_env_loop :: "bool \<Rightarrow> string list \<Rightarrow> string option list \<Rightarrow> string \<Rightarrow> string option list option" where
  "fill_env_loop escape (n # ns) (v # vs) buf =
     (case v of
        None \<Rightarrow> map_option (Cons None) (fill_env_loop escape ns vs buf)
      | Some x \<Rightarrow>
          if escape \<and> snd (quoted_length x) then do {
            let len = fst (quoted_length x);
            let buf = (if buf = [] then replicate len (CHR 0x00) else if len > length buf then buf @ replicate (len - length buf) (CHR 0x00) else buf);
            buf \<leftarrow> quote_copy buf x;
            map_option (Cons (Some (format_env n (takeWhile (\<lambda>c. c \<noteq> CHR 0x00) buf)))) (fill_env_loop escape ns vs buf) }
          else map_option (Cons (Some (format_env n x))) (fill_env_loop escape ns vs buf))"
| "fill_env_loop escape _ _ buf = Some []"

definition fill_env :: "bool \<Rightarrow> string list \<Rightarrow> string option list \<Rightarrow> string option list option" where
  "fill_env escape vartab intab = fill_env_loop escape vartab intab []"

definition create_query_env ::
  "(32 word \<Rightarrow> string) \<Rightarrow> string \<Rightarrow> string \<Rightarrow> smap_conninfo \<Rightarrow> (string list \<times> string list) option" where
  "create_query_env ntoa mp key ci = (case addr_strings ntoa ci of (src, dst) \<Rightarrow> do {
     let vartab = [''map'', ''key'', ''src'', ''dst''];
     let intab = [Some mp, Some key, src, dst];
     env \<leftarrow> fill_env False vartab intab;
     qenv \<leftarrow> fill_env True vartab intab;
     Some (env_strings env, env_strings qenv) })"

definition do_query ::
  "('w, 'c, 'r) libpq \<Rightarrow> 'c modpg_db \<Rightarrow> 'c modpg_db \<Rightarrow> string list \<Rightarrow> 'w \<Rightarrow> ('w \<times> 'r option) option" where
  "do_query pq def db env w = do {
     template \<leftarrow> pg_template db;
     r \<leftarrow> expand_reply env template;
     Some (case r of
         Inl e \<Rightarrow> (w, None)
       | Inr text \<Rightarrow>
           (case PQexec pq (modpg_handle def db) text w of
              (None, w) \<Rightarrow> (w, None)
            | (Some res, w) \<Rightarrow> (w, if PQresult_ok pq res then Some res else None))) }"

definition do_positive_reply ::
  "('w, 'c, 'r) libpq \<Rightarrow> 'c modpg_db \<Rightarrow> 'c modpg_db \<Rightarrow> string list \<Rightarrow> 'r \<Rightarrow> (int \<times> string list) option" where
  "do_positive_reply pq def db env res =
     send_reply (modpg_positive_reply def db)
       (env @ map (\<lambda>(j, n). format_env n (PQgetvalue pq res 0 j)) (enumerate 0 (PQfnames pq res)))"

definition modpg_query ::
  "('w, 'c, 'r) libpq \<Rightarrow> (32 word \<Rightarrow> string) \<Rightarrow> 'c modpg_db \<Rightarrow> 'c modpg_db \<Rightarrow> string \<Rightarrow> string \<Rightarrow> smap_conninfo \<Rightarrow> 'w \<Rightarrow>
   ('w \<times> int \<times> string list) option" where
  "modpg_query pq ntoa def db mp key ci w = do {
     (env, qenv) \<leftarrow> create_query_env ntoa mp key ci;
     (w, res) \<leftarrow> do_query pq def db qenv w;
     (rc, out) \<leftarrow> (case res of
         None \<Rightarrow> send_reply (modpg_onerror_reply def db) env
       | Some res \<Rightarrow>
           if PQntuples pq res > 0 then do_positive_reply pq def db env res
           else send_reply (modpg_negative_reply def db) env);
     Some (w, rc, out) }"

text \<open>\<open>modpg_free_db\<close> releases the strings and returns 0; neither the connection nor the structure is released.\<close>

definition modpg_free_db :: "'c modpg_db \<Rightarrow> 'c modpg_db \<times> int" where
  "modpg_free_db db =
     (db\<lparr>pg_conninfo := None, pg_template := None, pg_positive_reply := None, pg_negative_reply := None, pg_onerror_reply := None\<rparr>, 0)"

section \<open>Counting connections\<close>

text \<open>A connection exists exactly while it is counted.\<close>

definition conn_inv :: "'c modpg_db \<Rightarrow> bool" where
  "conn_inv db \<longleftrightarrow> (hasfl (pg_flags db) MDB_OPEN \<longleftrightarrow> pg_pgconn db \<noteq> None) \<and> (hasfl (pg_flags db) MDB_OPEN \<longleftrightarrow> pg_refcnt db \<noteq> 0)"

lemma hasfl_setfl_open: "hasfl (setfl f MDB_OPEN) MDB_OPEN"
  by (simp add: flag_simps)

lemma hasfl_clrfl_open: "\<not> hasfl (clrfl f MDB_OPEN) MDB_OPEN"
  by (simp add: flag_simps)

lemma succ_not_zero: "(r :: 32 word) \<noteq> -1 \<Longrightarrow> r + 1 \<noteq> 0 \<and> unat (r + 1) = unat r + 1"
  using unatSuc [of r] by (metis Suc_eq_plus1 add.commute add_eq_0_iff)

lemma opendb_inv:
  assumes "conn_inv db" "pg_refcnt db \<noteq> -1" "opendb pq db w = (db', w', rc)"
  shows "conn_inv db' \<and> (if rc = 0 then unat (pg_refcnt db') = unat (pg_refcnt db) + 1 else pg_refcnt db' = pg_refcnt db)"
  using assms succ_not_zero [OF assms(2)]
  by (auto simp: opendb_def conn_inv_def hasfl_setfl_open split: if_splits prod.splits option.splits)

lemma closedb_inv:
  assumes "conn_inv db"
  shows "\<exists>db' w'. closedb pq db w = Some (db', w') \<and> conn_inv db' \<and> unat (pg_refcnt db') = unat (pg_refcnt db) - 1
    \<and> (w' \<noteq> w \<longrightarrow> unat (pg_refcnt db) = 1)"
proof (cases "hasfl (pg_flags db) MDB_OPEN")
  case True
  with assms obtain c where c: "pg_pgconn db = Some c" "pg_refcnt db \<noteq> 0" by (auto simp: conn_inv_def)
  then have "unat (pg_refcnt db - 1) = unat (pg_refcnt db) - 1" by (metis unat_minus_one)
  moreover have "unat (pg_refcnt db) = 1" if "pg_refcnt db - 1 = 0" using that by simp
  ultimately show ?thesis using True c by (auto simp: closedb_def conn_inv_def hasfl_clrfl_open Let_def)
qed (use assms in \<open>auto simp: closedb_def conn_inv_def\<close>)


lemma refcnt_limit:
  assumes "unat (r :: 32 word) < 2 ^ 32 - 1"
  shows "r \<noteq> -1"
proof
  assume "r = -1"
  then have "unat r = 2 ^ 32 - 1" by (simp add: unsigned_minus_1_eq_mask mask_eq_exp_minus_1)
  with assms show False by simp
qed

interpretation pgc: counted_connection "opendb pq" "closedb pq" conn_inv "\<lambda>db. unat (pg_refcnt db)" "2 ^ 32 - 1"
proof unfold_locales
  fix d w d' w' rc
  assume "conn_inv d" "unat (pg_refcnt d) < 2 ^ 32 - 1" "opendb pq d w = (d', w', rc)"
  from opendb_inv [OF this(1) refcnt_limit [OF this(2)] this(3)]
  show "conn_inv d' \<and> unat (pg_refcnt d') = (if rc = 0 then unat (pg_refcnt d) + 1 else unat (pg_refcnt d))" by (simp split: if_splits)
next
  fix d :: "'b modpg_db" and w :: 'a
  assume "conn_inv d"
  from closedb_inv [OF this, of pq w] show "\<exists>d' w'. closedb pq d w = Some (d', w') \<and> conn_inv d' \<and> unat (pg_refcnt d') = unat (pg_refcnt d) - 1"
    by blast
qed

section \<open>Quoting\<close>

text \<open>How a server reads a literal with backslash escapes, from behind its opening quote; and one that only knows doubled quotes.\<close>

fun sql_literal :: "string \<Rightarrow> (string \<times> string) option" where
  "sql_literal [] = None"
| "sql_literal (c # cs) =
     (if c = CHR 0x5C then (case cs of [] \<Rightarrow> None | d # ds \<Rightarrow> map_option (apfst (Cons d)) (sql_literal ds))
      else if c = CHR 0x27 then Some ([], cs)
      else map_option (apfst (Cons c)) (sql_literal cs))"

fun sql_plain_literal :: "string \<Rightarrow> (string \<times> string) option" where
  "sql_plain_literal [] = None"
| "sql_plain_literal (c # cs) =
     (if c = CHR 0x27 then (case cs of d # ds \<Rightarrow> if d = CHR 0x27 then map_option (apfst (Cons d)) (sql_plain_literal ds) else Some ([], cs) | [] \<Rightarrow> Some ([], []))
      else map_option (apfst (Cons c)) (sql_plain_literal cs))"

lemma quoted_text_literal: "sql_literal (quoted_text v @ CHR 0x27 # rest) = Some (v, rest)"
  by (induction v) (simp_all add: quoted_text_def pg_special_def)

lemma quoted_text_length: "length (quoted_text x) = length x + length (filter pg_special x)"
  by (induction x) (auto simp: quoted_text_def)

lemma quoted_text_same: "\<forall>c \<in> set x. \<not> pg_special c \<Longrightarrow> quoted_text x = x"
  by (induction x) (auto simp: quoted_text_def)

lemma quoted_text_NUL: "CHR 0x00 \<notin> set x \<Longrightarrow> CHR 0x00 \<notin> set (quoted_text x)"
  by (auto simp: quoted_text_def split: if_splits)

lemma quote_copy_fits:
  assumes "fst (quoted_length x) \<le> length buf" "CHR 0x00 \<notin> set x"
  obtains buf' where "quote_copy buf x = Some buf'" "length buf' = length buf" "takeWhile (\<lambda>c. c \<noteq> CHR 0x00) buf' = quoted_text x"
proof
  let ?b = "quoted_text x @ CHR 0x00 # drop (length (quoted_text x) + 1) buf"
  have l: "length (quoted_text x) + 1 \<le> length buf" using assms(1) by (simp add: quoted_length_def quoted_text_length)
  then show "quote_copy buf x = Some ?b" by (simp add: quote_copy_def memcpy_at_def)
  from l show "length ?b = length buf" by simp
  have "\<And>c. c \<in> set (quoted_text x) \<Longrightarrow> c \<noteq> CHR 0x00" using quoted_text_NUL [OF assms(2)] by auto
  then show "takeWhile (\<lambda>c. c \<noteq> CHR 0x00) ?b = quoted_text x" by (subst takeWhile_append2) auto
qed

text \<open>The loop never leaves its buffer, and gives the pairs of names and quoted values.\<close>

lemma fill_env_loop_spec:
  assumes "\<forall>x. Some x \<in> set vs \<longrightarrow> CHR 0x00 \<notin> set x" "length ns = length vs"
  shows "fill_env_loop esc ns vs buf =
    Some (map2 (\<lambda>n v. map_option (\<lambda>x. format_env n (if esc then quoted_text x else x)) v) ns vs)"
  using assms(2,1)
proof (induction ns vs arbitrary: buf rule: list_induct2)
  case (Cons n ns v vs)
  show ?case
  proof (cases "\<exists>x. v = Some x \<and> esc \<and> snd (quoted_length x)")
    case True
    then obtain x where x: "v = Some x" "esc" "snd (quoted_length x)" by blast
    let ?len = "fst (quoted_length x)"
    let ?buf = "if buf = [] then replicate ?len (CHR 0x00) else if ?len > length buf then buf @ replicate (?len - length buf) (CHR 0x00) else buf"
    have "?len \<le> length ?buf" by simp
    moreover have "CHR 0x00 \<notin> set x" using Cons.prems x by auto
    ultimately obtain buf' where "quote_copy ?buf x = Some buf'" "takeWhile (\<lambda>c. c \<noteq> CHR 0x00) buf' = quoted_text x"
      by (rule quote_copy_fits)
    with Cons.IH [of buf'] Cons.prems x show ?thesis by (simp add: Let_def)
  next
    case False
    then have "esc \<longrightarrow> quoted_text x = x" if "v = Some x" for x
      using that by (auto simp: quoted_length_def intro: quoted_text_same)
    with Cons.IH [of buf] Cons.prems False show ?thesis by (cases v) auto
  qed
qed simp

section \<open>Answers\<close>

definition pg_row :: "('w, 'c, 'r) libpq \<Rightarrow> 'r \<Rightarrow> (string \<times> string) list" where
  "pg_row pq res = map (\<lambda>(j, n). (n, PQgetvalue pq res 0 j)) (enumerate 0 (PQfnames pq res))"

lemma create_query_env_spec:
  assumes "CHR 0x00 \<notin> set mp" "CHR 0x00 \<notin> set key" "\<forall>a. CHR 0x00 \<notin> set (ntoa a)"
  shows "create_query_env ntoa mp key ci =
    Some (bindings (query_vars ntoa mp key ci), bindings (map (apsnd quoted_text) (query_vars ntoa mp key ci)))"
proof -
  obtain src dst where a: "addr_strings ntoa ci = (src, dst)" by (cases "addr_strings ntoa ci")
  then have "\<forall>x. Some x \<in> set [Some mp, Some key, src, dst] \<longrightarrow> CHR 0x00 \<notin> set x"
    using assms by (auto simp: addr_strings_def split: sockaddr.splits)
  from fill_env_loop_spec [OF this, of "[''map'', ''key'', ''src'', ''dst'']"] a show ?thesis
    by (cases src; cases dst) (simp_all add: create_query_env_def fill_env_def env_strings_def query_vars_def Let_def del: fill_env_loop.simps)
qed

text \<open>The row of the result that the variables of a positive reply come from.\<close>

definition pg_result_row :: "('w, 'c, 'r) libpq \<Rightarrow> 'r option \<Rightarrow> (string \<times> string) list option option" where
  "pg_result_row pq r = (case r of None \<Rightarrow> None
     | Some res \<Rightarrow> if PQresult_ok pq res then Some (if PQntuples pq res > 0 then Some (pg_row pq res) else None) else None)"

text \<open>C7. A query to a database of the module \<open>postgres\<close> sends one statement to the server and one line to the client.  The statement is
  the template of the database with the quoted map, key and addresses in the place of the references, and within a literal
  with backslash escapes the server reads each quoted value back as the value, whatever the value is.  The line is the template for errors if
  the statement fails, the one for negative replies if the result has no rows, and the one for positive
  replies, in which also the columns of the first row can be referred to, otherwise.  A line of more than 510 bytes is not sent: formatting it reads behind the
  arguments, and what happens is undefined.\<close>

theorem modpg_query_correct:
  assumes "CHR 0x00 \<notin> set mp" "CHR 0x00 \<notin> set key" "\<forall>a. CHR 0x00 \<notin> set (ntoa a)"
    and "\<forall>r n. res = Some r \<and> n \<in> set (PQfnames pq r) \<longrightarrow> CHR ''='' \<notin> set n"
    and "template_ok q" "template_ok pos" "template_ok neg" "template_ok err"
    and "pg_template db = Some (concat (map render q))" "modpg_positive_reply def db = concat (map render pos)"
      "modpg_negative_reply def db = concat (map render neg)" "modpg_onerror_reply def db = concat (map render err)"
    and "PQexec pq (modpg_handle def db) (Some (filled q (map (apsnd quoted_text) (query_vars ntoa mp key ci)))) w = (res, w')"
    and "line = (case pg_result_row pq res of
          None \<Rightarrow> filled err (query_vars ntoa mp key ci)
        | Some None \<Rightarrow> filled neg (query_vars ntoa mp key ci)
        | Some (Some row) \<Rightarrow> filled pos (query_vars ntoa mp key ci @ row))"
  shows "modpg_query pq ntoa def db mp key ci w = (if length line < 511 then Some (w', 0, [line @ [NL]]) else None)
    \<and> (\<forall>(n, v) \<in> set (query_vars ntoa mp key ci). \<forall>rest. sql_literal (quoted_text v @ CHR 0x27 # rest) = Some (v, rest))"
proof -
  let ?vs = "query_vars ntoa mp key ci"
  have q: "do_query pq def db (bindings (map (apsnd quoted_text) ?vs)) w =
      Some (w', case res of None \<Rightarrow> None | Some r \<Rightarrow> if PQresult_ok pq r then Some r else None)"
    using expand_reply_template [OF assms(5), of "map (apsnd quoted_text) ?vs"] query_vars_names [of ntoa mp key ci] assms(9,13)
    by (auto simp: do_query_def filled_def split: option.splits)
  have "do_positive_reply pq def db (bindings ?vs) r =
      (if length (filled pos (?vs @ pg_row pq r)) < 511 then Some (0, [filled pos (?vs @ pg_row pq r) @ [NL]]) else None)" if "res = Some r" for r
  proof -
    have "\<forall>b \<in> set (?vs @ pg_row pq r). CHR ''='' \<notin> set (fst b)"
      using query_vars_names [of ntoa mp key ci] assms(4) that by (auto simp: pg_row_def in_set_enumerate_eq)
    from send_reply_template [OF assms(6) this] show ?thesis
      by (simp add: do_positive_reply_def assms(10) pg_row_def case_prod_unfold o_def)
  qed
  with q create_query_env_spec [OF assms(1-3)] send_reply_template [OF assms(7) query_vars_names] send_reply_template [OF assms(8) query_vars_names]
  show ?thesis
    unfolding assms(14) by (auto simp: modpg_query_def assms(11,12) pg_result_row_def quoted_text_literal split: option.splits)
qed


section \<open>Examples\<close>

text \<open>A server that knows one statement; the outside world is the list of the statements it was sent.\<close>

definition demo_pq :: "(string option list, unit, (string \<times> string) list list) libpq" where
  "demo_pq = \<lparr>PQconnectdb = \<lambda>_ w. (Some (), w), PQstatus_bad = \<lambda>_ _. False, PQfinish = \<lambda>_ w. w,
     PQexec = \<lambda>_ st w. (Some (if st = Some (''SELECT '' @ [CHR 0x27] @ ''a'' @ [CHR 0x5C, CHR 0x27, CHR 0x27]) then [[(''uid'', ''7'')]] else []), w @ [st]),
     PQresult_ok = \<lambda>_. True, PQntuples = length, PQfnames = \<lambda>r. map fst (r ! 0), PQgetvalue = \<lambda>r i j. snd (r ! i ! j)\<rparr>"

definition demo_pg :: "unit modpg_db" where
  "demo_pg = pg_zero\<lparr>pg_flags := 1, pg_refcnt := 1, pg_pgconn := Some (), pg_template := Some (''SELECT '' @ [CHR 0x27] @ ''${key}'' @ [CHR 0x27]),
     pg_positive_reply := Some ''OK ${uid}''\<rparr>"

theorem modpg_query_correct_witness:
  "modpg_query demo_pq (\<lambda>_. ''1.2.3.4'') pg_zero demo_pg ''m'' (''a'' @ [CHR 0x27]) \<lparr>ci_src = AF_OTHER 0, ci_srclen = 0, ci_dst = AF_OTHER 0, ci_dstlen = 0\<rparr> [] =
     Some ([Some (''SELECT '' @ [CHR 0x27] @ ''a'' @ [CHR 0x5C, CHR 0x27, CHR 0x27])], 0, [''OK 7'' @ [NL]])"
  using modpg_query_correct [of "''m''" "''a'' @ [CHR 0x27]" "\<lambda>_. ''1.2.3.4''" "Some [[(''uid'', ''7'')]]" demo_pq
      "[Lit (''SELECT '' @ [CHR 0x27]), Var ''key'', Lit [CHR 0x27]]" "[Lit ''OK '', Var ''uid'']" "[Lit ''NOTFOUND'']" "[Lit ''NOTFOUND'']"
      demo_pg pg_zero "\<lparr>ci_src = AF_OTHER 0, ci_srclen = 0, ci_dst = AF_OTHER 0, ci_dstlen = 0\<rparr>" "[]"
      "[Some (''SELECT '' @ [CHR 0x27] @ ''a'' @ [CHR 0x5C, CHR 0x27, CHR 0x27])]" "''OK 7''"]
  by (simp add: demo_pq_def demo_pg_def pg_zero_def template_ok_def modpg_positive_reply_def modpg_negative_reply_def modpg_onerror_reply_def
      reply_or_def modpg_handle_def filled_def lookup_value_def query_vars_def addr_strings_def quoted_text_def pg_special_def pg_result_row_def pg_row_def)

section \<open>Faults\<close>

text \<open>The length of the connection string leaves no room for the quotes: a value with a space is written past the end.\<close>

lemma conninfo_overflow: "create_conninfo [''password=a b''] = None"
  by (simp add: create_conninfo_def conninfo_arg_length_def conninfo_arg_def strrchr_eq_def)

text \<open>Between Internet addresses the variable \<open>src\<close> has the address of the server.\<close>

lemma src_shows_dst:
  "ci_src ci = AF_INET s \<Longrightarrow> ci_dst ci = AF_INET d \<Longrightarrow> lookup_value (query_vars ntoa mp key ci) ''src'' = ntoa d"
  by (simp add: query_vars_def addr_strings_def lookup_value_def)

text \<open>The query template of the module statement is never used: a database without one follows a null pointer.\<close>

lemma default_query_ignored: "pg_template db = None \<Longrightarrow> modpg_query pq ntoa def db mp key ci w = None"
  by (auto simp: modpg_query_def do_query_def Option.bind_eq_None_conv)

text \<open>On a server whose plain literals have no backslash escapes a quote in the key ends the literal.\<close>

lemma plain_literal_ends: "sql_plain_literal (quoted_text [CHR 0x27] @ CHR '' '' # rest) = Some ([CHR 0x5C], CHR '' '' # rest)"
  by (simp add: quoted_text_def pg_special_def)

end
