(* ===== verification/Smap_Mysql.thy ===== *)
theory Smap_Mysql
  imports Smap_Postgres
begin

text \<open>
  The module \<open>mysql\<close> (\<open>modules/mysql/mysql.c\<close>), in the manner of \<open>Smap_Postgres\<close>.  The client library is a record of functions over the state \<open>'w\<close> of
  the outside world, which includes what the structures \<open>MYSQL\<close> hold; \<open>'m\<close> are their addresses and \<open>'r\<close> the results.  The functions of the source that have the same names as those of the
  module \<open>postgres\<close> get the prefix \<open>my_\<close>.
\<close>

section \<open>Data\<close>

datatype my_option = MYSQL_READ_DEFAULT_FILE | MYSQL_READ_DEFAULT_GROUP

text \<open>\<open>mysql_real_connect\<close> takes host, user, password, database, port and socket.  Of a result the number of rows, the names of the fields, and the first row matter; a
  column may be null.\<close>

record ('w, 'm, 'r) libmysql =
  mysql_init :: "'m \<Rightarrow> 'w \<Rightarrow> 'w \<times> bool"
  mysql_options :: "'m \<Rightarrow> my_option \<Rightarrow> string \<Rightarrow> 'w \<Rightarrow> 'w"
  mysql_ssl_set :: "'m \<Rightarrow> string \<Rightarrow> 'w \<Rightarrow> 'w"
  mysql_real_connect ::
    "'m \<Rightarrow> string option \<times> string option \<times> string option \<times> string option \<times> int \<times> string option \<Rightarrow> 'w \<Rightarrow> 'w \<times> bool"
  mysql_close :: "'m \<Rightarrow> 'w \<Rightarrow> 'w"
  mysql_real_escape_string :: "'m \<Rightarrow> 'w \<Rightarrow> string \<Rightarrow> string"
  mysql_query :: "'m \<Rightarrow> string option \<Rightarrow> 'w \<Rightarrow> 'w \<times> bool"
  mysql_store_result :: "'m \<Rightarrow> 'w \<Rightarrow> 'w \<times> 'r option"
  mysql_next_result :: "'m \<Rightarrow> 'w \<Rightarrow> 'w \<times> int"
  mysql_num_rows :: "'r \<Rightarrow> nat"
  mysql_fetch_fields :: "'r \<Rightarrow> string list"
  mysql_fetch_row :: "'r \<Rightarrow> string option list"

record 'm mod_mysql_db =
  my_flags :: flagword
  my_refcnt :: "32 word"
  my_mysql :: 'm
  my_name :: "string option"
  my_config_file :: "string option"
  my_config_group :: "string option"
  my_ssl_ca :: "string option"
  my_host :: "string option"
  my_user :: "string option"
  my_password :: "string option"
  my_database :: "string option"
  my_port :: int
  my_socket :: "string option"
  my_template :: "string option"
  my_positive_reply :: "string option"
  my_negative_reply :: "string option"
  my_onerror_reply :: "string option"

definition my_zero :: "'m \<Rightarrow> 'm mod_mysql_db" where
  "my_zero m = \<lparr>my_flags = 0, my_refcnt = 0, my_mysql = m, my_name = None, my_config_file = None, my_config_group = None, my_ssl_ca = None,
     my_host = None, my_user = None, my_password = None, my_database = None, my_port = 0, my_socket = None, my_template = None,
     my_positive_reply = None, my_negative_reply = None, my_onerror_reply = None\<rparr>"

definition moddb_handle :: "'m mod_mysql_db \<Rightarrow> 'm mod_mysql_db \<Rightarrow> 'm" where
  "moddb_handle def db = (if hasfl (my_flags db) MDB_DEFDB then my_mysql def else my_mysql db)"

definition moddb_positive_reply :: "'m mod_mysql_db \<Rightarrow> 'm mod_mysql_db \<Rightarrow> string" where
  "moddb_positive_reply def db = reply_or (my_positive_reply db) (my_positive_reply def) ''OK''"

definition moddb_negative_reply :: "'m mod_mysql_db \<Rightarrow> 'm mod_mysql_db \<Rightarrow> string" where
  "moddb_negative_reply def db = reply_or (my_negative_reply db) (my_negative_reply def) ''NOTFOUND''"

definition moddb_onerror_reply :: "'m mod_mysql_db \<Rightarrow> 'm mod_mysql_db \<Rightarrow> string" where
  "moddb_onerror_reply def db = reply_or (my_onerror_reply db) (my_onerror_reply def) ''NOTFOUND''"

section \<open>Connections\<close>

definition my_opendb :: "('w, 'm, 'r) libmysql \<Rightarrow> 'm mod_mysql_db \<Rightarrow> 'w \<Rightarrow> 'm mod_mysql_db \<times> 'w \<times> int" where
  "my_opendb lib db w =
     (if hasfl (my_flags db) MDB_OPEN then (db\<lparr>my_refcnt := my_refcnt db + 1\<rparr>, w, 0)
      else case mysql_init lib (my_mysql db) w of (w, ok) \<Rightarrow>
        if \<not> ok then (db, w, 1)
        else
          let w = (case my_config_file db of Some f \<Rightarrow> mysql_options lib (my_mysql db) MYSQL_READ_DEFAULT_FILE f w | None \<Rightarrow> w);
              w = (case my_config_group db of Some g \<Rightarrow> mysql_options lib (my_mysql db) MYSQL_READ_DEFAULT_GROUP g w | None \<Rightarrow> w);
              w = (case my_ssl_ca db of Some c \<Rightarrow> mysql_ssl_set lib (my_mysql db) c w | None \<Rightarrow> w)
          in case mysql_real_connect lib (my_mysql db) (my_host db, my_user db, my_password db, my_database db, my_port db mod 2 ^ 32, my_socket db) w of (w, ok) \<Rightarrow>
            if \<not> ok then (db, mysql_close lib (my_mysql db) w, 1)
            else (db\<lparr>my_refcnt := my_refcnt db + 1, my_flags := setfl (my_flags db) MDB_OPEN\<rparr>, w, 0))"

definition my_closedb :: "('w, 'm, 'r) libmysql \<Rightarrow> 'm mod_mysql_db \<Rightarrow> 'w \<Rightarrow> 'm mod_mysql_db \<times> 'w" where
  "my_closedb lib db w =
     (if hasfl (my_flags db) MDB_OPEN then
        let db = db\<lparr>my_refcnt := my_refcnt db - 1\<rparr> in
        if my_refcnt db = 0 then (db\<lparr>my_flags := clrfl (my_flags db) MDB_OPEN\<rparr>, mysql_close lib (my_mysql db) w) else (db, w)
      else (db, w))"

definition dbdeclared :: "'m mod_mysql_db \<Rightarrow> bool" where
  "dbdeclared db \<longleftrightarrow> my_config_file db \<noteq> None \<or> my_config_group db \<noteq> None \<or> my_ssl_ca db \<noteq> None \<or> my_host db \<noteq> None
     \<or> my_user db \<noteq> None \<or> my_password db \<noteq> None \<or> my_database db \<noteq> None \<or> my_port db \<noteq> 0 \<or> my_socket db \<noteq> None"

definition my_freedb :: "'m mod_mysql_db \<Rightarrow> 'm mod_mysql_db" where
  "my_freedb db = (my_zero (my_mysql db))\<lparr>my_flags := my_flags db, my_refcnt := my_refcnt db, my_name := my_name db, my_port := my_port db\<rparr>"

section \<open>Options\<close>

definition my_str :: "string \<Rightarrow> (string \<Rightarrow> 'm mod_mysql_db \<Rightarrow> 'm mod_mysql_db) \<Rightarrow> 'm mod_mysql_db smap_option" where
  "my_str nm upd = \<lparr>opt_name = nm, opt_type = smap_opt_string, opt_data = StrData upd, opt_value = 0, opt_enumstr = [], opt_func = None\<rparr>"


definition my_options :: "'m mod_mysql_db smap_option list" where
  "my_options =
     [my_str ''config-file'' (\<lambda>s d. d\<lparr>my_config_file := Some s\<rparr>), my_str ''config-group'' (\<lambda>s d. d\<lparr>my_config_group := Some s\<rparr>),
      my_str ''ssl-ca'' (\<lambda>s d. d\<lparr>my_ssl_ca := Some s\<rparr>), my_str ''host'' (\<lambda>s d. d\<lparr>my_host := Some s\<rparr>),
      my_str ''user'' (\<lambda>s d. d\<lparr>my_user := Some s\<rparr>), my_str ''password'' (\<lambda>s d. d\<lparr>my_password := Some s\<rparr>),
      my_str ''database'' (\<lambda>s d. d\<lparr>my_database := Some s\<rparr>),
      \<lparr>opt_name = ''port'', opt_type = smap_opt_long, opt_data = LongData (\<lambda>n d. d\<lparr>my_port := n\<rparr>), opt_value = 0, opt_enumstr = [], opt_func = None\<rparr>,
      my_str ''socket'' (\<lambda>s d. d\<lparr>my_socket := Some s\<rparr>), my_str ''query'' (\<lambda>s d. d\<lparr>my_template := Some s\<rparr>),
      my_str ''positive-reply'' (\<lambda>s d. d\<lparr>my_positive_reply := Some s\<rparr>), my_str ''negative-reply'' (\<lambda>s d. d\<lparr>my_negative_reply := Some s\<rparr>),
      my_str ''onerror-reply'' (\<lambda>s d. d\<lparr>my_onerror_reply := Some s\<rparr>)]"

definition my_defaultdb :: "'m mod_mysql_db smap_option" where
  "my_defaultdb = \<lparr>opt_name = ''defaultdb'', opt_type = smap_opt_bitmask, opt_data = IntData (\<lambda>f d. d\<lparr>my_flags := f (my_flags d)\<rparr>), opt_value = 2,
     opt_enumstr = [], opt_func = None\<rparr>"

definition mod_init :: "'m mod_mysql_db \<Rightarrow> string list \<Rightarrow> ('m mod_mysql_db \<times> int) option" where
  "mod_init def argv = do {
     (def, argv, i, rc) \<leftarrow> smap_parseopt my_options argv 0 False def;
     if rc \<noteq> 0 then Some (def, rc) else Some (def\<lparr>my_flags := 0\<rparr>, 0) }"

text \<open>\<open>m\<close> is the address in the structure that is allocated.\<close>

definition mod_init_db :: "'m \<Rightarrow> string \<Rightarrow> string list \<Rightarrow> 'm mod_mysql_db option option" where
  "mod_init_db m dbid argv = do {
     (db, argv, i, rc) \<leftarrow> smap_parseopt (my_defaultdb # my_options) argv 0 False (my_zero m);
     if rc \<noteq> 0 then Some None
     else
       let db = db\<lparr>my_name := Some dbid\<rparr> in
       Some (Some (if \<not> dbdeclared db then db\<lparr>my_flags := setfl (my_flags db) MDB_DEFDB\<rparr> else db)) }"

definition mod_free_db :: "'m mod_mysql_db \<Rightarrow> 'm mod_mysql_db \<times> int" where
  "mod_free_db db = (my_freedb db, 0)"

definition mod_open ::
  "('w, 'm, 'r) libmysql \<Rightarrow> 'm mod_mysql_db \<Rightarrow> 'm mod_mysql_db \<Rightarrow> 'w \<Rightarrow> 'm mod_mysql_db \<times> 'm mod_mysql_db \<times> 'w \<times> int" where
  "mod_open lib def db w =
     (if hasfl (my_flags db) MDB_DEFDB then (case my_opendb lib def w of (def, w, rc) \<Rightarrow> (def, db, w, rc))
      else (case my_opendb lib db w of (db, w, rc) \<Rightarrow> (def, db, w, rc)))"

definition mod_close ::
  "('w, 'm, 'r) libmysql \<Rightarrow> 'm mod_mysql_db \<Rightarrow> 'm mod_mysql_db \<Rightarrow> 'w \<Rightarrow> 'm mod_mysql_db \<times> 'm mod_mysql_db \<times> 'w \<times> int" where
  "mod_close lib def db w =
     (case (if hasfl (my_flags db) MDB_DEFDB then my_closedb lib def w else (def, w)) of (def, w) \<Rightarrow>
      case my_closedb lib db w of (db, w) \<Rightarrow> (def, db, w, 0))"

section \<open>Queries\<close>

text \<open>The loop over the variables; \<open>esc\<close> is the function of the library for the connection, if values are to be escaped.  It writes into the buffer, which has room for
  twice the value.\<close>

fun my_fill_env_loop :: "(string \<Rightarrow> string) option \<Rightarrow> string list \<Rightarrow> string option list \<Rightarrow> string \<Rightarrow> string option list option" where
  "my_fill_env_loop esc (n # ns) (v # vs) buf =
     (case v of
        None \<Rightarrow> map_option (Cons None) (my_fill_env_loop esc ns vs buf)
      | Some x \<Rightarrow>
          (case esc of
             None \<Rightarrow> map_option (Cons (Some (format_env n x))) (my_fill_env_loop esc ns vs buf)
           | Some f \<Rightarrow> do {
               let olen = 2 * length x + 1;
               let buf = (if buf = [] then replicate olen (CHR 0x00) else if olen > length buf then buf @ replicate (olen - length buf) (CHR 0x00) else buf);
               buf \<leftarrow> memcpy_at buf 0 (f x @ [CHR 0x00]);
               map_option (Cons (Some (format_env n (takeWhile (\<lambda>c. c \<noteq> CHR 0x00) buf)))) (my_fill_env_loop esc ns vs buf) }))"
| "my_fill_env_loop esc _ _ buf = Some []"

definition my_fill_env :: "(string \<Rightarrow> string) option \<Rightarrow> string list \<Rightarrow> string option list \<Rightarrow> string option list option" where
  "my_fill_env esc vartab intab = my_fill_env_loop esc vartab intab []"

definition my_create_query_env ::
  "('w, 'm, 'r) libmysql \<Rightarrow> (32 word \<Rightarrow> string) \<Rightarrow> 'm mod_mysql_db \<Rightarrow> 'm mod_mysql_db \<Rightarrow> string \<Rightarrow> string \<Rightarrow> smap_conninfo \<Rightarrow> 'w \<Rightarrow>
   (string list \<times> string list) option" where
  "my_create_query_env lib ntoa def db mp key ci w = (case addr_strings ntoa ci of (src, dst) \<Rightarrow> do {
     let vartab = [''map'', ''key'', ''src'', ''dst''];
     let intab = [Some mp, Some key, src, dst];
     env \<leftarrow> my_fill_env None vartab intab;
     qenv \<leftarrow> my_fill_env (Some (mysql_real_escape_string lib (moddb_handle def db) w)) vartab intab;
     Some (env_strings env, env_strings qenv) })"

text \<open>\<open>Inl\<close> is the failure.\<close>

definition my_do_query ::
  "('w, 'm, 'r) libmysql \<Rightarrow> 'm mod_mysql_db \<Rightarrow> 'm mod_mysql_db \<Rightarrow> string list \<Rightarrow> 'w \<Rightarrow> ('w \<times> (unit + 'r option)) option" where
  "my_do_query lib def db env w = do {
     template \<leftarrow> my_template db;
     r \<leftarrow> expand_reply env template;
     Some (case r of
         Inl e \<Rightarrow> (w, Inl ())
       | Inr text \<Rightarrow>
           (case mysql_query lib (moddb_handle def db) text w of (w, failed) \<Rightarrow>
              if failed then (w, Inl ())
              else (case mysql_store_result lib (moddb_handle def db) w of (w, res) \<Rightarrow> (w, Inr res)))) }"

definition my_do_positive_reply ::
  "('w, 'm, 'r) libmysql \<Rightarrow> 'm mod_mysql_db \<Rightarrow> 'm mod_mysql_db \<Rightarrow> string list \<Rightarrow> 'r \<Rightarrow> (int \<times> string list) option" where
  "my_do_positive_reply lib def db env res = do {
     row \<leftarrow> those (take (length (mysql_fetch_fields lib res)) (mysql_fetch_row lib res));
     send_reply (moddb_positive_reply def db) (env @ map2 format_env (mysql_fetch_fields lib res) row) }"

text \<open>The rows of a further result are read from memory and released.\<close>

partial_function (option) flush_result :: "('w, 'm, 'r) libmysql \<Rightarrow> 'm \<Rightarrow> 'w \<Rightarrow> 'w option" where
  "flush_result lib mysql w =
     (case mysql_next_result lib mysql w of (w, rc) \<Rightarrow>
        if rc \<noteq> 0 then Some w
        else (case mysql_store_result lib mysql w of (w, res) \<Rightarrow>
               if res = None then Some w else flush_result lib mysql w))"

text \<open>The number of rows is assigned to an unsigned variable of 32 bits.\<close>

definition mod_query ::
  "('w, 'm, 'r) libmysql \<Rightarrow> (32 word \<Rightarrow> string) \<Rightarrow> 'm mod_mysql_db \<Rightarrow> 'm mod_mysql_db \<Rightarrow> string \<Rightarrow> string \<Rightarrow> smap_conninfo \<Rightarrow> 'w \<Rightarrow>
   ('w \<times> int \<times> string list) option" where
  "mod_query lib ntoa def db mp key ci w = do {
     (env, qenv) \<leftarrow> my_create_query_env lib ntoa def db mp key ci w;
     (w, res) \<leftarrow> my_do_query lib def db qenv w;
     (case res of
        Inl _ \<Rightarrow> do { (rc, out) \<leftarrow> send_reply (moddb_onerror_reply def db) env; Some (w, rc, out) }
      | Inr (Some res) \<Rightarrow> do {
          (rc, out) \<leftarrow> (if mysql_num_rows lib res mod 2 ^ 32 > 0 then my_do_positive_reply lib def db env res
                        else send_reply (moddb_negative_reply def db) env);
          w \<leftarrow> flush_result lib (moddb_handle def db) w;
          Some (w, rc, out) }
      | Inr None \<Rightarrow> do { (rc, out) \<leftarrow> send_reply (moddb_negative_reply def db) env; Some (w, rc, out) }) }"

section \<open>Counting connections\<close>

definition my_conn_inv :: "'m mod_mysql_db \<Rightarrow> bool" where
  "my_conn_inv db \<longleftrightarrow> (hasfl (my_flags db) MDB_OPEN \<longleftrightarrow> my_refcnt db \<noteq> 0)"

lemma my_opendb_inv:
  assumes "my_conn_inv db" "my_refcnt db \<noteq> -1" "my_opendb lib db w = (db', w', rc)"
  shows "my_conn_inv db' \<and> unat (my_refcnt db') = (if rc = 0 then unat (my_refcnt db) + 1 else unat (my_refcnt db))"
  using assms succ_not_zero [OF assms(2)]
  by (auto simp: my_opendb_def my_conn_inv_def hasfl_setfl_open Let_def split: if_splits prod.splits)

lemma my_closedb_inv:
  assumes "my_conn_inv db"
  shows "\<exists>db' w'. my_closedb lib db w = (db', w') \<and> my_conn_inv db' \<and> unat (my_refcnt db') = unat (my_refcnt db) - 1"
proof (cases "hasfl (my_flags db) MDB_OPEN")
  case True
  with assms have "my_refcnt db \<noteq> 0" by (simp add: my_conn_inv_def)
  then have "unat (my_refcnt db - 1) = unat (my_refcnt db) - 1" by (metis unat_minus_one)
  with True show ?thesis by (auto simp: my_closedb_def my_conn_inv_def hasfl_clrfl_open Let_def)
qed (use assms in \<open>auto simp: my_closedb_def my_conn_inv_def\<close>)

interpretation myc: counted_connection "my_opendb lib" "\<lambda>db w. Some (my_closedb lib db w)" my_conn_inv "\<lambda>db. unat (my_refcnt db)" "2 ^ 32 - 1"
proof unfold_locales
  fix d w d' w' rc
  assume "my_conn_inv d" "unat (my_refcnt d) < 2 ^ 32 - 1" "my_opendb lib d w = (d', w', rc)"
  from my_opendb_inv [OF this(1) refcnt_limit [OF this(2)] this(3)]
  show "my_conn_inv d' \<and> unat (my_refcnt d') = (if rc = 0 then unat (my_refcnt d) + 1 else unat (my_refcnt d))" .
next
  fix d :: "'b mod_mysql_db" and w :: 'a
  assume "my_conn_inv d"
  from my_closedb_inv [OF this, of lib w]
  show "\<exists>d' w'. Some (my_closedb lib d w) = Some (d', w') \<and> my_conn_inv d' \<and> unat (my_refcnt d') = unat (my_refcnt d) - 1" by blast
qed

section \<open>Answers\<close>

lemma my_fill_env_loop_spec:
  assumes "\<forall>x. Some x \<in> set vs \<longrightarrow> CHR 0x00 \<notin> set x" "length ns = length vs"
    and "\<forall>f. esc = Some f \<longrightarrow> (\<forall>x. CHR 0x00 \<notin> set x \<longrightarrow> CHR 0x00 \<notin> set (f x) \<and> length (f x) \<le> 2 * length x)"
  shows "my_fill_env_loop esc ns vs buf =
    Some (map2 (\<lambda>n v. map_option (\<lambda>x. format_env n (case esc of Some f \<Rightarrow> f x | None \<Rightarrow> x)) v) ns vs)"
  using assms(2,1)
proof (induction ns vs arbitrary: buf rule: list_induct2)
  case (Cons n ns v vs)
  show ?case
  proof (cases "\<exists>x f. v = Some x \<and> esc = Some f")
    case True
    then obtain x f where x: "v = Some x" "esc = Some f" by blast
    let ?olen = "2 * length x + 1"
    let ?buf = "if buf = [] then replicate ?olen (CHR 0x00) else if ?olen > length buf then buf @ replicate (?olen - length buf) (CHR 0x00) else buf"
    have fx: "CHR 0x00 \<notin> set (f x)" "length (f x) \<le> 2 * length x" using Cons.prems assms(3) x by auto
    define b where "b = ?buf"
    have l: "?olen \<le> length b" by (simp add: b_def)
    define buf' where "buf' = (f x @ [CHR 0x00]) @ drop (length (f x) + 1) b"
    have m: "memcpy_at b 0 (f x @ [CHR 0x00]) = Some buf'" using l fx(2) by (simp add: memcpy_at_def buf'_def)
    have "my_fill_env_loop esc (n # ns) (v # vs) buf = do { buf \<leftarrow> memcpy_at b 0 (f x @ [CHR 0x00]);
        map_option (Cons (Some (format_env n (takeWhile (\<lambda>c. c \<noteq> CHR 0x00) buf)))) (my_fill_env_loop esc ns vs buf) }"
      unfolding b_def by (simp only: my_fill_env_loop.simps x option.case Let_def)
    moreover
    have "takeWhile (\<lambda>c. c \<noteq> CHR 0x00) buf' = f x"
    proof -
      have "\<And>c. c \<in> set (f x) \<Longrightarrow> c \<noteq> CHR 0x00" using fx(1) by auto
      then show ?thesis unfolding buf'_def by (simp add: takeWhile_append2)
    qed
    ultimately show ?thesis using m Cons.IH [of buf'] Cons.prems x by (simp del: my_fill_env_loop.simps)
  next
    case False
    with Cons.IH [of buf] Cons.prems show ?thesis by (cases v; cases esc) auto
  qed
qed simp

text \<open>What the modules rely on in the function that escapes values: the result has at most twice the length and no null byte.\<close>

definition escapes :: "(string \<Rightarrow> string) \<Rightarrow> bool" where
  "escapes f \<longleftrightarrow> (\<forall>x. CHR 0x00 \<notin> set x \<longrightarrow> CHR 0x00 \<notin> set (f x) \<and> length (f x) \<le> 2 * length x)"

lemma my_create_query_env_spec:
  assumes "CHR 0x00 \<notin> set mp" "CHR 0x00 \<notin> set key" "\<forall>a. CHR 0x00 \<notin> set (ntoa a)"
    and "escapes (mysql_real_escape_string lib (moddb_handle def db) w)"
  shows "my_create_query_env lib ntoa def db mp key ci w =
    Some (bindings (query_vars ntoa mp key ci),
      bindings (map (apsnd (mysql_real_escape_string lib (moddb_handle def db) w)) (query_vars ntoa mp key ci)))"
proof -
  obtain src dst where a: "addr_strings ntoa ci = (src, dst)" by (cases "addr_strings ntoa ci")
  then have n: "\<forall>x. Some x \<in> set [Some mp, Some key, src, dst] \<longrightarrow> CHR 0x00 \<notin> set x"
    using assms by (auto simp: addr_strings_def split: sockaddr.splits)
  note e = my_fill_env_loop_spec [OF n, of "[''map'', ''key'', ''src'', ''dst'']" "Some (mysql_real_escape_string lib (moddb_handle def db) w)"]
    my_fill_env_loop_spec [OF n, of "[''map'', ''key'', ''src'', ''dst'']" None]
  show ?thesis
    using e a assms(4) by (cases src; cases dst)
      (simp_all add: my_create_query_env_def my_fill_env_def env_strings_def query_vars_def Let_def escapes_def del: my_fill_env_loop.simps)
qed

text \<open>A server has finitely many results for a statement: \<open>left\<close> counts them.\<close>

definition finitely_many :: "('w, 'm, 'r) libmysql \<Rightarrow> 'm \<Rightarrow> ('w \<Rightarrow> nat) \<Rightarrow> bool" where
  "finitely_many lib m left \<longleftrightarrow> (\<forall>w w'. mysql_next_result lib m w = (w', 0) \<longrightarrow> left w' < left w)
     \<and> (\<forall>w w' r. mysql_store_result lib m w = (w', r) \<longrightarrow> left w' \<le> left w)"

text \<open>The further results have been fetched: either there is none after \<open>w'\<close>, or the last one could not be stored.\<close>

inductive drained :: "('w, 'm, 'r) libmysql \<Rightarrow> 'm \<Rightarrow> 'w \<Rightarrow> 'w \<Rightarrow> bool" for lib m where
  drained_end: "mysql_next_result lib m w = (w', rc) \<Longrightarrow> rc \<noteq> 0 \<Longrightarrow> drained lib m w w'"
| drained_missing: "mysql_next_result lib m w = (w1, 0) \<Longrightarrow> mysql_store_result lib m w1 = (w', None) \<Longrightarrow> drained lib m w w'"
| drained_more: "mysql_next_result lib m w = (w1, 0) \<Longrightarrow> mysql_store_result lib m w1 = (w2, Some r) \<Longrightarrow> drained lib m w2 w' \<Longrightarrow> drained lib m w w'"

lemma flush_result_drained:
  assumes "finitely_many lib m left"
  shows "\<exists>w'. flush_result lib m w = Some w' \<and> drained lib m w w'"
proof (induction "left w" arbitrary: w rule: less_induct)
  case less
  obtain w1 rc where n: "mysql_next_result lib m w = (w1, rc)" by (cases "mysql_next_result lib m w")
  obtain w2 r where s: "mysql_store_result lib m w1 = (w2, r)" by (cases "mysql_store_result lib m w1")
  consider "rc \<noteq> 0" | "rc = 0" "r = None" | x where "rc = 0" "r = Some x" by (cases r) auto
  then show ?case
  proof cases
    case 3
    with n s assms have "left w2 < left w" by (auto simp: finitely_many_def dest!: spec intro: le_less_trans)
    from less [OF this] n s 3 show ?thesis by (subst flush_result.simps) (auto intro: drained_more)
  qed (use n s in \<open>subst flush_result.simps, auto intro: drained_end drained_missing\<close>)+
qed

definition my_row :: "('w, 'm, 'r) libmysql \<Rightarrow> 'r \<Rightarrow> (string \<times> string) list" where
  "my_row lib res = zip (mysql_fetch_fields lib res) (map the (mysql_fetch_row lib res))"

lemma those_not_null: "None \<notin> set xs \<Longrightarrow> those xs = Some (map the xs)"
proof (induction xs)
  case (Cons a xs)
  then show ?case by (cases a) auto
qed simp


section \<open>Example\<close>

text \<open>A server with one table; the outside world is the list of the statements it was sent, and quotes are escaped with backslashes.\<close>

definition demo_my :: "(string option list, unit, (string \<times> string) list list) libmysql" where
  "demo_my = \<lparr>mysql_init = \<lambda>_ w. (w, True), mysql_options = \<lambda>_ _ _ w. w, mysql_ssl_set = \<lambda>_ _ w. w, mysql_real_connect = \<lambda>_ _ w. (w, True),
     mysql_close = \<lambda>_ w. w, mysql_real_escape_string = \<lambda>_ _. quoted_text, mysql_query = \<lambda>_ st w. (w @ [st], False),
     mysql_store_result = \<lambda>_ w. (w, Some [[(''alias'', ''bob'')]]), mysql_next_result = \<lambda>_ w. (w, -1), mysql_num_rows = length,
     mysql_fetch_fields = \<lambda>r. map fst (r ! 0), mysql_fetch_row = \<lambda>r. map (Some o snd) (r ! 0)\<rparr>"

definition demo_mydb :: "unit mod_mysql_db" where
  "demo_mydb = (my_zero ())\<lparr>my_template := Some ''SELECT ${key}'', my_positive_reply := Some ''OK ${alias}''\<rparr>"


section \<open>Faults\<close>

text \<open>A result of \<open>2 ^ 32\<close> rows counts as empty.\<close>

lemma many_rows_count_as_none:
  assumes "mysql_num_rows lib r = 2 ^ 32" "my_create_query_env lib ntoa def db mp key ci w = Some (env, qenv)"
    "my_do_query lib def db qenv w = Some (w1, Inr (Some r))"
  shows "mod_query lib ntoa def db mp key ci w =
    do { (rc, out) \<leftarrow> send_reply (moddb_negative_reply def db) env; w \<leftarrow> flush_result lib (moddb_handle def db) w1; Some (w, rc, out) }"
  using assms by (simp add: mod_query_def)

text \<open>A null column in the first row is followed as a pointer.\<close>

lemma those_null: "None \<in> set xs \<Longrightarrow> those xs = None"
  by (induction xs) (auto split: option.splits)

lemma null_column_crashes:
  "None \<in> set (take (length (mysql_fetch_fields lib res)) (mysql_fetch_row lib res)) \<Longrightarrow> my_do_positive_reply lib def db env res = None"
  by (simp add: my_do_positive_reply_def those_null)

lemma my_default_query_ignored: "my_template db = None \<Longrightarrow> mod_query lib ntoa def db mp key ci w = None"
  by (auto simp: mod_query_def my_do_query_def Option.bind_eq_None_conv)

end
