(* ===== verification/Smap_Ldap.thy ===== *)
theory Smap_Ldap
  imports Smap_Sql Smap_Parseopt Smap_Cfg
begin

text \<open>
  The module \<open>ldap\<close> (\<open>modules/ldap/ldap.c\<close>).  The client library is a record of functions over the state \<open>'w\<close> of the outside world; \<open>'l\<close> are its session handles,
  \<open>'r\<close> chains of result messages and \<open>'m\<close> entries.  A result \<open>None\<close> is an access to memory that is not there, released, or not initialised.  Messages for the log are left out.
\<close>

section \<open>Data\<close>

datatype tls_state = tls_no | tls_yes | tls_only

record ldap_conf =
  lc_tls :: tls_state
  lc_config_file :: "string option"
  lc_uri :: "string option"
  lc_base :: "string option"
  lc_protocol :: int
  lc_cacert :: "string option"
  lc_filter :: "string option"
  lc_attrs :: "string list option"
  lc_binddn :: "string option"
  lc_bindpw :: "string option"
  lc_bindpwfile :: "string option"
  lc_positive_reply :: "string option"
  lc_negative_reply :: "string option"
  lc_onerror_reply :: "string option"
  lc_joinstr :: "string option"

record 'l ldap_db =
  ldb_conf :: ldap_conf
  ldb_ldap :: "'l option"

definition conf_zero :: ldap_conf where
  "conf_zero = \<lparr>lc_tls = tls_no, lc_config_file = None, lc_uri = None, lc_base = None, lc_protocol = 0, lc_cacert = None, lc_filter = None,
     lc_attrs = None, lc_binddn = None, lc_bindpw = None, lc_bindpwfile = None, lc_positive_reply = None, lc_negative_reply = None,
     lc_onerror_reply = None, lc_joinstr = None\<rparr>"

text \<open>A part of a parsed list of URLs.\<close>

record lud =
  lud_scheme :: string
  lud_host :: "string option"
  lud_dn :: "string option"

datatype ldap_opt = LDAP_OPT_PROTOCOL_VERSION int | LDAP_OPT_X_TLS_CACERTFILE string

text \<open>What the module uses of the library.  \<open>None\<close> is the failure, or the null pointer: \<open>ldap_get_dn\<close> is also called with null pointers.
  The results are waited for without a limit of time.  An attribute that is there has a first value and others.\<close>

record ('w, 'l, 'r, 'm) libldap =
  ldap_url_parse :: "string \<Rightarrow> lud list option"
  ldap_dn2domain :: "string \<Rightarrow> string option"
  ldap_domain2hostlist :: "string \<Rightarrow> 'w \<Rightarrow> 'w \<times> string option"
  ldap_url_desc2str :: "lud \<Rightarrow> string option"
  ldap_initialize :: "string option \<Rightarrow> 'w \<Rightarrow> 'w \<times> 'l option"
  ldap_set_option :: "'l \<Rightarrow> ldap_opt \<Rightarrow> 'w \<Rightarrow> 'w \<times> bool"
  ldap_start_tls_s :: "'l \<Rightarrow> 'w \<Rightarrow> 'w \<times> bool"
  ldap_unbind_ext :: "'l \<Rightarrow> 'w \<Rightarrow> 'w"
  ldap_sasl_bind :: "'l \<Rightarrow> string option \<Rightarrow> string option \<Rightarrow> 'w \<Rightarrow> 'w \<times> int option"
  ldap_result :: "'l \<Rightarrow> int \<Rightarrow> 'w \<Rightarrow> 'w \<times> 'r option"
  ldap_parse_result :: "'l \<Rightarrow> 'r \<Rightarrow> int option"
  ldap_search_ext :: "'l \<Rightarrow> string option \<Rightarrow> string option \<Rightarrow> string list option \<Rightarrow> 'w \<Rightarrow> 'w \<times> int option"
  ldap_first_entry :: "'l \<Rightarrow> 'r \<Rightarrow> 'm option"
  ldap_get_dn :: "'l option \<Rightarrow> 'm option \<Rightarrow> string option"
  ldap_get_values_len :: "'l \<Rightarrow> 'm option \<Rightarrow> string \<Rightarrow> (string \<times> string list) option"

section \<open>Configurations\<close>

text \<open>The array is allocated with a size that is not initialised, and the pointer to it is never stored.\<close>

definition argz_copy :: "string list option \<Rightarrow> string list option option" where
  "argz_copy a = (case a of None \<Rightarrow> Some None | Some _ \<Rightarrow> None)"

definition ldap_conf_cpy :: "ldap_conf \<Rightarrow> ldap_conf option" where
  "ldap_conf_cpy src = do { attrs \<leftarrow> argz_copy (lc_attrs src); Some (src\<lparr>lc_attrs := attrs\<rparr>) }"

definition ldap_opt_string :: "string \<Rightarrow> (string \<Rightarrow> ldap_conf \<Rightarrow> ldap_conf) \<Rightarrow> ldap_conf smap_option" where
  "ldap_opt_string nm upd = \<lparr>opt_name = nm, opt_type = smap_opt_string, opt_data = StrData upd, opt_value = 0, opt_enumstr = [], opt_func = None\<rparr>"

definition ldap_init_option :: "ldap_conf smap_option list" where
  "ldap_init_option =
     [(ldap_opt_string ''config-file'' (\<lambda>s c. c\<lparr>lc_config_file := Some s\<rparr>))\<lparr>opt_type := smap_opt_null\<rparr>,
      ldap_opt_string ''tls_cacert'' (\<lambda>s c. c\<lparr>lc_cacert := Some s\<rparr>), ldap_opt_string ''tls-cacert'' (\<lambda>s c. c\<lparr>lc_cacert := Some s\<rparr>),
      ldap_opt_string ''uri'' (\<lambda>s c. c\<lparr>lc_uri := Some s\<rparr>), ldap_opt_string ''base'' (\<lambda>s c. c\<lparr>lc_base := Some s\<rparr>),
      ldap_opt_string ''filter'' (\<lambda>s c. c\<lparr>lc_filter := Some s\<rparr>), ldap_opt_string ''binddn'' (\<lambda>s c. c\<lparr>lc_binddn := Some s\<rparr>),
      ldap_opt_string ''bindpw'' (\<lambda>s c. c\<lparr>lc_bindpw := Some s\<rparr>), ldap_opt_string ''bindpwfile'' (\<lambda>s c. c\<lparr>lc_bindpwfile := Some s\<rparr>),
      \<lparr>opt_name = ''ldap_version'', opt_type = smap_opt_long, opt_data = LongData (\<lambda>n c. c\<lparr>lc_protocol := n\<rparr>), opt_value = 0, opt_enumstr = [], opt_func = None\<rparr>,
      ldap_opt_string ''positive-reply'' (\<lambda>s c. c\<lparr>lc_positive_reply := Some s\<rparr>), ldap_opt_string ''negative-reply'' (\<lambda>s c. c\<lparr>lc_negative_reply := Some s\<rparr>),
      ldap_opt_string ''onerror-reply'' (\<lambda>s c. c\<lparr>lc_onerror_reply := Some s\<rparr>), ldap_opt_string ''join-delim'' (\<lambda>s c. c\<lparr>lc_joinstr := Some s\<rparr>)]"

text \<open>With the flag \<open>MKOPT_RESET\<close> only the name of the configuration file is taken, otherwise all others.\<close>

definition make_options :: "bool \<Rightarrow> ldap_conf smap_option list" where
  "make_options reset =
     (if reset then (hd ldap_init_option)\<lparr>opt_type := smap_opt_string\<rparr> # map (\<lambda>p. p\<lparr>opt_type := smap_opt_null\<rparr>) (tl ldap_init_option)
      else ldap_init_option)"

text \<open>The file; \<open>fgetc\<close> at the end sets the indicator.\<close>

fun skip_rest :: "string \<Rightarrow> string \<times> bool" where
  "skip_rest [] = ([], True)"
| "skip_rest (c # cs) = (if c = NL then (cs, False) else skip_rest cs)"

definition skip_line :: "cfg_in \<Rightarrow> cfg_in" where
  "skip_line f = (case skip_rest (ci_text f) of (r, eof) \<Rightarrow> f\<lparr>ci_text := r, ci_feof := eof\<rparr>)"

text \<open>The contents of a line without the white space around it; \<open>Inl\<close> if the line does not end in the buffer.\<close>

definition conf_line :: "string \<Rightarrow> bool \<Rightarrow> unit + string" where
  "conf_line buf feof =
     (let p = dropWhile isspace (cstr buf) in
      if p \<noteq> [] \<and> hd p = CHR ''#'' then Inr []
      else if p \<noteq> [] \<and> last p \<noteq> NL \<and> \<not> feof then Inl ()
      else Inr (rev (dropWhile isspace (rev (if p \<noteq> [] \<and> last p = NL then butlast p else p)))))"

lemma skip_line_length: "length (ci_text (skip_line f)) \<le> length (ci_text f)"
proof -
  have "length (fst (skip_rest s)) \<le> length s" for s by (induction s) auto
  from this [of "ci_text f"] show ?thesis by (auto simp: skip_line_def split: prod.splits)
qed

lemma fgets_shorter: "fgets 1024 f = (f', Some buf) \<Longrightarrow> length (ci_text f') < length (ci_text f)"
  using fgets_piece [of 1024 f f' buf] by auto

function parse_conf_loop :: "ldap_conf smap_option list \<Rightarrow> cfg_in \<Rightarrow> int \<Rightarrow> ldap_conf \<Rightarrow> (ldap_conf \<times> int) option" where
  "parse_conf_loop opt fp rc s =
     (case fgets 1024 fp of
        (fp', None) \<Rightarrow> Some (s, rc)
      | (fp', Some buf) \<Rightarrow>
          (case conf_line buf (ci_feof fp') of
             Inl _ \<Rightarrow> parse_conf_loop opt (skip_line fp') rc s
           | Inr p \<Rightarrow>
               if p = [] then parse_conf_loop opt fp' rc s
               else do {
                 (s, res) \<leftarrow> smap_parseline opt p (SMAP_IGNORECASE OR SMAP_DELIM_WS) s;
                 parse_conf_loop opt fp' (if res = SMAP_PARSE_INVAL then 1 else rc) s }))"
  by pat_completeness auto

termination
  by (relation "measure (\<lambda>(opt, fp, rc, s). length (ci_text fp))")
    (auto dest!: sym [of _ "fgets 1024 _"] fgets_shorter intro: le_less_trans [OF skip_line_length])

declare parse_conf_loop.simps [simp del]

text \<open>The files; \<open>-1\<close> if there is none with the name.\<close>

definition parse_ldap_conf ::
  "(string \<Rightarrow> string option) \<Rightarrow> string \<Rightarrow> ldap_conf smap_option list \<Rightarrow> ldap_conf \<Rightarrow> (ldap_conf \<times> int) option" where
  "parse_ldap_conf fs name opt s =
     (case fs name of
        None \<Rightarrow> Some (s, -1)
      | Some t \<Rightarrow> parse_conf_loop opt \<lparr>ci_text = t, ci_feof = False, ci_line = 0, ci_cur_line = 0\<rparr> 0 s)"

definition readconf ::
  "(string \<Rightarrow> string option) \<Rightarrow> ldap_conf smap_option list \<Rightarrow> string \<Rightarrow> ldap_conf \<Rightarrow> (ldap_conf \<times> int) option" where
  "readconf fs opt val s = parse_ldap_conf fs val opt s"

definition mod_ldap_init :: "ldap_conf \<Rightarrow> string list \<Rightarrow> (ldap_conf \<times> int) option" where
  "mod_ldap_init dfl argv = do {
     (dfl, argv, i, rc) \<leftarrow> smap_parseopt (make_options False) argv 0 False dfl;
     Some (dfl, rc) }"

section \<open>Databases\<close>

text \<open>The loop that removes \<open>map\<close> and \<open>key\<close> from the names; \<open>arr\<close> ends with the null pointer, and what is behind it is not initialised.
  A name behind the first one that is removed has been copied already: when it is released, the copy dangles.\<close>

function eliminate_loop :: "string option list \<Rightarrow> nat \<Rightarrow> nat \<Rightarrow> string list option" where
  "eliminate_loop arr i j =
     (if i < length arr then
        (case arr ! i of
           None \<Rightarrow> Some (map the (takeWhile (\<lambda>e. e \<noteq> None) (arr[i := None])))
         | Some nm \<Rightarrow>
             if nm = ''map'' \<or> nm = ''key'' then
               (if j = i \<and> j + 1 < length arr then eliminate_loop (arr[i := arr ! (j + 1)]) (i + 1) (j + 2) else None)
             else (if j < length arr then eliminate_loop (arr[i := arr ! j]) (i + 1) (j + 1) else None))
      else None)"
  by pat_completeness auto
termination by (relation "measure (\<lambda>(arr, i, j). length arr - i)") auto

declare eliminate_loop.simps [simp del]

definition eliminate_names :: "string list \<Rightarrow> string list option" where
  "eliminate_names names = eliminate_loop (map Some names @ [None]) 0 0"

text \<open>The names in the templates; the first call starts a new array.\<close>

definition reply_attrs :: "ldap_conf \<Rightarrow> string list option option" where
  "reply_attrs c = do {
     a \<leftarrow> (case lc_positive_reply c of None \<Rightarrow> Some (lc_attrs c) | Some t \<Rightarrow> map_option Some (wordsplit_varnames t []));
     a \<leftarrow> (case lc_negative_reply c of None \<Rightarrow> Some a | Some t \<Rightarrow> map_option Some (wordsplit_varnames t (case a of Some x \<Rightarrow> x | None \<Rightarrow> [])));
     (case lc_onerror_reply c of None \<Rightarrow> Some a | Some t \<Rightarrow> map_option Some (wordsplit_varnames t (case a of Some x \<Rightarrow> x | None \<Rightarrow> []))) }"

definition dfl_config_file :: string where
  "dfl_config_file = ''/etc/ldap.conf''"

text \<open>After an error in the file the configuration and the options are released, and then used.\<close>

definition mod_ldap_init_db ::
  "(string \<Rightarrow> string option) \<Rightarrow> ldap_conf \<Rightarrow> string \<Rightarrow> string list \<Rightarrow> 'l ldap_db option option" where
  "mod_ldap_init_db fs dfl dbid argv = do {
     conf \<leftarrow> ldap_conf_cpy dfl;
     (conf, argv, _, rc) \<leftarrow> smap_parseopt (make_options True) argv 0 False conf;
     if rc \<noteq> 0 then Some None
     else do {
       let conf = (if lc_config_file conf = None \<and> fs dfl_config_file \<noteq> None then conf\<lparr>lc_config_file := Some dfl_config_file\<rparr> else conf);
       (conf, rc) \<leftarrow> (case lc_config_file conf of None \<Rightarrow> Some (conf, 0) | Some f \<Rightarrow> parse_ldap_conf fs f (make_options False) conf);
       if rc \<noteq> 0 then None
       else do {
         (conf, argv, _, rc) \<leftarrow> smap_parseopt (make_options False) argv 0 False conf;
         if rc \<noteq> 0 then Some None
         else if lc_filter conf = None then Some None
         else do {
           attrs \<leftarrow> reply_attrs conf;
           attrs \<leftarrow> attrs;
           attrs \<leftarrow> eliminate_names attrs;
           Some (Some \<lparr>ldb_conf = conf\<lparr>lc_attrs := Some attrs\<rparr>, ldb_ldap = None\<rparr>) } } } }"

text \<open>The structure is released.\<close>

definition mod_ldap_free_db :: "'l ldap_db \<Rightarrow> 'l ldap_db option \<times> int" where
  "mod_ldap_free_db db = (None, 0)"

section \<open>Connections\<close>

fun argcv_concat :: "string list \<Rightarrow> string option" where
  "argcv_concat [] = None"
| "argcv_concat [w] = Some w"
| "argcv_concat (w # ws) = map_option (\<lambda>r. w @ '' '' @ r) (argcv_concat ws)"

text \<open>The hosts that the name service has for a distinguished name.  If that fails, a structure that is not initialised is released.\<close>

definition dnssrv_urls :: "('w, 'l, 'r, 'm) libldap \<Rightarrow> lud \<Rightarrow> string \<Rightarrow> 'w \<Rightarrow> ('w \<times> string list option) option" where
  "dnssrv_urls lib lud dn w = do {
     domain \<leftarrow> ldap_dn2domain lib dn;
     (case ldap_domain2hostlist lib domain w of (w, hostlist) \<Rightarrow> do {
        hostlist \<leftarrow> hostlist;
        r \<leftarrow> wordsplit (env_ws []) hostlist WRDSF_DEFFLAGS;
        Some (w, case r of Inl e \<Rightarrow> None | Inr ws \<Rightarrow> Some (map (\<lambda>h. lud_scheme lud @ ''//'' @ h) (ws_result ws))) }) }"

fun uri_loop :: "('w, 'l, 'r, 'm) libldap \<Rightarrow> lud list \<Rightarrow> string list option \<Rightarrow> 'w \<Rightarrow> ('w \<times> bool \<times> string list option) option" where
  "uri_loop lib [] urls w = Some (w, True, urls)"
| "uri_loop lib (lud # luds) urls w =
     (let old = (case urls of Some u \<Rightarrow> u | None \<Rightarrow> []) in
      case (lud_dn lud, lud_host lud) of
        (Some (c # dn), h) \<Rightarrow>
          if h = None \<or> h = Some [] then do {
            (w, more) \<leftarrow> dnssrv_urls lib lud (c # dn) w;
            uri_loop lib luds (case more of Some m \<Rightarrow> Some (old @ m) | None \<Rightarrow> urls) w }
          else (case ldap_url_desc2str lib lud of
                  None \<Rightarrow> Some (w, False, Some old)
                | Some u \<Rightarrow> uri_loop lib luds (Some (old @ [u])) w)
      | _ \<Rightarrow> (case ldap_url_desc2str lib lud of
                None \<Rightarrow> Some (w, False, Some old)
              | Some u \<Rightarrow> uri_loop lib luds (Some (old @ [u])) w))"

definition parse_ldap_uri :: "('w, 'l, 'r, 'm) libldap \<Rightarrow> string \<Rightarrow> 'w \<Rightarrow> ('w \<times> string option) option" where
  "parse_ldap_uri lib uri w =
     (case ldap_url_parse lib uri of
        None \<Rightarrow> Some (w, None)
      | Some luds \<Rightarrow> do {
          (w, finished, urls) \<leftarrow> uri_loop lib luds None w;
          if \<not> finished then Some (w, None)
          else (case urls of None \<Rightarrow> Some (w, None) | Some u \<Rightarrow> map_option (\<lambda>s. (w, Some s)) (argcv_concat u)) })"

text \<open>What is done with a new handle.\<close>

definition ldap_setup :: "('w, 'l, 'r, 'm) libldap \<Rightarrow> ldap_conf \<Rightarrow> 'l \<Rightarrow> 'w \<Rightarrow> 'w \<times> 'l option" where
  "ldap_setup lib conf ld w =
     (let w = (if lc_protocol conf \<noteq> 0 then fst (ldap_set_option lib ld (LDAP_OPT_PROTOCOL_VERSION (signed_take_bit 31 (lc_protocol conf))) w) else w)
      in if lc_tls conf = tls_no then (w, Some ld)
         else (case ldap_start_tls_s lib ld w of (w, ok) \<Rightarrow>
           if \<not> ok then (if lc_tls conf = tls_only then (ldap_unbind_ext lib ld w, None) else (w, Some ld))
           else (case lc_cacert conf of
               None \<Rightarrow> (w, Some ld)
             | Some ca \<Rightarrow>
                 (case ldap_set_option lib ld (LDAP_OPT_X_TLS_CACERTFILE ca) w of (w, ok) \<Rightarrow>
                    if \<not> ok \<and> lc_tls conf = tls_only then (ldap_unbind_ext lib ld w, None) else (w, Some ld)))))"

definition ldap_connect :: "('w, 'l, 'r, 'm) libldap \<Rightarrow> ldap_conf \<Rightarrow> 'w \<Rightarrow> ('w \<times> 'l option) option" where
  "ldap_connect lib conf w = do {
     (w, failed, ldapuri) \<leftarrow> (case lc_uri conf of
         None \<Rightarrow> Some (w, False, None)
       | Some u \<Rightarrow> map_option (\<lambda>(w, r). (w, r = None, r)) (parse_ldap_uri lib u w));
     if failed then Some (w, None)
     else (case ldap_initialize lib ldapuri w of
         (w, None) \<Rightarrow> Some (w, None)
       | (w, Some ld) \<Rightarrow> Some (ldap_setup lib conf ld w)) }"

text \<open>What calls of \<open>read\<close> return; the end of the list is a call that does not return.\<close>

datatype read_res = ReadData string | ReadRetry | ReadError

fun full_read :: "read_res list \<Rightarrow> nat \<Rightarrow> string option option" where
  "full_read rs 0 = Some (Some [])"
| "full_read [] (Suc n) = None"
| "full_read (ReadRetry # rs) (Suc n) = full_read rs (Suc n)"
| "full_read (ReadError # rs) (Suc n) = Some None"
| "full_read (ReadData d # rs) (Suc n) =
     (let d = take (Suc n) d in
      if d = [] then Some None else map_option (map_option ((@) d)) (full_read rs (Suc n - length d)))"

text \<open>The variable for the name of the file is not initialised: \<open>file\<close> is the string it happens to point to, if any.  A file has
  a size and the results of reading it.\<close>

definition get_passwd ::
  "(string \<Rightarrow> (nat \<times> read_res list) option) \<Rightarrow> string option \<Rightarrow> ldap_conf \<Rightarrow> (unit + string option) option" where
  "get_passwd pwfs file conf =
     (case lc_bindpwfile conf of
        None \<Rightarrow> Some (Inr (lc_bindpw conf))
      | Some _ \<Rightarrow> do {
          file \<leftarrow> file;
          (case pwfs file of
             None \<Rightarrow> Some (Inl ())
           | Some (st_size, rs) \<Rightarrow> do {
               mem \<leftarrow> full_read rs st_size;
               Some (case mem of None \<Rightarrow> Inl () | Some m \<Rightarrow> Inr (Some (takeWhile (\<lambda>c. c \<noteq> NL) (cstr m)))) }) })"

definition ldap_bind ::
  "('w, 'l, 'r, 'm) libldap \<Rightarrow> (string \<Rightarrow> (nat \<times> read_res list) option) \<Rightarrow> string option \<Rightarrow> 'l \<Rightarrow> ldap_conf \<Rightarrow> 'w \<Rightarrow> ('w \<times> bool) option" where
  "ldap_bind lib pwfs file ld conf w = do {
     pw \<leftarrow> get_passwd pwfs file conf;
     (case pw of
        Inl _ \<Rightarrow> Some (w, True)
      | Inr pw \<Rightarrow>
          (case ldap_sasl_bind lib ld (lc_binddn conf) pw w of
             (w, None) \<Rightarrow> Some (w, True)
           | (w, Some msgid) \<Rightarrow>
               (case ldap_result lib ld msgid w of
                  (w, None) \<Rightarrow> Some (w, True)
                | (w, Some r) \<Rightarrow>
                    (case ldap_parse_result lib ld r of None \<Rightarrow> Some (w, True) | Some err \<Rightarrow> Some (w, err \<noteq> 0))))) }"

definition mod_ldap_open ::
  "('w, 'l, 'r, 'm) libldap \<Rightarrow> (string \<Rightarrow> (nat \<times> read_res list) option) \<Rightarrow> string option \<Rightarrow> 'l ldap_db \<Rightarrow> 'w \<Rightarrow> ('l ldap_db \<times> 'w \<times> int) option" where
  "mod_ldap_open lib pwfs file db w = do {
     (w, ldap) \<leftarrow> ldap_connect lib (ldb_conf db) w;
     (case ldap of
        None \<Rightarrow> Some (db, w, 1)
      | Some ld \<Rightarrow> do {
          (w, failed) \<leftarrow> ldap_bind lib pwfs file ld (ldb_conf db) w;
          Some (if failed then (db, w, 1) else (db\<lparr>ldb_ldap := Some ld\<rparr>, w, 0)) }) }"

definition mod_ldap_close :: "('w, 'l, 'r, 'm) libldap \<Rightarrow> 'l ldap_db \<Rightarrow> 'w \<Rightarrow> ('l ldap_db \<times> 'w \<times> int) option" where
  "mod_ldap_close lib db w = do { ld \<leftarrow> ldb_ldap db; Some (db\<lparr>ldb_ldap := None\<rparr>, ldap_unbind_ext lib ld w, 0) }"

section \<open>Queries\<close>

record ('l, 'm) getvar_data =
  gd_ld :: "'l option"
  gd_env :: "string list"
  gd_msg :: "'m option"
  gd_joinstr :: "string option"

fun env_find :: "string list \<Rightarrow> string \<Rightarrow> string option" where
  "env_find (n # v # env) var = (if n = var then Some v else env_find env var)"
| "env_find env var = None"

text \<open>The values of an attribute: the first one, or all of them with a delimiter between.\<close>

definition join_values :: "string option \<Rightarrow> string \<times> string list \<Rightarrow> string" where
  "join_values joinstr vs =
     (case joinstr of None \<Rightarrow> fst vs | Some d \<Rightarrow> fst vs @ concat (map (\<lambda>v. d @ v) (snd vs)))"

definition getvar :: "('w, 'l, 'r, 'm) libldap \<Rightarrow> ('l, 'm) getvar_data \<Rightarrow> string \<Rightarrow> string option" where
  "getvar lib gd var =
     (if var = ''dn'' then ldap_get_dn lib (gd_ld gd) (gd_msg gd)
      else case env_find (gd_env gd) var of
          Some v \<Rightarrow> Some v
        | None \<Rightarrow>
            (case gd_ld gd of
               None \<Rightarrow> None
             | Some ld \<Rightarrow>
                 (case ldap_get_values_len lib ld (gd_msg gd) var of
                    None \<Rightarrow> Some []
                  | Some vs \<Rightarrow> Some (cstr (join_values (gd_joinstr gd) vs)))))"

text \<open>The flags are \<open>NOSPLIT\<close>, \<open>NOCMD\<close>, \<open>GETVAR\<close>, \<open>CLOSURE\<close>, \<open>ERROR\<close> and \<open>SHOWERR\<close>; the last two arguments may be null pointers.\<close>

definition ldap_send_reply ::
  "('w, 'l, 'r, 'm) libldap \<Rightarrow> string \<Rightarrow> string list \<Rightarrow> 'm option \<Rightarrow> 'l ldap_db option \<Rightarrow> (int \<times> string list) option" where
  "ldap_send_reply lib template env msg db = do {
     let gd = \<lparr>gd_ld = Option.bind db ldb_ldap, gd_env = env, gd_msg = msg, gd_joinstr = Option.bind db (lc_joinstr o ldb_conf)\<rparr>;
     r \<leftarrow> wordsplit ((env_ws env)\<lparr>ws_getvar := getvar lib gd\<rparr>) template 0x2290014;
     (case r of
        Inl e \<Rightarrow> Some (1, [])
      | Inr ws \<Rightarrow> (case ws_wordv ws of Some w # _ \<Rightarrow> map_option (Pair 0) (printf_writes (w @ [NL])) | _ \<Rightarrow> None)) }"

definition ldap_positive_reply :: "'l ldap_db \<Rightarrow> string" where
  "ldap_positive_reply db = (case lc_positive_reply (ldb_conf db) of Some t \<Rightarrow> t | None \<Rightarrow> ''OK'')"

definition ldap_negative_reply :: "'l ldap_db \<Rightarrow> string" where
  "ldap_negative_reply db = (case lc_negative_reply (ldb_conf db) of Some t \<Rightarrow> t | None \<Rightarrow> ''NOTFOUND'')"

definition ldap_onerror_reply :: "'l ldap_db \<Rightarrow> string" where
  "ldap_onerror_reply db = (case lc_onerror_reply (ldb_conf db) of Some t \<Rightarrow> t | None \<Rightarrow> ''NOTFOUND'')"

text \<open>The flags for the filter are \<open>NOSPLIT\<close>, \<open>NOCMD\<close>, \<open>ENV\<close>, \<open>ENV_KV\<close>, \<open>ERROR\<close> and \<open>SHOWERR\<close>.\<close>

definition mod_ldap_query ::
  "('w, 'l, 'r, 'm) libldap \<Rightarrow> 'l ldap_db \<Rightarrow> string \<Rightarrow> string \<Rightarrow> 'w \<Rightarrow> ('w \<times> int \<times> string list) option" where
  "mod_ldap_query lib db mp key w = do {
     let inenv = [''map'', mp, ''key'', key];
     flt \<leftarrow> lc_filter (ldb_conf db);
     r \<leftarrow> wordsplit (env_ws inenv) flt 0x4250014;
     (case r of
        Inl e \<Rightarrow> Some (w, 1, [])
      | Inr ws \<Rightarrow> do {
          let flt = (case ws_wordv ws of x # _ \<Rightarrow> x | [] \<Rightarrow> None);
          ld \<leftarrow> ldb_ldap db;
          (case ldap_search_ext lib ld (lc_base (ldb_conf db)) flt (lc_attrs (ldb_conf db)) w of
             (w, None) \<Rightarrow> map_option (Pair w) (ldap_send_reply lib (ldap_onerror_reply db) inenv None None)
           | (w, Some msgid) \<Rightarrow>
               (case ldap_result lib ld msgid w of
                  (w, None) \<Rightarrow> map_option (Pair w) (ldap_send_reply lib (ldap_onerror_reply db) inenv None None)
                | (w, Some res) \<Rightarrow>
                    (case ldap_first_entry lib ld res of
                       None \<Rightarrow> map_option (Pair w) (ldap_send_reply lib (ldap_negative_reply db) inenv None None)
                     | Some msg \<Rightarrow> map_option (Pair w) (ldap_send_reply lib (ldap_positive_reply db) inenv (Some msg) (Some db))))) }) }"

section \<open>The names of the attributes\<close>

definition reserved_name :: "string \<Rightarrow> bool" where
  "reserved_name nm \<longleftrightarrow> nm = ''map'' \<or> nm = ''key''"

lemma names_before_null [simp]: "map the (takeWhile (\<lambda>e. \<exists>y. e = Some y) (map Some xs @ None # ys)) = xs"
  by (induction xs) simp_all

lemma eliminate_shifted:
  "eliminate_loop (map Some pre @ hd (map Some rest @ [None]) # map Some rest @ [None]) (Suc (length pre)) (Suc (Suc (length pre))) =
     (if list_ex reserved_name rest then None else Some (pre @ rest))"
proof (induction rest arbitrary: pre)
  case Nil
  show ?case by (subst eliminate_loop.simps) (simp add: nth_append list_update_append)
next
  case (Cons r rs)
  let ?arr = "map Some pre @ Some r # Some r # map Some rs @ [None]"
  have n: "?arr ! Suc (length pre) = Some r" "?arr ! Suc (Suc (length pre)) = hd (map Some rs @ [None])"
    by (cases rs; simp add: nth_append)+
  have u: "?arr[Suc (length pre) := x] = map Some (pre @ [r]) @ x # map Some rs @ [None]" for x by (simp add: list_update_append)
  show ?case
    using Cons.IH [of "pre @ [r]"] n u by (subst eliminate_loop.simps) (simp add: reserved_name_def [symmetric])
qed

lemma eliminate_loop_spec:
  "list_all (\<lambda>n. \<not> reserved_name n) pre \<Longrightarrow>
   eliminate_loop (map Some (pre @ ns) @ [None]) (length pre) (length pre) =
     (if length (filter reserved_name ns) \<le> 1 then Some (pre @ filter (\<lambda>n. \<not> reserved_name n) ns) else None)"
proof (induction ns arbitrary: pre)
  case Nil
  show ?case by (subst eliminate_loop.simps) (simp add: nth_append list_update_append)
next
  case (Cons n ns)
  let ?arr = "map Some (pre @ n # ns) @ [None]"
  have a: "?arr ! length pre = Some n" "?arr ! Suc (length pre) = hd (map Some ns @ [None])"
    by (cases ns; simp add: nth_append)+
  show ?case
  proof (cases "reserved_name n")
    case True
    have u: "?arr[length pre := x] = map Some pre @ x # map Some ns @ [None]" for x by (simp add: list_update_append)
    have "list_ex reserved_name ns \<longleftrightarrow> filter reserved_name ns \<noteq> []" by (simp add: list_ex_iff filter_empty_conv)
    moreover have "\<not> list_ex reserved_name ns \<Longrightarrow> filter (\<lambda>n. \<not> reserved_name n) ns = ns" by (simp add: list_ex_iff)
    ultimately show ?thesis
      using True a u eliminate_shifted [of pre ns] by (subst eliminate_loop.simps) (auto simp: reserved_name_def [symmetric])
  next
    case False
    moreover have "?arr[length pre := Some n] = ?arr" by (simp add: list_update_append)
    ultimately show ?thesis
      using Cons.IH [of "pre @ [n]"] Cons.prems a by (subst eliminate_loop.simps) (simp add: reserved_name_def [symmetric])
  qed
qed

lemma eliminate_names_spec:
  "eliminate_names ns = (if length (filter reserved_name ns) \<le> 1 then Some (filter (\<lambda>n. \<not> reserved_name n) ns) else None)"
  using eliminate_loop_spec [of "[]" ns] by (simp add: eliminate_names_def)

text \<open>The variables of a template.\<close>

definition piece_vars :: "piece list \<Rightarrow> string list" where
  "piece_vars ps = concat (map (\<lambda>p. case p of Var v \<Rightarrow> [v] | Lit _ \<Rightarrow> []) ps)"

lemma varnames_plain:
  assumes "\<forall>c \<in> set s. c \<noteq> CHR ''$'' \<and> c \<noteq> BSL"
  shows "varnames_count (s @ t) = varnames_count t" "varnames_loop (s @ t) = varnames_loop t"
  using assms
proof (induction s)
  case (Cons c s)
  { case 1 with Cons show ?case by simp next
    case 2 with Cons show ?case by (subst varnames_loop.simps) simp }
qed simp_all

lemma varnames_pieces:
  assumes "\<forall>p \<in> set ps. piece_ok p \<and> (\<forall>v. p = Var v \<longrightarrow> (\<forall>c \<in> set v. c \<noteq> CHR ''$'' \<and> c \<noteq> BSL))"
  shows "varnames_count (concat (map render ps)) = Some (length (piece_vars ps)) \<and> varnames_loop (concat (map render ps)) = piece_vars ps"
  using assms
proof (induction ps)
  case Nil
  then show ?case by (simp add: piece_vars_def varnames_loop.simps)
next
  case (Cons p ps)
  show ?case
  proof (cases p)
    case (Lit s)
    with Cons varnames_plain [of s] show ?thesis by (simp add: piece_vars_def)
  next
    case (Var v)
    let ?t = "concat (map render ps)"
    have v: "v \<noteq> []" "\<forall>c \<in> set v. c \<noteq> CHR '':'' \<and> c \<noteq> CHR ''}''" using Cons.prems Var by auto
    have tw: "takeWhile (\<lambda>c. c \<noteq> CHR '':'' \<and> c \<noteq> CHR ''}'') (v @ CHR ''}'' # ?t) = v" using v(2) by (subst takeWhile_append2) auto
    have c: "varnames_count (v @ CHR ''}'' # ?t) = varnames_count ?t"
      using varnames_plain(1) [of "v @ [CHR ''}'']" ?t] Cons.prems Var by auto
    have l: "varnames_loop (CHR ''}'' # ?t) = varnames_loop ?t" by (subst varnames_loop.simps) simp
    have "varnames_loop (''${'' @ v @ ''}'' @ ?t) = v # varnames_loop ?t"
      using v(1) l by (subst varnames_loop.simps) (simp add: Let_def tw)
    with Cons Var c show ?thesis by (simp add: piece_vars_def)
  qed
qed

section \<open>Queries\<close>

lemma getvar_value: "env_value (template_ws 0x2290014 ws t) v = (case ws_getvar ws v of Some x \<Rightarrow> x | None \<Rightarrow> [])"
  by (simp add: env_value_def var_value_def wordsplit_find_env_def template_ws_def flag_simps)

lemma env_kv_value:
  "env_value (template_ws 0x4250014 (env_ws [''map'', mp, ''key'', key]) t) v = lookup_value [(''map'', mp), (''key'', key)] v"
  by (simp add: env_value_def var_value_def wordsplit_find_env_def template_ws_def env_ws_def flag_simps lookup_value_def)

definition query_data :: "'m option \<Rightarrow> 'l ldap_db option \<Rightarrow> string list \<Rightarrow> ('l, 'm) getvar_data" where
  "query_data msg db env = \<lparr>gd_ld = Option.bind db ldb_ldap, gd_env = env, gd_msg = msg, gd_joinstr = Option.bind db (lc_joinstr o ldb_conf)\<rparr>"

lemma ldap_send_reply_template:
  assumes "template_ok ps" "\<forall>v. Var v \<in> set ps \<longrightarrow> getvar lib (query_data msg db env) v = Some (val v)"
    and "line = concat (map (expand_piece val) ps)"
  shows "ldap_send_reply lib (concat (map render ps)) env msg db = (if length line < 511 then Some (0, [line @ [NL]]) else None)"
proof -
  let ?t = "concat (map render ps)" and ?ws = "(env_ws env)\<lparr>ws_getvar := getvar lib (query_data msg db env)\<rparr>"
  have "expand_piece (env_value (template_ws 0x2290014 ?ws ?t)) p = expand_piece val p" if "p \<in> set ps" for p
    using assms(2) that by (cases p) (simp_all add: getvar_value)
  then have "map (expand_piece (env_value (template_ws 0x2290014 ?ws ?t))) ps = map (expand_piece val) ps" by simp
  moreover have "\<exists>ws' rest. wordsplit ?ws ?t 0x2290014 = Some (Inr ws')
      \<and> ws_wordv ws' = Some (concat (map (expand_piece (env_value (template_ws 0x2290014 ?ws ?t))) ps)) # rest"
    using assms by (intro wordsplit_pieces) (auto simp: template_flags_def)
  ultimately show ?thesis
    using assms(3) by (auto simp: ldap_send_reply_def query_data_def [symmetric] printf_line Let_def simp del: map_eq_conv)
qed

text \<open>The value of a variable in a positive reply: the name of the entry, the variables of the query, or the values of an attribute.\<close>

definition entry_value :: "('w, 'l, 'r, 'm) libldap \<Rightarrow> ldap_conf \<Rightarrow> 'l \<Rightarrow> 'm \<Rightarrow> string \<Rightarrow> string \<Rightarrow> string \<Rightarrow> string" where
  "entry_value lib conf ld m mp key v =
     (if v = ''dn'' then (case ldap_get_dn lib (Some ld) (Some m) of Some d \<Rightarrow> d | None \<Rightarrow> [])
      else if v = ''map'' then mp
      else if v = ''key'' then key
      else (case ldap_get_values_len lib ld (Some m) v of None \<Rightarrow> [] | Some vs \<Rightarrow> cstr (join_values (lc_joinstr conf) vs)))"

definition query_value :: "string \<Rightarrow> string \<Rightarrow> string \<Rightarrow> string" where
  "query_value mp key = lookup_value [(''map'', mp), (''key'', key)]"

lemma positive_getvar:
  assumes "ldb_ldap db = Some ld" "ldap_get_dn lib (Some ld) (Some m) \<noteq> None"
  shows "getvar lib (query_data (Some m) (Some db) [''map'', mp, ''key'', key]) v = Some (entry_value lib (ldb_conf db) ld m mp key v)"
  using assms by (auto simp: getvar_def query_data_def entry_value_def split: option.splits)

lemma other_getvar:
  assumes "v = ''map'' \<or> v = ''key''"
  shows "getvar lib (query_data None None [''map'', mp, ''key'', key]) v = Some (query_value mp key v)"
  using assms by (auto simp: getvar_def query_data_def query_value_def lookup_value_def)

definition query_only :: "piece list \<Rightarrow> bool" where
  "query_only ps \<longleftrightarrow> list_all reserved_name (piece_vars ps)"

lemma query_only_reply:
  assumes "template_ok ps" "query_only ps" "line = concat (map (expand_piece (query_value mp key)) ps)"
  shows "ldap_send_reply lib (concat (map render ps)) [''map'', mp, ''key'', key] None None = (if length line < 511 then Some (0, [line @ [NL]]) else None)"
proof (rule ldap_send_reply_template [OF assms(1) _ assms(3)])
  have "reserved_name v" if "Var v \<in> set ps" for v
    using that assms(2) by (force simp: query_only_def piece_vars_def list_all_iff)
  then show "\<forall>v. Var v \<in> set ps \<longrightarrow> getvar lib (query_data None None [''map'', mp, ''key'', key]) v = Some (query_value mp key v)"
    using other_getvar unfolding reserved_name_def by blast
qed

lemma query_filter:
  assumes "template_ok flt"
  shows "\<exists>ws' rest. wordsplit (env_ws [''map'', mp, ''key'', key]) (concat (map render flt)) 0x4250014 = Some (Inr ws')
    \<and> ws_wordv ws' = Some (concat (map (expand_piece (query_value mp key)) flt)) # rest"
proof -
  let ?t = "concat (map render flt)"
  have "env_value (template_ws 0x4250014 (env_ws [''map'', mp, ''key'', key]) ?t) = query_value mp key"
    by (rule ext) (simp add: env_kv_value query_value_def)
  with wordsplit_pieces [OF _ assms, of "0x4250014" "env_ws [''map'', mp, ''key'', key]"] show ?thesis
    by (simp add: template_flags_def)
qed

text \<open>C9. A query to a database of the module \<open>ldap\<close> sends one search below the base, for the attributes of the database, with the template of the filter in which map and key
  have been put, and is answered by one line: the template for errors if the search or its result fails, the one for negative replies if there is no
  entry, and otherwise the one for positive replies with the values of the first entry, all values of an attribute being joined with the delimiter of
  the database if it has one.  Only \<open>map\<close>, \<open>key\<close> and \<open>dn\<close> are variables with a meaning of their own; every other name, also \<open>db\<close>, is that of an attribute.  A line of more than 510 bytes is not sent: formatting it reads behind
  the arguments.\<close>

theorem mod_ldap_query_correct:
  assumes "template_ok flt" "template_ok pos" "template_ok neg" "template_ok err" "query_only neg" "query_only err"
    and "lc_filter (ldb_conf db) = Some (concat (map render flt))" "ldap_positive_reply db = concat (map render pos)"
      "ldap_negative_reply db = concat (map render neg)" "ldap_onerror_reply db = concat (map render err)"
    and "ldb_ldap db = Some ld" "\<forall>m. ldap_get_dn lib (Some ld) (Some m) \<noteq> None"
    and "ldap_search_ext lib ld (lc_base (ldb_conf db)) (Some (concat (map (expand_piece (query_value mp key)) flt))) (lc_attrs (ldb_conf db)) w = (w1, msgid)"
    and "\<forall>i. msgid = Some i \<longrightarrow> ldap_result lib ld i w1 = (w2, res)"
    and "line = (case (msgid, res) of
        (Some _, Some r) \<Rightarrow>
          (case ldap_first_entry lib ld r of
               Some m \<Rightarrow> concat (map (expand_piece (entry_value lib (ldb_conf db) ld m mp key)) pos)
             | None \<Rightarrow> concat (map (expand_piece (query_value mp key)) neg))
      | _ \<Rightarrow> concat (map (expand_piece (query_value mp key)) err))"
  shows "mod_ldap_query lib db mp key w =
     (if length line < 511 then Some (if msgid = None then w1 else w2, 0, [line @ [NL]]) else None)"
proof -
  have pos: "ldap_send_reply lib (ldap_positive_reply db) [''map'', mp, ''key'', key] (Some m) (Some db) =
      (let line = concat (map (expand_piece (entry_value lib (ldb_conf db) ld m mp key)) pos) in if length line < 511 then Some (0, [line @ [NL]]) else None)" for m
    unfolding assms(8) Let_def by (rule ldap_send_reply_template [OF assms(2) _ refl]) (simp add: positive_getvar [OF assms(11)] assms(12))
  note rest = query_only_reply [OF assms(3,5) refl, of lib mp key] query_only_reply [OF assms(4,6) refl, of lib mp key]
  from query_filter [OF assms(1), of mp key] obtain ws' xs where
    f: "wordsplit (env_ws [''map'', mp, ''key'', key]) (concat (map render flt)) 0x4250014 = Some (Inr ws')"
    "ws_wordv ws' = Some (concat (map (expand_piece (query_value mp key)) flt)) # xs" by blast
  show ?thesis
    unfolding assms(15) using pos rest f assms(7,9-11,13,14)
    by (cases msgid; cases res) (simp_all add: mod_ldap_query_def Let_def split: option.split)
qed

section \<open>Example\<close>

text \<open>A directory with one entry; the outside world is the list of the filters it was sent.\<close>

definition demo_ldap :: "(string option list, unit, bool, unit) libldap" where
  "demo_ldap = \<lparr>ldap_url_parse = \<lambda>u. Some [\<lparr>lud_scheme = ''ldap'', lud_host = Some u, lud_dn = None\<rparr>], ldap_dn2domain = \<lambda>_. None, ldap_domain2hostlist = \<lambda>_ w. (w, None),
     ldap_url_desc2str = \<lambda>l. map_option (\<lambda>h. lud_scheme l @ ''://'' @ h) (lud_host l), ldap_initialize = \<lambda>_ w. (w, Some ()), ldap_set_option = \<lambda>_ _ w. (w, True),
     ldap_start_tls_s = \<lambda>_ w. (w, True), ldap_unbind_ext = \<lambda>_ w. w, ldap_sasl_bind = \<lambda>_ _ _ w. (w, Some 1), ldap_result = \<lambda>_ _ w. (w, Some (last w = Some ''(uid=joe)'')),
     ldap_parse_result = \<lambda>_ _. Some 0, ldap_search_ext = \<lambda>_ _ f _ w. (w @ [f], Some 2), ldap_first_entry = \<lambda>_ r. if r then Some () else None,
     ldap_get_dn = \<lambda>_ _. Some ''uid=joe'', ldap_get_values_len = \<lambda>_ _ a. if a = ''mail'' then Some (''joe@a'', [''joe@b'']) else None\<rparr>"

definition demo_ldb :: "unit ldap_db" where
  "demo_ldb = \<lparr>ldb_conf = conf_zero\<lparr>lc_filter := Some ''(uid=${key})'', lc_positive_reply := Some ''OK ${mail}'', lc_joinstr := Some '',''\<rparr>, ldb_ldap = Some ()\<rparr>"

theorem mod_ldap_query_correct_witness:
  "mod_ldap_query demo_ldap demo_ldb ''m'' ''joe'' [] = Some ([Some ''(uid=joe)''], 0, [''OK joe@a,joe@b'' @ [NL]])"
  using mod_ldap_query_correct [of "[Lit ''(uid='', Var ''key'', Lit '')'']" "[Lit ''OK '', Var ''mail'']" "[Lit ''NOTFOUND'']" "[Lit ''NOTFOUND'']" demo_ldb "()" demo_ldap "''m''" "''joe''" "[]"
      "[Some ''(uid=joe)'']" "Some 2" "[Some ''(uid=joe)'']" "Some True" "''OK joe@a,joe@b''"]
  by (simp add: demo_ldap_def demo_ldb_def conf_zero_def template_ok_def query_only_def piece_vars_def ldap_positive_reply_def ldap_negative_reply_def
      ldap_onerror_reply_def query_value_def lookup_value_def entry_value_def join_values_def cstr_def)

text \<open>The key is not escaped: parentheses in it change the structure of the filter.\<close>

lemma filter_injection:
  "\<exists>ws' rest. wordsplit (env_ws [''map'', ''m'', ''key'', ''*)(cn=*'']) ''(uid=${key})'' 0x4250014 = Some (Inr ws') \<and> ws_wordv ws' = Some ''(uid=*)(cn=*)'' # rest"
  using query_filter [of "[Lit ''(uid='', Var ''key'', Lit '')'']" "''m''" "''*)(cn=*''"]
  by (simp add: template_ok_def query_value_def lookup_value_def)

text \<open>The name of the database is not known in replies: \<open>db\<close> is looked for among the attributes.\<close>

lemma db_is_an_attribute:
  "entry_value lib conf ld m mp key ''db'' = (case ldap_get_values_len lib ld (Some m) ''db'' of None \<Rightarrow> [] | Some vs \<Rightarrow> cstr (join_values (lc_joinstr conf) vs))"
  by (simp add: entry_value_def)

text \<open>A database without templates for replies has no array of attributes, and the loop over it reads through the null pointer.\<close>

lemma no_reply_template_faults:
  assumes "lc_positive_reply c = None" "lc_negative_reply c = None" "lc_onerror_reply c = None" "lc_attrs c = None"
  shows "reply_attrs c = Some None"
  using assms by (simp add: reply_attrs_def)

text \<open>The name of the file for the password is not used.\<close>

lemma bindpwfile_not_used:
  "lc_bindpwfile c \<noteq> None \<Longrightarrow> get_passwd pwfs file (c\<lparr>lc_bindpwfile := Some f\<rparr>) = get_passwd pwfs file c"
  by (auto simp: get_passwd_def)

section \<open>The configuration file\<close>

definition trim :: "string \<Rightarrow> string" where
  "trim l = rev (dropWhile isspace (rev (dropWhile isspace l)))"

text \<open>The reference: every line without the white space around it, unless it is empty or a comment; unknown settings are passed over and wrong values remembered.\<close>

fun conf_run :: "ldap_conf smap_option list \<Rightarrow> string list \<Rightarrow> int \<Rightarrow> ldap_conf \<Rightarrow> (ldap_conf \<times> int) option" where
  "conf_run opt [] rc s = Some (s, rc)"
| "conf_run opt (l # ls) rc s =
     (if trim l = [] \<or> hd (trim l) = CHR ''#'' then conf_run opt ls rc s
      else do {
        (s, res) \<leftarrow> smap_parseline opt (trim l) (SMAP_IGNORECASE OR SMAP_DELIM_WS) s;
        conf_run opt ls (if res = SMAP_PARSE_INVAL then 1 else rc) s })"

definition conf_text :: "string list \<Rightarrow> string" where
  "conf_text ls = concat (map (\<lambda>l. l @ [NL]) ls)"

definition conf_line_ok :: "string \<Rightarrow> bool" where
  "conf_line_ok l \<longleftrightarrow> NL \<notin> set l \<and> CHR 0x00 \<notin> set l \<and> length l < 1023"

lemma fgets_whole:
  assumes "NL \<notin> set l" "length l + 1 < n" "ci_text f = l @ NL # t"
  shows "fgets n f = (f\<lparr>ci_text := t\<rparr>, Some (l @ [NL]))"
proof -
  have t: "take (n - 1) (l @ NL # t) = l @ NL # take (n - 2 - length l) t"
    using assms(2) by (simp add: take_Cons' numeral_2_eq_2)
  have "memchr NL (l @ NL # take (n - 2 - length l) t) = Some (length l)"
    using assms(1) by (rule memchr_hit)
  with assms(3) t show ?thesis by (simp add: fgets_def Let_def)
qed

lemma conf_line_whole:
  assumes "CHR 0x00 \<notin> set l"
  shows "conf_line (l @ [NL]) eof = Inr (if trim l \<noteq> [] \<and> hd (trim l) = CHR ''#'' then [] else trim l)"
proof -
  have c: "cstr (l @ [NL]) = l @ [NL]" using assms by (intro cstr_same) auto
  have sp: "isspace NL" by (simp add: isspace_def)
  show ?thesis
  proof (cases "\<forall>c \<in> set l. isspace c")
    case True
    then have "dropWhile isspace (l @ [NL]) = []" "dropWhile isspace l = []" using sp by (auto simp: dropWhile_eq_Nil_conv)
    then show ?thesis by (simp only: conf_line_def c trim_def Let_def) simp
  next
    case False
    then have d: "dropWhile isspace (l @ [NL]) = dropWhile isspace l @ [NL]" "dropWhile isspace l \<noteq> []"
      by (auto simp: dropWhile_append1 dropWhile_eq_Nil_conv)
    then obtain a as where a: "dropWhile isspace l = a # as" "\<not> isspace a" by (metis hd_dropWhile list.collapse)
    have "trim l \<noteq> [] \<and> hd (trim l) = a"
      using a by (simp add: trim_def dropWhile_append3 dropWhile_eq_Nil_conv)
    then show ?thesis using d a by (auto simp: conf_line_def c trim_def Let_def)
  qed
qed

lemma parse_conf_lines:
  assumes "list_all conf_line_ok ls" "ci_text fp = conf_text ls"
  shows "parse_conf_loop opt fp rc s = conf_run opt ls rc s"
  using assms
proof (induction ls arbitrary: fp rc s)
  case Nil
  then show ?case by (subst parse_conf_loop.simps) (simp add: fgets_def conf_text_def)
next
  case (Cons l ls)
  then have l: "NL \<notin> set l" "CHR 0x00 \<notin> set l" "length l + 1 < 1024" by (simp_all add: conf_line_ok_def)
  have "ci_text fp = l @ NL # conf_text ls" using Cons.prems(2) by (simp add: conf_text_def)
  note f = fgets_whole [OF l(1,3) this]
  have ih: "parse_conf_loop opt (fp\<lparr>ci_text := conf_text ls\<rparr>) rc s = conf_run opt ls rc s" for rc s
    using Cons by simp
  show ?case
    by (subst parse_conf_loop.simps) (simp add: f conf_line_whole [OF l(2)] ih)
qed

lemma parse_ldap_conf_lines:
  assumes "list_all conf_line_ok ls" "fs name = Some (conf_text ls)"
  shows "parse_ldap_conf fs name opt s = conf_run opt ls 0 s"
  using assms parse_conf_lines [OF assms(1)] by (simp add: parse_ldap_conf_def)

section \<open>Creating a database\<close>

lemma make_options_typed: "\<forall>p \<in> set (make_options r). opt_typed p"
  by (cases r) (simp_all add: make_options_def ldap_init_option_def ldap_opt_string_def opt_typed_def)

lemma parseopt_run:
  "smap_parseopt opts (a0 # args) 0 False s = map_option (\<lambda>(s', rc). (s', a0 # args, length args + 1, rc)) (run_options opts args 0 s)"
  by (simp add: smap_parseopt_def hasfl_0 parseopt_loop_all)

definition plain_vars :: "piece list \<Rightarrow> bool" where
  "plain_vars ps \<longleftrightarrow> (\<forall>p \<in> set ps. piece_ok p \<and> (\<forall>v. p = Var v \<longrightarrow> (\<forall>c \<in> set v. c \<noteq> CHR ''$'' \<and> c \<noteq> BSL)))"

definition template_of :: "piece list option \<Rightarrow> string option" where
  "template_of t = map_option (\<lambda>ps. concat (map render ps)) t"

lemma varnames_template:
  assumes "plain_vars ps"
  shows "wordsplit_varnames (concat (map render ps)) old = Some (old @ piece_vars ps)"
  using varnames_pieces [of ps] assms by (simp add: wordsplit_varnames_def plain_vars_def)

text \<open>The names in the templates that are there.\<close>

definition template_vars :: "piece list option list \<Rightarrow> string list" where
  "template_vars ts = concat (map (\<lambda>t. case t of Some ps \<Rightarrow> piece_vars ps | None \<Rightarrow> []) ts)"

lemma reply_attrs_templates:
  assumes "\<forall>ps. Some ps \<in> set [pos, neg, err] \<longrightarrow> plain_vars ps"
    and "lc_positive_reply c = template_of pos" "lc_negative_reply c = template_of neg" "lc_onerror_reply c = template_of err" "lc_attrs c = None"
  shows "reply_attrs c = Some (if pos = None \<and> neg = None \<and> err = None then None else Some (template_vars [pos, neg, err]))"
  using assms by (cases pos; cases neg; cases err) (simp_all add: reply_attrs_def template_of_def varnames_template template_vars_def)

text \<open>The configuration file that is read: the one in the arguments, or the default one if it is there.\<close>

definition chosen_file :: "(string \<Rightarrow> string option) \<Rightarrow> ldap_conf \<Rightarrow> string option" where
  "chosen_file fs c = (case lc_config_file c of Some f \<Rightarrow> Some f | None \<Rightarrow> if fs dfl_config_file = None then None else Some dfl_config_file)"

text \<open>What the file adds: nothing if there is none to read, else its lines, one after the other.\<close>

definition file_settings :: "(string \<Rightarrow> string option) \<Rightarrow> ldap_conf \<Rightarrow> ldap_conf \<Rightarrow> bool" where
  "file_settings fs c c1 =
     (case chosen_file fs c of
        None \<Rightarrow> c1 = c
      | Some f \<Rightarrow> \<exists>ls. fs f = Some (conf_text ls) \<and> list_all conf_line_ok ls
          \<and> conf_run (make_options False) ls 0 (c\<lparr>lc_config_file := Some f\<rparr>) = Some (c1, 0))"

lemma ldap_init_db:
  assumes "lc_attrs dfl = None" "run_options (make_options True) args 0 dfl = Some (c, 0)" "file_settings fs c c1"
    and "run_options (make_options False) args 0 c1 = Some (c2, rc)" "lc_attrs c2 = None"
    and "\<forall>ps. Some ps \<in> set [pos, neg, err] \<longrightarrow> plain_vars ps"
    and "lc_positive_reply c2 = template_of pos" "lc_negative_reply c2 = template_of neg" "lc_onerror_reply c2 = template_of err"
  shows "mod_ldap_init_db fs dfl dbid (a0 # args) =
     (if rc \<noteq> 0 \<or> lc_filter c2 = None then Some None
      else if (pos = None \<and> neg = None \<and> err = None) \<or> 1 < length (filter reserved_name (template_vars [pos, neg, err])) then None
      else Some (Some \<lparr>ldb_conf = c2\<lparr>lc_attrs := Some (filter (\<lambda>n. \<not> reserved_name n) (template_vars [pos, neg, err]))\<rparr>, ldb_ldap = None\<rparr>))"
proof -
  have cpy: "ldap_conf_cpy dfl = Some dfl" using assms(1) by (simp add: ldap_conf_cpy_def argz_copy_def)
  note common = cpy assms(2,4) reply_attrs_templates [OF assms(6-9,5)]
  show ?thesis
  proof (cases "chosen_file fs c")
    case None
    then have "lc_config_file c = None" "fs dfl_config_file = None" "c1 = c"
      using assms(3) by (auto simp: chosen_file_def file_settings_def split: option.splits if_splits)
    with common show ?thesis
      by (simp add: mod_ldap_init_db_def parseopt_run Let_def eliminate_names_spec not_le)
  next
    case (Some f)
    then have cf: "(if lc_config_file c = None \<and> fs dfl_config_file \<noteq> None then c\<lparr>lc_config_file := Some dfl_config_file\<rparr> else c) = c\<lparr>lc_config_file := Some f\<rparr>"
      by (auto simp: chosen_file_def split: option.splits if_splits)
    from Some assms(3) obtain ls where ls: "fs f = Some (conf_text ls)" "list_all conf_line_ok ls"
      "conf_run (make_options False) ls 0 (c\<lparr>lc_config_file := Some f\<rparr>) = Some (c1, 0)" by (auto simp: file_settings_def)
    show ?thesis
      using cf common parse_ldap_conf_lines [where fs = fs, OF ls(2,1)] ls(3)
      by (simp add: mod_ldap_init_db_def parseopt_run Let_def eliminate_names_spec not_le)
  qed
qed

text \<open>C18. A database of the module \<open>ldap\<close> starts with the settings of the module's command line, takes those of the configuration file, line by line, if there is one, and
  then those of its own command line: the later ones prevail, so that the file overrides the module's command line.  It needs a filter.  Its attributes are the variables of its
  templates except \<open>map\<close> and \<open>key\<close>, provided that at most one reference to these occurs in the templates altogether and that there is a template; otherwise released or unallocated
  memory is accessed.\<close>

theorem mod_ldap_init_db_correct:
  assumes "lc_attrs dfl = None" "run_options (make_options True) args 0 dfl = Some (c, 0)" "file_settings fs c c1"
    and "run_options (make_options False) args 0 c1 = Some (c2, rc)" "lc_attrs c2 = None"
    and "\<forall>ps. Some ps \<in> set [pos, neg, err] \<longrightarrow> plain_vars ps"
    and "lc_positive_reply c2 = template_of pos" "lc_negative_reply c2 = template_of neg" "lc_onerror_reply c2 = template_of err"
  shows "mod_ldap_init_db fs dfl dbid (a0 # args) =
     (if rc \<noteq> 0 \<or> lc_filter c2 = None then Some None
      else if (pos = None \<and> neg = None \<and> err = None) \<or> 1 < length (filter reserved_name (template_vars [pos, neg, err])) then None
      else Some (Some \<lparr>ldb_conf = c2\<lparr>lc_attrs := Some (filter (\<lambda>n. \<not> reserved_name n) (template_vars [pos, neg, err]))\<rparr>, ldb_ldap = None\<rparr>))"
  using assms by (rule ldap_init_db)

lemmas ldap_eval = make_options_def ldap_init_option_def ldap_opt_string_def find_opt_def optcmp_def opt_delim_def hasfl_def strncmp_eq_def
  smap_parseline_def opt_store_def store_str_def isspace_def

definition demo_largs :: "string list" where
  "demo_largs = [''filter=(uid=${key})'', ''positive-reply=OK ${mail}'', ''negative-reply=NO ${key}'']"

definition demo_lconf :: ldap_conf where
  "demo_lconf = conf_zero\<lparr>lc_config_file := Some ''/etc/ldap.conf'', lc_base := Some ''dc=org''\<rparr>"

lemma demo_reset: "run_options (make_options True) demo_largs 0 conf_zero = Some (conf_zero, 0)"
  by (simp add: demo_largs_def ldap_eval)

lemma demo_file: "conf_run (make_options False) [''# defaults'', ''base   dc=org ''] 0 (conf_zero\<lparr>lc_config_file := Some ''/etc/ldap.conf''\<rparr>) = Some (demo_lconf, 0)"
  by (simp add: demo_lconf_def trim_def ldap_eval c_tolower_def)

lemma demo_run: "run_options (make_options False) demo_largs 0 demo_lconf =
    Some (demo_lconf\<lparr>lc_filter := Some ''(uid=${key})'', lc_positive_reply := Some ''OK ${mail}'', lc_negative_reply := Some ''NO ${key}''\<rparr>, 0)"
  by (simp add: demo_largs_def ldap_eval)

definition demo_fs :: "string \<Rightarrow> string option" where
  "demo_fs f = (if f = ''/etc/ldap.conf'' then Some (conf_text [''# defaults'', ''base   dc=org '']) else None)"

lemma demo_settings:
  "conf_run (make_options False) [''# defaults'', ''base   dc=org ''] 0 (c\<lparr>lc_config_file := Some ''/etc/ldap.conf''\<rparr>) = Some (c1, 0) \<Longrightarrow>
   lc_config_file c = None \<Longrightarrow> file_settings demo_fs c c1"
  by (auto simp: file_settings_def chosen_file_def demo_fs_def dfl_config_file_def conf_line_ok_def intro!: exI [of _ "[''# defaults'', ''base   dc=org '']"])

theorem mod_ldap_init_db_correct_witness:
  "mod_ldap_init_db demo_fs conf_zero ''db'' (''ldap'' # demo_largs) =
     Some (Some (\<lparr>ldb_conf = demo_lconf\<lparr>lc_filter := Some ''(uid=${key})'', lc_positive_reply := Some ''OK ${mail}'', lc_negative_reply := Some ''NO ${key}'',
       lc_attrs := Some [''mail'']\<rparr>, ldb_ldap = None\<rparr> :: unit ldap_db))"
  using mod_ldap_init_db_correct [of conf_zero demo_largs conf_zero demo_fs demo_lconf
      "demo_lconf\<lparr>lc_filter := Some ''(uid=${key})'', lc_positive_reply := Some ''OK ${mail}'', lc_negative_reply := Some ''NO ${key}''\<rparr>" 0
      "Some [Lit ''OK '', Var ''mail'']" "Some [Lit ''NO '', Var ''key'']" None "''db''" "''ldap''"] demo_reset demo_settings [OF demo_file] demo_run
  by (simp add: plain_vars_def template_of_def template_vars_def piece_vars_def reserved_name_def demo_lconf_def conf_zero_def)

text \<open>The base in the module's command line is lost to the one in the file.\<close>

lemma file_overrides_module:
  "mod_ldap_init_db demo_fs (conf_zero\<lparr>lc_base := Some ''dc=module''\<rparr>) ''db'' (''ldap'' # demo_largs) =
     Some (Some (\<lparr>ldb_conf = demo_lconf\<lparr>lc_filter := Some ''(uid=${key})'', lc_positive_reply := Some ''OK ${mail}'', lc_negative_reply := Some ''NO ${key}'',
       lc_attrs := Some [''mail'']\<rparr>, ldb_ldap = None\<rparr> :: unit ldap_db))"
proof -
  let ?c = "conf_zero\<lparr>lc_base := Some ''dc=module''\<rparr>"
  have "run_options (make_options True) demo_largs 0 ?c = Some (?c, 0)" by (simp add: demo_largs_def ldap_eval)
  moreover have "conf_run (make_options False) [''# defaults'', ''base   dc=org ''] 0 (?c\<lparr>lc_config_file := Some ''/etc/ldap.conf''\<rparr>) = Some (demo_lconf, 0)"
    by (simp add: demo_lconf_def trim_def ldap_eval c_tolower_def)
  ultimately show ?thesis
    using ldap_init_db [of ?c demo_largs ?c demo_fs demo_lconf
        "demo_lconf\<lparr>lc_filter := Some ''(uid=${key})'', lc_positive_reply := Some ''OK ${mail}'', lc_negative_reply := Some ''NO ${key}''\<rparr>" 0
        "Some [Lit ''OK '', Var ''mail'']" "Some [Lit ''NO '', Var ''key'']" None "''db''" "''ldap''"] demo_settings demo_run
    by (simp add: plain_vars_def template_of_def template_vars_def piece_vars_def reserved_name_def demo_lconf_def conf_zero_def)
qed

text \<open>No setting selects encryption.\<close>

definition keeps_tls :: "ldap_conf smap_option \<Rightarrow> bool" where
  "keeps_tls p \<longleftrightarrow> opt_func p = None \<and> (case opt_data p of
       NoData \<Rightarrow> True
     | IntData u \<Rightarrow> \<forall>f s. lc_tls (u f s) = lc_tls s
     | LongData u \<Rightarrow> \<forall>n s. lc_tls (u n s) = lc_tls s
     | StrData u \<Rightarrow> \<forall>x s. lc_tls (u x s) = lc_tls s)"

lemma make_options_tls: "\<forall>p \<in> set (make_options r). keeps_tls p"
  by (cases r) (simp_all add: make_options_def ldap_init_option_def ldap_opt_string_def keeps_tls_def)

lemma parseline_tls:
  assumes "smap_parseline (make_options r) l flags s = Some (s', rc)"
  shows "lc_tls s' = lc_tls s"
proof (cases "find_opt (make_options r) l flags")
  case (Some pv)
  then obtain p v where f: "find_opt (make_options r) l flags = Some (p, v)" by (cases pv) auto
  then have "keeps_tls p" using make_options_tls [of r] find_opt_mem by blast
  then show ?thesis using assms f
    by (auto simp: smap_parseline_def opt_store_def store_int_def store_long_def store_str_def keeps_tls_def bind_eq_Some_conv Let_def case_prod_beta
        split: smap_opt_type.splits option.splits opt_data.splits if_splits)
qed (use assms in \<open>simp add: smap_parseline_def\<close>)

lemma run_options_tls: "run_options (make_options r) as rc s = Some (s', rc') \<Longrightarrow> lc_tls s' = lc_tls s"
proof (induction as arbitrary: rc s)
  case (Cons a as)
  then obtain s1 res where "smap_parseline (make_options r) a SMAP_DELIM_EQ s = Some (s1, res)" 
    "run_options (make_options r) as (if res = SMAP_PARSE_SUCCESS then rc else 1) s1 = Some (s', rc')"
    by (auto simp: bind_eq_Some_conv)
  with Cons.IH parseline_tls show ?case by metis
qed simp

lemma parse_conf_tls: "parse_conf_loop opt fp rc s = Some (s', rc') \<Longrightarrow> opt = make_options r \<Longrightarrow> lc_tls s' = lc_tls s"
proof (induction opt fp rc s rule: parse_conf_loop.induct)
  case (1 opt fp rc s)
  obtain fp1 b where g: "fgets 1024 fp = (fp1, b)" by (cases "fgets 1024 fp")
  show ?case
  proof (cases b)
    case None
    with 1(4) g show ?thesis by (subst (asm) parse_conf_loop.simps) simp
  next
    case (Some buf)
    note e = 1(4) [unfolded parse_conf_loop.simps [of opt fp rc s]]
    show ?thesis
    proof (cases "conf_line buf (ci_feof fp1)")
      case (Inl u)
      with 1(1) [OF g [symmetric] Some Inl] e g Some 1(5) show ?thesis by simp
    next
      case (Inr p)
      show ?thesis
      proof (cases "p = []")
        case True
        with 1(2) [OF g [symmetric] Some Inr] e g Some Inr 1(5) show ?thesis by simp
      next
        case False
        with e g Some Inr obtain s1 res where p: "smap_parseline opt p (SMAP_IGNORECASE OR SMAP_DELIM_WS) s = Some (s1, res)"
          "parse_conf_loop opt fp1 (if res = SMAP_PARSE_INVAL then 1 else rc) s1 = Some (s', rc')" by (auto simp: bind_eq_Some_conv)
        from 1(3) [OF g [symmetric] Some Inr False] p 1(5) parseline_tls [of r] show ?thesis by fastforce
      qed
    qed
  qed
qed

text \<open>Hence no database asks for encryption, and it makes no difference what the library would do.\<close>

lemma ldap_never_encrypted:
  fixes db :: "'l ldap_db"
  assumes "mod_ldap_init_db fs dfl dbid (a0 # args) = Some (Some db)" "lc_tls dfl = tls_no"
  shows "lc_tls (ldb_conf db) = tls_no"
    and "ldap_connect (lib\<lparr>ldap_start_tls_s := f\<rparr>) (ldb_conf db) w = ldap_connect lib (ldb_conf db) w"
proof -
  obtain c where c: "ldap_conf_cpy dfl = Some c" using assms(1) by (auto simp: mod_ldap_init_db_def bind_eq_Some_conv)
  then have t: "lc_tls c = tls_no" using assms(2) by (auto simp: ldap_conf_cpy_def bind_eq_Some_conv)
  from run_options_typed [OF make_options_typed [of True], of args 0 c] obtain c1 rc where r: "run_options (make_options True) args 0 c = Some (c1, rc)" by blast
  define c1' where "c1' = (if lc_config_file c1 = None \<and> fs dfl_config_file \<noteq> None then c1\<lparr>lc_config_file := Some dfl_config_file\<rparr> else c1)"
  have t1: "lc_tls c1' = tls_no" using run_options_tls [OF r] t by (simp add: c1'_def)
  obtain c2 where p: "(case lc_config_file c1' of None \<Rightarrow> Some (c1', 0) | Some f \<Rightarrow> parse_ldap_conf fs f (make_options False) c1') = Some (c2, 0)"
    using assms(1) c r unfolding c1'_def by (auto simp: mod_ldap_init_db_def parseopt_run Let_def bind_eq_Some_conv split: if_splits)
  then have t2: "lc_tls c2 = tls_no"
    using t1 parse_conf_tls [of "make_options False" _ 0 c1' c2 0 False] by (auto simp: parse_ldap_conf_def split: option.splits)
  from run_options_typed [OF make_options_typed [of False], of args 0 c2] obtain c3 rc' where r': "run_options (make_options False) args 0 c2 = Some (c3, rc')" by blast
  have "lc_tls c3 = tls_no" using run_options_tls [OF r'] t2 by simp
  then show "lc_tls (ldb_conf db) = tls_no"
    using assms(1) c r p r' unfolding c1'_def by (auto simp: mod_ldap_init_db_def parseopt_run Let_def bind_eq_Some_conv split: if_splits)
  then show "ldap_connect (lib\<lparr>ldap_start_tls_s := f\<rparr>) (ldb_conf db) w = ldap_connect lib (ldb_conf db) w"
  proof -
    have "uri_loop (lib\<lparr>ldap_start_tls_s := f\<rparr>) ls us w = uri_loop lib ls us w" for ls us w
      by (induction lib ls us w rule: uri_loop.induct) (auto simp: dnssrv_urls_def Let_def split: option.splits list.splits prod.splits intro!: Option.bind_cong)
    then have "parse_ldap_uri (lib\<lparr>ldap_start_tls_s := f\<rparr>) u w = parse_ldap_uri lib u w" for u w by (simp add: parse_ldap_uri_def cong: option.case_cong)
    moreover have "ldap_setup (lib\<lparr>ldap_start_tls_s := f\<rparr>) (ldb_conf db) ld w = ldap_setup lib (ldb_conf db) ld w" for ld w
      using \<open>lc_tls (ldb_conf db) = tls_no\<close> by (simp add: ldap_setup_def)
    ultimately show ?thesis by (auto simp: ldap_connect_def intro!: Option.bind_cong split: option.split prod.split)
  qed
qed

text \<open>If encryption could be required, a connection would only be used after it has been established.\<close>

lemma tls_only_encrypts:
  assumes "lc_tls conf = tls_only" "ldap_connect lib conf w = Some (w', Some ld)"
  shows "\<exists>w1 w2. ldap_start_tls_s lib ld w1 = (w2, True)"
proof -
  have est: "l = ld \<and> (\<exists>w1 w2. ldap_start_tls_s lib l w1 = (w2, True))" if "ldap_setup lib conf l w0 = (w', Some ld)" for l w0
    using assms(1) that by (auto simp: ldap_setup_def Let_def split: prod.splits if_splits option.splits)
  obtain w0 l where "ldap_setup lib conf l w0 = (w', Some ld)"
    using assms(2) by (auto simp: ldap_connect_def bind_eq_Some_conv case_prod_beta split: if_splits option.splits)
  with est show ?thesis by blast
qed

text \<open>URLs with hosts are written out by the library, in their order; for a distinguished name, the hosts get the scheme without a colon.\<close>

lemma uri_hosts:
  assumes "\<forall>l \<in> set ls. lud_dn l = None \<and> ldap_url_desc2str lib l = Some (u l)" 
  shows "uri_loop lib ls us w = Some (w, True, if ls = [] then us else Some ((case us of Some x \<Rightarrow> x | None \<Rightarrow> []) @ map u ls))"
  using assms by (induction ls arbitrary: us) (auto simp: Let_def)

lemma argcv_concat_join: "ws \<noteq> [] \<Longrightarrow> argcv_concat ws = Some (hd ws @ concat (map (\<lambda>w. '' '' @ w) (tl ws)))"
  by (induction ws rule: argcv_concat.induct) auto

lemma parse_ldap_uri_hosts:
  assumes "ldap_url_parse lib uri = Some ls" "ls \<noteq> []" "\<forall>l \<in> set ls. lud_dn l = None \<and> ldap_url_desc2str lib l = Some (u l)"
  shows "parse_ldap_uri lib uri w = Some (w, Some (u (hd ls) @ concat (map (\<lambda>l. '' '' @ u l) (tl ls))))"
proof -
  have "argcv_concat (map u ls) = Some (u (hd ls) @ concat (map (\<lambda>l. '' '' @ u l) (tl ls)))"
    using assms(2) by (simp add: argcv_concat_join hd_map map_tl [symmetric] o_def)
  with uri_hosts [OF assms(3), of None w] assms(1,2) show ?thesis by (simp add: parse_ldap_uri_def)
qed

lemma dnssrv_no_colon:
  assumes "ldap_dn2domain lib dn = Some d" "ldap_domain2hostlist lib d w = (w', Some hl)" "wordsplit (env_ws []) hl WRDSF_DEFFLAGS = Some (Inr ws)"
  shows "dnssrv_urls lib l dn w = Some (w', Some (map (\<lambda>h. lud_scheme l @ ''//'' @ h) (ws_result ws)))"
    and "ldap_dn2domain lib dn' = None \<Longrightarrow> dnssrv_urls lib l dn' w = None"
  using assms by (simp_all add: dnssrv_urls_def)

text \<open>The password file is read up to its size, however the system divides it; interrupted calls are repeated.\<close>

lemma full_read_bytes: "full_read rs n = Some (Some s) \<Longrightarrow> length s = n"
proof (induction rs n arbitrary: s rule: full_read.induct)
  case (5 d rs n)
  define d' where "d' = take (Suc n) d"
  from 5(2) have d: "d' \<noteq> []" "\<exists>t. full_read rs (Suc n - length d') = Some (Some t) \<and> s = d' @ t"
    unfolding d'_def by (simp_all only: full_read.simps Let_def split: if_splits) auto
  then obtain t where t: "full_read rs (Suc n - length d') = Some (Some t)" "s = d' @ t" by blast
  from 5(1) [OF d'_def d(1) t(1)] t(2) show ?case by (simp add: d'_def)
qed simp_all

lemma full_read_blocks:
  "concat ds = s \<Longrightarrow> [] \<notin> set ds \<Longrightarrow> full_read (map ReadData ds) (length s) = Some (Some s)"
proof (induction ds arbitrary: s)
  case (Cons d ds)
  then obtain c cs where d: "d = c # cs" by (cases d) auto
  with Cons show ?case by (auto simp: Let_def)
qed simp

text \<open>After a failed bind the handle is neither kept nor released.\<close>

lemma failed_bind_leaks:
  assumes "ldap_connect lib (ldb_conf db) w = Some (w1, Some ld)" "ldap_bind lib pwfs file ld (ldb_conf db) w1 = Some (w2, True)"
  shows "mod_ldap_open lib pwfs file db w = Some (db, w2, 1)"
  using assms by (simp add: mod_ldap_open_def)

text \<open>A wrong value in the configuration file: the released configuration is used further.\<close>

lemma config_error_faults:
  "mod_ldap_init_db (\<lambda>f. if f = ''/etc/ldap.conf'' then Some (conf_text [''ldap_version three'']) else None) conf_zero ''db'' [''ldap'', ''filter=x''] = (None :: unit ldap_db option option)"
proof -
  let ?fs = "\<lambda>f. if f = ''/etc/ldap.conf'' then Some (conf_text [''ldap_version three'']) else None"
  have p: "parse_ldap_conf ?fs ''/etc/ldap.conf'' (make_options False) s = Some (s, 1)" for s
    by (subst parse_ldap_conf_lines [of "[''ldap_version three'']"])
      (simp_all add: conf_line_ok_def trim_def ldap_eval c_tolower_def strtol_def strtoul_base_def strtoul_digits_def digit_val_def Let_def)
  have r: "run_options (make_options True) [''filter=x''] 0 conf_zero = Some (conf_zero, 0)" by (simp add: ldap_eval)
  show ?thesis
    using r by (simp add: mod_ldap_init_db_def parseopt_run ldap_conf_cpy_def argz_copy_def dfl_config_file_def Let_def conf_zero_def del: run_options.simps)
      (simp only: p Option.bind.bind_lunit prod.case, simp)
qed

end
