(* ===== verification/Smap_Smapc.thy ===== *)
theory Smap_Smapc
  imports Smap_Smapd Smap_Printf Smap_Url Smap_Wordsplit_Laws "HOL-Library.List_Lexorder" "HOL-Library.Char_ord"
begin

text \<open>
  The client \<open>smapc\<close> (\<open>src/smapc.c\<close>): its connection, queries, the commands and the loop that reads
  them from a file or a terminal, and \<open>main\<close> behind the parser of the command line.

  The system is a record of functions over the state \<open>'w\<close> of the outside world (\<open>client_env\<close>); the program
  is the one that is built without the library \<open>readline\<close>.  A file is the text that is still to be read from it.
  \<open>None\<close> is an access outside an array, a null pointer that is followed, the
  release of memory that was not allocated, or a stream that never answers.  Messages for
  the standard error and memory exhaustion, on which the client exits, are left out.
\<close>

section \<open>State\<close>

record 'w client_env =
  ce_url :: url_env
  ce_socket :: "'w \<Rightarrow> url_addr \<Rightarrow> 'w \<times> int"
  ce_bind :: "'w \<Rightarrow> int \<Rightarrow> 32 word \<Rightarrow> 'w \<times> bool"
  ce_connect :: "'w \<Rightarrow> int \<Rightarrow> url_addr \<Rightarrow> 'w \<times> bool"
  ce_close :: "'w \<Rightarrow> int \<Rightarrow> 'w"
  ce_sock :: "'w \<Rightarrow> int \<Rightarrow> sockev list \<times> wrev list \<times> errno"
  ce_alloc :: "nat \<Rightarrow> bool"
  ce_junk :: nat
  ce_granted :: "bool \<times> bool \<times> bool"
  ce_aton :: "string \<Rightarrow> 32 word option"
  ce_ntoa :: "32 word \<Rightarrow> string"
  ce_version :: "string \<Rightarrow> string"
  ce_banner :: string
  ce_home :: "string option"
  ce_pwdir :: "string option"
  ce_progname :: string
  ce_fopen :: "string \<Rightarrow> string option"

text \<open>The variables of the file.  The prompt is marked if it was allocated, which the argument of the option \<open>-p\<close> is not; \<open>cl_replsize\<close>
  and \<open>cl_bufsize\<close> are the sizes of the two line buffers, 0 before they are allocated.\<close>

record 'w smapc =
  cl_world :: 'w
  cl_stdout :: string
  cl_prompt :: "(bool \<times> string) option"
  cl_cmdprefix :: "char option"
  cl_curmap :: "string option"
  cl_curserver :: "string option"
  cl_iostr :: "sockmap_stream smap_stream option"
  cl_source_addr :: "32 word"
  cl_quiet_startup :: bool
  cl_debug :: debug_state
  cl_replsize :: nat
  cl_bufsize :: nat

definition cl_print :: "string \<Rightarrow> 'w smapc \<Rightarrow> 'w smapc" where
  "cl_print t st = st\<lparr>cl_stdout := cl_stdout st @ t\<rparr>"

section \<open>The connection\<close>

text \<open>A socket that cannot be bound or connected is not closed.\<close>

definition open_socket :: "'w client_env \<Rightarrow> 32 word \<Rightarrow> string \<Rightarrow> 'w \<Rightarrow> ('w \<times> int) option" where
  "open_socket ev source_addr url w = do {
     r \<leftarrow> smap_url_parse (ce_url ev) url;
     Some (case r of
         Inl e \<Rightarrow> (w, -1)
       | Inr sa \<Rightarrow>
           (case ce_socket ev w sa of (w, fd) \<Rightarrow>
              if fd = -1 then (w, -1)
              else
                case (case sa of S_IN _ _ \<Rightarrow> ce_bind ev w fd source_addr | S_UN _ \<Rightarrow> (w, True)) of (w, ok) \<Rightarrow>
                if \<not> ok then (w, -1)
                else (case ce_connect ev w fd sa of (w, ok) \<Rightarrow> if \<not> ok then (w, -1) else (w, fd)))) }"

abbreviation (input) client_ops :: "'w client_env \<Rightarrow> sockmap_stream stream_ops" where
  "client_ops ev \<equiv> sockmap_ops (ce_alloc ev) (ce_junk ev)"

definition smapc_query :: "'w client_env \<Rightarrow> sockmap_stream smap_stream \<Rightarrow> string \<Rightarrow> string \<Rightarrow> 'w smapc \<Rightarrow> 'w smapc option" where
  "smapc_query ev str mp key st = do {
     (str, _) \<leftarrow> smap_stream_printf (client_ops ev) (mp @ '' '' @ key @ [NL]) (ce_alloc ev) str;
     (str, rc, line, size) \<leftarrow> smap_stream_getline (client_ops ev) str (cl_replsize st);
     let st = st\<lparr>cl_iostr := Some str, cl_replsize := size\<rparr>;
     if rc \<noteq> E0 then Some st
     else if \<not> length line < size then None
     else Some (cl_print (cstr line) st) }"

definition smapc_close :: "'w client_env \<Rightarrow> 'w smapc \<Rightarrow> 'w smapc option" where
  "smapc_close ev st =
     (case cl_iostr st of
        None \<Rightarrow> Some st
      | Some str \<Rightarrow> do {
          (str, _) \<leftarrow> smap_stream_close (client_ops ev) str;
          (str, _) \<leftarrow> smap_stream_destroy (client_ops ev) str;
          Some (st\<lparr>cl_iostr := None, cl_curserver := None\<rparr>) })"

definition smapc_debug :: "'w client_env \<Rightarrow> debug_state \<Rightarrow> sockmap_stream smap_stream \<Rightarrow> sockmap_stream smap_stream option" where
  "smapc_debug ev dbg s =
     (if smap_debug_np dbg (Some 0) 10 then do {
        (s, _) \<leftarrow> smap_stream_ioctl (client_ops ev) s SMAP_IOCTL_SET_DEBUG_IDX (ArgInt 0);
        (s, _) \<leftarrow> smap_stream_ioctl (client_ops ev) s SMAP_IOCTL_SET_DEBUG_PFX (ArgPair ''S'' ''C'');
        Some s }
      else Some s)"

definition smapc_connect :: "'w client_env \<Rightarrow> string \<Rightarrow> 'w smapc \<Rightarrow> 'w smapc option" where
  "smapc_connect ev url st = do {
     st \<leftarrow> smapc_close ev st;
     (w, fd) \<leftarrow> open_socket ev (cl_source_addr st) url (cl_world st);
     let st = st\<lparr>cl_world := w\<rparr>;
     if fd = -1 then Some st
     else (case ce_sock ev w fd of (ievs, oevs, crc) \<Rightarrow> do {
       (rc, s) \<leftarrow> smap_sockmap_stream_create (ce_alloc ev) (ce_junk ev) (ce_granted ev) fd 0 ievs oevs crc;
       (case s of
          None \<Rightarrow> Some (st\<lparr>cl_world := ce_close ev w fd\<rparr>)
        | Some s \<Rightarrow> do {
            s \<leftarrow> smapc_debug ev (cl_debug st) s;
            Some (st\<lparr>cl_iostr := Some s, cl_curserver := Some url\<rparr>) }) }) }"

section \<open>Input lines\<close>

text \<open>\<open>fgets\<close> with an array of 512 bytes, and what it leaves.\<close>

definition fgets512 :: "string \<Rightarrow> (string \<times> string) option" where
  "fgets512 fp =
     (if fp = [] then None
      else let lim = take 511 fp; n = (case memchr NL lim of Some i \<Rightarrow> i + 1 | None \<Rightarrow> length lim) in Some (take n fp, drop n fp))"

text \<open>\<open>buf\<close> is the C string in the buffer of \<open>bufsize\<close> bytes.  A line that starts with a null byte makes
  the test of the last character read before the array.\<close>

definition doubled :: "nat \<Rightarrow> nat \<Rightarrow> nat" where
  "doubled bufsize need = (if need \<ge> bufsize then (2 * bufsize) mod (SIZE_MAX + 1) else bufsize)"

function input_loop :: "string \<Rightarrow> string \<Rightarrow> nat \<Rightarrow> (string \<times> string \<times> nat) option" where
  "input_loop fp buf bufsize =
     (case fgets512 fp of
        None \<Rightarrow> Some (fp, buf, bufsize)
      | Some (sbuf, fp) \<Rightarrow>
          let s = cstr sbuf; bufsize = doubled bufsize (length buf + length s) in
          if bufsize < length buf + length s + 1 then None
          else if s = [] then None
          else if last s = NL then Some (fp, buf @ s, bufsize)
          else input_loop fp (buf @ s) bufsize)"
  by pat_completeness auto

lemma fgets512_rest:
  assumes "fgets512 fp = Some (sbuf, fp')"
  shows "fp = sbuf @ fp'" "sbuf \<noteq> []" "length sbuf < 512" "length fp' < length fp" "NL \<notin> set (butlast sbuf)"
    "last sbuf \<noteq> NL \<Longrightarrow> fp' \<noteq> [] \<Longrightarrow> length sbuf = 511"
proof -
  define n where "n = (case memchr NL (take 511 fp) of Some i \<Rightarrow> i + 1 | None \<Rightarrow> length (take 511 fp))"
  from assms have fp: "fp \<noteq> []" and sb: "sbuf = take n fp" "fp' = drop n fp"
    by (auto simp: fgets512_def n_def Let_def split: if_splits)
  have n: "0 < n \<and> n \<le> 511 \<and> n \<le> length fp \<and> NL \<notin> set (take (n - 1) fp) \<and> (n = 511 \<or> n = length fp \<or> last (take n fp) = NL)"
  proof (cases "memchr NL (take 511 fp)")
    case None
    have "n = min 511 (length fp)" unfolding n_def None by simp
    moreover from None have "NL \<notin> set (take 511 fp)" by (metis memchr_None)
    moreover have "set (take (n - 1) fp) \<subseteq> set (take 511 fp)" by (rule set_take_subset_set_take) (unfold n_def None, simp)
    ultimately show ?thesis using fp by (auto simp: min_def)
  next
    case (Some i)
    then have "n = i + 1" by (simp add: n_def)
    moreover from memchr_Some [OF Some] have "i < 511" "i < length fp" "fp ! i = NL" "NL \<notin> set (take i fp)" by auto
    ultimately show ?thesis by (simp add: take_Suc_conv_app_nth)
  qed
  show "fp = sbuf @ fp'" "sbuf \<noteq> []" "length sbuf < 512" "length fp' < length fp" using n fp by (auto simp: sb)
  show "NL \<notin> set (butlast sbuf)" using n by (simp add: sb butlast_take)
  show "length sbuf = 511" if "last sbuf \<noteq> NL" "fp' \<noteq> []" using n that by (auto simp: sb)
qed

termination input_loop
  by (relation "measure (\<lambda>(fp, _, _). length fp)") (auto dest: fgets512_rest(4))

declare input_loop.simps [simp del]

definition get_input_line :: "bool \<Rightarrow> string \<Rightarrow> 'w smapc \<Rightarrow> (string \<times> 'w smapc \<times> string option) option" where
  "get_input_line interactive fp st = do {
     st \<leftarrow> (if interactive then do { (_, p) \<leftarrow> cl_prompt st; Some (cl_print p st) } else Some st);
     (fp, buf, bufsize) \<leftarrow> input_loop fp [] (if cl_bufsize st = 0 then 512 else cl_bufsize st);
     Some (fp, st\<lparr>cl_bufsize := bufsize\<rparr>, if buf = [] then None else Some (butlast buf)) }"

definition user_file_name :: "'w client_env \<Rightarrow> string \<Rightarrow> string option \<Rightarrow> string option" where
  "user_file_name ev name suffix = do {
     home \<leftarrow> (case ce_home ev of Some h \<Rightarrow> Some h | None \<Rightarrow> ce_pwdir ev);
     Some (home @ ''/.'' @ name @ (case suffix of Some s \<Rightarrow> s | None \<Rightarrow> [])) }"


section \<open>Commands\<close>

datatype cmd_fun =
    cmd_help | cmd_quit | cmd_map | cmd_nomap | cmd_server | cmd_open | cmd_close | cmd_source | cmd_debug
  | cmd_prefix | cmd_prompt | cmd_quiet | cmd_warranty | cmd_version

record smapc_cmd =
  cmd_name :: string
  cmd_minargc :: nat
  cmd_maxargc :: nat
  cmd_fn :: cmd_fun
  cmd_argdoc :: "string option"
  cmd_docstring :: "string option"

definition smapc_cmd_tab :: "smapc_cmd list" where
  "smapc_cmd_tab =
     [\<lparr>cmd_name = ''help'', cmd_minargc = 1, cmd_maxargc = 1, cmd_fn = cmd_help, cmd_argdoc = None, cmd_docstring = Some ''show command summary''\<rparr>,
      \<lparr>cmd_name = ''quit'', cmd_minargc = 1, cmd_maxargc = 1, cmd_fn = cmd_quit, cmd_argdoc = None, cmd_docstring = Some ''quit the shell''\<rparr>,
      \<lparr>cmd_name = ''map'', cmd_minargc = 1, cmd_maxargc = 2, cmd_fn = cmd_map, cmd_argdoc = Some ''[NAME]'', cmd_docstring = Some ''set or query current map''\<rparr>,
      \<lparr>cmd_name = ''nomap'', cmd_minargc = 1, cmd_maxargc = 1, cmd_fn = cmd_nomap, cmd_argdoc = None, cmd_docstring = Some ''clear current map''\<rparr>,
      \<lparr>cmd_name = ''server'', cmd_minargc = 1, cmd_maxargc = 1, cmd_fn = cmd_server, cmd_argdoc = None, cmd_docstring = Some ''show current server URL''\<rparr>,
      \<lparr>cmd_name = ''open'', cmd_minargc = 2, cmd_maxargc = 2, cmd_fn = cmd_open, cmd_argdoc = Some ''URL'', cmd_docstring = Some ''open connection''\<rparr>,
      \<lparr>cmd_name = ''close'', cmd_minargc = 1, cmd_maxargc = 1, cmd_fn = cmd_close, cmd_argdoc = None, cmd_docstring = Some ''close connection''\<rparr>,
      \<lparr>cmd_name = ''source'', cmd_minargc = 1, cmd_maxargc = 2, cmd_fn = cmd_source, cmd_argdoc = Some ''[IP]'', cmd_docstring = Some ''query or set source IP address''\<rparr>,
      \<lparr>cmd_name = ''debug'', cmd_minargc = 1, cmd_maxargc = 0, cmd_fn = cmd_debug, cmd_argdoc = Some ''SPEC'', cmd_docstring = Some ''set debug level''\<rparr>,
      \<lparr>cmd_name = ''prefix'', cmd_minargc = 1, cmd_maxargc = 2, cmd_fn = cmd_prefix, cmd_argdoc = Some ''[CHAR]'', cmd_docstring = Some ''set or query command prefix''\<rparr>,
      \<lparr>cmd_name = ''prompt'', cmd_minargc = 1, cmd_maxargc = 2, cmd_fn = cmd_prompt, cmd_argdoc = Some ''[STRING]'', cmd_docstring = Some ''set or query command prompt''\<rparr>,
      \<lparr>cmd_name = ''quiet'', cmd_minargc = 2, cmd_maxargc = 2, cmd_fn = cmd_quiet, cmd_argdoc = Some ''BOOL'', cmd_docstring = Some ''quiet startup''\<rparr>,
      \<lparr>cmd_name = ''warranty'', cmd_minargc = 1, cmd_maxargc = 1, cmd_fn = cmd_warranty, cmd_argdoc = None, cmd_docstring = Some ''print copyright statement''\<rparr>,
      \<lparr>cmd_name = ''version'', cmd_minargc = 1, cmd_maxargc = 1, cmd_fn = cmd_version, cmd_argdoc = None, cmd_docstring = Some ''print program version''\<rparr>]"

text \<open>The summary: a line for each entry with a description, sorted by name, with the arguments padded.\<close>

definition help_line :: "char option \<Rightarrow> smapc_cmd \<Rightarrow> string" where
  "help_line prefix ft =
     (case cmd_docstring ft of
        None \<Rightarrow> []
      | Some doc \<Rightarrow>
          let hd = (case prefix of Some c \<Rightarrow> [c] | None \<Rightarrow> []) @ cmd_name ft @ '' '';
              args = (case cmd_argdoc ft of Some a \<Rightarrow> a | None \<Rightarrow> []);
              len = (if length hd < 24 then 24 - length hd else 0)
          in hd @ args @ replicate (len - length args) (CHR '' '') @ '' '' @ doc @ [NL])"

definition cmd_help_text :: "char option \<Rightarrow> string" where
  "cmd_help_text prefix = concat (map (help_line prefix) (sort_key cmd_name smapc_cmd_tab))"

definition ispunct :: "char \<Rightarrow> bool" where
  "ispunct c \<longleftrightarrow> (let n = of_char c :: nat in 33 \<le> n \<and> n \<le> 126 \<and> \<not> (48 \<le> n \<and> n \<le> 57 \<or> 65 \<le> n \<and> n \<le> 90 \<or> 97 \<le> n \<and> n \<le> 122))"

definition gplv3_text :: string where
  "gplv3_text =
     ''   Smap is free software; you can redistribute it and/or modify'' @ [NL] @
     ''   it under the terms of the GNU General Public License as published by'' @ [NL] @
     ''   the Free Software Foundation; either version 3, or (at your option)'' @ [NL] @
     ''   any later version.'' @ [NL] @ [NL] @
     ''   Smap is distributed in the hope that it will be useful,'' @ [NL] @
     ''   but WITHOUT ANY WARRANTY; without even the implied warranty of'' @ [NL] @
     ''   MERCHANTABILITY or FITNESS FOR A PARTICULAR PURPOSE.  See the'' @ [NL] @
     ''   GNU General Public License for more details.'' @ [NL] @ [NL] @
     ''   You should have received a copy of the GNU General Public License'' @ [NL] @
     ''   along with Smap.  If not, see <http://www.gnu.org/licenses/>.'' @ [NL]"

fun debug_args :: "string list \<Rightarrow> debug_state \<Rightarrow> debug_state option" where
  "debug_args [] d = Some d"
| "debug_args (a # as) d = do { (d, _) \<leftarrow> smap_debug_set True True d a; debug_args as d }"

definition quiet_word :: "string \<Rightarrow> bool option" where
  "quiet_word a =
     (if a \<in> set [''yes'', ''on'', ''true'', ''t''] then Some True
      else if a \<in> set [''no'', ''off'', ''false'', ''nil''] then Some False else None)"

text \<open>The functions of the table; the flag tells whether the loop ends.  \<open>args\<close> are the words behind the name of the command; the table
  guarantees their number.\<close>

definition run_cmd :: "'w client_env \<Rightarrow> cmd_fun \<Rightarrow> string list \<Rightarrow> 'w smapc \<Rightarrow> ('w smapc \<times> bool) option" where
  "run_cmd ev f args st =
     (case f of
        cmd_help \<Rightarrow> Some (cl_print (cmd_help_text (cl_cmdprefix st)) st, False)
      | cmd_quit \<Rightarrow> Some (st, True)
      | cmd_map \<Rightarrow>
          Some (case args of
              [m] \<Rightarrow> st\<lparr>cl_curmap := Some m\<rparr>
            | _ \<Rightarrow> (case cl_curmap st of
                      None \<Rightarrow> cl_print (''not set'' @ [NL]) st
                    | Some m \<Rightarrow> cl_print (''current map is '' @ m @ [NL]) st), False)
      | cmd_nomap \<Rightarrow> Some (st\<lparr>cl_curmap := None\<rparr>, False)
      | cmd_server \<Rightarrow>
          Some (case cl_curserver st of
              None \<Rightarrow> cl_print (''server not set'' @ [NL]) st
            | Some u \<Rightarrow> cl_print (''current server is '' @ u @ [NL]) st, False)
      | cmd_open \<Rightarrow> do { url \<leftarrow> (case args of u # _ \<Rightarrow> Some u | [] \<Rightarrow> None); st \<leftarrow> smapc_connect ev url st; Some (st, False) }
      | cmd_close \<Rightarrow> do { st \<leftarrow> smapc_close ev st; Some (st, False) }
      | cmd_source \<Rightarrow>
          Some (case args of
              [] \<Rightarrow> cl_print (''current source IP is '' @ ce_ntoa ev (cl_source_addr st) @ [NL]) st
            | a # _ \<Rightarrow> (case ce_aton ev a of Some ip \<Rightarrow> st\<lparr>cl_source_addr := ip\<rparr> | None \<Rightarrow> st), False)
      | cmd_debug \<Rightarrow> do { d \<leftarrow> debug_args args (cl_debug st); Some (st\<lparr>cl_debug := d\<rparr>, False) }
      | cmd_prefix \<Rightarrow>
          (case args of
             [] \<Rightarrow> Some (cl_print (''command prefix is '' @ [case cl_cmdprefix st of Some c \<Rightarrow> c | None \<Rightarrow> CHR 0x00] @ [NL]) st, False)
           | [] # _ \<Rightarrow> None
           | (c # cs) # _ \<Rightarrow> Some (if cs = [] \<and> c \<noteq> CHR ''#'' \<and> ispunct c then st\<lparr>cl_cmdprefix := Some c\<rparr> else st, False))
      | cmd_prompt \<Rightarrow>
          (case args of
             [p] \<Rightarrow> (case cl_prompt st of
                       Some (False, _) \<Rightarrow> None
                     | _ \<Rightarrow> Some (st\<lparr>cl_prompt := Some (True, p)\<rparr>, False))
           | _ \<Rightarrow> do { (_, p) \<leftarrow> cl_prompt st; Some (cl_print (''current prompt is '' @ p @ [NL]) st, False) })
      | cmd_quiet \<Rightarrow>
          (case args of
             a # _ \<Rightarrow> Some (case quiet_word a of Some b \<Rightarrow> st\<lparr>cl_quiet_startup := b\<rparr> | None \<Rightarrow> st, False)
           | [] \<Rightarrow> None)
      | cmd_warranty \<Rightarrow> Some (cl_print (ce_version ev ''program'' @ [NL] @ gplv3_text) st, False)
      | cmd_version \<Rightarrow> Some (cl_print (ce_version ev ''package'') st, False))"

definition smapc_cmd_find :: "string \<Rightarrow> smapc_cmd option" where
  "smapc_cmd_find word = find (\<lambda>p. cmd_name p = word) smapc_cmd_tab"

definition handle_command :: "'w client_env \<Rightarrow> string list \<Rightarrow> 'w smapc \<Rightarrow> ('w smapc \<times> bool) option" where
  "handle_command ev wordv st = do {
     word \<leftarrow> (case wordv of w # _ \<Rightarrow> Some w | [] \<Rightarrow> None);
     (case smapc_cmd_find word of
        None \<Rightarrow> Some (st, False)
      | Some cmd \<Rightarrow>
          if cmd_minargc cmd \<noteq> 0 \<and> length wordv < cmd_minargc cmd then Some (st, False)
          else if cmd_maxargc cmd \<noteq> 0 \<and> length wordv > cmd_maxargc cmd then Some (st, False)
          else run_cmd ev (cmd_fn cmd) (tl wordv) st) }"

section \<open>The loop\<close>

text \<open>What is sent for a line that is not a command: \<open>None\<close> for an invalid one.\<close>

definition line_query :: "string option \<Rightarrow> string \<Rightarrow> (string \<times> string) option" where
  "line_query curmap p =
     (case curmap of
        Some m \<Rightarrow> Some (m, p)
      | None \<Rightarrow> (case memchr (CHR '' '') p of
                   None \<Rightarrow> None
                 | Some i \<Rightarrow> Some (take i p, dropWhile isspace (drop (i + 1) p))))"

text \<open>The body of the loop: \<open>reuse\<close> and \<open>ws\<close> are the flag and the structure for the word splitter.\<close>

definition cmd_ws :: wordsplit_s where
  "cmd_ws = \<lparr>ws_wordc = 0, ws_wordv = [], ws_offs = 0, ws_flags = 0, ws_delim = [], ws_comment = Some ''#'', ws_env = [],
     ws_getvar = Map.empty, ws_input = [], ws_endp = 0, ws_nodes = []\<rparr>"

definition eval_line ::
  "'w client_env \<Rightarrow> string \<Rightarrow> flagword \<times> wordsplit_s \<Rightarrow> 'w smapc \<Rightarrow> ((flagword \<times> wordsplit_s) \<times> 'w smapc \<times> bool) option" where
  "eval_line ev p fw st =
     (if take 1 p = ''?'' then Some (fw, cl_print (cmd_help_text (cl_cmdprefix st)) st, False)
      else if cl_cmdprefix st = None \<or> p \<noteq> [] \<and> cl_cmdprefix st = Some (hd p) then do {
        r \<leftarrow> wordsplit (snd fw) (if cl_cmdprefix st = None then p else tl p) (fst fw);
        (case r of
           Inl e \<Rightarrow> Some (fw, st, True)
         | Inr ws \<Rightarrow>
             let fw = (setfl (fst fw) WRDSF_REUSE, ws) in
             if ws_wordc ws \<noteq> 0 then do { (st, stop) \<leftarrow> handle_command ev (ws_result ws) st; Some (fw, st, stop) }
             else Some (fw, st, False)) }
      else
        let p = dropWhile isspace p in
        if p = [] \<or> hd p = CHR ''#'' then Some (fw, st, False)
        else
          case cl_iostr st of
            None \<Rightarrow> Some (fw, st, False)
          | Some str \<Rightarrow>
              (case line_query (cl_curmap st) p of
                 None \<Rightarrow> Some (fw, st, False)
               | Some (mp, key) \<Rightarrow> do { st \<leftarrow> smapc_query ev str mp key st; Some (fw, st, False) }))"

function read_eval_from ::
  "'w client_env \<Rightarrow> bool \<Rightarrow> string \<Rightarrow> flagword \<times> wordsplit_s \<Rightarrow> 'w smapc \<Rightarrow> 'w smapc option" where
  "read_eval_from ev interactive fp fw st = do {
     (fp, st, p) \<leftarrow> get_input_line interactive fp st;
     (case p of
        None \<Rightarrow> Some st
      | Some p \<Rightarrow> do {
          (fw, st, stop) \<leftarrow> eval_line ev p fw st;
          if stop then Some st else read_eval_from ev interactive fp fw st }) }"
  by pat_completeness auto

lemma input_loop_shorter:
  "input_loop fp buf bufsize = Some (fp', buf', bufsize') \<Longrightarrow> length fp' \<le> length fp \<and> (buf' = buf \<or> length fp' < length fp)"
proof (induction "length fp" arbitrary: fp buf bufsize rule: less_induct)
  case less
  show ?case
  proof (cases "fgets512 fp")
    case None
    with less.prems show ?thesis by (subst (asm) input_loop.simps) auto
  next
    case (Some r)
    obtain sbuf rest where r: "r = (sbuf, rest)" by (cases r)
    note l = fgets512_rest(4) [OF Some [unfolded r]]
    from less.prems Some r have "fp' = rest \<or> input_loop rest (buf @ cstr sbuf) (doubled bufsize (length buf + length (cstr sbuf))) = Some (fp', buf', bufsize')"
      by (subst (asm) input_loop.simps) (auto simp: Let_def split: if_splits)
    with less.hyps [OF l] l show ?thesis by fastforce
  qed
qed

lemma get_input_line_shorter: "get_input_line interactive fp st = Some (fp', st', Some p) \<Longrightarrow> length fp' < length fp"
  by (auto simp: get_input_line_def bind_eq_Some_conv dest!: input_loop_shorter split: if_splits)

termination read_eval_from
  by (relation "measure (\<lambda>(_, _, fp, _, _). length fp)") (auto dest: get_input_line_shorter)

declare read_eval_from.simps [simp del]

abbreviation (input) smapc_flags :: flagword where "smapc_flags \<equiv> 0x10146D4"

definition shell_banner :: "'w client_env \<Rightarrow> string" where
  "shell_banner ev = ce_banner ev @ ''Type ? for help summary'' @ [NL, NL]"

definition read_eval_loop :: "'w client_env \<Rightarrow> string \<Rightarrow> bool \<Rightarrow> 'w smapc \<Rightarrow> 'w smapc option" where
  "read_eval_loop ev fp interactive st =
     read_eval_from ev interactive fp (smapc_flags, cmd_ws)
       (if interactive \<and> \<not> cl_quiet_startup st then cl_print (shell_banner ev) st else st)"

definition smapc_config :: "'w client_env \<Rightarrow> 'w smapc \<Rightarrow> 'w smapc option" where
  "smapc_config ev st = do {
     fname \<leftarrow> user_file_name ev (ce_progname ev) None;
     (case ce_fopen ev fname of
        None \<Rightarrow> Some st
      | Some fp \<Rightarrow> do {
          st' \<leftarrow> read_eval_loop ev fp False (st\<lparr>cl_cmdprefix := None\<rparr>);
          Some (st'\<lparr>cl_cmdprefix := cl_cmdprefix st\<rparr>) }) }"

section \<open>The program\<close>

abbreviation (input) EX_USAGE :: int where "EX_USAGE \<equiv> 64"

text \<open>The settings of the command line: \<open>-q\<close>, \<open>-s\<close>, \<open>-B\<close>; the other options are in the initial state.  \<open>input\<close> is the standard input, \<open>tty\<close>
  whether it is a terminal.\<close>

definition smapc_main ::
  "'w client_env \<Rightarrow> bool \<Rightarrow> string option \<Rightarrow> bool \<Rightarrow> bool \<Rightarrow> string \<Rightarrow> string list \<Rightarrow> 'w smapc \<Rightarrow> ('w smapc \<times> int) option" where
  "smapc_main ev norc server_option batch tty input argv st =
     (if length argv > 3 then Some (st, EX_USAGE)
      else do {
        st \<leftarrow> (if norc then Some st else smapc_config ev st);
        (case argv of
           [url, mp, key] \<Rightarrow> do {
             st \<leftarrow> smapc_connect ev url st;
             (case cl_iostr st of
                None \<Rightarrow> Some (st, EX_UNAVAILABLE)
              | Some str \<Rightarrow> do { st \<leftarrow> smapc_query ev str mp key st; Some (st, 0) }) }
         | _ \<Rightarrow> do {
             let st = (if cl_prompt st = None then st\<lparr>cl_prompt := Some (True, ''(smapc) '')\<rparr> else st);
             st \<leftarrow> (case server_option of Some u \<Rightarrow> smapc_connect ev u st | None \<Rightarrow> Some st);
             let st = (case argv of m # _ \<Rightarrow> st\<lparr>cl_curmap := Some m\<rparr> | [] \<Rightarrow> st);
             (case argv of
                [mp, key] \<Rightarrow>
                  (case cl_iostr st of
                     None \<Rightarrow> Some (st, if cl_curserver st = None then EX_USAGE else EX_UNAVAILABLE)
                   | Some str \<Rightarrow> do { st \<leftarrow> smapc_query ev str mp key st; Some (st, 0) })
              | _ \<Rightarrow> do {
                  let b = batch \<or> \<not> tty;
                  let st = (if b then st\<lparr>cl_quiet_startup := True\<rparr> else st);
                  st \<leftarrow> read_eval_loop ev input (\<not> b \<and> tty) st;
                  st \<leftarrow> smapc_close ev st;
                  Some (st, 0) }) }) })"

end
