(* ===== verification/Smap_Smapc_Laws.thy ===== *)
theory Smap_Smapc_Laws
  imports Smap_Smapc
begin

text \<open>
  What the client does: it reads lines whole, sends one packet for each query and prints the reply, and knows the name of the
  server exactly while it is connected.
\<close>

section \<open>Lines\<close>

definition buf_ok :: "nat \<Rightarrow> bool" where
  "buf_ok b \<longleftrightarrow> b = 0 \<or> 512 \<le> b \<and> b \<le> 2 ^ 63"

lemma input_loop_line:
  assumes "CHR 0x00 \<notin> set l" "NL \<notin> set l" "length buf + length l < 2 ^ 62" "length buf < b" "512 \<le> b" "b \<le> 2 ^ 63"
  shows "\<exists>b'. input_loop (l @ NL # rest) buf b = Some (rest, buf @ l @ [NL], b') \<and> 512 \<le> b' \<and> b' \<le> 2 ^ 63"
  using assms
proof (induction "length l" arbitrary: l buf b rule: less_induct)
  case less
  obtain sbuf fp where f: "fgets512 (l @ NL # rest) = Some (sbuf, fp)" by (simp add: fgets512_def Let_def)
  note r = fgets512_rest [OF f]
  let ?b = "doubled b (length buf + length sbuf)"
  have b: "length buf + length sbuf < ?b" "512 \<le> ?b" "?b \<le> 2 ^ 63" if "length buf + length sbuf \<le> 2 ^ 62"
    using less.prems(4-6) r(3) that by (auto simp: doubled_def SIZE_MAX_def)
  show ?case
  proof (cases "last sbuf = NL")
    case True
    with r(2) have "sbuf = butlast sbuf @ [NL]" by (metis append_butlast_last_id)
    with r(1) have e: "l @ NL # rest = butlast sbuf @ NL # fp" by (metis append.assoc append_Cons append_Nil)
    from arg_cong [OF e, of "memchr NL"] less.prems(2) r(5) have "length l = length (butlast sbuf)" by simp
    with e have l: "l = butlast sbuf" "rest = fp" by auto
    with \<open>sbuf = _\<close> have s: "sbuf = l @ [NL]" by simp
    with less.prems(1) have "cstr sbuf = sbuf" by (intro cstr_same) auto
    with f s b less.prems(3) True show ?thesis by (subst input_loop.simps) (simp add: l(2))
  next
    case False
    then have n: "NL \<notin> set sbuf" using r(2,5) by (metis UnE append_butlast_last_id empty_iff insertE list.set set_append)
    have "length sbuf \<le> length l"
    proof (rule ccontr)
      assume "\<not> ?thesis"
      then have g: "length l < length sbuf" by simp
      then have "sbuf ! length l = NL" using r(1) by (metis nth_append nth_append_length)
      with n g show False by (metis nth_mem)
    qed
    then have "take (length sbuf) l = sbuf" "fp = drop (length sbuf) l @ NL # rest"
      using r(1) by (auto simp: append_eq_append_conv_if split: if_splits)
    then obtain l' where l: "l = sbuf @ l'" "fp = l' @ NL # rest" by (metis append_take_drop_id)
    have "cstr sbuf = sbuf" using less.prems(1) l by (intro cstr_same) auto
    moreover have "\<exists>b'. input_loop (l' @ NL # rest) (buf @ sbuf) ?b = Some (rest, (buf @ sbuf) @ l' @ [NL], b') \<and> 512 \<le> b' \<and> b' \<le> 2 ^ 63"
      by (rule less.hyps) (use less.prems l r(2) b in auto)
    ultimately show ?thesis using f r(2) False b less.prems(3) l by (subst input_loop.simps) (simp add: Let_def)
  qed
qed

lemma get_line:
  assumes "CHR 0x00 \<notin> set l" "NL \<notin> set l" "length l < 2 ^ 62" "buf_ok (cl_bufsize st)"
  shows "\<exists>b. get_input_line False (l @ NL # rest) st = Some (rest, st\<lparr>cl_bufsize := b\<rparr>, Some l) \<and> buf_ok b"
proof -
  let ?b = "if cl_bufsize st = 0 then 512 else cl_bufsize st"
  from assms(4) have "0 < ?b" "512 \<le> ?b" "?b \<le> 2 ^ 63" by (auto simp: buf_ok_def)
  with input_loop_line [OF assms(1,2), of "[]" ?b rest] assms(3) obtain b where
    "input_loop (l @ NL # rest) [] ?b = Some (rest, l @ [NL], b)" "512 \<le> b" "b \<le> 2 ^ 63" by fastforce
  then show ?thesis by (intro exI [of _ b]) (simp add: get_input_line_def buf_ok_def)
qed

lemma get_line_end: "\<exists>b. get_input_line False [] st = Some ([], st\<lparr>cl_bufsize := b\<rparr>, None)"
  by (rule exI [of _ "if cl_bufsize st = 0 then 512 else cl_bufsize st"]) (simp add: get_input_line_def input_loop.simps fgets512_def)

section \<open>Queries\<close>

lemma smapc_query_reply:
  assumes "ce_alloc ev = (\<lambda>_. True)" "in_plain s" "out_state s []" "ss_holds (str_dev s) (r @ NL # rest)"
    and "NL \<notin> set r" "CHR 0x00 \<notin> set r" "length r < 2 ^ 61" "NL \<notin> set (request q)" "CHR 0x00 \<notin> set (request q)" "length (request q) < 511"
  shows "\<exists>s' n. smapc_query ev s (fst q) (snd q) st = Some (cl_print (r @ [NL]) (st\<lparr>cl_iostr := Some s', cl_replsize := n\<rparr>))
    \<and> in_plain s' \<and> out_state s' [] \<and> ss_holds (str_dev s') rest \<and> wire_of s' = wire_of s @ [frame (request q)]"
proof -
  from sockmap_write_part [OF assms(3), of "request q @ [NL]" "ce_junk ev"] assms(8,10) obtain s1 where
    w: "smap_stream_write (sockmap_ops (\<lambda>_. True) (ce_junk ev)) s (request q @ [NL]) False = Some (s1, E0, Some (length (request q) + 1))"
    "ss_in (str_dev s1) = ss_in (str_dev s)" "in_plain s1" "out_state s1 []" "wire_of s1 = wire_of s @ [frame (request q)]"
    using assms(2) by auto
  from w(2) assms(4) have "ss_holds (str_dev s1) (r @ NL # rest)" by (simp add: ss_holds_def)
  from ss.getline_line [OF w(3) this assms(5,7), of "ce_junk ev" "cl_replsize st"] obtain s2 n where
    g: "smap_stream_getline (sockmap_ops (\<lambda>_. True) (ce_junk ev)) s1 (cl_replsize st) = Some (s2, E0, r @ [NL], n)"
    "in_plain s2" "ss_holds (str_dev s2) rest" "ss.same_rest s1 s2" "length r + 1 < n" by auto
  have "out_state s2 []" "wire_of s2 = wire_of s1"
    using w(4) g(2,4) by (auto simp: ss.same_rest_def out_state_def in_plain_def)
  moreover have "cstr (r @ [NL]) = r @ [NL]" using assms(6) by (intro cstr_same) auto
  moreover have "smap_stream_printf (client_ops ev) (request q @ [NL]) (ce_alloc ev) s = Some (s1, Inr (int (length (request q) + 1)))"
    using stream_printf_short [of "request q @ [NL]" "client_ops ev" s] assms(1,9,10) w(1) by simp
  ultimately show ?thesis
    using w(5) g assms(1) by (auto simp: smapc_query_def request_def)
qed

text \<open>A line that is not a command, and the query it stands for.\<close>

definition client_command :: "char \<Rightarrow> string \<Rightarrow> bool" where
  "client_command pf l \<longleftrightarrow> l \<noteq> [] \<and> (hd l = CHR ''?'' \<or> hd l = pf)"

definition typed_query :: "string option \<Rightarrow> string \<Rightarrow> (string \<times> string) option" where
  "typed_query cm l = (let p = dropWhile isspace l in if p = [] \<or> hd p = CHR ''#'' then None else line_query cm p)"

lemma eval_line_query:
  assumes "cl_cmdprefix st = Some pf" "\<not> client_command pf l" "cl_iostr st = Some s"
  shows "eval_line ev l fw st =
    (case typed_query (cl_curmap st) l of
       None \<Rightarrow> Some (fw, st, False)
     | Some (mp, key) \<Rightarrow> do { st \<leftarrow> smapc_query ev s mp key st; Some (fw, st, False) })"
  using assms
  by (cases l) (auto simp: eval_line_def client_command_def typed_query_def Let_def split: option.split)

lemma read_eval_queries:
  assumes "ce_alloc ev = (\<lambda>_. True)" "\<forall>l \<in> set ls. NL \<notin> set l \<and> CHR 0x00 \<notin> set l \<and> length l < 2 ^ 62 \<and> \<not> client_command pf l"
    and "cl_cmdprefix st = Some pf" "cl_curmap st = cm" "buf_ok (cl_bufsize st)"
    and "cl_iostr st = Some s" "in_plain s" "out_state s []" "ss_holds (str_dev s) (concat (map (\<lambda>r. r @ [NL]) rs))"
    and "length rs = length (List.map_filter (typed_query cm) ls)" "\<forall>r \<in> set rs. NL \<notin> set r \<and> CHR 0x00 \<notin> set r \<and> length r < 2 ^ 61"
    and "\<forall>q \<in> set (List.map_filter (typed_query cm) ls). NL \<notin> set (request q) \<and> CHR 0x00 \<notin> set (request q) \<and> length (request q) < 511"
  shows "\<exists>st' s'. read_eval_from ev False (concat (map (\<lambda>l. l @ [NL]) ls)) fw st = Some st' \<and> cl_iostr st' = Some s'
    \<and> cl_stdout st' = cl_stdout st @ concat (map (\<lambda>r. r @ [NL]) rs)
    \<and> wire_of s' = wire_of s @ map frame (map request (List.map_filter (typed_query cm) ls))"
  using assms(2-)
proof (induction ls arbitrary: st s rs)
  case Nil
  from get_line_end [of st] obtain b where "get_input_line False [] st = Some ([], st\<lparr>cl_bufsize := b\<rparr>, None)" ..
  with Nil show ?case by (subst read_eval_from.simps) simp
next
  case (Cons l ls)
  let ?rest = "concat (map (\<lambda>l. l @ [NL]) ls)"
  from get_line [of l st ?rest] Cons.prems(1,4) obtain b where
    g: "get_input_line False (l @ NL # ?rest) st = Some (?rest, st\<lparr>cl_bufsize := b\<rparr>, Some l)" "buf_ok b" by auto
  let ?st = "st\<lparr>cl_bufsize := b\<rparr>"
  note e = eval_line_query [of ?st pf l s ev fw]
  show ?case
  proof (cases "typed_query cm l")
    case None
    then have m: "List.map_filter (typed_query cm) (l # ls) = List.map_filter (typed_query cm) ls" by (simp add: map_filter_simps)
    from Cons.IH [of ?st s rs] Cons.prems g(2) m
    show ?thesis using g(1) e None by (subst read_eval_from.simps) simp
  next
    case (Some q)
    then have m: "List.map_filter (typed_query cm) (l # ls) = q # List.map_filter (typed_query cm) ls" by (simp add: map_filter_simps)
    from Cons.prems(9) m obtain r rs' where rs: "rs = r # rs'" by (cases rs) auto
    from smapc_query_reply [OF assms(1) Cons.prems(6,7), of r "concat (map (\<lambda>r. r @ [NL]) rs')" q ?st] Cons.prems(8,10,11) rs m obtain s' n where
      q: "smapc_query ev s (fst q) (snd q) ?st = Some (cl_print (r @ [NL]) (?st\<lparr>cl_iostr := Some s', cl_replsize := n\<rparr>))"
      "in_plain s'" "out_state s' []" "ss_holds (str_dev s') (concat (map (\<lambda>r. r @ [NL]) rs'))" "wire_of s' = wire_of s @ [frame (request q)]"
      by auto
    let ?st' = "cl_print (r @ [NL]) (?st\<lparr>cl_iostr := Some s', cl_replsize := n\<rparr>)"
    from Cons.IH [of ?st' s' rs'] Cons.prems g(2) q rs m obtain st'' s'' where
      "read_eval_from ev False ?rest fw ?st' = Some st''" "cl_iostr st'' = Some s''"
      "cl_stdout st'' = cl_stdout ?st' @ concat (map (\<lambda>r. r @ [NL]) rs')"
      "wire_of s'' = wire_of s' @ map frame (map request (List.map_filter (typed_query cm) ls))"
      by (auto simp: cl_print_def)
    then show ?thesis using g(1) e Some Cons.prems q rs m
      by (subst read_eval_from.simps) (auto simp: cl_print_def case_prod_unfold)
  qed
qed

section \<open>The name of the server\<close>

text \<open>The name of the server is known exactly while there is a connection.\<close>

definition conn_named :: "'w smapc \<Rightarrow> bool" where
  "conn_named st \<longleftrightarrow> (cl_iostr st = None \<longleftrightarrow> cl_curserver st = None)"

lemma cl_print_simps [simp]:
  "cl_iostr (cl_print t st) = cl_iostr st" "cl_curserver (cl_print t st) = cl_curserver st" "cl_cmdprefix (cl_print t st) = cl_cmdprefix st"
  by (simp_all add: cl_print_def)

lemma smapc_close_named: "smapc_close ev st = Some st' \<Longrightarrow> conn_named st \<Longrightarrow> conn_named st' \<and> cl_iostr st' = None"
  by (auto simp: smapc_close_def conn_named_def bind_eq_Some_conv split: option.splits)

lemma smapc_connect_named: "smapc_connect ev url st = Some st' \<Longrightarrow> conn_named st \<Longrightarrow> conn_named st'"
  by (auto simp: smapc_connect_def conn_named_def bind_eq_Some_conv Let_def dest!: smapc_close_named split: if_splits prod.splits option.splits)

lemma smapc_query_named: "smapc_query ev s mp key st = Some st' \<Longrightarrow> cl_iostr st \<noteq> None \<Longrightarrow> conn_named st \<Longrightarrow> conn_named st'"
  by (auto simp: smapc_query_def conn_named_def bind_eq_Some_conv Let_def split: if_splits)

lemma run_cmd_named:
  assumes "run_cmd ev f args st = Some (st', stop)" "conn_named st"
  shows "conn_named st'"
proof (cases f)
  case cmd_open
  with assms show ?thesis by (auto simp: run_cmd_def bind_eq_Some_conv dest: smapc_connect_named)
next
  case cmd_close
  with assms show ?thesis by (auto simp: run_cmd_def bind_eq_Some_conv dest: smapc_close_named)
qed (use assms in \<open>auto simp: run_cmd_def conn_named_def bind_eq_Some_conv split: list.splits option.splits if_splits bool.splits prod.splits\<close>)

lemma eval_line_named:
  assumes "eval_line ev p fw st = Some (fw', st', stop)" "conn_named st"
  shows "conn_named st'"
proof (cases "take 1 p = ''?''")
  case True
  with assms show ?thesis by (auto simp: eval_line_def conn_named_def)
next
  case False
  show ?thesis
  proof (cases "cl_cmdprefix st = None \<or> p \<noteq> [] \<and> cl_cmdprefix st = Some (hd p)")
    case True
    define r where "r = wordsplit (snd fw) (if cl_cmdprefix st = None then p else tl p) (fst fw)"
    have e: "eval_line ev p fw st = do { r \<leftarrow> r;
        (case r of Inl e \<Rightarrow> Some (fw, st, True)
         | Inr ws \<Rightarrow>
             let fw = (setfl (fst fw) WRDSF_REUSE, ws) in
             if ws_wordc ws \<noteq> 0 then do { (st, stop) \<leftarrow> handle_command ev (ws_result ws) st; Some (fw, st, stop) }
             else Some (fw, st, False)) }"
      unfolding eval_line_def r_def using True False by (simp only: if_True if_False)
    have "st' = st \<or> (\<exists>words. handle_command ev words st = Some (st', stop))"
    proof (cases r)
      case (Some x)
      with assms(1) [unfolded e] show ?thesis by (cases x) (auto simp: Let_def bind_eq_Some_conv split: if_splits)
    qed (use e assms(1) in simp)
    with assms(2) show ?thesis
      by (auto simp: handle_command_def bind_eq_Some_conv dest: run_cmd_named split: option.splits if_splits list.splits)
  next
    case F: False
    with False assms show ?thesis
      by (auto simp: eval_line_def Let_def bind_eq_Some_conv dest: smapc_query_named split: if_splits option.splits prod.splits)
  qed
qed

lemma get_input_line_named:
  assumes "get_input_line i fp st = Some (fp', st', p)"
  shows "conn_named st' = conn_named st"
proof -
  from assms have "cl_iostr st' = cl_iostr st \<and> cl_curserver st' = cl_curserver st"
    by (cases i) (auto simp: get_input_line_def bind_eq_Some_conv)
  then show ?thesis by (simp add: conn_named_def)
qed

lemma read_eval_named: "read_eval_from ev i fp fw st = Some st' \<Longrightarrow> conn_named st \<Longrightarrow> conn_named st'"
proof (induction "length fp" arbitrary: fp fw st rule: less_induct)
  case less
  from less.prems(1) obtain fp1 st1 p where g: "get_input_line i fp st = Some (fp1, st1, p)"
    by (subst (asm) read_eval_from.simps) (auto simp: bind_eq_Some_conv)
  with less.prems(2) have n: "conn_named st1" by (simp add: get_input_line_named)
  show ?case
  proof (cases p)
    case None
    with less.prems(1) g n show ?thesis by (subst (asm) read_eval_from.simps) simp
  next
    case (Some l)
    with less.prems(1) g obtain fw2 st2 stop where e: "eval_line ev l fw st1 = Some (fw2, st2, stop)"
      "(if stop then Some st2 else read_eval_from ev i fp1 fw2 st2) = Some st'"
      by (subst (asm) read_eval_from.simps) (auto simp: bind_eq_Some_conv)
    from eval_line_named [OF e(1) n] less.hyps [OF get_input_line_shorter [OF g [unfolded Some]]] e(2) show ?thesis
      by (auto split: if_splits)
  qed
qed

lemma smapc_config_named:
  assumes "smapc_config ev st = Some st'" "conn_named st"
  shows "conn_named st'" "cl_cmdprefix st' = cl_cmdprefix st"
proof -
  have "conn_named (st\<lparr>cl_cmdprefix := c\<rparr>) = conn_named st" for c and st :: "'a smapc" by (simp add: conn_named_def)
  with assms show "conn_named st'" "cl_cmdprefix st' = cl_cmdprefix st"
    by (auto simp: smapc_config_def read_eval_loop_def bind_eq_Some_conv dest!: read_eval_named split: option.splits)
qed

section \<open>Faults\<close>

text \<open>A connection that fails counts as a server that was not given: with two arguments the program never ends with
  \<open>EX_UNAVAILABLE\<close>.\<close>

lemma failed_connection_usage:
  assumes "conn_named st" "smapc_main ev norc so batch tty i [mp, key] st = Some (st', rc)"
  shows "rc \<noteq> EX_UNAVAILABLE"
proof -
  obtain s1 where s1: "(if norc then Some st else smapc_config ev st) = Some s1" "conn_named s1"
    using assms smapc_config_named(1) by (auto simp: smapc_main_def bind_eq_Some_conv split: if_splits)
  define s2 where "s2 = (if cl_prompt s1 = None then s1\<lparr>cl_prompt := Some (True, ''(smapc) '')\<rparr> else s1)"
  have "conn_named s2" using s1(2) by (simp add: s2_def conn_named_def)
  moreover obtain s3 where s3: "(case so of Some u \<Rightarrow> smapc_connect ev u s2 | None \<Rightarrow> Some s2) = Some s3"
    using assms(2) s1(1) unfolding s2_def by (auto simp: smapc_main_def bind_eq_Some_conv Let_def)
  ultimately have "conn_named s3" using smapc_connect_named by (cases so) auto
  with assms(2) s1(1) s3 show ?thesis
    by (auto simp: smapc_main_def s2_def Let_def conn_named_def bind_eq_Some_conv split: option.splits if_splits)
qed

text \<open>A prefix that the initialization file sets is forgotten at its end.\<close>

lemma config_prefix_forgotten: "smapc_config ev st = Some st' \<Longrightarrow> cl_cmdprefix st' = cl_cmdprefix st"
  by (auto simp: smapc_config_def bind_eq_Some_conv split: option.splits)

text \<open>The last line of a file loses a character if no newline follows it.\<close>

lemma last_character_lost: "cl_bufsize st = 0 \<Longrightarrow> map_option (snd o snd) (get_input_line False ''.map users'' st) = Some (Some ''.map user'')"
  by (simp add: get_input_line_def input_loop.simps fgets512_def cstr_def doubled_def)

text \<open>The command \<open>prompt\<close> releases the argument of the option \<open>-p\<close>, and an empty prefix is read behind its end.\<close>

lemma prompt_frees_argument: "cl_prompt st = Some (False, x) \<Longrightarrow> handle_command ev [''prompt'', p] st = None"
  by (simp add: handle_command_def smapc_cmd_find_def smapc_cmd_tab_def run_cmd_def)

lemma empty_prefix_overrun: "handle_command ev [''prefix'', []] st = None"
  by (simp add: handle_command_def smapc_cmd_find_def smapc_cmd_tab_def run_cmd_def)

text \<open>A longer request is formatted with arguments that have been used up.\<close>

lemma long_request_undefined:
  assumes "ce_alloc ev = (\<lambda>_. True)" "511 \<le> length mp + 1 + length key"
  shows "smapc_query ev s mp key st = None"
  using assms stream_printf_long [of "mp @ '' '' @ key @ [NL]" "client_ops ev" s] by (simp add: smapc_query_def)

section \<open>Client and server\<close>

lemma one_lines_text: "list_all2 one_line outs as \<Longrightarrow> concat (map (\<lambda>a. a @ [NL]) as) = concat (map concat outs)"
  by (induction rule: list_all2_induct) (simp_all add: one_line_def)

lemma one_line_unique: "one_line out a \<Longrightarrow> one_line out b \<Longrightarrow> a = b"
  by (auto simp: one_line_def)

text \<open>C2. From the keyboard to the databases and back.  A client without a command prefix in its input reads lines; those that are not empty and not comments are
  queries, with the current map or with the map as their first word, of at most 510 bytes, which is what \<open>smap_stream_printf\<close> can send.  Let the packets it sends be delivered to a
  server with linked rules, and those of the server to the client, each packet in blocks of any sizes and no block with bytes of two packets.  Then the client sends exactly the requests that were typed, in order, and
  prints exactly the lines that the dispatcher of the server produces for them.\<close>

theorem client_server:
  assumes "ids_distinct ms" "databases_ready ms" "list_all (rule_linked ms) rules"
    and "ce_alloc ev = (\<lambda>_. True)" "cl_cmdprefix st = Some pf" "cl_curmap st = cm" "buf_ok (cl_bufsize st)" "cl_iostr st = Some c"
    and "\<forall>l \<in> set ls. NL \<notin> set l \<and> CHR 0x00 \<notin> set l \<and> length l < 2 ^ 62 \<and> \<not> client_command pf l"
    and "qs = List.map_filter (typed_query cm) ls" "\<forall>q \<in> set qs. good_request q \<and> length (request q) < 511"
    and "smap_sockmap_stream_create (\<lambda>_. True) junk (True, True, True) fd SMAP_STREAM_NO_CLOSE ievs [] crc = Some (E0, Some s)"
    and "delivered (map frame (map request qs)) ievs"
    and "\<forall>ms1 outs. dispatch_queries env rules (map (\<lambda>q. (sid, ci, q)) qs) ms = Some (ms1, outs) \<longrightarrow>
      (\<forall>out \<in> set outs. \<exists>a. one_line out a \<and> CHR 0x00 \<notin> set a \<and> length a < 2 ^ 61)"
    and "smap_sockmap_stream_create (\<lambda>_. True) junk' (True, True, True) fd' 0 cevs [] crc' = Some (E0, Some c)"
    and "\<forall>s' ms2. smap_loop (\<lambda>_. True) junk env rules s sid ci ms = Some (s', ms2, LoopReturn 0) \<longrightarrow> delivered (wire_of s') cevs"
  shows "\<exists>ms1 outs st' c'. dispatch_queries env rules (map (\<lambda>q. (sid, ci, q)) qs) ms = Some (ms1, outs)
    \<and> read_eval_loop ev (concat (map (\<lambda>l. l @ [NL]) ls)) False st = Some st' \<and> cl_iostr st' = Some c'
    \<and> wire_of c' = map frame (map request qs) \<and> cl_stdout st' = cl_stdout st @ concat (map concat outs)"
proof -
  from assms(14) have "\<forall>ms1 outs. dispatch_queries env rules (map (\<lambda>q. (sid, ci, q)) qs) ms = Some (ms1, outs) \<longrightarrow>
      (\<forall>out \<in> set outs. \<exists>a. one_line out a)" by blast
  from session_runs [OF assms(1-3) _ assms(12,13) this] assms(11) obtain ms1 outs as s' ms2 where
    r: "dispatch_queries env rules (map (\<lambda>q. (sid, ci, q)) qs) ms = Some (ms1, outs)" "list_all2 one_line outs as"
    "smap_loop (\<lambda>_. True) junk env rules s sid ci ms = Some (s', ms2, LoopReturn 0)" "wire_of s' = map frame as" "length as = length qs"
    by blast
  have as: "\<forall>a \<in> set as. NL \<notin> set a \<and> CHR 0x00 \<notin> set a \<and> length a < 2 ^ 61"
  proof
    fix a assume "a \<in> set as"
    with r(2) obtain out where "out \<in> set outs" "one_line out a" by (metis list_all2_conv_all_nth in_set_conv_nth)
    with assms(14) r(1) one_line_unique show "NL \<notin> set a \<and> CHR 0x00 \<notin> set a \<and> length a < 2 ^ 61"
      by (metis one_line_def)
  qed
  then have sm: "\<forall>a \<in> set as. length a < 10 ^ 19" "\<forall>a \<in> set as. length a < SIZE_MAX" by (auto simp: SIZE_MAX_def)
  have f: "\<not> hasfl 0 STR_ERR" "\<not> hasfl 0 STR_EOF" by (simp_all add: in_flags)
  from assms(16) r(3,4) have "delivered (map frame as) cevs" by auto
  note i = sockmap_create_in [OF assms(15) delivered_carries [OF this sm(1)] sm(2)]
  note o = sockmap_create_out [OF assms(15) f(1)]
  have "\<forall>q \<in> set qs. NL \<notin> set (request q) \<and> CHR 0x00 \<notin> set (request q) \<and> length (request q) < 511" using assms(11) by (simp add: good_request_def)
  from read_eval_queries [OF assms(4,9,5,6,7,8) i(2) [OF f] o(1) i(1) _ as, of "(smapc_flags, cmd_ws)"] this r(5) assms(10) o(2)
  obtain st' c' where "read_eval_from ev False (concat (map (\<lambda>l. l @ [NL]) ls)) (smapc_flags, cmd_ws) st = Some st'" "cl_iostr st' = Some c'"
    "cl_stdout st' = cl_stdout st @ concat (map (\<lambda>r. r @ [NL]) as)" "wire_of c' = map frame (map request qs)" by auto
  with r(1) one_lines_text [OF r(2)] show ?thesis by (auto simp: read_eval_loop_def)
qed

section \<open>Example\<close>

definition demo_client :: "sockmap_stream smap_stream \<Rightarrow> unit smapc" where
  "demo_client c = \<lparr>cl_world = (), cl_stdout = [], cl_prompt = None, cl_cmdprefix = Some (CHR ''.''), cl_curmap = None, cl_curserver = Some ''/s'',
     cl_iostr = Some c, cl_source_addr = 0, cl_quiet_startup = True,
     cl_debug = \<lparr>debug_max = 0, dbg_cap = 0, debug_level = [], global_debug_level = 0\<rparr>, cl_replsize = 0, cl_bufsize = 0\<rparr>"

definition demo_env :: "unit client_env" where
  "demo_env = \<lparr>ce_url = \<lparr>ue_alloc = \<lambda>_. True, ue_service = Map.empty, ue_host = Map.empty\<rparr>, ce_socket = \<lambda>w _. (w, 3), ce_bind = \<lambda>w _ _. (w, True),
     ce_connect = \<lambda>w _ _. (w, True), ce_close = \<lambda>w _. w, ce_sock = \<lambda>_ _. ([], [], E0), ce_alloc = \<lambda>_. True, ce_junk = 0, ce_granted = (True, True, True),
     ce_aton = Map.empty, ce_ntoa = \<lambda>_. ''0.0.0.0'', ce_version = \<lambda>_. [], ce_banner = [], ce_home = None, ce_pwdir = None, ce_progname = ''smapc'',
     ce_fopen = Map.empty\<rparr>"

definition demo_server_evs :: "sockev list" where
  "demo_server_evs = [SockData ''9:users'', SockData '' bob,'', SockData ''9:other bob,'']"

definition demo_client_evs :: "sockev list" where
  "demo_client_evs = [SockData ''2:OK,'', SockData ''8:NOT'', SockData ''FOUND,'']"

lemma demo_stream: "\<exists>s. smap_sockmap_stream_create (\<lambda>_. True) 0 (True, True, True) 3 fl evs [] E0 = Some (E0, Some s)"
  by (simp add: smap_sockmap_stream_create_def smap_sockmap_stream_create2_def
      smap_sockmap_output_stream_create_def smap_sockmap_input_stream_create_def smap_stream_create_def
      smap_stream_set_buffer_def smap_stream_ref_def sockmap_in_ops_def sockmap_out_ops_def no_ops_def Let_def)

lemma demo_deliveries:
  "delivered [''9:users bob,'', ''9:other bob,''] demo_server_evs" "delivered [''2:OK,'', ''8:NOTFOUND,''] demo_client_evs"
proof -
  have "flows demo_server_evs (''9:users'' @ '' bob,'' @ []) [SockData ''9:other bob,'']"
    "flows [SockData ''9:other bob,''] (''9:other bob,'' @ []) []"
    "flows demo_client_evs (''2:OK,'' @ []) [SockData ''8:NOT'', SockData ''FOUND,'']"
    "flows [SockData ''8:NOT'', SockData ''FOUND,''] (''8:NOT'' @ ''FOUND,'' @ []) []"
    unfolding demo_server_evs_def demo_client_evs_def by (intro flows_block flows_nil; simp)+
  then show "delivered [''9:users bob,'', ''9:other bob,''] demo_server_evs" "delivered [''2:OK,'', ''8:NOTFOUND,''] demo_client_evs" by auto
qed

lemma demo_typed:
  "List.map_filter (typed_query None) [''users bob'', ''# comment'', ''other  bob''] = [(''users'', ''bob''), (''other'', ''bob'')]"
  by (simp add: map_filter_simps typed_query_def line_query_def isspace_def)

lemma demo_frames: "map frame (map request [(''users'', ''bob''), (''other'', ''bob'')]) = [''9:users bob,'', ''9:other bob,'']"
  "map frame [''OK'', ''NOTFOUND''] = [''2:OK,'', ''8:NOTFOUND,'']"
  by code_simp+

text \<open>The session of the example server: its answers and its packets.\<close>

lemma demo_outs:
  assumes "dispatch_queries no_env echo_linked (map (\<lambda>q. (''main'', no_conn, q)) [(''users'', ''bob''), (''other'', ''bob'')]) echo_ready
      = Some (ms1, outs)" "out \<in> set outs"
  shows "\<exists>a. one_line out a \<and> CHR 0x00 \<notin> set a \<and> length a < 2 ^ 61"
proof -
  have "one_line [''OK'', [NL]] ''OK''" "one_line [''NOTFOUND'' @ [NL]] ''NOTFOUND''" by (simp_all add: one_line_def)
  with assms(2) show ?thesis unfolding echo_linked_eval(3) [OF assms(1)] by fastforce
qed

lemma demo_good: "\<forall>q \<in> set [(''users'', ''bob''), (''other'', ''bob'')]. good_request q"
  by (simp add: good_request_def request_def)

lemma demo_session:
  assumes "smap_sockmap_stream_create (\<lambda>_. True) 0 (True, True, True) 3 SMAP_STREAM_NO_CLOSE demo_server_evs [] E0 = Some (E0, Some s)"
    and "smap_loop (\<lambda>_. True) 0 no_env echo_linked s ''main'' no_conn echo_ready = Some (s', ms2, LoopReturn 0)"
  shows "delivered (wire_of s') demo_client_evs"
proof -
  have dist: "ids_distinct echo_ready" by (simp add: echo_ready_eval ids_distinct_def)
  have "\<forall>ms1 outs. dispatch_queries no_env echo_linked (map (\<lambda>q. (''main'', no_conn, q)) [(''users'', ''bob''), (''other'', ''bob'')]) echo_ready
      = Some (ms1, outs) \<longrightarrow> (\<forall>out \<in> set outs. \<exists>a. one_line out a)" using demo_outs by blast
  from session_runs [OF dist echo_ready_ok(1) echo_linked_eval(2) demo_good assms(1) _ this] demo_deliveries(1) assms(2) obtain ms1 outs as where
    r: "dispatch_queries no_env echo_linked (map (\<lambda>q. (''main'', no_conn, q)) [(''users'', ''bob''), (''other'', ''bob'')]) echo_ready = Some (ms1, outs)"
    "list_all2 one_line outs as" "wire_of s' = map frame as" unfolding demo_frames(1) by auto
  from r(2) have "as = [''OK'', ''NOTFOUND'']"
    unfolding echo_linked_eval(3) [OF r(1)] by (auto simp: one_line_def list_all2_Cons1)
  with r(3) demo_frames(2) demo_deliveries(2) show ?thesis by simp
qed

theorem client_server_witness:
  "\<exists>c st'. smap_sockmap_stream_create (\<lambda>_. True) 0 (True, True, True) 3 0 demo_client_evs [] E0 = Some (E0, Some c)
    \<and> read_eval_loop demo_env (''users bob'' @ [NL] @ ''# comment'' @ [NL] @ ''other  bob'' @ [NL]) False (demo_client c) = Some st'
    \<and> cl_stdout st' = ''OK'' @ [NL] @ ''NOTFOUND'' @ [NL]"
proof -
  let ?ls = "[''users bob'', ''# comment'', ''other  bob'']" and ?qs = "[(''users'', ''bob''), (''other'', ''bob'')]"
  obtain s where s: "smap_sockmap_stream_create (\<lambda>_. True) 0 (True, True, True) 3 SMAP_STREAM_NO_CLOSE demo_server_evs [] E0 = Some (E0, Some s)"
    using demo_stream by blast
  obtain c where c: "smap_sockmap_stream_create (\<lambda>_. True) 0 (True, True, True) 3 0 demo_client_evs [] E0 = Some (E0, Some c)"
    using demo_stream by blast
  have d: "ids_distinct echo_ready" by (simp add: echo_ready_eval ids_distinct_def)
  have st: "ce_alloc demo_env = (\<lambda>_. True)" "cl_cmdprefix (demo_client c) = Some (CHR ''.'')" "cl_curmap (demo_client c) = None"
    "buf_ok (cl_bufsize (demo_client c))" "cl_iostr (demo_client c) = Some c"
    by (simp_all add: demo_env_def demo_client_def buf_ok_def)
  have ls: "\<forall>l \<in> set ?ls. NL \<notin> set l \<and> CHR 0x00 \<notin> set l \<and> length l < 2 ^ 62 \<and> \<not> client_command (CHR ''.'') l"
    by (simp add: client_command_def)
  have dl: "delivered (map frame (map request ?qs)) demo_server_evs" unfolding demo_frames(1) by (rule demo_deliveries(1))
  have gd: "\<forall>q \<in> set ?qs. good_request q \<and> length (request q) < 511" using demo_good by (simp add: request_def)
  from client_server [OF d echo_ready_ok(1) echo_linked_eval(2) st ls demo_typed [symmetric] gd s dl _ c, of no_env "''main''" no_conn]
    demo_outs demo_session [OF s] obtain ms1 outs st' where
    r: "dispatch_queries no_env echo_linked (map (\<lambda>q. (''main'', no_conn, q)) ?qs) echo_ready = Some (ms1, outs)"
    "read_eval_loop demo_env (concat (map (\<lambda>l. l @ [NL]) ?ls)) False (demo_client c) = Some st'"
    "cl_stdout st' = cl_stdout (demo_client c) @ concat (map concat outs)" by blast
  from r(3) have "cl_stdout st' = ''OK'' @ [NL] @ ''NOTFOUND'' @ [NL]"
    unfolding echo_linked_eval(3) [OF r(1)] by (simp add: demo_client_def)
  with c r(2) show ?thesis by auto
qed

end
