(* ===== verification/Smap_Diag.thy ===== *)
theory Smap_Diag
  imports Smap_Fileout Smap_Printf
begin

text \<open>
  Diagnostics: the stream that filters traces (\<open>lib/tracestr.c\<close>), the one that records a dialogue (\<open>lib/xscript.c\<close>), the one for \<open>syslog\<close> (\<open>lib/syslogstr.c\<close>), error
  messages (\<open>lib/diag.c\<close>), the set-up of the logs (\<open>src/log.c\<close>, \<open>lib/stderr.c\<close>, \<open>lib/syslog.c\<close>), the name of the program
  (\<open>lib/progname.c\<close>) and the closing of descriptors (\<open>src/close-fds.c\<close>).  The streams stand on top of other streams, which are part of
  their devices.  A result \<open>None\<close> is an access outside of memory, the end of the process by \<open>abort\<close>, or a call that does not return.
\<close>

section \<open>The trace stream\<close>

record 't trace_stream =
  tr_pfxv :: "string list"
  tr_transport :: "'t smap_stream option"

text \<open>What follows the marker and blanks.  The byte after an equals sign and those after the marker are read even if they are behind the block.\<close>

function find_resp_marker :: "string \<Rightarrow> string option option" where
  "find_resp_marker buf =
     (case memchr (CHR ''='') buf of
        None \<Rightarrow> Some None
      | Some i \<Rightarrow>
          (case drop (i + 1) buf of
             [] \<Rightarrow> None
           | c # rest \<Rightarrow>
               if c = CHR ''>'' then
                 (case dropWhile (\<lambda>c. c = CHR '' '' \<or> c = CHR 0x09) rest of [] \<Rightarrow> None | r \<Rightarrow> Some (Some r))
               else find_resp_marker (c # rest)))"
  by pat_completeness auto

termination
proof (relation "measure length", goal_cases)
  case (2 buf i c rest)
  then have "length (c # rest) = length buf - (i + 1)" by (metis length_drop)
  moreover have "i < length buf" using 2 memchr_Some by blast
  ultimately show ?case by simp
qed simp

declare find_resp_marker.simps [simp del]

definition trace_free_pfx :: "'t trace_stream \<Rightarrow> 't trace_stream" where
  "trace_free_pfx tp = tp\<lparr>tr_pfxv := []\<rparr>"

definition trace_new_pfx :: "'t trace_stream \<Rightarrow> string list \<Rightarrow> 't trace_stream" where
  "trace_new_pfx tp args = tp\<lparr>tr_pfxv := args\<rparr>"

definition match_response :: "string list \<Rightarrow> string \<Rightarrow> bool" where
  "match_response pfxv resp = list_ex (\<lambda>p. length p \<le> length resp \<and> take (length p) resp = p) pfxv"

text \<open>A count that the transport does not assign comes with an error code.\<close>

definition trace_forward :: "'t stream_ops \<Rightarrow> 't trace_stream \<Rightarrow> string \<Rightarrow> ('t trace_stream \<times> errno \<times> nat) option" where
  "trace_forward tops tp buf = do {
     t \<leftarrow> tr_transport tp;
     (t, rc, n) \<leftarrow> smap_stream_write tops t buf True;
     Some (tp\<lparr>tr_transport := Some t\<rparr>, rc, case n of Some n \<Rightarrow> n | None \<Rightarrow> 0) }"

definition trace_write :: "'t stream_ops \<Rightarrow> 't trace_stream \<Rightarrow> string \<Rightarrow> ('t trace_stream \<times> errno \<times> nat) option" where
  "trace_write tops tp buf =
     (if tr_pfxv tp = [] then trace_forward tops tp buf
      else do {
        m \<leftarrow> find_resp_marker buf;
        (case m of
           None \<Rightarrow> trace_forward tops tp buf
         | Some p \<Rightarrow> if match_response (tr_pfxv tp) p then trace_forward tops tp buf else Some (tp, E0, length buf)) })"

definition trace_close :: "'t stream_ops \<Rightarrow> 't trace_stream \<Rightarrow> flagword \<Rightarrow> ('t trace_stream \<times> errno) option" where
  "trace_close tops tp fl =
     (if hasfl fl SMAP_STREAM_NO_CLOSE then Some (tp, E0)
      else (case tr_transport tp of
          None \<Rightarrow> Some (tp, EINVAL)
        | Some t \<Rightarrow> do { (t, rc) \<leftarrow> smap_stream_close tops t; Some (tp\<lparr>tr_transport := Some t\<rparr>, rc) }))"

text \<open>The requests of \<open>ioctl\<close>.  The first two pass streams.\<close>

definition trace_get_transport :: "'t trace_stream \<Rightarrow> bool \<Rightarrow> errno \<times> 't smap_stream option" where
  "trace_get_transport sp ptr = (if \<not> ptr then (EINVAL, None) else (E0, tr_transport sp))"

definition trace_set_transport :: "'t trace_stream \<Rightarrow> 't smap_stream option option \<Rightarrow> 't trace_stream \<times> errno" where
  "trace_set_transport sp ptr = (case ptr of None \<Rightarrow> (sp, EINVAL) | Some t \<Rightarrow> (sp\<lparr>tr_transport := t\<rparr>, E0))"

definition trace_ioctl :: "'t trace_stream \<Rightarrow> int \<Rightarrow> ioctl_arg \<Rightarrow> ('t trace_stream \<times> errno) option" where
  "trace_ioctl sp code arg =
     (if code \<in> {1, 2} then (case arg of ArgNull \<Rightarrow> Some (sp, EINVAL) | _ \<Rightarrow> None)
      else if code = 5 then
        (case arg of
           ArgNull \<Rightarrow> Some (sp, EINVAL)
         | ArgStrs args \<Rightarrow> Some (trace_new_pfx (trace_free_pfx sp) args, E0)
         | _ \<Rightarrow> None)
      else Some (sp, EINVAL))"

definition trace_destroy :: "'t stream_ops \<Rightarrow> 't trace_stream \<Rightarrow> flagword \<Rightarrow> 't trace_stream option" where
  "trace_destroy tops tp fl =
     (if hasfl fl SMAP_STREAM_NO_CLOSE then Some (trace_free_pfx tp)
      else (case tr_transport tp of
          None \<Rightarrow> Some (trace_free_pfx tp)
        | Some t \<Rightarrow> do {
            (t, freed) \<leftarrow> smap_stream_destroy tops t;
            Some (trace_free_pfx (tp\<lparr>tr_transport := if freed then None else Some t\<rparr>)) }))"

definition trace_flush :: "'t stream_ops \<Rightarrow> 't trace_stream \<Rightarrow> ('t trace_stream \<times> errno) option" where
  "trace_flush tops p =
     (case tr_transport p of
        None \<Rightarrow> Some (p, E0)
      | Some t \<Rightarrow> do { (t, rc) \<leftarrow> smap_stream_flush tops t; Some (p\<lparr>tr_transport := Some t\<rparr>, rc) })"

definition trace_ops :: "(nat \<Rightarrow> bool) \<Rightarrow> nat \<Rightarrow> 't stream_ops \<Rightarrow> 't trace_stream stream_ops" where
  "trace_ops alloc junk tops = (no_ops alloc junk)
     \<lparr>op_write := Some (trace_write tops), op_flush := Some (trace_flush tops), op_close := Some (trace_close tops),
      op_done := Some (trace_destroy tops), op_ctl := Some trace_ioctl\<rparr>"

text \<open>The allocation is not checked.\<close>

definition smap_trace_stream_create ::
  "(nat \<Rightarrow> bool) \<Rightarrow> nat \<Rightarrow> 't stream_ops \<Rightarrow> bool \<Rightarrow> 't smap_stream \<Rightarrow> (errno \<times> 't trace_stream smap_stream) option" where
  "smap_trace_stream_create alloc junk tops granted transport = do {
     s \<leftarrow> smap_stream_create granted SMAP_STREAM_WRITE \<lparr>tr_pfxv = [], tr_transport = Some transport\<rparr>;
     (s, _) \<leftarrow> smap_stream_set_buffer (trace_ops alloc junk tops) s smap_buffer_line 1024;
     Some (E0, s) }"

section \<open>The syslog stream\<close>

text \<open>The calls of \<open>syslog\<close> with the priority and the formatted message.\<close>

record syslog_stream =
  sl_prio :: int
  sl_pfx :: "string option"
  sl_log :: "(int \<times> string) list"

text \<open>The conversion \<open>%*.*s\<close> with the size as width and precision; blocks are smaller than \<open>INT_MAX\<close>.\<close>

definition format_block :: "string \<Rightarrow> string" where
  "format_block b = replicate (length b - length (cstr b)) (CHR '' '') @ cstr b"

definition syslog_stream_write :: "syslog_stream \<Rightarrow> string \<Rightarrow> (syslog_stream \<times> errno \<times> nat) option" where
  "syslog_stream_write lsp buf =
     (let b = (if buf \<noteq> [] \<and> last buf = NL then butlast buf else buf) in
      if b = [] then Some (lsp, E0, length buf)
      else
        let msg = (case sl_pfx lsp of Some pfx \<Rightarrow> ''['' @ pfx @ ''] '' @ format_block b | None \<Rightarrow> format_block b)
        in Some (lsp\<lparr>sl_log := sl_log lsp @ [(sl_prio lsp, msg)]\<rparr>, E0, length buf))"

definition syslog_stream_destroy :: "syslog_stream \<Rightarrow> flagword \<Rightarrow> syslog_stream option" where
  "syslog_stream_destroy lsp fl = Some (lsp\<lparr>sl_pfx := None\<rparr>)"

definition syslog_ops :: "(nat \<Rightarrow> bool) \<Rightarrow> nat \<Rightarrow> syslog_stream stream_ops" where
  "syslog_ops alloc junk = (no_ops alloc junk)\<lparr>op_write := Some syslog_stream_write, op_done := Some syslog_stream_destroy\<rparr>"

definition smap_syslog_stream_create ::
  "(nat \<Rightarrow> bool) \<Rightarrow> nat \<Rightarrow> bool \<Rightarrow> bool \<Rightarrow> int \<Rightarrow> string option \<Rightarrow> (errno \<times> syslog_stream smap_stream option) option" where
  "smap_syslog_stream_create alloc junk granted dup prio pfx =
     (case smap_stream_create granted SMAP_STREAM_WRITE \<lparr>sl_prio = prio, sl_pfx = pfx, sl_log = []\<rparr> of
        None \<Rightarrow> Some (ENOMEM, None)
      | Some str \<Rightarrow>
          if pfx \<noteq> None \<and> \<not> dup then Some (ENOMEM, None)
          else do {
            (str, _) \<leftarrow> smap_stream_set_buffer (syslog_ops alloc junk) str smap_buffer_line 1024;
            Some (E0, Some str) })"

section \<open>The transcript stream\<close>

abbreviation (input) TRANS_READ :: flagword where "TRANS_READ \<equiv> 1"
abbreviation (input) TRANS_WRITE :: flagword where "TRANS_WRITE \<equiv> 2"

record ('t, 'l) transcript_stream =
  xs_flags :: flagword
  xs_transport :: "'t smap_stream option"
  xs_logstr :: "'l smap_stream"
  xs_prefix :: "string \<times> string"

definition xs_pfx :: "('t, 'l) transcript_stream \<Rightarrow> flagword \<Rightarrow> string" where
  "xs_pfx str flag = (if flag = TRANS_READ then fst (xs_prefix str) else snd (xs_prefix str))"

definition xs_log :: "'l stream_ops \<Rightarrow> string \<Rightarrow> ('t, 'l) transcript_stream \<Rightarrow> ('t, 'l) transcript_stream option" where
  "xs_log lops bs str = do { (l, rc, n) \<leftarrow> smap_stream_write lops (xs_logstr str) bs False; Some (str\<lparr>xs_logstr := l\<rparr>) }"

definition xs_start :: "'l stream_ops \<Rightarrow> flagword \<Rightarrow> ('t, 'l) transcript_stream \<Rightarrow> ('t, 'l) transcript_stream option" where
  "xs_start lops flag str =
     (if hasfl (xs_flags str) flag then do {
        str \<leftarrow> xs_log lops (xs_pfx str flag) str;
        Some (str\<lparr>xs_flags := clrfl (xs_flags str) flag\<rparr>) }
      else Some str)"

function print_transcript ::
  "'l stream_ops \<Rightarrow> flagword \<Rightarrow> string \<Rightarrow> ('t, 'l) transcript_stream \<Rightarrow> ('t, 'l) transcript_stream option" where
  "print_transcript lops flag buf str =
     (if buf = [] then Some str
      else do {
        str \<leftarrow> xs_start lops flag str;
        (case memchr NL buf of
           Some p \<Rightarrow> do {
             let len = (if p > 0 \<and> buf ! (p - 1) = CHR 0x0D then p - 1 else p);
             str \<leftarrow> xs_log lops (take len buf) str;
             str \<leftarrow> xs_log lops [NL] str;
             print_transcript lops flag (drop (p + 1) buf) (str\<lparr>xs_flags := setfl (xs_flags str) flag\<rparr>) }
         | None \<Rightarrow> xs_log lops buf str) })"
  by pat_completeness auto
termination by (relation "measure (\<lambda>(lops, flag, buf, str). length buf)") auto

declare print_transcript.simps [simp del]

definition transcript_read ::
  "'t stream_ops \<Rightarrow> 'l stream_ops \<Rightarrow> ('t, 'l) transcript_stream \<Rightarrow> flagword \<Rightarrow> nat \<Rightarrow> (('t, 'l) transcript_stream \<times> flagword \<times> errno \<times> string \<times> nat) option" where
  "transcript_read tops lops p fl sz = do {
     t \<leftarrow> xs_transport p;
     (t, rc, bs, n) \<leftarrow> smap_stream_read tops t sz True;
     let p = p\<lparr>xs_transport := Some t\<rparr>;
     if rc = E0 then do {
       n \<leftarrow> n;
       p \<leftarrow> print_transcript lops TRANS_READ (take n bs) p;
       Some (p, fl, E0, bs, n) }
     else Some (p, fl, smap_stream_last_error t, bs, 0) }"

text \<open>The whole block is recorded, however much of it the transport has taken.\<close>

definition transcript_write ::
  "'t stream_ops \<Rightarrow> 'l stream_ops \<Rightarrow> ('t, 'l) transcript_stream \<Rightarrow> string \<Rightarrow> (('t, 'l) transcript_stream \<times> errno \<times> nat) option" where
  "transcript_write tops lops p buf = do {
     t \<leftarrow> xs_transport p;
     (t, rc, n) \<leftarrow> smap_stream_write tops t buf True;
     let p = p\<lparr>xs_transport := Some t\<rparr>;
     if rc = E0 then do {
       n \<leftarrow> n;
       p \<leftarrow> print_transcript lops TRANS_WRITE buf p;
       Some (p, E0, n) }
     else Some (p, smap_stream_last_error t, 0) }"

definition transcript_flush :: "'t stream_ops \<Rightarrow> ('t, 'l) transcript_stream \<Rightarrow> (('t, 'l) transcript_stream \<times> errno) option" where
  "transcript_flush tops p =
     (case xs_transport p of
        None \<Rightarrow> Some (p, E0)
      | Some t \<Rightarrow> do { (t, rc) \<leftarrow> smap_stream_flush tops t; Some (p\<lparr>xs_transport := Some t\<rparr>, rc) })"

definition transcript_close ::
  "'t stream_ops \<Rightarrow> 'l stream_ops \<Rightarrow> ('t, 'l) transcript_stream \<Rightarrow> flagword \<Rightarrow> (('t, 'l) transcript_stream \<times> errno) option" where
  "transcript_close tops lops p fl = do {
     (l, _) \<leftarrow> smap_stream_close lops (xs_logstr p);
     let p = p\<lparr>xs_logstr := l\<rparr>;
     (case (if hasfl fl SMAP_STREAM_NO_CLOSE then None else xs_transport p) of
        None \<Rightarrow> Some (p, E0)
      | Some t \<Rightarrow> do { (t, _) \<leftarrow> smap_stream_close tops t; Some (p\<lparr>xs_transport := Some t\<rparr>, E0) }) }"

definition transcript_destroy ::
  "'t stream_ops \<Rightarrow> 'l stream_ops \<Rightarrow> ('t, 'l) transcript_stream \<Rightarrow> flagword \<Rightarrow> ('t, 'l) transcript_stream option" where
  "transcript_destroy tops lops p fl = do {
     (l, _) \<leftarrow> smap_stream_destroy lops (xs_logstr p);
     let p = p\<lparr>xs_logstr := l\<rparr>;
     (case (if hasfl fl SMAP_STREAM_NO_CLOSE then None else xs_transport p) of
        None \<Rightarrow> Some p
      | Some t \<Rightarrow> do {
          (t, freed) \<leftarrow> smap_stream_destroy tops t;
          Some (p\<lparr>xs_transport := if freed then None else Some t\<rparr>) }) }"

definition transcript_strerror :: "(errno \<Rightarrow> string) \<Rightarrow> 't stream_ops \<Rightarrow> ('t, 'l) transcript_stream \<Rightarrow> errno \<Rightarrow> string" where
  "transcript_strerror strerror tops p rc =
     (case xs_transport p of Some t \<Rightarrow> smap_stream_strerror strerror tops t rc | None \<Rightarrow> strerror rc)"

definition transcript_get_transport :: "('t, 'l) transcript_stream \<Rightarrow> bool \<Rightarrow> errno \<times> 't smap_stream option" where
  "transcript_get_transport p ptr = (if \<not> ptr then (EINVAL, None) else (E0, xs_transport p))"

definition transcript_set_transport ::
  "('t, 'l) transcript_stream \<Rightarrow> 't smap_stream option option \<Rightarrow> ('t, 'l) transcript_stream \<times> errno" where
  "transcript_set_transport p ptr = (case ptr of None \<Rightarrow> (p, EINVAL) | Some t \<Rightarrow> (p\<lparr>xs_transport := t\<rparr>, E0))"

definition transcript_ioctl :: "('t, 'l) transcript_stream \<Rightarrow> int \<Rightarrow> ioctl_arg \<Rightarrow> (('t, 'l) transcript_stream \<times> errno) option" where
  "transcript_ioctl p code arg =
     (if code \<in> {1, 2} then (case arg of ArgNull \<Rightarrow> Some (p, EINVAL) | _ \<Rightarrow> None) else Some (p, EINVAL))"

definition transcript_ops ::
  "(nat \<Rightarrow> bool) \<Rightarrow> nat \<Rightarrow> (errno \<Rightarrow> string) \<Rightarrow> 't stream_ops \<Rightarrow> 'l stream_ops \<Rightarrow> ('t, 'l) transcript_stream stream_ops" where
  "transcript_ops alloc junk strerror tops lops = (no_ops alloc junk)
     \<lparr>op_read := Some (transcript_read tops lops), op_write := Some (transcript_write tops lops), op_flush := Some (transcript_flush tops),
      op_close := Some (transcript_close tops lops), op_done := Some (transcript_destroy tops lops), op_ctl := Some transcript_ioctl,
      op_strerror := Some (transcript_strerror strerror tops)\<rparr>"

text \<open>\<open>prefix\<close> may be null, and so may its elements.\<close>

definition smap_transcript_stream_create ::
  "(nat \<Rightarrow> bool) \<Rightarrow> nat \<Rightarrow> (errno \<Rightarrow> string) \<Rightarrow> 't stream_ops \<Rightarrow> 'l stream_ops \<Rightarrow> bool \<Rightarrow> 't smap_stream \<Rightarrow> 'l smap_stream \<Rightarrow>
   (string option \<times> string option) option \<Rightarrow> (errno \<times> ('t, 'l) transcript_stream smap_stream option) option" where
  "smap_transcript_stream_create alloc junk strerror tops lops granted transport logstr prefix =
     (let (p0, p1) = (case prefix of Some p \<Rightarrow> p | None \<Rightarrow> (None, None));
          pfx = (case p0 of Some s \<Rightarrow> s | None \<Rightarrow> ''C: '', case p1 of Some s \<Rightarrow> s | None \<Rightarrow> ''S: '')
      in case smap_stream_create granted 0x3
                \<lparr>xs_flags = 0x3, xs_transport = Some transport, xs_logstr = logstr, xs_prefix = pfx\<rparr> of
           None \<Rightarrow> Some (ENOMEM, None)
         | Some s \<Rightarrow> do {
             (s, _) \<leftarrow> smap_stream_set_buffer (transcript_ops alloc junk strerror tops lops) s smap_buffer_line 1024;
             Some (E0, Some s) })"

section \<open>Error messages\<close>

definition smap_verror ::
  "'d stream_ops \<Rightarrow> (nat \<Rightarrow> string option) \<Rightarrow> (nat \<Rightarrow> bool) \<Rightarrow> 'd smap_stream \<Rightarrow> 'd smap_stream option" where
  "smap_verror ops fmt alloc str = do {
     (str, r) \<leftarrow> smap_stream_vprintf ops fmt alloc str;
     if r = Inr (-1) then None
     else do {
       (str, _, _) \<leftarrow> smap_stream_write ops str [NL] False;
       (str, _) \<leftarrow> smap_stream_flush ops str;
       Some str } }"

section \<open>The logs\<close>

record log_vars =
  log_tag :: "string option"
  log_facility :: int
  log_to_stderr :: bool
  smap_trace_option :: bool
  trace_patterns :: "string option list"
  trace_pattern_max :: nat

definition add_trace_pattern :: "string option \<Rightarrow> log_vars \<Rightarrow> log_vars option" where
  "add_trace_pattern arg v =
     (let v = (if length (trace_patterns v) = trace_pattern_max v
               then v\<lparr>trace_pattern_max := if trace_pattern_max v = 0 then 4 else trace_pattern_max v * 2\<rparr> else v)
      in if length (trace_patterns v) < trace_pattern_max v then Some (v\<lparr>trace_patterns := trace_patterns v @ [arg]\<rparr>) else None)"

definition add_trace_patterns :: "string list \<Rightarrow> log_vars \<Rightarrow> log_vars option" where
  "add_trace_patterns words v = fold (\<lambda>w r. Option.bind r (add_trace_pattern (Some w))) words (Some v)"

text \<open>A log on the standard error: the streams for errors and debugging, and for traces.  Each stream has its own record of what it does with the file.  Allocations succeed.\<close>

definition stderr_ops :: "string \<Rightarrow> fileout_stream stream_ops" where
  "stderr_ops pn = fileout_ops (\<lambda>_. True) 0 pn"

text \<open>The streams of either kind; with \<open>syslog\<close> also the arguments of the call of \<open>openlog\<close>.\<close>

datatype log_streams =
    LogStderr "fileout_stream smap_stream option" "fileout_stream smap_stream option" "fileout_stream trace_stream smap_stream option"
  | LogSyslog "string option \<times> int \<times> int" "syslog_stream smap_stream option" "syslog_stream smap_stream option" "syslog_stream trace_stream smap_stream option"

definition destroy_opt :: "'d stream_ops \<Rightarrow> 'd smap_stream option \<Rightarrow> unit option" where
  "destroy_opt ops s = (case s of None \<Rightarrow> Some () | Some s \<Rightarrow> map_option (\<lambda>_. ()) (smap_stream_destroy ops s))"

text \<open>The streams in use before are released.\<close>

definition destroy_logs :: "string \<Rightarrow> log_streams option \<Rightarrow> unit option" where
  "destroy_logs pn old =
     (case old of
        None \<Rightarrow> Some ()
      | Some (LogStderr e d t) \<Rightarrow> do {
          destroy_opt (stderr_ops pn) e; destroy_opt (stderr_ops pn) d; destroy_opt (trace_ops (\<lambda>_. True) 0 (stderr_ops pn)) t }
      | Some (LogSyslog _ e d t) \<Rightarrow> do {
          destroy_opt (syslog_ops (\<lambda>_. True) 0) e; destroy_opt (syslog_ops (\<lambda>_. True) 0) d;
          destroy_opt (trace_ops (\<lambda>_. True) 0 (syslog_ops (\<lambda>_. True) 0)) t })"

definition smap_openlog_stderr ::
  "string \<Rightarrow> log_streams option \<Rightarrow> fileout_stream \<Rightarrow> bool \<Rightarrow>
   (fileout_stream smap_stream option \<times> fileout_stream smap_stream option \<times> fileout_stream trace_stream smap_stream option) option" where
  "smap_openlog_stderr pn old file trace = do {
     destroy_logs pn old;
     (_, err) \<leftarrow> smap_fileout_stream_create (\<lambda>_. True) 0 pn True True file None True;
     (_, dbg) \<leftarrow> smap_fileout_stream_create (\<lambda>_. True) 0 pn True True file (Some ''DEBUG'') True;
     if trace then do {
       (rc, s) \<leftarrow> smap_fileout_stream_create (\<lambda>_. True) 0 pn True True file (Some ''TRACE'') True;
       s \<leftarrow> s;
       (_, tr) \<leftarrow> smap_trace_stream_create (\<lambda>_. True) 0 (stderr_ops pn) True s;
       Some (err, dbg, Some tr) }
     else Some (err, dbg, None) }"

definition smap_openlog_syslog ::
  "string \<Rightarrow> log_streams option \<Rightarrow> string option \<Rightarrow> int \<Rightarrow> int \<Rightarrow> bool \<Rightarrow>
   ((string option \<times> int \<times> int) \<times> syslog_stream smap_stream option \<times> syslog_stream smap_stream option \<times> syslog_stream trace_stream smap_stream option) option" where
  "smap_openlog_syslog pn old tag opts facility trace = do {
     destroy_logs pn old;
     (_, err) \<leftarrow> smap_syslog_stream_create (\<lambda>_. True) 0 True True 3 None;
     (_, dbg) \<leftarrow> smap_syslog_stream_create (\<lambda>_. True) 0 True True 7 None;
     if trace then do {
       (rc, s) \<leftarrow> smap_syslog_stream_create (\<lambda>_. True) 0 True True 6 None;
       s \<leftarrow> s;
       (_, tr) \<leftarrow> smap_trace_stream_create (\<lambda>_. True) 0 (syslog_ops (\<lambda>_. True) 0) True s;
       Some ((tag, opts, facility), err, dbg, Some tr) }
     else Some ((tag, opts, facility), err, dbg, None) }"

text \<open>The strings of an array up to the null pointer.\<close>

definition null_terminated :: "string option list \<Rightarrow> string list" where
  "null_terminated xs = map the (takeWhile (\<lambda>x. x \<noteq> None) xs)"

definition log_patterns :: "'t stream_ops \<Rightarrow> log_vars \<Rightarrow> 't trace_stream smap_stream option \<Rightarrow> (log_vars \<times> 't trace_stream smap_stream option) option" where
  "log_patterns tops v tr =
     (if smap_trace_option v \<and> trace_patterns v \<noteq> [] then do {
        v \<leftarrow> add_trace_pattern None v;
        tr \<leftarrow> tr;
        (tr, _) \<leftarrow> smap_stream_ioctl (trace_ops (\<lambda>_. True) 0 tops) tr 5 (ArgStrs (null_terminated (trace_patterns v)));
        Some (v, Some tr) }
      else Some (v, tr))"

definition smap_log_init :: "string \<Rightarrow> log_streams option \<Rightarrow> fileout_stream \<Rightarrow> log_vars \<Rightarrow> (log_vars \<times> log_streams) option" where
  "smap_log_init pn old file v =
     (let v = (if log_tag v = None then v\<lparr>log_tag := Some pn\<rparr> else v) in
      if log_to_stderr v then do {
        (err, dbg, tr) \<leftarrow> smap_openlog_stderr pn old file (smap_trace_option v);
        (v, tr) \<leftarrow> log_patterns (stderr_ops pn) v tr;
        Some (v, LogStderr err dbg tr) }
      else do {
        (call, err, dbg, tr) \<leftarrow> smap_openlog_syslog pn old (log_tag v) 1 (log_facility v) (smap_trace_option v);
        (v, tr) \<leftarrow> log_patterns (syslog_ops (\<lambda>_. True) 0) v tr;
        Some (v, LogSyslog call err dbg tr) })"

section \<open>The name of the program and descriptors\<close>

definition smap_set_program_name :: "string \<Rightarrow> string" where
  "smap_set_program_name nm =
     (let p = rev (takeWhile (\<lambda>c. c \<noteq> CHR ''/'') (rev nm)) in
      if strncmp_eq p ''lt-'' 3 then drop 3 p else p)"

text \<open>The open descriptors of the process; closing one that is not open fails without effect.\<close>

definition close_fds_above :: "nat \<Rightarrow> int \<Rightarrow> int set \<Rightarrow> int set" where
  "close_fds_above getmaxfd fd fds = fold (\<lambda>i fds. fds - {i}) (rev [fd + 1 .. int getmaxfd - 1]) fds"

definition close_fds_except :: "nat \<Rightarrow> int set \<Rightarrow> int set \<Rightarrow> int set" where
  "close_fds_except fd_setsize exfd fds = fold (\<lambda>i fds. if i \<in> exfd then fds else fds - {i}) (rev [0 .. int fd_setsize - 1]) fds"

end
