(* ===== verification/Smap_Diag_Laws.thy ===== *)
theory Smap_Diag_Laws
  imports Smap_Diag
begin

text \<open>
  What the diagnostic streams do.  A line that fits into the buffer of a line-buffered stream reaches its device in one call; the locale \<open>line_sink\<close> states what a
  device does with a line, and \<open>traced_sink\<close> that a trace stream over such a device is one itself.  The locale \<open>text_sink\<close> is for
  transcripts.  The interpretations are the logs of the program.
\<close>

section \<open>Lines\<close>

text \<open>A line-buffered stream that holds nothing.\<close>

definition line_idle :: "'d smap_stream \<Rightarrow> bool" where
  "line_idle s \<longleftrightarrow> stream_wf s \<and> str_buftype s = smap_buffer_line \<and> str_level s = 0 \<and> str_cur s = 0
     \<and> has_flag s SMAP_STREAM_WRITE \<and> \<not> has_flag s STR_ERR \<and> \<not> has_flag s SMAP_STREAM_SEEK"

text \<open>A line that fits is handed to the device in one call.\<close>

lemma line_write:
  assumes s: "line_idle s" and l: "NL \<notin> set l" "length l < str_bufsize s"
    and wr: "op_write ops = Some wr" "wr (str_dev s) (l @ [NL]) = Some (d, E0, length l + 1)"
  shows "\<exists>s'. smap_stream_write ops s (l @ [NL]) p = Some (s', E0, Some (length l + 1)) \<and> line_idle s' \<and> str_dev s' = d
    \<and> str_bufsize s' = str_bufsize s"
proof -
  let ?b = "l @ [NL]"
  have wf: "stream_wf s" "str_buftype s = smap_buffer_line" "str_level s = 0" "str_cur s = 0" using s by (simp_all add: line_idle_def)
  note w = stream_wfD [OF wf(1)]
  have nfull: "\<not> stream_buffer_full_p s" using wf w by (simp add: stream_buffer_full_p_def BUFFER_FULL_P_def window_def)
  obtain mem where m: "str_buffer s = Some mem" "length mem = str_bufsize s" using w wf(2) by (auto simp: bufmem_def)
  define s1 where "s1 = set_flag STR_DIRTY (s\<lparr>str_buffer := Some (?b @ drop (length l + 1) mem), str_level := length l + 1\<rparr>)"
  have st: "buf_store s 0 ?b = Some (s\<lparr>str_buffer := Some (?b @ drop (length l + 1) mem)\<rparr>)"
    using m l(2) by (simp add: buf_store_def memcpy_at_def bufmem_def)
  have win: "window s1 = ?b" using wf by (simp add: s1_def window_def bufmem_def)
  have fl1: "has_flag s1 STR_DIRTY" "\<not> has_flag s1 SMAP_STREAM_SEEK" "has_flag s1 SMAP_STREAM_WRITE" "\<not> has_flag s1 STR_ERR"
    using s by (simp_all add: s1_def line_idle_def flag_simps)
  define s2 where "s2 = set_flag STR_WRT (s1\<lparr>str_dev := d, str_bytes_out := str_bytes_out s1 + int (length l + 1)\<rparr>)\<lparr>str_offset := str_offset s1 + int (length l + 1), str_last_err := E0\<rparr>"
  have wu: "smap_stream_write_unbuffered ops s1 ?b True = Some (s2, E0, Some (length l + 1))"
    using fl1 wr by (simp add: smap_stream_write_unbuffered_def write_full_loop.simps s2_def s1_def Let_def)
  define s3 where "s3 = stream_advance_buffer s2 (Suc (length l))"
  have "window s3 = []" "str_level s3 = 0" by (simp_all add: s3_def s2_def s1_def window_def stream_advance_buffer_def size_sub_def)
  then have "flush_lines ops s3 = Some (s3, E0)" by (subst flush_lines.simps) simp
  then have fl: "flush_lines ops s1 = Some (s3, E0)"
    using l(1) win wu by (subst flush_lines.simps) (simp add: s3_def [symmetric])
  define s4 where "s4 = ((clr_flag STR_DIRTY s3)\<lparr>str_level := 0\<rparr>)\<lparr>str_cur := 0\<rparr>"
  have ty: "str_buftype s1 = smap_buffer_line" "str_level s1 \<noteq> 0" using wf by (simp_all add: s1_def)
  have ff: "stream_flush_buffer ops s1 False = Some (s4, E0)"
    using fl fl1 ty \<open>str_level s3 = 0\<close> by (simp add: stream_flush_buffer_def flush_finish_def s4_def)
  have full: "stream_buffer_full_p s1" using ty(1) win l(1) by (simp add: stream_buffer_full_p_def)
  have sz: "size_sub (str_bufsize s) 0 = str_bufsize s" by (simp add: size_sub_def)
  have "stream_write_loop ops s1 [] (length l + 1) = Some (s4, E0, length l + 1)"
    using full ff by (subst stream_write_loop.simps) simp
  then have "stream_write_loop ops s ?b 0 = Some (s4, E0, length l + 1)"
    using nfull st wf sz l(2) by (subst stream_write_loop.simps) (simp add: Let_def s1_def)
  moreover have "line_idle s4"
    using s m w(2,6) wf l(2) by (auto simp: line_idle_def s4_def s3_def s2_def s1_def stream_wf_def bufmem_def stream_advance_buffer_def flag_simps)
  ultimately show ?thesis
    using wf by (intro exI [of _ s4]) (simp add: smap_stream_write_def s4_def s3_def s2_def s1_def stream_advance_buffer_def)
qed

text \<open>What a client does that writes lines; it stops at an error.\<close>

fun write_lines :: "'d stream_ops \<Rightarrow> string list \<Rightarrow> 'd smap_stream \<Rightarrow> ('d smap_stream \<times> errno) option" where
  "write_lines ops [] s = Some (s, E0)"
| "write_lines ops (l # ls) s = do {
     (s, rc, n) \<leftarrow> smap_stream_write ops s (l @ [NL]) False;
     if rc = E0 then write_lines ops ls s else Some (s, rc) }"

text \<open>A device that takes whole lines: \<open>out\<close> is what it has done, and \<open>keep\<close> what it does with a line.\<close>

definition line_ok :: "string \<Rightarrow> bool" where
  "line_ok l \<longleftrightarrow> NL \<notin> set l \<and> length l < 1024"

locale line_sink =
  fixes ops :: "'d stream_ops" and wr :: "'d \<Rightarrow> string \<Rightarrow> ('d \<times> errno \<times> nat) option"
    and okd :: "'d \<Rightarrow> bool" and out :: "'d \<Rightarrow> 'o list" and keep :: "string \<Rightarrow> 'o list"
  assumes sink_wr: "op_write ops = Some wr"
    and sink_line: "okd d \<Longrightarrow> line_ok l \<Longrightarrow> \<exists>d'. wr d (l @ [NL]) = Some (d', E0, length l + 1) \<and> okd d' \<and> out d' = out d @ keep l"
begin

definition ready :: "'d smap_stream \<Rightarrow> bool" where
  "ready s \<longleftrightarrow> line_idle s \<and> str_bufsize s = 1024 \<and> okd (str_dev s)"

lemma sink_write:
  assumes "ready s" "line_ok l"
  shows "\<exists>s'. smap_stream_write ops s (l @ [NL]) p = Some (s', E0, Some (length l + 1)) \<and> ready s' \<and> out (str_dev s') = out (str_dev s) @ keep l"
proof -
  from sink_line [of "str_dev s" l] assms obtain d where
    d: "wr (str_dev s) (l @ [NL]) = Some (d, E0, length l + 1)" "okd d" "out d = out (str_dev s) @ keep l" by (auto simp: ready_def)
  from line_write [of s l ops wr d p] sink_wr d(1) assms obtain s' where
    "smap_stream_write ops s (l @ [NL]) p = Some (s', E0, Some (length l + 1))" "line_idle s'" "str_dev s' = d" "str_bufsize s' = str_bufsize s"
    by (auto simp: ready_def line_ok_def)
  with d assms(1) show ?thesis by (auto simp: ready_def)
qed

lemma sink_write_lines:
  "ready s \<Longrightarrow> list_all line_ok ls \<Longrightarrow>
   \<exists>s'. write_lines ops ls s = Some (s', E0) \<and> ready s' \<and> out (str_dev s') = out (str_dev s) @ concat (map keep ls)"
proof (induction ls arbitrary: s)
  case (Cons l ls)
  from sink_write [of s l False] Cons.prems obtain s1 where
    s1: "smap_stream_write ops s (l @ [NL]) False = Some (s1, E0, Some (length l + 1))" "ready s1" "out (str_dev s1) = out (str_dev s) @ keep l" by auto
  from Cons.IH [OF s1(2)] Cons.prems(2) s1 show ?case by auto
qed simp

end

section \<open>Traces\<close>

text \<open>The text after the first marker in a line and the blanks that follow it.\<close>

fun after_marker :: "string \<Rightarrow> string option" where
  "after_marker (a # b # r) =
     (if a = CHR ''='' \<and> b = CHR ''>'' then Some (dropWhile (\<lambda>c. c = CHR '' '' \<or> c = CHR 0x09) r) else after_marker (b # r))"
| "after_marker _ = None"

definition wanted :: "string list \<Rightarrow> string \<Rightarrow> bool" where
  "wanted pats l \<longleftrightarrow> pats = [] \<or> (case after_marker l of None \<Rightarrow> True | Some r \<Rightarrow> list_ex (\<lambda>p. take (length p) (r @ [NL]) = p) pats)"

lemma after_marker_skip: "CHR ''='' \<notin> set xs \<Longrightarrow> after_marker (xs @ zs) = after_marker zs"
proof (induction xs)
  case (Cons x xs)
  then show ?case by (cases "xs @ zs") auto
qed simp

lemma find_resp_marker_line: "NL \<notin> set l \<Longrightarrow> find_resp_marker (l @ [NL]) = Some (map_option (\<lambda>r. r @ [NL]) (after_marker l))"
proof (induction "length l" arbitrary: l rule: less_induct)
  case less
  show ?case
  proof (cases "CHR ''='' \<in> set l")
    case False
    then have "memchr (CHR ''='') (l @ [NL]) = None" by (simp add: memchr_None)
    with False after_marker_skip [of l "[]"] show ?thesis by (subst find_resp_marker.simps) simp
  next
    case True
    then obtain xs ys where l: "l = xs @ CHR ''='' # ys" "CHR ''='' \<notin> set xs" by (meson split_list_first)
    then have m: "memchr (CHR ''='') (l @ [NL]) = Some (length xs)" by simp
    have a: "after_marker l = after_marker (CHR ''='' # ys)" using after_marker_skip [OF l(2)] l(1) by simp
    show ?thesis
    proof (cases ys)
      case Nil
      have "memchr (CHR ''='') [NL] = None" by simp
      then have "find_resp_marker [NL] = Some None" by (subst find_resp_marker.simps) simp
      with m l Nil a show ?thesis by (subst find_resp_marker.simps) simp
    next
      case (Cons y zs)
      show ?thesis
      proof (cases "y = CHR ''>''")
        case True
        have "dropWhile (\<lambda>c. c = CHR '' '' \<or> c = CHR 0x09) (zs @ [NL]) = dropWhile (\<lambda>c. c = CHR '' '' \<or> c = CHR 0x09) zs @ [NL]"
          by (induction zs) auto
        with m l Cons a True show ?thesis by (subst find_resp_marker.simps) (simp split: list.split)
      next
        case False
        with less.hyps [of ys] less.prems l Cons have "find_resp_marker (ys @ [NL]) = Some (map_option (\<lambda>r. r @ [NL]) (after_marker ys))" by simp
        with m l Cons a False show ?thesis by (subst find_resp_marker.simps) simp
      qed
    qed
  qed
qed

lemma match_response_prefix: "match_response pats r \<longleftrightarrow> list_ex (\<lambda>p. take (length p) r = p) pats"
proof -
  have "length p \<le> length r \<and> take (length p) r = p \<longleftrightarrow> take (length p) r = p" for p
    by (auto dest: arg_cong [of "take (length p) r" p length])
  then show ?thesis by (simp add: match_response_def)
qed

text \<open>A trace stream on top of a stream whose device takes lines is one itself; the lines that are not wanted are dropped.\<close>

locale traced_sink = line_sink +
  fixes pats :: "string list"
begin

definition trace_okd :: "'a trace_stream \<Rightarrow> bool" where
  "trace_okd tp \<longleftrightarrow> tr_pfxv tp = pats \<and> (\<exists>t. tr_transport tp = Some t \<and> ready t)"

definition trace_out :: "'a trace_stream \<Rightarrow> 'b list" where
  "trace_out tp = (case tr_transport tp of Some t \<Rightarrow> out (str_dev t) | None \<Rightarrow> [])"

definition trace_keep :: "string \<Rightarrow> 'b list" where
  "trace_keep l = (if wanted pats l then keep l else [])"

lemma trace_write_line:
  assumes "trace_okd d" "line_ok l"
  shows "\<exists>d'. trace_write ops d (l @ [NL]) = Some (d', E0, length l + 1) \<and> trace_okd d' \<and> trace_out d' = trace_out d @ trace_keep l"
proof -
  from assms(1) obtain t where t: "tr_transport d = Some t" "ready t" "tr_pfxv d = pats" by (auto simp: trace_okd_def)
  from sink_write [OF t(2) assms(2), of True] obtain t' where
    w: "smap_stream_write ops t (l @ [NL]) True = Some (t', E0, Some (length l + 1))" "ready t'" "out (str_dev t') = out (str_dev t) @ keep l" by blast
  have f: "trace_forward ops d (l @ [NL]) = Some (d\<lparr>tr_transport := Some t'\<rparr>, E0, length l + 1)"
    using t w by (simp add: trace_forward_def)
  have m: "find_resp_marker (l @ [NL]) = Some (map_option (\<lambda>r. r @ [NL]) (after_marker l))"
    using assms(2) find_resp_marker_line by (simp add: line_ok_def)
  show ?thesis
  proof (cases "wanted pats l")
    case True
    then have "trace_write ops d (l @ [NL]) = trace_forward ops d (l @ [NL])"
      using m t(3) by (auto simp: trace_write_def wanted_def match_response_prefix split: option.splits)
    with f t w True show ?thesis by (auto simp: trace_okd_def trace_out_def trace_keep_def)
  next
    case False
    then have "trace_write ops d (l @ [NL]) = Some (d, E0, length l + 1)"
      using m t(3) by (auto simp: trace_write_def wanted_def match_response_prefix split: option.splits)
    with assms(1) False show ?thesis by (auto simp: trace_keep_def)
  qed
qed

end

sublocale traced_sink \<subseteq> tr: line_sink "trace_ops (\<lambda>_. True) 0 ops" "trace_write ops" trace_okd trace_out trace_keep
  by unfold_locales (auto simp: trace_ops_def dest: trace_write_line)

text \<open>The two kinds of logs take lines.\<close>

definition fo_line :: "string \<Rightarrow> string option \<Rightarrow> string \<Rightarrow> stdio_call list" where
  "fo_line pn pfx l = [Fprintf pn] @ (case pfx of Some p \<Rightarrow> [Fprintf p] | None \<Rightarrow> []) @ [Fwrite (l @ [NL])]"

definition fo_reliable :: "string option \<Rightarrow> fileout_stream \<Rightarrow> bool" where
  "fo_reliable pfx d \<longleftrightarrow> fo_events d = [] \<and> fo_pgopt d \<and> fo_pfx d = pfx"

definition sl_line :: "int \<Rightarrow> string option \<Rightarrow> string \<Rightarrow> (int \<times> string) list" where
  "sl_line prio pfx l =
     (if l = [] then [] else [(prio, (case pfx of Some p \<Rightarrow> ''['' @ p @ ''] '' | None \<Rightarrow> []) @ format_block l)])"

definition sl_ready :: "int \<Rightarrow> string option \<Rightarrow> syslog_stream \<Rightarrow> bool" where
  "sl_ready prio pfx d \<longleftrightarrow> sl_prio d = prio \<and> sl_pfx d = pfx"

interpretation fl: line_sink "stderr_ops pn" "fileout_stream_write pn" "fo_reliable pfx" fo_file "fo_line pn pfx" for pn pfx
  by unfold_locales
    (auto simp: stderr_ops_def fileout_ops_def fileout_stream_write_def fo_reliable_def fo_line_def fileout_prefix_def split: option.split)

interpretation sy: line_sink "syslog_ops (\<lambda>_. True) 0" syslog_stream_write "sl_ready prio pfx" sl_log "sl_line prio pfx" for prio pfx
  by unfold_locales (auto simp: syslog_ops_def syslog_stream_write_def sl_ready_def sl_line_def Let_def split: option.split)

interpretation ft: traced_sink "stderr_ops pn" "fileout_stream_write pn" "fo_reliable pfx" fo_file "fo_line pn pfx" pats for pn pfx pats ..

interpretation st: traced_sink "syslog_ops (\<lambda>_. True) 0" syslog_stream_write "sl_ready prio pfx" sl_log "sl_line prio pfx" pats for prio pfx pats ..

lemma line_idle_new:
  assumes "str_buftype s = smap_buffer_line" "str_buffer s = Some (replicate 1024 (CHR 0x00))" "str_bufsize s = 1024" "str_level s = 0" "str_cur s = 0"
    and "str_flags s = SMAP_STREAM_WRITE"
  shows "line_idle s"
  using assms by (simp add: line_idle_def stream_wf_def bufmem_def SIZE_MAX_def hasfl_def)

lemma trace_created:
  "\<exists>s. smap_trace_stream_create (\<lambda>_. True) 0 tops True t = Some (E0, s) \<and> line_idle s \<and> str_bufsize s = 1024
     \<and> str_dev s = \<lparr>tr_pfxv = [], tr_transport = Some t\<rparr>"
  by (simp add: smap_trace_stream_create_def smap_stream_create_def smap_stream_ref_def smap_stream_set_buffer_def trace_ops_def no_ops_def line_idle_new)

lemma fileout_new:
  "\<exists>s. smap_fileout_stream_create (\<lambda>_. True) 0 pn True True file pfx pg = Some (E0, Some s) \<and> line_idle s \<and> str_bufsize s = 1024
     \<and> str_dev s = file\<lparr>fo_pfx := pfx, fo_pgopt := pg\<rparr>"
  by (simp add: smap_fileout_stream_create_def smap_stream_create_def smap_stream_ref_def smap_stream_set_buffer_def fileout_ops_def no_ops_def line_idle_new)

lemma syslog_new:
  "\<exists>s. smap_syslog_stream_create (\<lambda>_. True) 0 True True prio pfx = Some (E0, Some s) \<and> line_idle s \<and> str_bufsize s = 1024
     \<and> str_dev s = \<lparr>sl_prio = prio, sl_pfx = pfx, sl_log = []\<rparr>"
  by (simp add: smap_syslog_stream_create_def smap_stream_create_def smap_stream_ref_def smap_stream_set_buffer_def syslog_ops_def no_ops_def line_idle_new)

section \<open>Patterns\<close>

text \<open>The array of patterns grows in steps; there is always room for the next one.\<close>

definition patterns_ok :: "log_vars \<Rightarrow> bool" where
  "patterns_ok v \<longleftrightarrow> length (trace_patterns v) \<le> trace_pattern_max v"

lemma add_trace_pattern_ok:
  assumes "patterns_ok v"
  shows "\<exists>v'. add_trace_pattern arg v = Some v' \<and> patterns_ok v' \<and> trace_patterns v' = trace_patterns v @ [arg]
    \<and> smap_trace_option v' = smap_trace_option v \<and> log_to_stderr v' = log_to_stderr v \<and> log_tag v' = log_tag v"
  using assms by (auto simp: add_trace_pattern_def patterns_ok_def Let_def)

lemma add_trace_patterns_ok:
  "patterns_ok v \<Longrightarrow> \<exists>v'. add_trace_patterns ws v = Some v' \<and> patterns_ok v' \<and> trace_patterns v' = trace_patterns v @ map Some ws
     \<and> smap_trace_option v' = smap_trace_option v \<and> log_to_stderr v' = log_to_stderr v \<and> log_tag v' = log_tag v"
proof (induction ws arbitrary: v)
  case (Cons w ws)
  from add_trace_pattern_ok [OF Cons.prems, of "Some w"] obtain v1 where
    v1: "add_trace_pattern (Some w) v = Some v1" "patterns_ok v1" "trace_patterns v1 = trace_patterns v @ [Some w]"
    "smap_trace_option v1 = smap_trace_option v" "log_to_stderr v1 = log_to_stderr v" "log_tag v1 = log_tag v" by blast
  from Cons.IH [OF v1(2)] v1 show ?case by (auto simp: add_trace_patterns_def)
qed (simp add: add_trace_patterns_def)

lemma null_terminated_Some: "null_terminated (map Some xs @ None # ys) = xs"
  by (induction xs) (simp_all add: null_terminated_def)

lemma log_patterns_set:
  assumes "patterns_ok v" "smap_trace_option v" "trace_patterns v = map Some ps" "line_idle s" "str_bufsize s = 1024"
    and "str_dev s = \<lparr>tr_pfxv = [], tr_transport = Some t\<rparr>"
  shows "\<exists>v' s'. log_patterns tops v (Some s) = Some (v', Some s') \<and> line_idle s' \<and> str_bufsize s' = 1024
    \<and> str_dev s' = \<lparr>tr_pfxv = ps, tr_transport = Some t\<rparr>"
proof (cases "ps = []")
  case True
  with assms show ?thesis by (simp add: log_patterns_def)
next
  case False
  from add_trace_pattern_ok [OF assms(1), of None] obtain v' where v': "add_trace_pattern None v = Some v'" "trace_patterns v' = map Some ps @ [None]"
    using assms(3) by auto
  with False assms show ?thesis
    by (simp add: log_patterns_def smap_stream_ioctl_def trace_ops_def trace_ioctl_def trace_new_pfx_def trace_free_pfx_def null_terminated_Some
        line_idle_def stream_wf_def bufmem_def)
qed

lemma trace_log_stderr:
  assumes "patterns_ok v" "smap_trace_option v" "trace_patterns v = map Some ps" "list_all line_ok ls" "log_to_stderr v"
  shows "\<exists>v' err dbg tr tr' t. smap_log_init pn None no_file v = Some (v', LogStderr err dbg (Some tr))
      \<and> write_lines (trace_ops (\<lambda>_. True) 0 (stderr_ops pn)) ls tr = Some (tr', E0) \<and> tr_transport (str_dev tr') = Some t
      \<and> fo_file (str_dev t) = concat (map (\<lambda>l. [Fprintf pn, Fprintf ''TRACE'', Fwrite (l @ [NL])]) (filter (wanted ps) ls))"
proof -
  define v0 where "v0 = (if log_tag v = None then v\<lparr>log_tag := Some pn\<rparr> else v)"
  have v0: "patterns_ok v0" "smap_trace_option v0" "trace_patterns v0 = map Some ps" "log_to_stderr v0 = log_to_stderr v"
    using assms(1-3) by (simp_all add: v0_def patterns_ok_def)
  have "ft.trace_keep pn (Some ''TRACE'') ps = (\<lambda>l. if wanted ps l then [Fprintf pn, Fprintf ''TRACE'', Fwrite (l @ [NL])] else [])"
    by (rule ext) (simp only: ft.trace_keep_def, simp add: fo_line_def)
  then have fconc: "concat (map (ft.trace_keep pn (Some ''TRACE'') ps) ls) =
      concat (map (\<lambda>l. [Fprintf pn, Fprintf ''TRACE'', Fwrite (l @ [NL])]) (filter (wanted ps) ls))"
    by (induction ls) simp_all
  obtain e d t where f: "smap_fileout_stream_create (\<lambda>_. True) 0 pn True True no_file None True = Some (E0, Some e)"
    "smap_fileout_stream_create (\<lambda>_. True) 0 pn True True no_file (Some ''DEBUG'') True = Some (E0, Some d)"
    "smap_fileout_stream_create (\<lambda>_. True) 0 pn True True no_file (Some ''TRACE'') True = Some (E0, Some t)"
    "line_idle t" "str_bufsize t = 1024" "str_dev t = no_file\<lparr>fo_pfx := Some ''TRACE'', fo_pgopt := True\<rparr>"
    using fileout_new [of pn no_file] by metis
  obtain s where s: "smap_trace_stream_create (\<lambda>_. True) 0 (stderr_ops pn) True t = Some (E0, s)" "line_idle s" "str_bufsize s = 1024"
    "str_dev s = \<lparr>tr_pfxv = [], tr_transport = Some t\<rparr>" using trace_created by blast
  from log_patterns_set [OF v0(1-3) s(2-4), of "stderr_ops pn"] obtain v' s' where
    p: "log_patterns (stderr_ops pn) v0 (Some s) = Some (v', Some s')" "line_idle s'" "str_bufsize s' = 1024"
    "str_dev s' = \<lparr>tr_pfxv = ps, tr_transport = Some t\<rparr>" by blast
  have "ft.tr.ready (Some ''TRACE'') ps s'"
    using p f(4-6) by (simp add: ft.tr.ready_def ft.trace_okd_def fl.ready_def fo_reliable_def no_file_def)
  from ft.tr.sink_write_lines [OF this assms(4)] obtain tr' where
    w: "write_lines (trace_ops (\<lambda>_. True) 0 (stderr_ops pn)) ls s' = Some (tr', E0)" "ft.tr.ready (Some ''TRACE'') ps tr'"
    "ft.trace_out (str_dev tr') = ft.trace_out (str_dev s') @ concat (map (ft.trace_keep pn (Some ''TRACE'') ps) ls)" by blast
  from w(2) obtain t' where t': "tr_transport (str_dev tr') = Some t'" by (auto simp: ft.tr.ready_def ft.trace_okd_def)
  have "ft.trace_out (str_dev s') = []" using p(4) f(6) by (simp add: ft.trace_out_def no_file_def)
  with w(3) t' fconc have "fo_file (str_dev t') = concat (map (\<lambda>l. [Fprintf pn, Fprintf ''TRACE'', Fwrite (l @ [NL])]) (filter (wanted ps) ls))"
    by (simp add: ft.trace_out_def)
  moreover have "smap_log_init pn None no_file v = Some (v', LogStderr (Some e) (Some d) (Some s'))"
    using assms(5) f s p(1) v0 by (simp add: smap_log_init_def v0_def [symmetric] smap_openlog_stderr_def destroy_logs_def)
  ultimately show ?thesis using w(1) t' by auto
qed

lemma trace_log_syslog:
  assumes "patterns_ok v" "smap_trace_option v" "trace_patterns v = map Some ps" "list_all line_ok ls" "\<not> log_to_stderr v"
  shows "\<exists>v' err dbg tr tr' t. smap_log_init pn None no_file v = Some (v', LogSyslog (case log_tag v of None \<Rightarrow> Some pn | t \<Rightarrow> t, 1, log_facility v) err dbg (Some tr))
      \<and> write_lines (trace_ops (\<lambda>_. True) 0 (syslog_ops (\<lambda>_. True) 0)) ls tr = Some (tr', E0) \<and> tr_transport (str_dev tr') = Some t
      \<and> sl_log (str_dev t) = map (\<lambda>l. (6, format_block l)) (filter (\<lambda>l. l \<noteq> [] \<and> wanted ps l) ls)"
proof -
  define v0 where "v0 = (if log_tag v = None then v\<lparr>log_tag := Some pn\<rparr> else v)"
  have v0: "patterns_ok v0" "smap_trace_option v0" "trace_patterns v0 = map Some ps" "log_to_stderr v0 = log_to_stderr v"
    using assms(1-3) by (simp_all add: v0_def patterns_ok_def)
  have "st.trace_keep 6 None ps = (\<lambda>l. if l \<noteq> [] \<and> wanted ps l then [(6, format_block l)] else [])"
    by (rule ext) (simp only: st.trace_keep_def, simp add: sl_line_def)
  then have sconc: "concat (map (st.trace_keep 6 None ps) ls) = map (\<lambda>l. (6, format_block l)) (filter (\<lambda>l. l \<noteq> [] \<and> wanted ps l) ls)"
    by (induction ls) simp_all
  obtain e d t where f: "smap_syslog_stream_create (\<lambda>_. True) 0 True True 3 None = Some (E0, Some e)"
    "smap_syslog_stream_create (\<lambda>_. True) 0 True True 7 None = Some (E0, Some d)"
    "smap_syslog_stream_create (\<lambda>_. True) 0 True True 6 None = Some (E0, Some t)"
    "line_idle t" "str_bufsize t = 1024" "str_dev t = \<lparr>sl_prio = 6, sl_pfx = None, sl_log = []\<rparr>"
    using syslog_new by metis
  obtain s where s: "smap_trace_stream_create (\<lambda>_. True) 0 (syslog_ops (\<lambda>_. True) 0) True t = Some (E0, s)" "line_idle s" "str_bufsize s = 1024"
    "str_dev s = \<lparr>tr_pfxv = [], tr_transport = Some t\<rparr>" using trace_created by blast
  from log_patterns_set [OF v0(1-3) s(2-4), of "syslog_ops (\<lambda>_. True) 0"] obtain v' s' where
    p: "log_patterns (syslog_ops (\<lambda>_. True) 0) v0 (Some s) = Some (v', Some s')" "line_idle s'" "str_bufsize s' = 1024"
    "str_dev s' = \<lparr>tr_pfxv = ps, tr_transport = Some t\<rparr>" by blast
  have "st.tr.ready 6 None ps s'"
    using p f(4-6) by (simp add: st.tr.ready_def st.trace_okd_def sy.ready_def sl_ready_def)
  from st.tr.sink_write_lines [OF this assms(4)] obtain tr' where
    w: "write_lines (trace_ops (\<lambda>_. True) 0 (syslog_ops (\<lambda>_. True) 0)) ls s' = Some (tr', E0)" "st.tr.ready 6 None ps tr'"
    "st.trace_out (str_dev tr') = st.trace_out (str_dev s') @ concat (map (st.trace_keep 6 None ps) ls)" by blast
  from w(2) obtain t' where t': "tr_transport (str_dev tr') = Some t'" by (auto simp: st.tr.ready_def st.trace_okd_def)
  have "st.trace_out (str_dev s') = []" using p(4) f(6) by (simp add: st.trace_out_def)
  with w(3) t' sconc have "sl_log (str_dev t') = map (\<lambda>l. (6, format_block l)) (filter (\<lambda>l. l \<noteq> [] \<and> wanted ps l) ls)"
    by (simp add: st.trace_out_def)
  moreover have "smap_log_init pn None no_file v = Some (v', LogSyslog (log_tag v0, 1, log_facility v0) (Some e) (Some d) (Some s'))"
    using assms(5) f s p(1) v0 by (simp add: smap_log_init_def v0_def [symmetric] smap_openlog_syslog_def destroy_logs_def)
  moreover have "log_tag v0 = (case log_tag v of None \<Rightarrow> Some pn | t \<Rightarrow> t)" "log_facility v0 = log_facility v"
    by (auto simp: v0_def split: option.split)
  ultimately show ?thesis using w(1) t' by auto
qed



section \<open>Transcripts\<close>

text \<open>Without its end, and without a carriage return before it.\<close>

definition chomp :: "string \<Rightarrow> string" where
  "chomp l = (if l \<noteq> [] \<and> last l = CHR 0x0D then butlast l else l)"

text \<open>A dialogue of lines in both directions.\<close>

fun record_dialogue :: "'l stream_ops \<Rightarrow> (flagword \<times> string) list \<Rightarrow> ('t, 'l) transcript_stream \<Rightarrow> ('t, 'l) transcript_stream option" where
  "record_dialogue lops [] x = Some x"
| "record_dialogue lops ((fl, l) # es) x = Option.bind (print_transcript lops fl (l @ [NL]) x) (record_dialogue lops es)"

text \<open>A stream that takes any text; \<open>tot\<close> is all that it was given.\<close>

locale text_sink =
  fixes lops :: "'l stream_ops" and ok :: "'l smap_stream \<Rightarrow> bool" and tot :: "'l smap_stream \<Rightarrow> string"
  assumes takes_text: "ok s \<Longrightarrow> \<exists>s' n. smap_stream_write lops s buf False = Some (s', E0, n) \<and> ok s' \<and> tot s' = tot s @ buf"
begin

definition xs_ok :: "('t, 'l) transcript_stream \<Rightarrow> bool" where
  "xs_ok x \<longleftrightarrow> ok (xs_logstr x)"

text \<open>The states that differ in the log and the flags only.\<close>

definition same_dialogue :: "('t, 'l) transcript_stream \<Rightarrow> ('t, 'l) transcript_stream \<Rightarrow> bool" where
  "same_dialogue x y \<longleftrightarrow> xs_prefix y = xs_prefix x \<and> xs_transport y = xs_transport x"

lemma xs_log_ok:
  assumes "xs_ok x"
  shows "\<exists>y. xs_log lops bs x = Some y \<and> xs_ok y \<and> same_dialogue x y \<and> xs_flags y = xs_flags x \<and> tot (xs_logstr y) = tot (xs_logstr x) @ bs"
  using takes_text [of "xs_logstr x" bs] assms by (auto simp: xs_log_def xs_ok_def same_dialogue_def)

text \<open>At the beginning of a line in both directions.\<close>

definition at_start :: "('t, 'l) transcript_stream \<Rightarrow> bool" where
  "at_start x \<longleftrightarrow> hasfl (xs_flags x) TRANS_READ \<and> hasfl (xs_flags x) TRANS_WRITE"

lemma print_line:
  assumes "xs_ok x" "at_start x" "fl = TRANS_READ \<or> fl = TRANS_WRITE" "NL \<notin> set l"
  shows "\<exists>y. print_transcript lops fl (l @ [NL]) x = Some y \<and> xs_ok y \<and> at_start y \<and> same_dialogue x y
    \<and> tot (xs_logstr y) = tot (xs_logstr x) @ xs_pfx x fl @ chomp l @ [NL]"
proof -
  have fl: "hasfl (xs_flags x) fl" using assms(2,3) by (auto simp: at_start_def)
  from xs_log_ok [OF assms(1), of "xs_pfx x fl"] obtain a where a: "xs_log lops (xs_pfx x fl) x = Some a" "xs_ok a" "same_dialogue x a" "xs_flags a = xs_flags x"
    "tot (xs_logstr a) = tot (xs_logstr x) @ xs_pfx x fl" by blast
  define b where "b = a\<lparr>xs_flags := clrfl (xs_flags a) fl\<rparr>"
  have b: "xs_start lops fl x = Some b" "xs_ok b" "same_dialogue x b" "tot (xs_logstr b) = tot (xs_logstr x) @ xs_pfx x fl"
    using a fl by (simp_all add: xs_start_def b_def xs_ok_def same_dialogue_def)
  from xs_log_ok [OF b(2), of "chomp l"] obtain c where c: "xs_log lops (chomp l) b = Some c" "xs_ok c" "same_dialogue b c" "xs_flags c = xs_flags b"
    "tot (xs_logstr c) = tot (xs_logstr b) @ chomp l" by blast
  from xs_log_ok [OF c(2), of "[NL]"] obtain d where d: "xs_log lops [NL] c = Some d" "xs_ok d" "same_dialogue c d" "xs_flags d = xs_flags c"
    "tot (xs_logstr d) = tot (xs_logstr c) @ [NL]" by blast
  have len: "take (if length l > 0 \<and> (l @ [NL]) ! (length l - 1) = CHR 0x0D then length l - 1 else length l) (l @ [NL]) = chomp l"
    by (cases l rule: rev_cases) (auto simp: chomp_def nth_append)
  define y where "y = d\<lparr>xs_flags := setfl (xs_flags d) fl\<rparr>"
  have "print_transcript lops fl [] y = Some y" by (simp add: print_transcript.simps)
  then have "print_transcript lops fl (l @ [NL]) x = Some y"
    using assms(4) b(1) c(1) d(1) len by (subst print_transcript.simps) (simp add: Let_def y_def)
  moreover have "at_start y"
    using assms(2,3) a(4) c(4) d(4) by (auto simp: y_def b_def at_start_def flag_simps)
  ultimately show ?thesis
    using a b c d by (auto simp: y_def xs_ok_def same_dialogue_def)
qed

lemma dialogue_recorded:
  "xs_ok x \<Longrightarrow> at_start x \<Longrightarrow> list_all (\<lambda>(fl, l). (fl = TRANS_READ \<or> fl = TRANS_WRITE) \<and> NL \<notin> set l) es \<Longrightarrow>
   \<exists>y. record_dialogue lops es x = Some y \<and> tot (xs_logstr y) = tot (xs_logstr x) @ concat (map (\<lambda>(fl, l). xs_pfx x fl @ chomp l @ [NL]) es)"
proof (induction es arbitrary: x)
  case (Cons e es)
  obtain fl l where e: "e = (fl, l)" by (cases e)
  from print_line [of x fl l] Cons.prems e obtain y where
    y: "print_transcript lops fl (l @ [NL]) x = Some y" "xs_ok y" "at_start y" "same_dialogue x y" "tot (xs_logstr y) = tot (xs_logstr x) @ xs_pfx x fl @ chomp l @ [NL]"
    by auto
  have "xs_pfx y = xs_pfx x" using y(4) by (auto simp: xs_pfx_def same_dialogue_def fun_eq_iff)
  with Cons.IH [OF y(2,3)] Cons.prems(3) y(1,5) e show ?case by auto
qed simp

end

text \<open>The stream over the standard error takes text.\<close>

definition fo_text_ok :: "string \<Rightarrow> bool \<Rightarrow> string option \<Rightarrow> fileout_stream smap_stream \<Rightarrow> bool" where
  "fo_text_ok pn pg pfx s \<longleftrightarrow> out_ok fo_sound s \<and> str_buftype s = smap_buffer_line \<and> \<not> has_flag s SMAP_STREAM_SEEK
     \<and> \<not> has_flag s SMAP_STREAM_EXPBUF \<and> str_cur s = 0 \<and> fo_good_for pn pg pfx (str_dev s)"

interpretation ftx: text_sink "fileout_ops alloc junk pn" "fo_text_ok pn pg pfx" fo.total for alloc junk pn pg pfx
proof
  fix s buf assume "fo_text_ok pn pg pfx s"
  then have s: "out_ok fo_sound s" "str_buftype s = smap_buffer_line" "\<not> has_flag s SMAP_STREAM_SEEK" "\<not> has_flag s SMAP_STREAM_EXPBUF" "str_cur s = 0"
    "fo_good_for pn pg pfx (str_dev s)" by (simp_all add: fo_text_ok_def)
  from fr.write_loop_ok_plain [OF s(1-4) _ s(5,6) order_refl, of alloc junk buf 0] obtain s1 m where
    w: "stream_write_loop (fileout_ops alloc junk pn) s buf 0 = Some (s1, E0, m)" "str_cur s1 = 0" "fo_good_for pn pg pfx (str_dev s1)" by auto
  from fo.write_loop_conserves [OF w(1) s(1,2)] have o: "fo.total s1 = fo.total s @ buf" "out_ok fo_sound s1" "out_frame s s1" by auto
  with w s out_frame_flags [OF o(3)] have "fo_text_ok pn pg pfx s1" by (simp add: fo_text_ok_def)
  with w(1) o(1) s(2) show "\<exists>s' n. smap_stream_write (fileout_ops alloc junk pn) s buf False = Some (s', E0, n) \<and> fo_text_ok pn pg pfx s' \<and> fo.total s' = fo.total s @ buf"
    by (simp add: smap_stream_write_def)
qed

text \<open>The transcript of a dialogue of lines on a new file output stream has every line once, in the order of the dialogue, after the prefix of its direction and without a carriage
  return at its end.\<close>

lemma transcript_of_dialogue:
  assumes "smap_fileout_stream_create (\<lambda>_. True) 0 pn True True no_file pfx pg = Some (E0, Some s)"
    and "smap_transcript_stream_create (\<lambda>_. True) 0 strerror tops (fileout_ops (\<lambda>_. True) 0 pn) True t s prefix = Some (E0, Some x)"
    and "list_all (\<lambda>(fl, l). (fl = TRANS_READ \<or> fl = TRANS_WRITE) \<and> NL \<notin> set l) es"
  shows "\<exists>y. record_dialogue (fileout_ops (\<lambda>_. True) 0 pn) es (str_dev x) = Some y
    \<and> fo.total (xs_logstr y) = concat (map (\<lambda>(fl, l). xs_pfx (str_dev x) fl @ chomp l @ [NL]) es)"
proof -
  have nf: "fo_file no_file = []" "fo_events no_file = []" "fo_flushes no_file = []" by (simp_all add: no_file_def)
  note c = fileout_created [OF assms(1) nf]
  have x: "xs_logstr (str_dev x) = s" "xs_flags (str_dev x) = 3"
    using assms(2) by (auto simp: smap_transcript_stream_create_def smap_stream_create_def smap_stream_set_buffer_def smap_stream_ref_def
        transcript_ops_def no_ops_def Let_def split: option.splits prod.splits)
  have "ftx.xs_ok pn pg pfx (str_dev x)" "ftx.at_start (str_dev x)" "fo.total s = []"
    using c x by (auto simp: ftx.xs_ok_def fo_text_ok_def ftx.at_start_def hasfl_def fo.total_def)
  with ftx.dialogue_recorded [of pn pg pfx "str_dev x" es "\<lambda>_. True" 0] assms(3) x(1) show ?thesis by simp
qed

text \<open>A block of which the transport takes a part only is recorded completely, and its rest again with the next call.\<close>

lemma short_write_recorded_twice:
  assumes "xs_transport p = Some t" "smap_stream_write tops t buf True = Some (t', E0, Some n)"
  shows "transcript_write tops lops p buf = map_option (\<lambda>p. (p, E0, n)) (print_transcript lops TRANS_WRITE buf (p\<lparr>xs_transport := Some t'\<rparr>))"
  using assms by (simp add: transcript_write_def Let_def map_conv_bind_option o_def)

section \<open>Error messages\<close>

text \<open>If memory is exhausted, the error is not noticed, and an empty line is written.\<close>

lemma verror_without_memory:
  assumes "\<not> alloc 512"
  shows "smap_verror ops fmt alloc s = do { (s, _, _) \<leftarrow> smap_stream_write ops s [NL] False; (s, _) \<leftarrow> smap_stream_flush ops s; Some s }"
  using assms by (simp add: smap_verror_def smap_stream_vprintf_def smap_vasnprintf_def)

section \<open>The name of the program and descriptors\<close>

lemma program_name:
  assumes "CHR ''/'' \<notin> set nm" "take 3 nm \<noteq> ''lt-''"
  shows "smap_set_program_name nm = nm" "smap_set_program_name (dir @ ''/'' @ nm) = nm" "smap_set_program_name (dir @ ''/lt-'' @ nm) = nm"
proof -
  have t: "takeWhile (\<lambda>c. c \<noteq> CHR ''/'') (rev nm @ r) = rev nm @ takeWhile (\<lambda>c. c \<noteq> CHR ''/'') r" for r
    using assms(1) by (subst takeWhile_append2) auto
  have t0: "takeWhile (\<lambda>c. c \<noteq> CHR ''/'') (rev nm) = rev nm" using t [of "[]"] by simp
  show "smap_set_program_name nm = nm" "smap_set_program_name (dir @ ''/'' @ nm) = nm" "smap_set_program_name (dir @ ''/lt-'' @ nm) = nm"
    using assms(2) by (simp_all add: smap_set_program_name_def strncmp_eq_def Let_def t t0)
qed

lemma close_fds_above_spec: "close_fds_above n fd fds = {f \<in> fds. f \<le> fd \<or> int n \<le> f}"
proof -
  have "fold (\<lambda>i fds. fds - {i}) xs fds = fds - set xs" for xs :: "int list" by (induction xs arbitrary: fds) auto
  then show ?thesis by (auto simp: close_fds_above_def)
qed

lemma close_fds_except_spec: "close_fds_except n exfd fds = {f \<in> fds. f \<in> exfd \<or> f < 0 \<or> int n \<le> f}"
proof -
  have "fold (\<lambda>i fds. if i \<in> exfd then fds else fds - {i}) xs fds = fds - (set xs - exfd)" for xs :: "int list"
    by (induction xs arbitrary: fds) auto
  then show ?thesis by (auto simp: close_fds_except_def)
qed

end
