(* ===== verification/Smap_Mailutils.thy ===== *)
theory Smap_Mailutils
  imports Smap_Sql Smap_Parseopt
begin

text \<open>
  The module \<open>mailutils\<close> (\<open>modules/mailutils/mailutils.c\<close>): databases that look users up and check the quotas of their mailboxes.  The
  library GNU Mailutils and the system call \<open>setreuid\<close> are a record of functions over the state \<open>'w\<close> of the outside world; \<open>'b\<close> are mailboxes.  The
  names of the variables are those of the manual.  A result \<open>None\<close> is an access outside of memory.
\<close>

section \<open>Data\<close>

text \<open>The entry of a user.  \<open>uid\<close>, \<open>gid\<close> are unsigned, the quota is a signed number of 64 bits.\<close>

record mu_auth_data =
  au_name :: string
  au_passwd :: string
  au_uid :: nat
  au_gid :: nat
  au_gecos :: string
  au_dir :: string
  au_shell :: string
  au_mailbox :: "string option"
  au_quota :: int
  au_change_uid :: bool

record ('w, 'b) libmu =
  mu_get_auth_by_name :: "string \<Rightarrow> 'w \<Rightarrow> mu_auth_data option"
  mu_mailbox_create_default :: "string option \<Rightarrow> 'w \<Rightarrow> 'w \<times> 'b option"
  mu_mailbox_get_url :: "'b \<Rightarrow> 'w \<Rightarrow> string option"
  mu_mailbox_open :: "'b \<Rightarrow> 'w \<Rightarrow> 'w \<times> bool"
  mu_mailbox_get_size :: "'b \<Rightarrow> 'w \<Rightarrow> int option"
  mu_mailbox_close :: "'b \<Rightarrow> 'w \<Rightarrow> 'w"
  mu_mailbox_destroy :: "'b \<Rightarrow> 'w \<Rightarrow> 'w"
  mu_setreuid :: "nat \<Rightarrow> nat \<Rightarrow> 'w \<Rightarrow> 'w \<times> bool"

datatype query_fun = QueryAuth | QueryMbq

record mu_smap_db =
  mdb_id :: string
  mdb_positive_reply :: string
  mdb_negative_reply :: string
  mdb_onerror_reply :: string
  mdb_config_file :: "string option"
  mdb_config_flags :: flagword
  mdb_qfn :: query_fun

record mu_smap_result =
  rs_db :: string
  rs_map :: string
  rs_key :: string
  rs_auth :: "mu_auth_data option"
  rs_url :: "string option"
  rs_mbsize :: int
  rs_msgsize :: nat
  rs_diag :: "string option"

section \<open>Replies\<close>

text \<open>\<open>snprintf\<close> with \<open>%lu\<close>.\<close>

fun format_ulong :: "nat \<Rightarrow> string" where
  "format_ulong n = (if n < 10 then [char_of (48 + n)] else format_ulong (n div 10) @ [char_of (48 + n mod 10)])"

declare format_ulong.simps [simp del]

definition unsigned_long :: "int \<Rightarrow> nat" where
  "unsigned_long i = nat (i mod 2 ^ 64)"

definition auth_vars :: "mu_smap_result \<Rightarrow> mu_auth_data \<Rightarrow> (string \<times> string) list" where
  "auth_vars res auth =
     [(''name'', au_name auth), (''passwd'', au_passwd auth), (''uid'', format_ulong (au_uid auth)), (''gid'', format_ulong (au_gid auth)),
      (''gecos'', au_gecos auth), (''dir'', au_dir auth), (''shell'', au_shell auth),
      (''mailbox'', case au_mailbox auth of Some m \<Rightarrow> m | None \<Rightarrow> (case rs_url res of Some u \<Rightarrow> u | None \<Rightarrow> [])),
      (''quota'', format_ulong (unsigned_long (au_quota auth))), (''mbsize'', format_ulong (unsigned_long (rs_mbsize res))),
      (''msgsize'', format_ulong (rs_msgsize res))]"

definition result_vars :: "mu_smap_result \<Rightarrow> (string \<times> string) list" where
  "result_vars res = [(''db'', rs_db res), (''key'', rs_key res), (''map'', rs_map res)]
     @ (case rs_auth res of None \<Rightarrow> [] | Some auth \<Rightarrow> auth_vars res auth)
     @ (case rs_diag res of None \<Rightarrow> [] | Some d \<Rightarrow> [(''diag'', d)])"

text \<open>The array has \<open>room\<close> elements, one of which is the null pointer at the end.\<close>

definition mkenv :: "nat \<Rightarrow> mu_smap_result \<Rightarrow> string list option" where
  "mkenv room res =
     (let env = map (\<lambda>(n, v). format_env n v) (result_vars res) in if length env < room then Some env else None)"

text \<open>The code, and the pointer to the text.\<close>

definition expand_reply_text :: "string \<Rightarrow> mu_smap_result \<Rightarrow> (int \<times> string option) option" where
  "expand_reply_text arg res = do {
     env \<leftarrow> mkenv 16 res;
     r \<leftarrow> expand_reply env arg;
     Some (case r of Inl e \<Rightarrow> (1, None) | Inr repl \<Rightarrow> (0, repl)) }"

text \<open>The output of a query.\<close>

definition print_reply :: "int \<Rightarrow> string option \<Rightarrow> (int \<times> string list) option" where
  "print_reply rc reply = (if rc = 0 then do { reply \<leftarrow> reply; out \<leftarrow> printf_writes (reply @ [NL]); Some (rc, out) } else Some (rc, []))"

definition no_result :: "mu_smap_db \<Rightarrow> string \<Rightarrow> string \<Rightarrow> mu_smap_result" where
  "no_result mdb mp key = \<lparr>rs_db = mdb_id mdb, rs_map = mp, rs_key = key, rs_auth = None, rs_url = None, rs_mbsize = 0, rs_msgsize = 0, rs_diag = None\<rparr>"

section \<open>Looking a user up\<close>

definition mu_auth_query :: "('w, 'b) libmu \<Rightarrow> mu_smap_db \<Rightarrow> string \<Rightarrow> string \<Rightarrow> 'w \<Rightarrow> ('w \<times> int \<times> string list) option" where
  "mu_auth_query lib mdb mp key w = do {
     let auth = mu_get_auth_by_name lib key w;
     let res = (no_result mdb mp key)\<lparr>rs_auth := auth\<rparr>;
     (rc, reply) \<leftarrow> expand_reply_text (if auth = None then mdb_negative_reply mdb else mdb_positive_reply mdb) res;
     map_option (Pair w) (print_reply rc reply) }"

section \<open>Quotas\<close>

text \<open>True is the failure.\<close>

definition switch_user_id :: "('w, 'b) libmu \<Rightarrow> mu_auth_data \<Rightarrow> bool \<Rightarrow> 'w \<Rightarrow> 'w \<times> bool" where
  "switch_user_id lib auth user w =
     (if \<not> au_change_uid auth then (w, False)
      else (case mu_setreuid lib 0 (if user then au_uid auth else 0) w of (w, ok) \<Rightarrow> (w, \<not> ok)))"

text \<open>The comparisons: the first is signed, in the second the sum and the quota are converted to \<open>unsigned long\<close>.\<close>

definition quota_check :: "int \<Rightarrow> int \<Rightarrow> nat \<Rightarrow> bool \<times> string" where
  "quota_check quota sz msgsize =
     (if quota = 0 then (True, ''NOQUOTA'')
      else if sz \<ge> quota then (False, ''mailbox quota exceeded for this recipient'')
      else if msgsize \<noteq> 0 \<and> (word_of_int quota :: 64 word) \<le> word_of_int sz + word_of_nat msgsize
        then (False, ''message would exceed maximum mailbox size for this recipient'')
      else (True, ''QUOTAOK''))"

definition checksize_user ::
  "('w, 'b) libmu \<Rightarrow> mu_smap_db \<Rightarrow> mu_smap_result \<Rightarrow> mu_auth_data \<Rightarrow> 'w \<Rightarrow> ('w \<times> mu_smap_result \<times> int \<times> string option) option" where
  "checksize_user lib mdb res auth w =
     (case mu_mailbox_create_default lib (au_mailbox auth) w of
        (w, None) \<Rightarrow> Some (w, res\<lparr>rs_diag := Some ''local system error''\<rparr>, 0, None)
      | (w, Some mbox) \<Rightarrow>
          let res = res\<lparr>rs_url := mu_mailbox_get_url lib mbox w\<rparr> in
          (case mu_mailbox_open lib mbox w of (w, ok) \<Rightarrow>
             if \<not> ok then Some (mu_mailbox_destroy lib mbox w, res\<lparr>rs_diag := Some ''local system error''\<rparr>, 0, None)
             else (case mu_mailbox_get_size lib mbox w of
                 None \<Rightarrow> Some (mu_mailbox_destroy lib mbox (mu_mailbox_close lib mbox w), res\<lparr>rs_diag := Some ''local system error''\<rparr>, 0, None)
               | Some sz \<Rightarrow> (case quota_check (au_quota auth) sz (rs_msgsize res) of (ok, diag) \<Rightarrow> do {
                   let res = res\<lparr>rs_mbsize := sz, rs_diag := Some diag\<rparr>;
                   (rc, reply) \<leftarrow> expand_reply_text (if ok then mdb_positive_reply mdb else mdb_negative_reply mdb) res;
                   Some (mu_mailbox_destroy lib mbox (mu_mailbox_close lib mbox w), res, rc, reply) }))))"

definition checksize ::
  "('w, 'b) libmu \<Rightarrow> mu_smap_db \<Rightarrow> string \<Rightarrow> mu_smap_result \<Rightarrow> 'w \<Rightarrow> ('w \<times> mu_smap_result \<times> int \<times> string option) option" where
  "checksize lib mdb user res w =
     (case mu_get_auth_by_name lib user w of
        None \<Rightarrow> Some (w, res\<lparr>rs_diag := Some ''user not found''\<rparr>, 0, None)
      | Some auth \<Rightarrow>
          (case switch_user_id lib auth True w of (w, failed) \<Rightarrow>
             if failed then Some (w, res\<lparr>rs_diag := Some ''local system error''\<rparr>, 0, None)
             else do {
               (w, res, status, reply) \<leftarrow> checksize_user lib mdb (res\<lparr>rs_auth := Some auth\<rparr>) auth w;
               Some (fst (switch_user_id lib auth False w), res\<lparr>rs_auth := None\<rparr>, status, reply) }))"

text \<open>The user and the size in a key; a size with other characters after it is ignored.\<close>

definition split_key :: "string \<Rightarrow> string \<times> nat" where
  "split_key key =
     (let user = takeWhile (\<lambda>c. c \<noteq> CHR '' '' \<and> c \<noteq> CHR 0x09) key;
          rest = drop (length user) key
      in if rest = [] then (user, 0)
         else
           let p = tl rest;
               p = (if strncmp_eq p ''SIZE='' 5 then drop 5 p else p)
           in case strtoul p 10 of (n, q) \<Rightarrow> (user, if q = [] then n else 0))"

definition mu_mbq_query :: "('w, 'b) libmu \<Rightarrow> mu_smap_db \<Rightarrow> string \<Rightarrow> string \<Rightarrow> 'w \<Rightarrow> ('w \<times> int \<times> string list) option" where
  "mu_mbq_query lib mdb mp key w = (case split_key key of (user, msgsize) \<Rightarrow> do {
     (w, res, rc, reply) \<leftarrow> checksize lib mdb user ((no_result mdb mp key)\<lparr>rs_msgsize := msgsize\<rparr>) w;
     (rc, reply) \<leftarrow> (if rc = 0 \<and> reply = None then expand_reply_text (mdb_onerror_reply mdb) res else Some (rc, reply));
     map_option (Pair w) (print_reply rc reply) })"

definition mod_mailutils_query :: "('w, 'b) libmu \<Rightarrow> mu_smap_db \<Rightarrow> string \<Rightarrow> string \<Rightarrow> 'w \<Rightarrow> ('w \<times> int \<times> string list) option" where
  "mod_mailutils_query lib mdb mp key w =
     (case mdb_qfn mdb of QueryAuth \<Rightarrow> mu_auth_query lib mdb mp key w | QueryMbq \<Rightarrow> mu_mbq_query lib mdb mp key w)"

section \<open>Databases\<close>

text \<open>The local variables of the function that creates a database.\<close>

record mu_db_vars =
  mv_mode :: flagword
  mv_positive_reply :: "string option"
  mv_negative_reply :: "string option"
  mv_onerror_reply :: "string option"
  mv_config_file :: "string option"
  mv_cfgflags :: flagword

definition mu_opt_string :: "string \<Rightarrow> (string \<Rightarrow> mu_db_vars \<Rightarrow> mu_db_vars) \<Rightarrow> mu_db_vars smap_option" where
  "mu_opt_string nm upd = \<lparr>opt_name = nm, opt_type = smap_opt_string, opt_data = StrData upd, opt_value = 0, opt_enumstr = [], opt_func = None\<rparr>"

text \<open>The flags of the library for verbose parsing and for the dump are \<open>verbose\<close> and \<open>dump\<close>.\<close>

definition mu_db_options :: "int \<Rightarrow> int \<Rightarrow> mu_db_vars smap_option list" where
  "mu_db_options verbose dump =
     [\<lparr>opt_name = ''mode'', opt_type = smap_opt_enum, opt_data = IntData (\<lambda>f v. v\<lparr>mv_mode := f (mv_mode v)\<rparr>), opt_value = 0, opt_enumstr = [''auth'', ''mbq''], opt_func = None\<rparr>,
      mu_opt_string ''positive-reply'' (\<lambda>s v. v\<lparr>mv_positive_reply := Some s\<rparr>), mu_opt_string ''negative-reply'' (\<lambda>s v. v\<lparr>mv_negative_reply := Some s\<rparr>),
      mu_opt_string ''onerror-reply'' (\<lambda>s v. v\<lparr>mv_onerror_reply := Some s\<rparr>), mu_opt_string ''config-file'' (\<lambda>s v. v\<lparr>mv_config_file := Some s\<rparr>),
      \<lparr>opt_name = ''config-verbose'', opt_type = smap_opt_bitmask, opt_data = IntData (\<lambda>f v. v\<lparr>mv_cfgflags := f (mv_cfgflags v)\<rparr>), opt_value = verbose, opt_enumstr = [], opt_func = None\<rparr>,
      \<lparr>opt_name = ''config-dump'', opt_type = smap_opt_bitmask, opt_data = IntData (\<lambda>f v. v\<lparr>mv_cfgflags := f (mv_cfgflags v)\<rparr>), opt_value = dump, opt_enumstr = [], opt_func = None\<rparr>]"

text \<open>The defaults of the module.\<close>

record mu_defaults =
  dfl_positive_reply :: string
  dfl_negative_reply :: string
  dfl_onerror_reply :: string

definition mu_dfl :: mu_defaults where
  "mu_dfl = \<lparr>dfl_positive_reply = ''OK'', dfl_negative_reply = ''NOTFOUND'', dfl_onerror_reply = ''NOTFOUND''\<rparr>"

definition qfn_tab :: "query_fun list" where
  "qfn_tab = [QueryAuth, QueryMbq]"

definition mod_mailutils_init_db :: "int \<Rightarrow> int \<Rightarrow> flagword \<Rightarrow> mu_defaults \<Rightarrow> string \<Rightarrow> string list \<Rightarrow> mu_smap_db option option" where
  "mod_mailutils_init_db verbose dump plain dfl dbid argv = do {
     (v, argv, _, rc) \<leftarrow> smap_parseopt (mu_db_options verbose dump) argv 0 False
        \<lparr>mv_mode = 0, mv_positive_reply = None, mv_negative_reply = None, mv_onerror_reply = None, mv_config_file = None, mv_cfgflags = plain\<rparr>;
     if rc \<noteq> 0 then Some None
     else if unat (mv_mode v) < length qfn_tab then
       Some (Some \<lparr>mdb_id = dbid, mdb_positive_reply = (case mv_positive_reply v of Some r \<Rightarrow> r | None \<Rightarrow> dfl_positive_reply dfl),
         mdb_negative_reply = (case mv_negative_reply v of Some r \<Rightarrow> r | None \<Rightarrow> dfl_negative_reply dfl),
         mdb_onerror_reply = (case mv_onerror_reply v of Some r \<Rightarrow> r | None \<Rightarrow> dfl_onerror_reply dfl),
         mdb_config_file = mv_config_file v, mdb_config_flags = mv_cfgflags v, mdb_qfn = qfn_tab ! unat (mv_mode v)\<rparr>)
     else None }"

text \<open>The structure is released.\<close>

definition mod_mailutils_free_db :: "mu_smap_db \<Rightarrow> mu_smap_db option \<times> int" where
  "mod_mailutils_free_db db = (None, 0)"

section \<open>The list of capabilities\<close>

text \<open>\<open>alloc\<close> is the success of allocations; the array has \<open>cb_maxcapa\<close> elements.\<close>

record cap_buf =
  cb_err :: bool
  cb_capa :: "string option list"
  cb_numcapa :: nat
  cb_maxcapa :: nat

definition cap_buf_init :: "(nat \<Rightarrow> bool) \<Rightarrow> cap_buf \<times> bool" where
  "cap_buf_init alloc =
     (if alloc 2 then (\<lparr>cb_err = False, cb_capa = [None, None], cb_numcapa = 0, cb_maxcapa = 2\<rparr>, False)
      else (\<lparr>cb_err = True, cb_capa = [], cb_numcapa = 0, cb_maxcapa = 2\<rparr>, True))"

text \<open>The new part of the array is not initialised; here it is null.\<close>

definition cap_buf_add :: "(nat \<Rightarrow> bool) \<Rightarrow> cap_buf \<Rightarrow> string option \<Rightarrow> (cap_buf \<times> bool) option" where
  "cap_buf_add alloc bp str =
     (if cb_err bp then Some (bp, True)
      else if cb_numcapa bp = cb_maxcapa bp \<and> \<not> alloc (cb_maxcapa bp * 2) then Some (bp\<lparr>cb_err := True\<rparr>, True)
      else
        let bp = (if cb_numcapa bp = cb_maxcapa bp
                  then bp\<lparr>cb_capa := cb_capa bp @ replicate (cb_maxcapa bp) None, cb_maxcapa := cb_maxcapa bp * 2\<rparr> else bp)
        in if cb_numcapa bp < length (cb_capa bp)
           then Some (bp\<lparr>cb_capa := (cb_capa bp)[cb_numcapa bp := str], cb_numcapa := if str = None then cb_numcapa bp else cb_numcapa bp + 1\<rparr>, False)
           else None)"

fun reg_actions :: "(nat \<Rightarrow> bool) \<Rightarrow> string list \<Rightarrow> cap_buf \<Rightarrow> cap_buf option" where
  "reg_actions alloc [] bp = Some bp"
| "reg_actions alloc (i # is) bp = do { (bp, stop) \<leftarrow> cap_buf_add alloc bp (Some i); if stop then Some bp else reg_actions alloc is bp }"

text \<open>\<open>registered\<close> are the capabilities that the library enumerates; the result is the array for \<open>mu_libcfg_init\<close>.\<close>

definition init_cfg_capa :: "(nat \<Rightarrow> bool) \<Rightarrow> string list \<Rightarrow> string option list option option" where
  "init_cfg_capa alloc registered =
     (case cap_buf_init alloc of (cb, failed) \<Rightarrow> do {
        cb \<leftarrow> (if failed then Some cb
               else do { cb \<leftarrow> reg_actions alloc registered cb; (cb, _) \<leftarrow> cap_buf_add alloc cb None; Some cb });
        Some (if cb_err cb then None else Some (cb_capa cb)) })"

section \<open>What the module does\<close>

text \<open>The array of variables is large enough, by one element.\<close>

lemma result_vars_fit: "length (result_vars res) < 16"
  by (auto simp: result_vars_def auth_vars_def split: option.split)

lemma result_vars_names: "\<forall>b \<in> set (result_vars res). CHR ''='' \<notin> set (fst b)"
  by (auto simp: result_vars_def auth_vars_def split: option.splits)

lemma expand_reply_text_template:
  assumes "template_ok ps"
  shows "expand_reply_text (concat (map render ps)) res = Some (0, Some (filled ps (result_vars res)))"
  using expand_reply_template [OF assms result_vars_names [of res]] result_vars_fit [of res]
  by (simp add: expand_reply_text_def mkenv_def filled_def Let_def case_prod_beta')

definition within_quota :: "int \<Rightarrow> int \<Rightarrow> nat \<Rightarrow> bool" where
  "within_quota quota sz msgsize \<longleftrightarrow> quota = 0 \<or> sz < quota \<and> (msgsize = 0 \<or> sz + int msgsize < quota)"

text \<open>Without wrap-around the comparisons decide as numbers do.\<close>

lemma quota_check_spec:
  assumes "0 \<le> quota" "quota < 2 ^ 63" "0 \<le> sz" "sz < 2 ^ 63" "sz + int msgsize < 2 ^ 64"
  shows "fst (quota_check quota sz msgsize) = within_quota quota sz msgsize"
proof -
  have q: "uint (word_of_int quota :: 64 word) = quota" using assms(1,2) by (simp add: uint_word_of_int_eq take_bit_int_eq_self)
  have "word_of_int sz + word_of_nat msgsize = (word_of_int (sz + int msgsize) :: 64 word)" by simp
  then have s: "uint (word_of_int sz + word_of_nat msgsize :: 64 word) = sz + int msgsize"
    using assms(3,5) by (simp only: uint_word_of_int_eq) (simp add: take_bit_int_eq_self)
  show ?thesis using q s by (auto simp: quota_check_def within_quota_def word_le_def)
qed

text \<open>A message with a size near \<open>2 ^ 64\<close> is accepted.\<close>

lemma quota_wraps: "quota_check 1000 10 (2 ^ 64 - 1) = (True, ''QUOTAOK'')"
  by (simp add: quota_check_def)

text \<open>What a query has found out, for a user with a mailbox of size \<open>sz\<close>.\<close>

definition mbq_result :: "('w, 'b) libmu \<Rightarrow> mu_smap_db \<Rightarrow> string \<Rightarrow> string \<Rightarrow> nat \<Rightarrow> mu_auth_data \<Rightarrow> string option \<Rightarrow> int \<Rightarrow> mu_smap_result" where
  "mbq_result lib mdb mp key msgsize auth url sz =
     (no_result mdb mp key)\<lparr>rs_msgsize := msgsize, rs_auth := Some auth, rs_url := url, rs_mbsize := sz,
       rs_diag := Some (snd (quota_check (au_quota auth) sz msgsize))\<rparr>"

text \<open>C27. A query for the quota of a user opens the mailbox with the identity of that user, closes it and returns to the identity of the superuser, and answers by the positive
  template exactly if there is no quota, or the mailbox and the announced message together stay below it, and by the negative template otherwise; the
  variables of the reply include the entry of the user, the sizes and a diagnostic.  This holds for all sizes whose sum is less than \<open>2 ^ 64\<close>.  A line of more than 510 bytes
  is not sent: formatting it reads behind the arguments.\<close>

theorem mailutils_quota:
  assumes "mdb_qfn mdb = QueryMbq" "template_ok pos" "template_ok neg"
    and "mdb_positive_reply mdb = concat (map render pos)" "mdb_negative_reply mdb = concat (map render neg)"
    and "split_key key = (user, msgsize)" "mu_get_auth_by_name lib user w = Some auth" "au_change_uid auth" "mu_setreuid lib 0 (au_uid auth) w = (w1, True)"
    and "mu_mailbox_create_default lib (au_mailbox auth) w1 = (w2, Some b)" "mu_mailbox_open lib b w2 = (w3, True)" "mu_mailbox_get_size lib b w3 = Some sz"
    and "0 \<le> au_quota auth" "au_quota auth < 2 ^ 63" "0 \<le> sz" "sz < 2 ^ 63" "sz + int msgsize < 2 ^ 64"
    and "line = filled (if within_quota (au_quota auth) sz msgsize then pos else neg)
         (result_vars (mbq_result lib mdb mp key msgsize auth (mu_mailbox_get_url lib b w2) sz))"
  shows "mod_mailutils_query lib mdb mp key w =
    (if length line < 511 then Some (fst (mu_setreuid lib 0 0 (mu_mailbox_destroy lib b (mu_mailbox_close lib b w3))), 0, [line @ [NL]]) else None)"
proof -
  obtain ok diag where q: "quota_check (au_quota auth) sz msgsize = (ok, diag)" by (cases "quota_check (au_quota auth) sz msgsize")
  with quota_check_spec [OF assms(13-17)] have ok: "ok = within_quota (au_quota auth) sz msgsize" by simp
  let ?res = "mbq_result lib mdb mp key msgsize auth (mu_mailbox_get_url lib b w2) sz"
  have "?res = (no_result mdb mp key)\<lparr>rs_msgsize := msgsize, rs_auth := Some auth, rs_url := mu_mailbox_get_url lib b w2, rs_mbsize := sz, rs_diag := Some diag\<rparr>"
    by (simp add: mbq_result_def q)
  then have "checksize_user lib mdb ((no_result mdb mp key)\<lparr>rs_msgsize := msgsize, rs_auth := Some auth\<rparr>) auth w1 =
      Some (mu_mailbox_destroy lib b (mu_mailbox_close lib b w3), ?res, 0, Some (filled (if ok then pos else neg) (result_vars ?res)))"
    using assms(10-12) q expand_reply_text_template [OF assms(2)] expand_reply_text_template [OF assms(3)]
    by (simp add: checksize_user_def assms(4,5) Let_def no_result_def)
  with assms(1,6-9) ok show ?thesis
    unfolding assms(18) by (simp add: mod_mailutils_query_def mu_mbq_query_def checksize_def switch_user_id_def print_reply_def printf_line case_prod_beta)
qed

text \<open>An example: a user with a quota and a mailbox; the outside world is the list of the calls of \<open>setreuid\<close>.\<close>

definition demo_mu :: "(nat list, unit) libmu" where
  "demo_mu = \<lparr>mu_get_auth_by_name = \<lambda>u w. if u = ''joe'' then Some \<lparr>au_name = u, au_passwd = ''x'', au_uid = 7, au_gid = 7, au_gecos = [], au_dir = ''/h'', au_shell = ''/s'',
       au_mailbox = Some ''/m'', au_quota = 1000, au_change_uid = True\<rparr> else None,
     mu_mailbox_create_default = \<lambda>_ w. (w, Some ()), mu_mailbox_get_url = \<lambda>_ _. None, mu_mailbox_open = \<lambda>_ w. (w, True), mu_mailbox_get_size = \<lambda>_ _. Some 900,
     mu_mailbox_close = \<lambda>_ w. w, mu_mailbox_destroy = \<lambda>_ w. w, mu_setreuid = \<lambda>_ u w. (w @ [u], True)\<rparr>"

definition demo_mudb :: mu_smap_db where
  "demo_mudb = \<lparr>mdb_id = ''db'', mdb_positive_reply = ''OK'', mdb_negative_reply = ''NO ${diag}'', mdb_onerror_reply = ''ERR'', mdb_config_file = None, mdb_config_flags = 0,
     mdb_qfn = QueryMbq\<rparr>"

theorem mailutils_quota_witness:
  "mod_mailutils_query demo_mu demo_mudb ''m'' ''joe SIZE=200'' [] =
     Some ([7, 0], 0, [''NO message would exceed maximum mailbox size for this recipient'' @ [NL]])"
proof -
  have k: "split_key ''joe SIZE=200'' = (''joe'', 200)"
    by (simp add: split_key_def strncmp_eq_def strtoul_def strtoul_base_def strtoul_digits_def digit_val_def number_of_def isspace_def SIZE_MAX_def Let_def)
  show ?thesis
    using mailutils_quota [of demo_mudb "[Lit ''OK'']" "[Lit ''NO '', Var ''diag'']" "''joe SIZE=200''" "''joe''" 200 demo_mu "[]" _ "[7]" "[7]" "()" "[7]" 900 "''NO message would exceed maximum mailbox size for this recipient''" "''m''"] k
    by (simp add: demo_mu_def demo_mudb_def template_ok_def within_quota_def filled_def lookup_value_def result_vars_def auth_vars_def mbq_result_def quota_check_def no_result_def)
qed

text \<open>The identity of the superuser is restored whenever it has been given up.\<close>

lemma superuser_restored:
  assumes "checksize lib mdb user res w = Some (w', res', rc, reply)" "mu_get_auth_by_name lib user w = Some auth" "au_change_uid auth"
    and "mu_setreuid lib 0 (au_uid auth) w = (w1, True)"
  shows "\<exists>w2. w' = fst (mu_setreuid lib 0 0 w2)"
  using assms by (auto simp: checksize_def switch_user_id_def bind_eq_Some_conv case_prod_beta)

text \<open>Failures: an unknown user, a refused identity, and a mailbox that cannot be created.\<close>

lemma mailutils_quota_errors:
  assumes "mdb_qfn mdb = QueryMbq" "template_ok err" "mdb_onerror_reply mdb = concat (map render err)" "split_key key = (user, msgsize)"
    and "mu_get_auth_by_name lib user w = None \<or> (\<exists>auth. mu_get_auth_by_name lib user w = Some auth \<and> au_change_uid auth
      \<and> (\<not> snd (mu_setreuid lib 0 (au_uid auth) w)
         \<or> snd (mu_mailbox_create_default lib (au_mailbox auth) (fst (mu_setreuid lib 0 (au_uid auth) w))) = None))"
  shows "\<exists>w' d. mod_mailutils_query lib mdb mp key w =
    map_option (\<lambda>out. (w', 0, out)) (printf_writes (filled err (result_vars ((no_result mdb mp key)\<lparr>rs_msgsize := msgsize, rs_diag := Some d\<rparr>)) @ [NL]))"
  using assms(5)
proof (elim disjE exE conjE)
  assume "mu_get_auth_by_name lib user w = None"
  with assms(1,3,4) expand_reply_text_template [OF assms(2)] show ?thesis
    by (auto simp: mod_mailutils_query_def mu_mbq_query_def checksize_def print_reply_def printf_line no_result_def)
next
  fix auth assume a: "mu_get_auth_by_name lib user w = Some auth" "au_change_uid auth" "\<not> snd (mu_setreuid lib 0 (au_uid auth) w)"
  with assms(1,3,4) expand_reply_text_template [OF assms(2)] show ?thesis
    by (auto simp: mod_mailutils_query_def mu_mbq_query_def checksize_def switch_user_id_def print_reply_def printf_line no_result_def case_prod_beta)
next
  fix auth assume a: "mu_get_auth_by_name lib user w = Some auth" "au_change_uid auth"
    "snd (mu_mailbox_create_default lib (au_mailbox auth) (fst (mu_setreuid lib 0 (au_uid auth) w))) = None"
  obtain w1 ok where s: "mu_setreuid lib 0 (au_uid auth) w = (w1, ok)" by (cases "mu_setreuid lib 0 (au_uid auth) w")
  obtain w2 where c: "mu_mailbox_create_default lib (au_mailbox auth) w1 = (w2, None)"
    using a(3) s by (cases "mu_mailbox_create_default lib (au_mailbox auth) w1") auto
  show ?thesis
    using a(1,2) s c assms(1,3,4) expand_reply_text_template [OF assms(2)]
    by (cases ok) (auto simp: mod_mailutils_query_def mu_mbq_query_def checksize_def checksize_user_def switch_user_id_def print_reply_def printf_line no_result_def case_prod_beta)
qed

lemma mailutils_auth:
  assumes "mdb_qfn mdb = QueryAuth" "template_ok pos" "template_ok neg"
    and "mdb_positive_reply mdb = concat (map render pos)" "mdb_negative_reply mdb = concat (map render neg)"
  shows "mod_mailutils_query lib mdb mp key w =
    map_option (\<lambda>out. (w, 0, out)) (printf_writes (filled (if mu_get_auth_by_name lib key w = None then neg else pos)
      (result_vars ((no_result mdb mp key)\<lparr>rs_auth := mu_get_auth_by_name lib key w\<rparr>)) @ [NL]))"
  using assms(1) expand_reply_text_template [OF assms(2)] expand_reply_text_template [OF assms(3)]
  by (simp add: mod_mailutils_query_def mu_auth_query_def assms(4,5) print_reply_def printf_line Let_def)

text \<open>For a user that is not found the variables of the entry have no value.\<close>

lemma unknown_user_variables:
  "lookup_value (result_vars (no_result mdb mp key)) ''uid'' = []" "lookup_value (result_vars (no_result mdb mp key)) ''quota'' = []"
  by (simp_all add: lookup_value_def result_vars_def no_result_def)

section \<open>Creating a database\<close>

lemma mu_db_options_typed: "\<forall>p \<in> set (mu_db_options a b). opt_typed p"
  by (simp add: mu_db_options_def mu_opt_string_def opt_typed_def)

text \<open>The mode stays an index into the table of functions.\<close>

lemma parseline_mode:
  assumes "smap_parseline (mu_db_options a b) l flags s = Some (s', rc)" "unat (mv_mode s) < 2"
  shows "unat (mv_mode s') < 2"
proof (cases "find_opt (mu_db_options a b) l flags")
  case (Some pv)
  then obtain p v where f: "find_opt (mu_db_options a b) l flags = Some (p, v)" by (cases pv) auto
  from find_opt_mem [OF f] assms f show ?thesis
    by (auto simp: mu_db_options_def mu_opt_string_def smap_parseline_def opt_store_def store_int_def store_str_def Let_def
        split: option.splits if_splits)
qed (use assms in \<open>simp add: smap_parseline_def\<close>)

lemma run_options_mode:
  "run_options (mu_db_options a b) as rc s = Some (s', rc') \<Longrightarrow> unat (mv_mode s) < 2 \<Longrightarrow> unat (mv_mode s') < 2"
proof (induction as arbitrary: rc s)
  case (Cons x as)
  then obtain s1 res where "smap_parseline (mu_db_options a b) x SMAP_DELIM_EQ s = Some (s1, res)"
    "run_options (mu_db_options a b) as (if res = SMAP_PARSE_SUCCESS then rc else 1) s1 = Some (s', rc')"
    by (auto simp: bind_eq_Some_conv)
  with Cons.IH Cons.prems(2) parseline_mode show ?case by metis
qed simp

lemma mailutils_init_db_returns: "\<exists>r. mod_mailutils_init_db verbose dump plain dfl dbid (a0 # args) = Some r"
proof -
  let ?v = "\<lparr>mv_mode = 0, mv_positive_reply = None, mv_negative_reply = None, mv_onerror_reply = None, mv_config_file = None, mv_cfgflags = plain\<rparr>"
  from run_options_typed [OF mu_db_options_typed [of verbose dump], of args 0 ?v] obtain s rc where
    r: "run_options (mu_db_options verbose dump) args 0 ?v = Some (s, rc)" by blast
  from run_options_mode [OF r] have "unat (mv_mode s) < 2" by simp
  with r show ?thesis
    by (simp add: mod_mailutils_init_db_def smap_parseopt_def hasfl_0 parseopt_loop_all qfn_tab_def)
qed

text \<open>The array of capabilities holds what the library enumerates, and a null pointer after it.\<close>

definition cap_holds :: "string list \<Rightarrow> cap_buf \<Rightarrow> bool" where
  "cap_holds xs bp \<longleftrightarrow> \<not> cb_err bp \<and> 0 < cb_maxcapa bp \<and> length (cb_capa bp) = cb_maxcapa bp \<and> cb_numcapa bp = length xs \<and> length xs \<le> cb_maxcapa bp
     \<and> take (length xs) (cb_capa bp) = map Some xs"

lemma cap_buf_add_ok:
  assumes "cap_holds xs bp"
  shows "\<exists>bp'. cap_buf_add (\<lambda>_. True) bp (Some x) = Some (bp', False) \<and> cap_holds (xs @ [x]) bp'"
    and "\<exists>bp'. cap_buf_add (\<lambda>_. True) bp None = Some (bp', False) \<and> cap_holds xs bp' \<and> length xs < length (cb_capa bp') \<and> cb_capa bp' ! length xs = None"
  using assms by (auto simp: cap_buf_add_def cap_holds_def Let_def take_Suc_conv_app_nth nth_append)

lemma reg_actions_ok:
  "cap_holds xs bp \<Longrightarrow> \<exists>bp'. reg_actions (\<lambda>_. True) ys bp = Some bp' \<and> cap_holds (xs @ ys) bp'"
proof (induction ys arbitrary: xs bp)
  case (Cons y ys)
  from cap_buf_add_ok(1) [OF Cons.prems, of y] obtain bp1 where "cap_buf_add (\<lambda>_. True) bp (Some y) = Some (bp1, False)" "cap_holds (xs @ [y]) bp1" by blast
  with Cons.IH [of "xs @ [y]" bp1] show ?case by auto
qed simp

lemma init_cfg_capa_list:
  "\<exists>arr. init_cfg_capa (\<lambda>_. True) registered = Some (Some arr) \<and> take (length registered + 1) arr = map Some registered @ [None]"
proof -
  define bp where "bp = \<lparr>cb_err = False, cb_capa = [None, None], cb_numcapa = 0, cb_maxcapa = 2\<rparr>"
  have "cap_holds [] bp" by (simp add: cap_holds_def bp_def)
  from reg_actions_ok [OF this, of registered] obtain bp1 where b: "reg_actions (\<lambda>_. True) registered bp = Some bp1" "cap_holds registered bp1" by auto
  from cap_buf_add_ok(2) [OF b(2)] obtain bp2 where
    c: "cap_buf_add (\<lambda>_. True) bp1 None = Some (bp2, False)" "cap_holds registered bp2" "length registered < length (cb_capa bp2)" "cb_capa bp2 ! length registered = None" by blast
  then have "take (length registered + 1) (cb_capa bp2) = map Some registered @ [None]" by (simp add: cap_holds_def take_Suc_conv_app_nth)
  with b(1) c(1,2) show ?thesis by (auto simp: init_cfg_capa_def cap_buf_init_def bp_def [symmetric] cap_holds_def)
qed

end
