(* ===== verification/Smap_Wsnode.thy ===== *)
theory Smap_Wsnode
  imports Smap_Wordsplit Smap_Dlist
begin

text \<open>
  The list of nodes of the word splitter (\<open>lib/wordsplit.c\<close>) as the linked structure that it is in memory: a node is an address, its members \<open>prev\<close> and \<open>next\<close> and those of
  the splitter, \<open>ws_head\<close> and \<open>ws_tail\<close>, are in a store of pointers as in \<open>Smap_Dlist\<close>, and \<open>wl_node\<close> has the rest of each node.  The lemmas show that the
  operations implement those on lists, on which \<open>Smap_Wordsplit\<close> is built.
\<close>

section \<open>Operations\<close>

record ws_store =
  wl_list :: dlist
  wl_node :: "nat \<Rightarrow> wordsplit_node"

text \<open>A new node at a free address \<open>a\<close> is zero: an empty segment without flags and neighbours.\<close>

definition wsnode_new :: "nat \<Rightarrow> ws_store \<Rightarrow> ws_store" where
  "wsnode_new a st =
     (let l = wl_list st in
      st\<lparr>wl_list := l\<lparr>dl_next := (dl_next l)(a := None), dl_prev := (dl_prev l)(a := None)\<rparr>,
        wl_node := (wl_node st)(a := noflags\<lparr>wn_val := Segm 0 0\<rparr>)\<rparr>)"

definition wsnode_append :: "nat \<Rightarrow> ws_store \<Rightarrow> ws_store" where
  "wsnode_append a st =
     (let l = wl_list st;
          l = l\<lparr>dl_next := (dl_next l)(a := None)\<rparr>;
          l = l\<lparr>dl_prev := (dl_prev l)(a := dl_tail l)\<rparr>;
          l = (case dl_tail l of
                 Some t \<Rightarrow> l\<lparr>dl_next := (dl_next l)(t := Some a)\<rparr>
               | None \<Rightarrow> l\<lparr>dl_head := Some a\<rparr>)
      in st\<lparr>wl_list := l\<lparr>dl_tail := Some a\<rparr>\<rparr>)"

definition wsnode_remove :: "nat \<Rightarrow> ws_store \<Rightarrow> ws_store" where
  "wsnode_remove a st =
     (let l = wl_list st;
          nodes = (case dl_prev l a of
                     Some p \<Rightarrow> if dl_next l a = None then (wl_node st)(p := (wl_node st p)\<lparr>wn_join := False\<rparr>) else wl_node st
                   | None \<Rightarrow> wl_node st);
          l = (case dl_prev l a of
                 Some p \<Rightarrow> l\<lparr>dl_next := (dl_next l)(p := dl_next l a)\<rparr>
               | None \<Rightarrow> l\<lparr>dl_head := dl_next l a\<rparr>);
          l = (case dl_next l a of
                 Some p \<Rightarrow> l\<lparr>dl_prev := (dl_prev l)(p := dl_prev l a)\<rparr>
               | None \<Rightarrow> l\<lparr>dl_tail := dl_prev l a\<rparr>)
      in \<lparr>wl_list = l\<lparr>dl_next := (dl_next l)(a := None), dl_prev := (dl_prev l)(a := None)\<rparr>, wl_node = nodes\<rparr>)"

definition insert_after :: "nat \<Rightarrow> nat \<Rightarrow> dlist \<Rightarrow> dlist" where
  "insert_after a anchor l =
     (let p = dl_next l anchor;
          l = (case p of Some q \<Rightarrow> l\<lparr>dl_prev := (dl_prev l)(q := Some a)\<rparr> | None \<Rightarrow> l\<lparr>dl_tail := Some a\<rparr>);
          l = l\<lparr>dl_next := (dl_next l)(a := p)\<rparr>;
          l = l\<lparr>dl_prev := (dl_prev l)(a := Some anchor)\<rparr>
      in l\<lparr>dl_next := (dl_next l)(anchor := Some a)\<rparr>)"

text \<open>The recursive call inserts after the predecessor of the anchor.\<close>

definition wsnode_insert :: "nat \<Rightarrow> nat \<Rightarrow> bool \<Rightarrow> ws_store \<Rightarrow> ws_store" where
  "wsnode_insert a anchor before st =
     (let l = wl_list st in
      st\<lparr>wl_list :=
        (if dl_head l = None then
           l\<lparr>dl_next := (dl_next l)(a := None), dl_prev := (dl_prev l)(a := None), dl_head := Some a, dl_tail := Some a\<rparr>
         else if before then
           (case dl_prev l anchor of
              Some p \<Rightarrow> insert_after a p l
            | None \<Rightarrow>
                (let l = l\<lparr>dl_prev := (dl_prev l)(a := None)\<rparr>;
                     l = l\<lparr>dl_next := (dl_next l)(a := Some anchor)\<rparr>;
                     l = l\<lparr>dl_prev := (dl_prev l)(anchor := Some a)\<rparr>
                 in l\<lparr>dl_head := Some a\<rparr>))
         else insert_after a anchor l)\<rparr>)"

text \<open>The traversal of \<open>wordsplit_free_nodes\<close>: the addresses that are released, in their order.\<close>

partial_function (option) free_nodes_from :: "dlist \<Rightarrow> nat option \<Rightarrow> nat list option" where
  "free_nodes_from l p = (if p = None then Some [] else do {
     as \<leftarrow> free_nodes_from l (dl_next l (the p));
     Some (the p # as)
   })"

definition wordsplit_free_nodes :: "ws_store \<Rightarrow> (ws_store \<times> nat list) option" where
  "wordsplit_free_nodes st =
     map_option (\<lambda>as. (st\<lparr>wl_list := (wl_list st)\<lparr>dl_head := None, dl_tail := None\<rparr>\<rparr>, as)) (free_nodes_from (wl_list st) (dl_head (wl_list st)))"

section \<open>The list of nodes\<close>

text \<open>The addresses \<open>as\<close> are linked in this order, and the nodes there are \<open>ns\<close>.\<close>

definition ws_rep :: "ws_store \<Rightarrow> nat list \<Rightarrow> wordsplit_node list \<Rightarrow> bool" where
  "ws_rep st as ns \<longleftrightarrow> dl_rep (wl_list st) as \<and> map (wl_node st) as = ns"

lemma append_attach: "wsnode_append a st = st\<lparr>wl_list := dl_attach a (wl_list st)\<rparr>"
  by (simp add: wsnode_append_def dl_attach_def Let_def)

lemma wsnode_append_rep:
  assumes "ws_rep st as ns" "a \<notin> set as"
  shows "ws_rep (wsnode_append a st) (as @ [a]) (ns @ [wl_node st a])"
  using assms attach_rep by (simp add: ws_rep_def append_attach)

lemma dl_rep_isolate:
  assumes "dl_rep l xs" "a \<notin> set xs"
  shows "dl_rep (l\<lparr>dl_next := (dl_next l)(a := u), dl_prev := (dl_prev l)(a := v)\<rparr>) xs"
proof -
  have "seg (l\<lparr>dl_next := (dl_next l)(a := u), dl_prev := (dl_prev l)(a := v)\<rparr>) None xs None = seg l None xs None"
    using assms(2) by (intro seg_cong) auto
  with assms(1) show ?thesis by (simp add: dl_rep_def)
qed

lemma wsnode_new_rep:
  assumes "ws_rep st as ns" "a \<notin> set as"
  shows "ws_rep (wsnode_new a st) as ns \<and> wl_node (wsnode_new a st) a = noflags\<lparr>wn_val := Segm 0 0\<rparr>"
proof -
  have "map ((wl_node st)(a := n)) as = map (wl_node st) as" for n using assms(2) by (auto intro!: map_cong)
  with assms dl_rep_isolate show ?thesis by (simp add: ws_rep_def wsnode_new_def Let_def)
qed

lemma wsnode_remove_rep:
  assumes "ws_rep st (ys @ a # zs) (ms @ n # ns)" "length ms = length ys"
  shows "ws_rep (wsnode_remove a st) (ys @ zs) ((if zs = [] then tail_join False ms else ms) @ ns)"
proof -
  have r: "dl_rep (wl_list st) (ys @ a # zs)" "map (wl_node st) ys = ms" "map (wl_node st) zs = ns"
    using assms by (auto simp: ws_rep_def append_eq_append_conv)
  note f = detach_fields [OF r(1)]
  let ?l = "dl_detach a (wl_list st)"
  have "wl_list (wsnode_remove a st) = ?l\<lparr>dl_next := (dl_next ?l)(a := None), dl_prev := (dl_prev ?l)(a := None)\<rparr>"
    by (simp add: wsnode_remove_def dl_detach_def Let_def)
  moreover have "dl_rep ?l (ys @ zs)" by (rule detach_rep_split [OF r(1)])
  ultimately have d: "dl_rep (wl_list (wsnode_remove a st)) (ys @ zs)" using f(8,9) dl_rep_isolate by simp
  show ?thesis
  proof (cases "ys = [] \<or> zs \<noteq> []")
    case True
    then have "wl_node (wsnode_remove a st) = wl_node st" using f(1,2) by (cases zs) (auto simp: wsnode_remove_def Let_def split: option.split)
    with d r(2,3) True show ?thesis by (auto simp: ws_rep_def tail_join_def)
  next
    case False
    then obtain us p where ys: "ys = us @ [p]" and zs: "zs = []" by (cases ys rule: rev_cases) auto
    then have "wl_node (wsnode_remove a st) = (wl_node st)(p := (wl_node st p)\<lparr>wn_join := False\<rparr>)"
      using f(1,2) by (simp add: wsnode_remove_def Let_def)
    moreover have "p \<notin> set us" using f(5) ys by simp
    ultimately show ?thesis using d r(2,3) ys zs by (auto simp: ws_rep_def tail_join_def)
  qed
qed

lemma insert_after_rep:
  assumes "dl_rep l (ys @ b # zs)" "a \<notin> set (ys @ b # zs)"
  shows "dl_rep (insert_after a b l) (ys @ b # a # zs)"
proof -
  note f = detach_fields [OF assms(1)]
  have h: "dl_head l = fst_or None (ys @ b # zs)" "dl_tail l = lst_or None (ys @ b # zs)" using assms(1) by (simp_all add: dl_rep_def)
  have ys: "seg (insert_after a b l) None ys (Some b)"
    using f assms(2) by (subst seg_cong [of ys _ l]) (cases zs; auto simp: insert_after_def Let_def)+
  show ?thesis
  proof (cases zs)
    case Nil
    with ys f h assms(2) show ?thesis by (auto simp: dl_rep_def seg_append insert_after_def Let_def)
  next
    case (Cons z zs')
    have "seg (insert_after a b l) (Some z) zs' None"
      using f assms(2) by (subst seg_cong [of zs' _ l]) (auto simp: insert_after_def Let_def Cons)
    with ys f h assms(2) show ?thesis by (auto simp: dl_rep_def seg_append insert_after_def Let_def Cons)
  qed
qed

lemma insert_head_rep:
  assumes "dl_rep l (b # zs)" "a \<notin> set (b # zs)"
  shows "dl_rep (l\<lparr>dl_next := (dl_next l)(a := Some b), dl_prev := (dl_prev l)(a := None, b := Some a), dl_head := Some a\<rparr>) (a # b # zs)"
proof -
  have "b \<notin> set zs" using assms(1) by (simp add: dl_rep_def)
  then have "seg (l\<lparr>dl_next := (dl_next l)(a := Some b), dl_prev := (dl_prev l)(a := None, b := Some a), dl_head := Some a\<rparr>) (Some b) zs None
      = seg l (Some b) zs None"
    using assms(2) by (intro seg_cong) auto
  with assms show ?thesis by (simp add: dl_rep_def)
qed

lemma wsnode_insert_rep:
  assumes "dl_rep (wl_list st) (ys @ b # zs)" "a \<notin> set (ys @ b # zs)"
  shows "dl_rep (wl_list (wsnode_insert a b before st)) (if before then ys @ a # b # zs else ys @ b # a # zs)"
proof -
  have h: "dl_head (wl_list st) \<noteq> None" using assms(1) by (cases ys) (auto simp: dl_rep_def)
  note f = detach_fields [OF assms(1)]
  show ?thesis
  proof (cases before)
    case False
    with h insert_after_rep [OF assms] show ?thesis by (auto simp: wsnode_insert_def Let_def)
  next
    case True
    show ?thesis
    proof (cases ys rule: rev_cases)
      case Nil
      with True h f insert_head_rep [of "wl_list st" b zs a] assms show ?thesis
        by (auto simp: wsnode_insert_def Let_def)
    next
      case (snoc us p)
      with True h f insert_after_rep [of "wl_list st" us p "b # zs" a] assms show ?thesis by (auto simp: wsnode_insert_def Let_def)
    qed
  qed
qed

lemma wsnode_insert_empty:
  assumes "dl_rep (wl_list st) []"
  shows "dl_rep (wl_list (wsnode_insert a b before st)) [a]"
  using assms by (simp add: wsnode_insert_def dl_rep_def Let_def)

lemma free_nodes_rep: "seg l p xs None \<Longrightarrow> free_nodes_from l (fst_or None xs) = Some xs"
proof (induction xs arbitrary: p)
  case Nil
  show ?case by (simp add: free_nodes_from.simps)
next
  case (Cons x xs)
  then show ?case by (subst or_simps, subst free_nodes_from.simps) auto
qed

text \<open>C28. The operations on the linked nodes implement those on lists that the splitter is modelled with: a new node leaves the list as it is, appending puts a node at the end, inserting puts it before or after
  its anchor, removing takes a node out and, if it was the last one, ends the word before it, and releasing the nodes visits each of them once.\<close>

theorem wsnode_refines_list:
  assumes "ws_rep st (ys @ b # zs) (ms @ n # ns)" "length ms = length ys" "a \<notin> set (ys @ b # zs)"
  shows "ws_rep (wsnode_new a st) (ys @ b # zs) (ms @ n # ns) \<and> wl_node (wsnode_new a st) a = noflags\<lparr>wn_val := Segm 0 0\<rparr>
    \<and> ws_rep (wsnode_append a st) (ys @ b # zs @ [a]) (ms @ n # ns @ [wl_node st a])
    \<and> ws_rep (wsnode_insert a b True st) (ys @ a # b # zs) (ms @ wl_node st a # n # ns)
    \<and> ws_rep (wsnode_insert a b False st) (ys @ b # a # zs) (ms @ n # wl_node st a # ns)
    \<and> ws_rep (wsnode_remove b st) (ys @ zs) ((if zs = [] then tail_join False ms else ms) @ ns)
    \<and> (\<exists>st'. wordsplit_free_nodes st = Some (st', ys @ b # zs) \<and> ws_rep st' [] [])"
proof (intro conjI)
  have r: "dl_rep (wl_list st) (ys @ b # zs)" "map (wl_node st) ys = ms" "wl_node st b = n" "map (wl_node st) zs = ns"
    using assms(1,2) by (auto simp: ws_rep_def append_eq_append_conv)
  show "ws_rep (wsnode_new a st) (ys @ b # zs) (ms @ n # ns)" "wl_node (wsnode_new a st) a = noflags\<lparr>wn_val := Segm 0 0\<rparr>"
    using wsnode_new_rep [OF assms(1,3)] by simp_all
  show "ws_rep (wsnode_append a st) (ys @ b # zs @ [a]) (ms @ n # ns @ [wl_node st a])" using wsnode_append_rep [OF assms(1,3)] by simp
  have "wl_node (wsnode_insert a b bf st) = wl_node st" for bf by (simp add: wsnode_insert_def Let_def)
  then show "ws_rep (wsnode_insert a b True st) (ys @ a # b # zs) (ms @ wl_node st a # n # ns)"
    "ws_rep (wsnode_insert a b False st) (ys @ b # a # zs) (ms @ n # wl_node st a # ns)"
    using wsnode_insert_rep [OF r(1) assms(3), of True] wsnode_insert_rep [OF r(1) assms(3), of False] r(2-4) by (simp_all add: ws_rep_def)
  show "ws_rep (wsnode_remove b st) (ys @ zs) ((if zs = [] then tail_join False ms else ms) @ ns)" by (rule wsnode_remove_rep [OF assms(1,2)])
  have "free_nodes_from (wl_list st) (dl_head (wl_list st)) = Some (ys @ b # zs)"
    using r(1) free_nodes_rep [of "wl_list st" None "ys @ b # zs"] by (auto simp: dl_rep_def)
  then show "\<exists>st'. wordsplit_free_nodes st = Some (st', ys @ b # zs) \<and> ws_rep st' [] []"
    by (simp add: wordsplit_free_nodes_def ws_rep_def dl_rep_def)
qed

text \<open>Two nodes, joined.\<close>

definition demo_nodes :: ws_store where
  "demo_nodes = wsnode_append 2 (wsnode_append 1 \<lparr>wl_list = \<lparr>dl_head = None, dl_tail = None, dl_prev = \<lambda>_. None, dl_next = \<lambda>_. None\<rparr>,
     wl_node = \<lambda>i. noflags\<lparr>wn_val := Word [char_of (64 + i)], wn_join := i = 1\<rparr>\<rparr>)"

theorem wsnode_refines_list_witness:
  "ws_rep (wsnode_remove 2 demo_nodes) [1] [noflags\<lparr>wn_val := Word ''A'', wn_join := False\<rparr>]"
proof -
  have d: "ws_rep demo_nodes ([1] @ 2 # []) ([noflags\<lparr>wn_val := Word ''A'', wn_join := True\<rparr>] @ noflags\<lparr>wn_val := Word ''B'', wn_join := False\<rparr> # [])"
    by (simp add: demo_nodes_def append_attach ws_rep_def dl_rep_def dl_attach_def) (code_simp)
  from wsnode_refines_list [OF d, of 3] show ?thesis by (simp add: tail_join_def)
qed

end
