(* ===== verification/Smap_Startup.thy ===== *)
theory Smap_Startup
  imports Smap_Main
begin

text \<open>
  The remaining steps of \<open>main\<close> in \<open>src/smapd.c\<close>, around those of \<open>Smap_Main\<close>: the categories of debugging output, the directories in which modules are searched
  (\<open>smap_modules_init\<close> in \<open>src/module.c\<close>), the session on the standard descriptors under \<open>inetd\<close>, and the signals and the end of the daemon.
\<close>

section \<open>Operations\<close>

definition dbgname :: "string list" where
  "dbgname = [''smap'', ''srvman'', ''module'', ''database'', ''query'', ''conf'']"

fun debug_init_loop :: "bool \<Rightarrow> bool \<Rightarrow> string list \<Rightarrow> debug_state \<Rightarrow> debug_state option" where
  "debug_init_loop alloc dup [] st = Some st"
| "debug_init_loop alloc dup (nm # nms) st = do { (st, _) \<leftarrow> smap_debug_alloc alloc dup st nm; debug_init_loop alloc dup nms st }"

definition debug_init :: "bool \<Rightarrow> bool \<Rightarrow> debug_state \<Rightarrow> debug_state option" where
  "debug_init alloc dup st = debug_init_loop alloc dup dbgname st"

text \<open>The search path of the dynamic loader is a list of directories; \<open>accepts\<close> are those that it takes, and \<open>ws\<close> is what the structure of the splitter held before.\<close>

definition add_dir :: "(string \<Rightarrow> bool) \<Rightarrow> string list \<Rightarrow> string \<Rightarrow> string list" where
  "add_dir accepts dirs d = (if accepts d then dirs @ [d] else dirs)"

abbreviation (input) WRDSF_ENOMEMABRT :: flagword where "WRDSF_ENOMEMABRT \<equiv> 0x80"
abbreviation (input) WRDSF_ERROR :: flagword where "WRDSF_ERROR \<equiv> 0x10000"

definition flush_load_path :: "wordsplit_s \<Rightarrow> (string \<Rightarrow> bool) \<Rightarrow> string option \<Rightarrow> string list \<Rightarrow> string list option" where
  "flush_load_path ws accepts path dirs =
     (case path of
        None \<Rightarrow> Some dirs
      | Some path \<Rightarrow> do {
          r \<leftarrow> wordsplit (ws\<lparr>ws_delim := '':''\<rparr>) path
                (WRDSF_NOCMD OR WRDSF_NOVAR OR WRDSF_ENOMEMABRT OR WRDSF_SQUEEZE_DELIMS OR WRDSF_DELIM OR WRDSF_ERROR);
          Some (case r of
                  Inl e \<Rightarrow> dirs
                | Inr ws \<Rightarrow> foldl (\<lambda>dirs w. if w \<noteq> [] then add_dir accepts dirs w else dirs) dirs (ws_result ws)) })"

text \<open>\<open>PATH_PREPEND\<close> is 0, \<open>PATH_APPEND\<close> is 1.\<close>

definition smap_modules_init :: "wordsplit_s \<Rightarrow> (string \<Rightarrow> bool) \<Rightarrow> string \<Rightarrow> 'h modules \<Rightarrow> string list \<Rightarrow> string list option" where
  "smap_modules_init ws accepts SMAP_MODDIR ms dirs = do {
     dirs \<leftarrow> flush_load_path ws accepts (mod_load_path ms 0) dirs;
     flush_load_path ws accepts (mod_load_path ms 1) (add_dir accepts dirs SMAP_MODDIR) }"

text \<open>\<open>sockname\<close> and \<open>peername\<close> are the results of \<open>getsockname\<close> and \<open>getpeername\<close>; \<open>ci\<close> is what the memory held before.\<close>

definition inet_conninfo :: "(sockaddr \<times> nat) option \<Rightarrow> (sockaddr \<times> nat) option \<Rightarrow> smap_conninfo \<Rightarrow> smap_conninfo" where
  "inet_conninfo sockname peername ci =
     (let ci = (case sockname of None \<Rightarrow> ci | Some (sa, slen) \<Rightarrow> ci\<lparr>ci_dst := sa, ci_dstlen := slen\<rparr>)
      in case peername of None \<Rightarrow> ci | Some (sa, slen) \<Rightarrow> ci\<lparr>ci_src := sa, ci_srclen := slen\<rparr>)"

definition smap_inet_server ::
  "(nat \<Rightarrow> bool) \<Rightarrow> nat \<Rightarrow> 're query_env \<Rightarrow> 're dispatch_rule list \<Rightarrow>
   bool \<times> bool \<times> bool \<Rightarrow> sockev list \<Rightarrow> wrev list \<Rightarrow> errno \<Rightarrow>
   (sockaddr \<times> nat) option \<Rightarrow> (sockaddr \<times> nat) option \<Rightarrow> string \<Rightarrow> smap_conninfo \<Rightarrow> 'h modules \<Rightarrow>
   (sockmap_stream smap_stream option \<times> 'h modules \<times> loop_end) option" where
  "smap_inet_server alloc junk env rules granted ievs oevs crc sockname peername progname ci ms = do {
     (rc, st) \<leftarrow> smap_sockmap_stream_create2 alloc junk granted (0, 1) SMAP_STREAM_NO_CLOSE ievs oevs crc;
     (case st of
        None \<Rightarrow> Some (None, ms, LoopExit EX_UNAVAILABLE)
      | Some s \<Rightarrow> do {
          (s, ms, e) \<leftarrow> smap_loop alloc junk env rules s progname (inet_conninfo sockname peername ci) ms;
          (case e of
             LoopExit n \<Rightarrow> Some (Some s, ms, e)
           | LoopReturn rc \<Rightarrow> do {
               (s, _) \<leftarrow> smap_stream_destroy (sockmap_ops alloc junk) s;
               Some (Some s, ms, if rc \<noteq> 0 then LoopExit EX_UNAVAILABLE else LoopReturn rc) }) }) }"

text \<open>The handlers of signals; the flag is \<open>restart\<close>.  A restart is possible only if the daemon was started by an absolute name.\<close>

datatype daemon_sig = SigTerm | SigQuit | SigInt | SigHup

definition sig_stop :: "bool \<times> 'd srvman \<Rightarrow> bool \<times> 'd srvman" where
  "sig_stop st = (fst st, smap_srvman_stop (snd st))"

definition sig_restart :: "bool \<times> 'd srvman \<Rightarrow> bool \<times> 'd srvman" where
  "sig_restart st = (True, smap_srvman_stop (snd st))"

definition daemon_handler :: "string \<Rightarrow> daemon_sig \<Rightarrow> bool \<times> 'd srvman \<Rightarrow> bool \<times> 'd srvman" where
  "daemon_handler argv0 sig =
     (if sig = SigHup \<and> argv0 \<noteq> [] \<and> hd argv0 = CHR ''/'' then sig_restart else sig_stop)"

text \<open>What the daemon does after the main loop: the signals sent to children, and calls of the system.\<close>

datatype finish_call = KillChild int nat | UnlinkFile string | CloseAbove nat | Execv string "string list"

definition smap_daemon_finish ::
  "int list list \<Rightarrow> string option \<Rightarrow> string list \<Rightarrow> bool \<times> 'd srvman \<Rightarrow> finish_call list \<times> 'd srvman" where
  "smap_daemon_finish rounds pidfile argv st =
     (case smap_srvman_shutdown rounds (snd st) of (sigs, sm) \<Rightarrow>
        (map (\<lambda>(pid, sig). KillChild pid sig) sigs
           @ (case pidfile of None \<Rightarrow> [] | Some f \<Rightarrow> [UnlinkFile f])
           @ (if fst st then [CloseAbove 1, Execv (hd argv) argv] else []),
         smap_srvman_free sm))"

section \<open>Debugging categories\<close>

text \<open>Each category gets the index that \<open>src/smapd.h\<close> gives it.\<close>

lemma alloc_category:
  assumes "smtp_debug_locate_n st nm (length nm) = None" "debug_max st = dbg_cap st" "dbg_cap st = 0 \<or> length (debug_level st) < dbg_cap st"
    and "dbg_cap st = 0 \<longrightarrow> debug_level st = []"
  shows "smap_debug_alloc True True st nm =
    Some (st\<lparr>debug_max := (if dbg_cap st = 0 then 128 else dbg_cap st), dbg_cap := (if dbg_cap st = 0 then 128 else dbg_cap st),
      debug_level := debug_level st @ [(nm, global_debug_level st)]\<rparr>, Some (length (debug_level st)))"
  using assms by (auto simp: smap_debug_alloc_def smap_debug_alloc_n_def Let_def)

lemma debug_init_table:
  "debug_init True True \<lparr>debug_max = 0, dbg_cap = 0, debug_level = [], global_debug_level = 0\<rparr> =
     Some \<lparr>debug_max = 128, dbg_cap = 128, debug_level = map (\<lambda>nm. (nm, 0)) dbgname, global_debug_level = 0\<rparr>"
  by (simp add: debug_init_def dbgname_def alloc_category smtp_debug_locate_n_def strncmp_eq_def)

lemma debug_init_indices:
  "map (smtp_debug_locate \<lparr>debug_max = 128, dbg_cap = 128, debug_level = map (\<lambda>nm. (nm, 0)) dbgname, global_debug_level = 0\<rparr>) dbgname = map Some [0, 1, 2, 3, 4, 5]"
  by code_simp

section \<open>The search path\<close>

lemma plain_words_append:
  "d c \<Longrightarrow> plain_words d (xs @ c # ys) = plain_words d xs @ plain_words d ys"
proof (induction d xs rule: plain_words.induct)
  case (1 d s)
  show ?case
  proof (cases "dropWhile d s")
    case Nil
    then have "dropWhile d (s @ c # ys) = dropWhile d ys" using 1(2) by (simp add: dropWhile_append)
    then show ?thesis using Nil by (simp add: plain_words.simps [of d s] plain_words.simps [of d "s @ c # ys"] plain_words.simps [of d ys])
  next
    case (Cons x r)
    then have x: "\<not> d x" using hd_dropWhile [of d s] by auto
    have "\<not> (\<forall>z \<in> set s. d z)" using Cons by (simp flip: dropWhile_eq_Nil_conv)
    then have s: "dropWhile d (s @ c # ys) = (x # r) @ c # ys" using Cons by (auto simp: dropWhile_append)
    have t: "takeWhile (\<lambda>c. \<not> d c) ((x # r) @ c # ys) = takeWhile (\<lambda>c. \<not> d c) (x # r)"
      "dropWhile (\<lambda>c. \<not> d c) ((x # r) @ c # ys) = dropWhile (\<lambda>c. \<not> d c) (x # r) @ c # ys"
      using 1(2) x by (auto simp: takeWhile_append dropWhile_append takeWhile_eq_all_conv [THEN iffD2])
    have "plain_words d (dropWhile (\<lambda>c. \<not> d c) (x # r) @ c # ys) = plain_words d (dropWhile (\<lambda>c. \<not> d c) (x # r)) @ plain_words d ys"
      using 1 Cons by simp
    then show ?thesis
      using t by (simp add: plain_words.simps [of d s] plain_words.simps [of d "s @ c # ys"] s Cons Let_def x)
  qed
qed

lemma plain_words_nonempty: "w \<in> set (plain_words d s) \<Longrightarrow> w \<noteq> []"
proof (induction d s rule: plain_words.induct)
  case (1 d s)
  show ?case
  proof (cases "dropWhile d s")
    case (Cons x r)
    then have "\<not> d x" using hd_dropWhile [of d s] by auto
    with 1 Cons show ?thesis by (auto simp: plain_words.simps [of d s] Let_def)
  qed (use 1 in \<open>simp add: plain_words.simps [of d s]\<close>)
qed

abbreviation colon_words :: "string \<Rightarrow> string list" where
  "colon_words \<equiv> plain_words (\<lambda>c. c = CHR '':'')"

definition path_words :: "string option \<Rightarrow> string list" where
  "path_words p = (case p of None \<Rightarrow> [] | Some p \<Rightarrow> colon_words p)"

definition plain_text :: "string \<Rightarrow> bool" where
  "plain_text s \<longleftrightarrow> set s \<inter> {NUL, BSL, SQ, DQ} = {}"

definition plain_path :: "string option \<Rightarrow> bool" where
  "plain_path p \<longleftrightarrow> (\<forall>s \<in> set_option p. plain_text s)"

lemma plain_text_append: "plain_text (s @ t) \<longleftrightarrow> plain_text s \<and> plain_text t" "plain_text '':''"
  by (auto simp: plain_text_def)

lemma plain_text_tl: "plain_text s \<Longrightarrow> plain_text (tl s)"
  by (cases s) (auto simp: plain_text_def)

lemma foldl_add_dir: "\<forall>w \<in> set ws. w \<noteq> [] \<and> accepts w \<Longrightarrow> foldl (\<lambda>dirs w. if w \<noteq> [] then add_dir accepts dirs w else dirs) dirs ws = dirs @ ws"
  by (induction ws arbitrary: dirs) (auto simp: add_dir_def)

lemma flush_load_path_words:
  assumes "plain_path p" "\<forall>w \<in> set (path_words p). accepts w"
  shows "flush_load_path ws accepts p dirs = Some (dirs @ path_words p)"
proof (cases p)
  case (Some s)
  let ?f = "WRDSF_NOCMD OR WRDSF_NOVAR OR WRDSF_ENOMEMABRT OR WRDSF_SQUEEZE_DELIMS OR WRDSF_DELIM OR WRDSF_ERROR"
  have f: "fresh_flags ?f" "squeezing ?f" "hasfl ?f WRDSF_NOVAR" "hasfl ?f WRDSF_DELIM" "\<not> hasfl ?f WRDSF_COMMENT"
    by (simp_all add: fresh_flags_def squeezing_def hasfl_numeral)
  have "\<forall>c \<in> set s. c \<notin> {NUL, BSL, SQ, DQ} \<union> set (comments (ws\<lparr>ws_delim := '':''\<rparr>) ?f)"
    using assms(1) f(5) by (auto simp: plain_path_def plain_text_def Some comments_def)
  from wordsplit_plain_line [OF f(1,2) disjI1 [OF f(3)] this] f(4) obtain r where
    "wordsplit (ws\<lparr>ws_delim := '':''\<rparr>) s ?f = Some (Inr r)" "ws_result r = colon_words s" by (auto simp: delims_def)
  with assms(2) plain_words_nonempty show ?thesis
    unfolding flush_load_path_def Some by (simp add: path_words_def Some foldl_add_dir)
qed (simp add: flush_load_path_def path_words_def)

text \<open>A statement adds its directories behind those of earlier ones.\<close>

lemma add_load_path_words:
  "path_words (mod_load_path (add_load_path ms path i) j) =
     path_words (mod_load_path ms j) @ (if j = i then colon_words path else [])"
proof -
  have "colon_words (if path \<noteq> [] \<and> hd path = CHR '':'' then tl path else path) = colon_words path"
    using plain_words_simps(2) [of "\<lambda>c. c = CHR '':''" path] plain_words_simps(2) [of "\<lambda>c. c = CHR '':''" "tl path"] by (cases path) auto
  then show ?thesis by (auto simp: add_load_path_def path_words_def Let_def plain_words_append split: option.split)
qed

lemma add_load_path_plain:
  assumes "plain_path (mod_load_path ms j)" "plain_text path"
  shows "plain_path (mod_load_path (add_load_path ms path i) j)"
proof -
  define q where "q = (if path \<noteq> [] \<and> hd path = CHR '':'' then tl path else path)"
  have q: "plain_text q" using assms(2) plain_text_tl by (simp add: q_def)
  have "mod_load_path (add_load_path ms path i) =
      (mod_load_path ms)(i := (case mod_load_path ms i of Some p \<Rightarrow> Some (p @ '':'' @ q) | None \<Rightarrow> Some q))"
    unfolding q_def by (simp only: add_load_path_def Let_def) simp
  with assms(1) q show ?thesis
    by (cases "j = i"; cases "mod_load_path ms i") (simp_all add: plain_path_def plain_text_append del: append_Cons)
qed

text \<open>The directories of the search path: those of the statements \<open>prepend-load-path\<close>, in the order of the statements, that of the installation,
  and those of the statements \<open>append-load-path\<close>.\<close>

lemma search_path_order:
  assumes "\<forall>(path, i) \<in> set stmts. plain_text path" "mod_load_path ms 0 = None" "mod_load_path ms 1 = None"
  shows "smap_modules_init ws (\<lambda>_. True) moddir (foldl (\<lambda>ms (path, i). add_load_path ms path i) ms stmts) dirs =
    Some (dirs @ concat (map (colon_words \<circ> fst) (filter (\<lambda>st. snd st = 0) stmts)) @ [moddir]
      @ concat (map (colon_words \<circ> fst) (filter (\<lambda>st. snd st = 1) stmts)))"
proof -
  let ?ms = "foldl (\<lambda>ms (path, i). add_load_path ms path i)"
  have w: "path_words (mod_load_path (?ms ms stmts) j) = path_words (mod_load_path ms j) @ concat (map (colon_words \<circ> fst) (filter (\<lambda>st. snd st = j) stmts))"
    for j and ms :: "'a modules" and stmts by (induction stmts arbitrary: ms) (auto simp: add_load_path_words)
  have p: "plain_path (mod_load_path (?ms ms stmts) j)"
    if "plain_path (mod_load_path ms j)" "\<forall>(path, i) \<in> set stmts. plain_text path" for j and ms :: "'a modules" and stmts
    using that
  proof (induction stmts arbitrary: ms)
    case (Cons st stmts)
    obtain q i where st: "st = (q, i)" by (cases st)
    from Cons.prems have "plain_path (mod_load_path (add_load_path ms q i) j)" by (intro add_load_path_plain) (auto simp: st)
    from Cons.IH [OF this] Cons.prems(2) show ?case by (simp add: st)
  qed simp
  have i: "plain_path (mod_load_path ms 0)" "plain_path (mod_load_path ms 1)" "path_words (mod_load_path ms 0) = []" "path_words (mod_load_path ms 1) = []"
    using assms(2,3) by (simp_all add: plain_path_def path_words_def)
  have f: "flush_load_path ws (\<lambda>_. True) (mod_load_path (?ms ms stmts) j) dirs = Some (dirs @ path_words (mod_load_path (?ms ms stmts) j))"
    if "plain_path (mod_load_path ms j)" for j dirs by (rule flush_load_path_words [OF p [OF that assms(1)]]) simp
  show ?thesis
    by (simp only: smap_modules_init_def add_dir_def f [OF i(1)] f [OF i(2)] w i if_True Option.bind.simps append_Nil append_assoc)
qed

section \<open>The session under inetd\<close>

text \<open>The requests that arrive on descriptor 0 are answered on descriptor 1 as in a session of the daemon; then the stream is released.\<close>

lemma inet_session:
  assumes "ids_distinct ms" "databases_ready ms" "list_all (rule_linked ms) rules" "\<forall>q \<in> set qs. good_request q"
    and "delivered (map frame (map request qs)) ievs"
    and "\<forall>ms1 outs. dispatch_queries env rules (map (\<lambda>q. (progname, inet_conninfo sockname peername ci, q)) qs) ms = Some (ms1, outs) \<longrightarrow>
      (\<forall>out \<in> set outs. \<exists>a. one_line out a)"
  shows "\<exists>ms1 outs as s' ms2. dispatch_queries env rules (map (\<lambda>q. (progname, inet_conninfo sockname peername ci, q)) qs) ms = Some (ms1, outs)
    \<and> list_all2 one_line outs as \<and> length as = length qs \<and> wire_of s' = map frame as \<and> list_all (\<lambda>d. \<not> db_opened d) (database_list ms2)
    \<and> smap_inet_server (\<lambda>_. True) junk env rules (True, True, True) ievs [] crc sockname peername progname ci ms =
        map_option (\<lambda>(s, _). (Some s, ms2, LoopReturn 0)) (smap_stream_destroy (sockmap_ops (\<lambda>_. True) junk) s')"
proof -
  obtain s where mk: "smap_sockmap_stream_create2 (\<lambda>_. True) junk (True, True, True) (0, 1) SMAP_STREAM_NO_CLOSE ievs [] crc = Some (E0, Some s)"
    by (simp add: smap_sockmap_stream_create2_def smap_sockmap_output_stream_create_def smap_sockmap_input_stream_create_def smap_stream_create_def
        smap_stream_set_buffer_def smap_stream_ref_def sockmap_in_ops_def sockmap_out_ops_def no_ops_def Let_def)
  from session_runs2 [OF assms(1-4) mk assms(5,6)] obtain ms1 outs as s' ms2 where
    r: "dispatch_queries env rules (map (\<lambda>q. (progname, inet_conninfo sockname peername ci, q)) qs) ms = Some (ms1, outs)" "list_all2 one_line outs as"
    "smap_loop (\<lambda>_. True) junk env rules s progname (inet_conninfo sockname peername ci) ms = Some (s', ms2, LoopReturn 0)"
    "wire_of s' = map frame as" "length as = length qs" "list_all (\<lambda>d. \<not> db_opened d) (database_list ms2)" by blast
  have "smap_inet_server (\<lambda>_. True) junk env rules (True, True, True) ievs [] crc sockname peername progname ci ms =
      map_option (\<lambda>(s, _). (Some s, ms2, LoopReturn 0)) (smap_stream_destroy (sockmap_ops (\<lambda>_. True) junk) s')"
    using mk r(3) by (cases "smap_stream_destroy (sockmap_ops (\<lambda>_. True) junk) s'") (auto simp: smap_inet_server_def split: prod.split)
  with r show ?thesis by blast
qed

text \<open>If the standard input is not a socket, the addresses that rules are matched with are whatever the memory held.\<close>

lemma inet_addresses_unset: "inet_conninfo None None ci = ci"
  by (simp add: inet_conninfo_def)

section \<open>The end of the daemon\<close>

text \<open>The daemon is started again only after \<open>SIGHUP\<close>, and only by an absolute name; every signal ends the main loop.\<close>

lemma restart_after_hup:
  assumes "foldl (\<lambda>st sig. daemon_handler argv0 sig st) (False, sm) sigs = (r, sm')"
  shows "r \<longleftrightarrow> SigHup \<in> set sigs \<and> argv0 \<noteq> [] \<and> hd argv0 = CHR ''/''" "sigs \<noteq> [] \<Longrightarrow> sm_stop sm'"
proof -
  have h: "fst (daemon_handler argv0 sig st) = (fst st \<or> sig = SigHup \<and> argv0 \<noteq> [] \<and> hd argv0 = CHR ''/'')"
    "snd (daemon_handler argv0 sig st) = smap_srvman_stop (snd st)" for sig and st :: "bool \<times> 'a srvman"
    by (auto simp: daemon_handler_def sig_restart_def sig_stop_def)
  have "fst (foldl (\<lambda>st sig. daemon_handler argv0 sig st) st sigs) = (fst st \<or> SigHup \<in> set sigs \<and> argv0 \<noteq> [] \<and> hd argv0 = CHR ''/'')"
    for st :: "bool \<times> 'a srvman" by (induction sigs arbitrary: st) (auto simp: h)
  from this [of "(False, sm)"] assms show "r \<longleftrightarrow> SigHup \<in> set sigs \<and> argv0 \<noteq> [] \<and> hd argv0 = CHR ''/''" by simp
  have "sm_stop (snd (foldl (\<lambda>st sig. daemon_handler argv0 sig st) st sigs))" if "sm_stop (snd st) \<or> sigs \<noteq> []" for st :: "bool \<times> 'a srvman"
    using that by (induction sigs arbitrary: st) (auto simp: h smap_srvman_stop_def)
  from this [of "(False, sm)"] assms show "sm_stop sm'" if "sigs \<noteq> []" using that by simp
qed

end
