(* ===== verification/Smap_Query_Syntax.thy ===== *)
theory Smap_Query_Syntax
  imports Smap_Query
begin

text \<open>
  The language of dispatch rules, as the manual describes it: what the words of a line stand for, independently of the parser of \<open>src/query.c\<close>, and the theorem
  that the parser of \<open>Smap_Query\<close> recovers it.
\<close>

section \<open>The language\<close>

text \<open>A comparison: a word alone, with an operator, or a regular expression between delimiters \<open>d\<close> with flags.\<close>

datatype cmp_src = CmpPlain string | CmpEq string | CmpLike string | CmpRe char string string

datatype cond_src =
    SrcServer string
  | SrcMap cmp_src
  | SrcKey cmp_src
  | SrcUnix string
  | SrcHost string
  | SrcNet string string
  | SrcNot cond_src

datatype target_src = ToDatabase string | TransformMap string | TransformKey string

fun cmp_words :: "cmp_src \<Rightarrow> string list" where
  "cmp_words (CmpPlain s) = [s]"
| "cmp_words (CmpEq s) = [''eq'', s]"
| "cmp_words (CmpLike s) = [''like'', s]"
| "cmp_words (CmpRe d re fl) = [''regexp'', d # re @ d # fl]"

fun cond_words :: "cond_src \<Rightarrow> string list" where
  "cond_words (SrcServer s) = [''server'', s]"
| "cond_words (SrcMap c) = ''map'' # cmp_words c"
| "cond_words (SrcKey c) = ''key'' # cmp_words c"
| "cond_words (SrcUnix p) = [''from'', p]"
| "cond_words (SrcHost h) = [''from'', h]"
| "cond_words (SrcNet h m) = [''from'', h @ CHR ''/'' # m]"
| "cond_words (SrcNot c) = ''not'' # cond_words c"

fun target_words :: "target_src \<Rightarrow> string list" where
  "target_words (ToDatabase db) = [''database'', db]"
| "target_words (TransformMap db) = [''transform'', ''map'', db]"
| "target_words (TransformKey db) = [''transform'', ''key'', db]"

section \<open>Its meaning\<close>

text \<open>The last of the flags \<open>b\<close> and \<open>x\<close> decides about extended syntax.\<close>

definition extended_flag :: "string \<Rightarrow> bool" where
  "extended_flag fl = (case filter (\<lambda>c. c = CHR ''b'' \<or> c = CHR ''x'') fl of [] \<Rightarrow> True | cs \<Rightarrow> last cs = CHR ''x'')"

definition comparison_words :: "string list" where
  "comparison_words = [''like'', ''fnmatch'', ''regexp'', ''eq'', ''is'']"

fun cmp_meaning :: "'re query_env \<Rightarrow> cmp_src \<Rightarrow> 're comp_cond option" where
  "cmp_meaning env (CmpPlain s) = (if s \<in> set comparison_words then None else Some \<lparr>cc_op = comp_eq, cc_str = s, cc_re = None\<rparr>)"
| "cmp_meaning env (CmpEq s) = Some \<lparr>cc_op = comp_eq, cc_str = s, cc_re = None\<rparr>"
| "cmp_meaning env (CmpLike s) = Some \<lparr>cc_op = comp_like, cc_str = s, cc_re = None\<rparr>"
| "cmp_meaning env (CmpRe d re fl) =
     (if ispunct d \<and> d \<notin> set fl \<and> list_all (\<lambda>c. c \<in> set ''ibx'') fl
      then map_option (\<lambda>r. \<lparr>cc_op = comp_re, cc_str = d # re @ d # fl, cc_re = Some r\<rparr>) (qe_regcomp env re (CHR ''i'' \<in> set fl) (extended_flag fl))
      else None)"

definition host_address :: "'re query_env \<Rightarrow> string \<Rightarrow> 32 word option" where
  "host_address env h = (case qe_inet_aton env h of Some a \<Rightarrow> Some a | None \<Rightarrow> qe_gethostbyname env h)"

definition from_net :: "32 word \<Rightarrow> 32 word \<Rightarrow> 're query_cond" where
  "from_net m a = query_cond_source \<lparr>ssa_netmask = m, ssa_salen = 8, ssa_sa = AF_INET (ntohl a)\<rparr>"

text \<open>The leading \<open>n\<close> bits.\<close>

definition leading_bits :: "nat \<Rightarrow> 32 word" where
  "leading_bits n = NOT (mask (32 - n))"

fun cond_meaning :: "'re query_env \<Rightarrow> cond_src \<Rightarrow> 're query_cond option" where
  "cond_meaning env (SrcServer s) = Some (query_cond_server s)"
| "cond_meaning env (SrcMap c) = map_option query_cond_map (cmp_meaning env c)"
| "cond_meaning env (SrcKey c) = map_option query_cond_key (cmp_meaning env c)"
| "cond_meaning env (SrcUnix p) =
     (if p \<noteq> [] \<and> hd p = CHR ''/'' \<and> length p \<le> 13
      then Some (query_cond_source \<lparr>ssa_netmask = 0, ssa_salen = 8, ssa_sa = AF_UNIX p\<rparr>) else None)"
| "cond_meaning env (SrcHost h) = (if CHR ''/'' \<in> set h then None else map_option (from_net (-1)) (host_address env h))"
| "cond_meaning env (SrcNet h m) =
     (if h = [] \<or> CHR ''/'' \<in> set h \<or> snd (strtoul m 10) \<noteq> [] \<or> fst (strtoul m 10) > 32 then None
      else map_option (from_net (leading_bits (fst (strtoul m 10)))) (host_address env h))"
| "cond_meaning env (SrcNot c) = map_option query_cond_not (cond_meaning env c)"

fun target_database :: "target_src \<Rightarrow> string" where
  "target_database (ToDatabase db) = db"
| "target_database (TransformMap db) = db"
| "target_database (TransformKey db) = db"

fun target_xform :: "target_src \<Rightarrow> nat" where
  "target_xform (ToDatabase db) = XFORM_NONE"
| "target_xform (TransformMap db) = XFORM_MAP"
| "target_xform (TransformKey db) = XFORM_KEY"

section \<open>The parser of a condition\<close>

lemma strrchr_delimiter: "d \<notin> set fl \<Longrightarrow> strrchr (xs @ d # fl) d = Some (length xs)"
proof (induction xs)
  case Nil
  have "strrchr fl d = None" using Nil by (induction fl) auto
  then show ?case by simp
qed simp

lemma regexp_flags_meaning:
  "list_all (\<lambda>c. c \<in> set ''ibx'') fl \<Longrightarrow>
   regexp_flags fl (ic, ext) = Some (ic \<or> CHR ''i'' \<in> set fl,
     case filter (\<lambda>c. c = CHR ''b'' \<or> c = CHR ''x'') fl of [] \<Rightarrow> ext | cs \<Rightarrow> last cs = CHR ''x'')"
  by (induction fl arbitrary: ic ext) (auto split: list.splits)

lemma parse_regexp_meaning:
  assumes "ispunct d" "d \<notin> set fl" "list_all (\<lambda>c. c \<in> set ''ibx'') fl"
  shows "parse_regexp env (d # re @ d # fl) = qe_regcomp env re (CHR ''i'' \<in> set fl) (extended_flag fl)"
  using assms strrchr_delimiter [of d fl "d # re"] regexp_flags_meaning [OF assms(3), of False True]
  by (simp add: parse_regexp_def extended_flag_def)

lemma kw_toks:
  "smap_kwtab_nametotok query_kwtab ''eq'' = Some T_EQ" "smap_kwtab_nametotok query_kwtab ''like'' = Some T_LIKE"
  "smap_kwtab_nametotok query_kwtab ''regexp'' = Some T_REGEXP" "smap_kwtab_nametotok query_kwtab ''server'' = Some T_SERVER"
  "smap_kwtab_nametotok query_kwtab ''map'' = Some T_MAP" "smap_kwtab_nametotok query_kwtab ''key'' = Some T_KEY"
  "smap_kwtab_nametotok query_kwtab ''from'' = Some T_FROM" "smap_kwtab_nametotok query_kwtab ''not'' = Some T_NOT"
  "smap_kwtab_nametotok query_kwtab ''database'' = Some T_DB" "smap_kwtab_nametotok query_kwtab ''transform'' = Some T_TRANSFORM"
  "smap_kwtab_nametotok query_kwtab ''default'' = None"
  by (simp_all add: query_kwtab_def)

lemma plain_no_operator:
  "s \<notin> set comparison_words \<Longrightarrow> smap_kwtab_nametotok query_kwtab s \<notin> {Some T_LIKE, Some T_EQ, Some T_REGEXP}"
  by (auto simp: query_kwtab_def comparison_words_def split: if_splits)

lemma parse_comp_meaning:
  assumes "cmp_meaning env c = Some cc"
  shows "parse_dispatch_comp env mk (cmp_words c @ rest) = POk (mk cc) rest"
proof (cases c)
  case (CmpPlain s)
  with assms plain_no_operator [of s] show ?thesis
    by (auto simp: parse_dispatch_comp_def split: option.splits query_tok.splits if_splits)
next
  case (CmpRe d re fl)
  with assms show ?thesis by (auto simp: parse_dispatch_comp_def kw_toks parse_regexp_meaning split: if_splits)
qed (use assms in \<open>auto simp: parse_dispatch_comp_def kw_toks\<close>)

lemma netmask_meaning:
  assumes "snd (strtoul m 10) = []" "fst (strtoul m 10) \<le> 32"
  shows "parse_netmask env m = POk (leading_bits (fst (strtoul m 10))) []"
proof -
  obtain n where n: "strtoul m 10 = (n, [])" using assms(1) by (cases "strtoul m 10") auto
  have ones: "(0xFFFFFFFF :: 32 word) = -1" by simp
  have "(if n = 0 then 0 else push_bit (32 - n) (drop_bit (32 - n) 0xFFFFFFFF)) = leading_bits n"
    using assms(2) n unfolding ones by (intro bit_word_eqI) (auto simp: leading_bits_def bit_simps)
  with n assms(2) show ?thesis by (auto simp: parse_netmask_def Let_def split: if_splits)
qed

lemma parse_from_meaning:
  assumes "cond_meaning env s = Some c" "cond_words s = [''from'', w]"
  shows "parse_dispatch_from env (w # rest) = POk c rest"
proof (cases s)
  case (SrcUnix p)
  with assms show ?thesis by (auto simp: parse_dispatch_from_def split: if_splits)
next
  case (SrcHost h)
  with assms have w: "w = h" "CHR ''/'' \<notin> set h" by (auto split: if_splits)
  then have "memchr (CHR ''/'') h = None" by (simp add: memchr_None)
  moreover from w have "h \<noteq> [] \<Longrightarrow> hd h \<noteq> CHR ''/''" by (cases h) auto
  ultimately show ?thesis using assms(1) w SrcHost
    by (auto simp: parse_dispatch_from_def from_net_def host_address_def Let_def split: option.splits)
next
  case (SrcNet h m)
  with assms have w: "w = h @ CHR ''/'' # m" "h \<noteq> []" "CHR ''/'' \<notin> set h" "snd (strtoul m 10) = []" "fst (strtoul m 10) \<le> 32"
    by (auto split: if_splits)
  have "memchr (CHR ''/'') w = Some (length h)" unfolding w(1) using w(3) by (rule memchr_hit)
  moreover from w have "hd w \<noteq> CHR ''/''" "w \<noteq> []" by (cases h; auto)+
  ultimately show ?thesis using assms(1) w SrcNet netmask_meaning [OF w(4,5), of env]
    by (auto simp: parse_dispatch_from_def from_net_def host_address_def Let_def split: option.splits)
qed (use assms in auto)

lemma subcond_clause:
  "smap_kwtab_nametotok query_kwtab w = Some tok \<Longrightarrow> is_cond_tok tok \<Longrightarrow> parse_subcond env (w # input) = parse_cond_clause env tok input"
  by (cases tok) (simp_all add: parse_cond_clause_def is_cond_tok_def)

text \<open>Every condition begins with a keyword, and the clause of this keyword gives its meaning.\<close>

lemma parse_cond_meaning:
  "cond_meaning env s = Some c \<Longrightarrow>
   \<exists>w ws tok. cond_words s = w # ws \<and> smap_kwtab_nametotok query_kwtab w = Some tok \<and> is_cond_tok tok
     \<and> (\<forall>rest. parse_cond_clause env tok (ws @ rest) = POk c rest)"
proof (induction s arbitrary: c)
  case (SrcServer s)
  then show ?case by (auto simp: kw_toks is_cond_tok_def parse_cond_clause_def parse_dispatch_server_def)
next
  case (SrcNot s)
  then obtain c' where "cond_meaning env s = Some c'" "c = query_cond_not c'" by auto
  with SrcNot.IH [of c'] obtain w ws tok where
    "cond_words s = w # ws" "smap_kwtab_nametotok query_kwtab w = Some tok" "is_cond_tok tok"
    "\<forall>rest. parse_cond_clause env tok (ws @ rest) = POk c' rest" by blast
  with subcond_clause [of w tok env] \<open>c = _\<close> show ?case
    by (auto simp: kw_toks is_cond_tok_def parse_cond_clause_def [of env T_NOT])
next
  case (SrcUnix p)
  from parse_from_meaning [OF this] show ?case by (auto simp: kw_toks is_cond_tok_def parse_cond_clause_def)
next
  case (SrcHost h)
  from parse_from_meaning [OF this] show ?case by (auto simp: kw_toks is_cond_tok_def parse_cond_clause_def)
next
  case (SrcNet h m)
  from parse_from_meaning [OF this] show ?case by (auto simp: kw_toks is_cond_tok_def parse_cond_clause_def)
qed (auto simp: kw_toks is_cond_tok_def parse_cond_clause_def parse_comp_meaning)

section \<open>The parser of a line\<close>

definition conds_meaning :: "'re query_env \<Rightarrow> cond_src list \<Rightarrow> 're query_cond list option" where
  "conds_meaning env cs = those (map (cond_meaning env) cs)"

lemma complex_loop_conds:
  "conds_meaning env cs = Some ms \<Longrightarrow> length (concat (map cond_words cs) @ rest) \<le> fuel \<Longrightarrow>
   \<exists>fuel'. length rest \<le> fuel' \<and> parse_complex_loop env fuel (concat (map cond_words cs) @ rest) conds db xf =
     parse_complex_loop env fuel' rest (conds @ ms) db xf"
proof (induction cs arbitrary: ms fuel conds)
  case Nil
  then show ?case by (auto simp: conds_meaning_def)
next
  case (Cons s cs)
  then obtain c ms' where m: "cond_meaning env s = Some c" "conds_meaning env cs = Some ms'" "ms = c # ms'"
    by (auto simp: conds_meaning_def split: option.splits)
  from parse_cond_meaning [OF m(1)] obtain w ws tok where
    w: "cond_words s = w # ws" "smap_kwtab_nametotok query_kwtab w = Some tok" "is_cond_tok tok"
    "\<forall>rest. parse_cond_clause env tok (ws @ rest) = POk c rest" by blast
  with Cons.prems(2) obtain f where f: "fuel = Suc f" "length (concat (map cond_words cs) @ rest) \<le> f" by (cases fuel) auto
  from Cons.IH [OF m(2) f(2), of "conds @ [c]"] w f(1) m(3) show ?case by auto
qed

lemma complex_loop_target:
  assumes "length (target_words t @ rest) \<le> fuel"
  shows "\<exists>fuel'. length rest \<le> fuel' \<and> parse_complex_loop env fuel (target_words t @ rest) conds None XFORM_NONE =
     parse_complex_loop env fuel' rest conds (Some (target_database t)) (target_xform t)"
proof -
  from assms obtain f where f: "fuel = Suc f" "length rest \<le> f" by (cases fuel; cases t) auto
  then show ?thesis
    by (intro exI [of _ f]) (cases t; simp add: kw_toks is_cond_tok_def parse_db_clause_def)
qed

lemma cond_words_not_default: "cond_words s \<noteq> [] \<and> hd (cond_words s) \<noteq> ''default''"
  by (cases s) auto

lemma line_not_default:
  assumes "rest = [] \<or> hd rest \<noteq> ''default''"
  shows "concat (map cond_words cs) @ rest = [] \<or> hd (concat (map cond_words cs) @ rest) \<noteq> ''default''"
  using assms cond_words_not_default by (cases cs) (simp_all add: hd_append)

text \<open>The rule that a line stands for.\<close>

definition described_rule :: "string \<Rightarrow> nat \<Rightarrow> 're query_cond list \<Rightarrow> target_src \<Rightarrow> 're dispatch_rule" where
  "described_rule cf line ms t =
     \<lparr>dr_file = cf, dr_line = line, dr_cond = ms, dr_dbname = target_database t, dr_dbi = None, dr_xform = target_xform t\<rparr>"

text \<open>Where the parser stops once it has a database: at the end of the line, at a word that is no keyword, and at another database.\<close>

definition line_stops :: "string list \<Rightarrow> bool" where
  "line_stops rest \<longleftrightarrow> rest = [] \<or> smap_kwtab_nametotok query_kwtab (hd rest) = None \<or> hd rest = ''database''"

text \<open>What is made of the state in which the loop ends.\<close>

definition finish_line ::
  "string \<Rightarrow> nat \<Rightarrow> 're dispatch_rule list \<Rightarrow> 're query_cond list \<times> string option \<times> nat \<Rightarrow> 're dispatch_rule list \<times> int" where
  "finish_line cf line rules st = (case st of (head, dbname, xform) \<Rightarrow>
     (case dbname of
        None \<Rightarrow> (rules, 1)
      | Some nm \<Rightarrow> (rules @ [\<lparr>dr_file = cf, dr_line = line, dr_cond = head, dr_dbname = nm, dr_dbi = None, dr_xform = xform\<rparr>], 0)))"

lemma parse_conds:
  assumes "conds_meaning env cs = Some ms" "rest = [] \<or> hd rest \<noteq> ''default''"
  obtains fuel where "length rest \<le> fuel"
    and "parse_dispatch env cf line rules (concat (map cond_words cs) @ rest) =
      map_option (finish_line cf line rules) (parse_complex_loop env fuel rest ms None XFORM_NONE)"
proof -
  from complex_loop_conds [OF assms(1) order_refl, of rest "[]" None XFORM_NONE] obtain f where
    "length rest \<le> f" "parse_complex_loop env (length (concat (map cond_words cs) @ rest)) (concat (map cond_words cs) @ rest) [] None XFORM_NONE =
      parse_complex_loop env f rest ms None XFORM_NONE" by auto
  with line_not_default [OF assms(2), of cs] show ?thesis
    by (intro that [of f])
      (auto simp: parse_dispatch_def parse_complex_dispatch_def finish_line_def simp del: hd_append2 split: bind_splits option.splits)
qed

lemma parse_full_line:
  assumes "conds_meaning env cs1 = Some ms1" "conds_meaning env cs2 = Some ms2"
  obtains fuel where "length rest \<le> fuel"
    and "parse_dispatch env cf line rules (concat (map cond_words cs1) @ target_words t @ concat (map cond_words cs2) @ rest) =
      map_option (finish_line cf line rules) (parse_complex_loop env fuel rest (ms1 @ ms2) (Some (target_database t)) (target_xform t))"
proof -
  let ?r = "concat (map cond_words cs2) @ rest"
  have "hd (target_words t @ ?r) \<noteq> ''default''" by (cases t) auto
  then obtain f where
    f: "length (target_words t @ ?r) \<le> f" "parse_dispatch env cf line rules (concat (map cond_words cs1) @ target_words t @ ?r) =
      map_option (finish_line cf line rules) (parse_complex_loop env f (target_words t @ ?r) ms1 None XFORM_NONE)"
    using parse_conds [OF assms(1), of "target_words t @ ?r"] by blast
  from complex_loop_target [OF f(1), of env ms1] obtain g where
    g: "length ?r \<le> g" "parse_complex_loop env f (target_words t @ ?r) ms1 None XFORM_NONE =
      parse_complex_loop env g ?r ms1 (Some (target_database t)) (target_xform t)" by blast
  from complex_loop_conds [OF assms(2) g(1)] obtain h where
    "length rest \<le> h" "parse_complex_loop env g ?r ms1 (Some (target_database t)) (target_xform t) =
      parse_complex_loop env h rest (ms1 @ ms2) (Some (target_database t)) (target_xform t)" by blast
  with f(2) g(2) show ?thesis by (intro that [of h]) simp_all
qed

lemma loop_stops:
  "line_stops rest \<Longrightarrow> length rest \<le> fuel \<Longrightarrow>
   parse_complex_loop env fuel rest ms (Some nm) xf = Some (ms, Some nm, xf)"
  by (cases rest; cases fuel; cases "tl rest") (auto simp: line_stops_def kw_toks is_cond_tok_def parse_db_clause_def)

text \<open>C16. A dispatch rule of conditions \<open>cs1\<close>, a target and further conditions \<open>cs2\<close>, written in words, is parsed to exactly the rule that it describes, which is attached at the
  end of the list: all conditions in their order, with their operators, network masks and regular expressions, then the name of the database and the transformation, linked to no
  database yet.  When a word that is no keyword, or a second \<open>database\<close>, follows, the rule is attached as it is so far, without an error, and the rest of the line is not read.
  Without a target, or with a word that is no keyword before it, the list is left alone and an error is reported.  The words \<open>default database db\<close> give the rule without conditions,
  and \<open>default\<close> followed by anything that is not exactly two words is an error.\<close>

theorem parse_dispatch_rules:
  assumes "conds_meaning env cs1 = Some ms1" "conds_meaning env cs2 = Some ms2"
    "line_stops wds" "smap_kwtab_nametotok query_kwtab w = None" "w \<noteq> ''default''" "length defs \<noteq> 2"
  shows "parse_dispatch env cf line rules (concat (map cond_words cs1) @ target_words t @ concat (map cond_words cs2) @ wds) =
      Some (rules @ [described_rule cf line (ms1 @ ms2) t], 0)
    \<and> parse_dispatch env cf line rules (concat (map cond_words cs1)) = Some (rules, 1)
    \<and> parse_dispatch env cf line rules (concat (map cond_words cs1) @ w # others) = Some (rules, 1)
    \<and> parse_dispatch env cf line rules [''default'', ''database'', db] = Some (rules @ [described_rule cf line [] (ToDatabase db)], 0)
    \<and> parse_dispatch env cf line rules (''default'' # defs) = Some (rules, 1)"
proof (intro conjI)
  show "parse_dispatch env cf line rules (concat (map cond_words cs1) @ target_words t @ concat (map cond_words cs2) @ wds) =
      Some (rules @ [described_rule cf line (ms1 @ ms2) t], 0)"
    by (rule parse_full_line [OF assms(1,2), where rest = wds and t = t and cf = cf and line = line and rules = rules])
      (simp add: loop_stops [OF assms(3)] finish_line_def described_rule_def)
  show "parse_dispatch env cf line rules (concat (map cond_words cs1)) = Some (rules, 1)"
    by (rule parse_conds [OF assms(1), where rest = "[]" and cf = cf and line = line and rules = rules]) (simp_all add: finish_line_def)
  obtain g where "length (w # others) \<le> g" "parse_dispatch env cf line rules (concat (map cond_words cs1) @ w # others) =
      map_option (finish_line cf line rules) (parse_complex_loop env g (w # others) ms1 None XFORM_NONE)"
    using assms(5) by (auto intro: parse_conds [OF assms(1), where rest = "w # others" and cf = cf and line = line and rules = rules])
  then show "parse_dispatch env cf line rules (concat (map cond_words cs1) @ w # others) = Some (rules, 1)"
    using assms(4) by (cases g) (simp_all add: finish_line_def)
  show "parse_dispatch env cf line rules [''default'', ''database'', db] = Some (rules @ [described_rule cf line [] (ToDatabase db)], 0)"
    by (simp add: parse_dispatch_def parse_default_dispatch_def described_rule_def kw_toks)
  show "parse_dispatch env cf line rules (''default'' # defs) = Some (rules, 1)"
    using assms(6) by (auto simp: parse_dispatch_def parse_default_dispatch_def split: list.splits)
qed

theorem parse_dispatch_rules_witness:
  "parse_dispatch no_env ''smapd.conf'' 4 [] [''map'', ''like'', ''us*'', ''transform'', ''key'', ''dequote'', ''not'', ''server'', ''priv'', ''mapp'', ''eq''] =
    Some ([\<lparr>dr_file = ''smapd.conf'', dr_line = 4, dr_cond = [query_cond_map \<lparr>cc_op = comp_like, cc_str = ''us*'', cc_re = None\<rparr>, query_cond_not (query_cond_server ''priv'')],
      dr_dbname = ''dequote'', dr_dbi = None, dr_xform = XFORM_KEY\<rparr>], 0)
   \<and> parse_dispatch no_env ''smapd.conf'' 4 [] [''map'', ''like'', ''us*'', ''mapp'', ''eq''] = Some ([], 1)"
  using parse_dispatch_rules [of no_env "[SrcMap (CmpLike ''us*'')]" _ "[SrcNot (SrcServer ''priv'')]" _ "[''mapp'', ''eq'']" "''mapp''" "[]" "''smapd.conf''" 4 "[]"
      "TransformKey ''dequote''" "[''eq'']"]
  by (simp add: conds_meaning_def query_kwtab_def line_stops_def described_rule_def)

text \<open>A transformation that is given as a second target changes the target that was given first.\<close>

lemma second_target_transforms:
  "parse_dispatch env cf line rules [''database'', db, ''transform'', ''map'', db2] =
    Some (rules @ [\<lparr>dr_file = cf, dr_line = line, dr_cond = [], dr_dbname = db, dr_dbi = None, dr_xform = XFORM_MAP\<rparr>], 0)"
  by (simp add: parse_dispatch_def parse_complex_dispatch_def kw_toks is_cond_tok_def parse_db_clause_def eval_nat_numeral)

end
