(* ===== verification/Spec2Isabelle.thy ===== *)
theory Spec2Isabelle
  imports Smap_Smapd Smap_Srvman Smap_Fileout Smap_Url Smap_Privs Smap_Main Smap_Sed Smap_Mysql Smap_Ldap Smap_Smapc_Laws Smap_Diag_Laws Smap_Mailutils Smap_Wsnode Smap_Startup Smap_Query_Syntax
begin

text \<open>
  \<^bold>\<open>Smap\<close> answers sockmap and other map queries of mail servers.  The daemon \<open>smapd\<close>
  listens on the sockets of its configured servers, reads requests \<open>map key\<close> as
  packets \<open>len:text,\<close> from a client, looks for the first dispatch rule that matches
  the request and hands it to the database named there; databases are served by
  modules that are loaded dynamically.

  \<^bold>\<open>Parts of the program and theories.\<close>

  \<^item> \<open>lib/stream.c\<close> with \<open>include/smap/stream.h\<close> and \<open>streamdef.h\<close>: buffered streams over
    a table of methods.  \<open>Smap_Stream\<close> has the record of a stream (its buffer as a
    string, \<open>cur\<close> as an offset), the record of methods \<open>stream_ops\<close> over a device state, and one
    definition per function of the file.  Loops that may not end are
    \<^theory_text>\<open>partial_function (option)\<close>; the value \<open>None\<close> stands for not returning or for an
    access outside the allocated memory.
  \<^item> \<open>Smap_Stream_Out\<close> and \<open>Smap_Stream_In\<close> state the interfaces between streams and the
    devices below them as locales (\<open>out_device\<close>, \<open>reliable_device\<close>, \<open>line_device\<close>,
    \<open>byte_device\<close>) and prove, once for all devices, what writing, flushing and
    reading lines do: no byte is lost, duplicated or reordered, complete lines
    are delivered as blocks, and the loops end.
  \<^item> \<open>lib/sockmapstr.c\<close>: the packets.  \<open>Smap_Sockmap\<close> has the output, input and combined
    stream with the socket as an explicit sequence of events; \<open>Smap_Sockmap_Laws\<close>
    interprets the locales on them (\<open>so\<close>, \<open>sor\<close>, \<open>si\<close>, \<open>ss\<close>) and proves the round trip
    over a connection.
  \<^item> \<open>lib/vasnprintf.c\<close>, \<open>lib/stream_vprintf.c\<close> and \<open>lib/stream_printf.c\<close>: \<open>Smap_Printf\<close> has formatted output to streams, through which the
    modules send their replies and the client its requests.
  \<^item> \<open>src/smapd.h\<close> (\<open>DCLATT\<close>, \<open>DCLDET\<close>, \<open>DCLLOC\<close>): \<open>Smap_Dlist\<close> models the pointer
    manipulations on a heap and proves that they implement lists; the other theories use lists.
  \<^item> \<open>lib/kwtab.c\<close> and \<open>lib/debug.c\<close>: \<open>Smap_Kwtab\<close>, keyword tables and debugging levels.
  \<^item> \<open>src/module.c\<close>: \<open>Smap_Module\<close> has the tables of modules and databases and their life
    cycle; entry points are functions of a record, a null entry point is \<open>None\<close>, and
    the dynamic loader is a parameter.  \<open>Smap_Tables\<close> has the invariants.
    \<open>Smap_Echo\<close> models the module of \<open>modules/echo/echo.c\<close>, the concrete instance of
    the interface used in the examples.
  \<^item> \<open>src/query.c\<close>: \<open>Smap_Query\<close> has the parser of dispatch rules, the linker, the
    matching of conditions and the dispatcher; \<open>fnmatch\<close>, regular expressions and
    address conversion are parameters (\<open>query_env\<close>).  \<open>Smap_Query_Syntax\<close> has the language of dispatch rules and what
    its words mean, independently of the parser, and proves that the parser recovers it.
  \<^item> \<open>src/smapd.c\<close>: \<open>Smap_Smapd\<close> has the session loop, the session of a server, the start
    of the modules, the cache of command line settings and the parser of modes.
  \<^item> \<open>src/srvman.c\<close>: \<open>Smap_Srvman\<close> has the server manager: the servers, their tables of
    children, accepting and forking, the main loop as a step relation over arbitrary
    results of the system calls, opening and shutting down.

  \<^item> \<open>lib/fileoutstr.c\<close>: \<open>Smap_Fileout\<close> has the stream that writes lines with prefixes to a
    standard I/O file, an instance of the locales of \<open>Smap_Stream_Out\<close>.
  \<^item> \<open>lib/url.c\<close>: \<open>Smap_Url\<close> turns the URL of a socket into an address; name services and
    the success of allocations are parameters.
  \<^item> \<open>src/userprivs.c\<close>: \<open>Smap_Privs\<close> collects the groups of a user and switches the
    credentials of the process; the kernel is a record of functions.
  \<^item> \<open>lib/wordsplit.c\<close>: \<open>Smap_Wordsplit\<close> has the scanner, the list of nodes, the expansion of
    variables, the joining of nodes into words, quoting and unquoting; a string is
    a list of bytes whose terminator is at its length, and a read behind it is \<open>None\<close>.
    \<open>Smap_Wordsplit_Laws\<close> has what the splitter computes, and \<open>Smap_Wsnode\<close> the linked nodes in memory, which are
    shown to implement the lists that \<open>Smap_Wordsplit\<close> works with.
  \<^item> \<open>src/cfg.c\<close>: \<open>Smap_Cfg\<close> reads logical lines, splits and interprets them by a table of
    statements, over a state given by the handlers (locale \<open>cfg_table\<close>).
    \<open>Smap_Config\<close> has the tables and handlers of \<open>src/smapd.c\<close> and \<open>src/log.c\<close> and interprets the
    locale on them (\<open>sk\<close> for the block of a server, \<open>gk\<close> for the file).
  \<^item> \<open>main\<close> and \<open>smap_daemon\<close>: \<open>Smap_Main\<close> has the start-up from the options of the command line
    to the opened sockets; \<open>Smap_Startup\<close> has the debugging categories, the search path of modules, the session under \<open>inetd\<close>, and the signals and the end of the daemon.
  \<^item> \<open>src/smapc.c\<close>: \<open>Smap_Smapc\<close> has the client as it is built without \<open>readline\<close>: its connection, queries, commands and the loop that reads
    them; the system is a record of functions (\<open>client_env\<close>).  \<open>Smap_Smapc_Laws\<close> joins it with the session of the server.
  \<^item> \<open>lib/parseopt.c\<close>: \<open>Smap_Parseopt\<close> has the parser of the arguments of modules over a table
    of options; the variables of the module are a state of any type.
  \<^item> \<open>modules/sed/transform.c\<close>: \<open>Smap_Transform\<close> has the compiler of s-expressions and their application; regular
    expressions are a parameter (\<open>re_env\<close>).  \<open>Smap_Transform_Laws\<close> has the reference substitution, the
    locale \<open>transform_sink\<close> of the list of output pieces and the proofs.
  \<^item> \<open>modules/sed/sed.c\<close>: \<open>Smap_Sed\<close> has the databases of the module: options, expressions, replies; it interprets
    the locale on the module's list (\<open>sl\<close>).
  \<^item> \<open>Smap_Template\<close> has the expansion of the templates of the modules by the word splitter, with the locale \<open>template_split\<close> and its
    instances \<open>ts\<close>, \<open>tk\<close> and \<open>tg\<close> for the three sources of variables.
  \<^item> \<open>modules/postgres/postgres.c\<close> and \<open>modules/mysql/mysql.c\<close>: \<open>Smap_Sql\<close> has what the two modules share, with the locale \<open>counted_connection\<close> of databases that
    are opened and closed through a counter.  \<open>Smap_Postgres\<close> and \<open>Smap_Mysql\<close> have the databases of the modules, with the client
    libraries as parameters (\<open>libpq\<close>, \<open>libmysql\<close>), and interpret the locale (\<open>pgc\<close>, \<open>myc\<close>).
  \<^item> \<open>modules/ldap/ldap.c\<close>: \<open>Smap_Ldap\<close> has the databases of the module, their configuration file, connections, searches and replies; the client library
    is a parameter (\<open>libldap\<close>).
  \<^item> \<open>modules/mailutils/mailutils.c\<close>: \<open>Smap_Mailutils\<close> has the databases of the module, which look users up and check the quotas of mailboxes; the
    library is a parameter (\<open>libmu\<close>).
  \<^item> \<open>lib/tracestr.c\<close>, \<open>lib/xscript.c\<close>, \<open>lib/syslogstr.c\<close>, \<open>lib/diag.c\<close>, \<open>lib/stderr.c\<close>, \<open>lib/syslog.c\<close>, \<open>lib/progname.c\<close>, \<open>src/log.c\<close> and \<open>src/close-fds.c\<close>: \<open>Smap_Diag\<close> has
    the streams of the logs, which stand on other streams, and their set-up.  \<open>Smap_Diag_Laws\<close> states as locales what a device does with lines
    (\<open>line_sink\<close>, \<open>traced_sink\<close>, \<open>text_sink\<close>) and interprets them on the logs (\<open>fl\<close>, \<open>sy\<close>, \<open>ft\<close>, \<open>st\<close>, \<open>ftx\<close>).

  \<^bold>\<open>What is shown.\<close>  Streams: bytes are conserved and lines delivered.  Sockmap: the length
  prefix is read back, lines written are read at the other end however the packets are fragmented, as long as no block has bytes of two packets.  Lists: the macros, and the nodes of the word splitter, refine list operations.  Tables: which modules and
  databases survive loading and initialisation, and with which guarantees.  Dispatch: the
  loop is one pass over the rules, never calls a null entry point, and the
  parser recovers the rule that the words of a line describe.  Configuration: words are split as
  a reference function splits them and quoting is undone, the reader returns, or exits with a code of the splitter, for every text outside
  the described faults, and its result keeps the invariants of the tables, so that the
  daemon it configures answers and keeps the limits of its servers (\<open>configured_daemon\<close> below).
  Module \<open>sed\<close>: options are permuted to the front, compiled expressions refer to existing groups, their application
  ends and agrees with the reference, and a database answers every sequence of queries.
  Modules \<open>postgres\<close> and \<open>mysql\<close>: which statement is sent, that quoted values are read back, and which template answers.
  Module \<open>ldap\<close>: the order of its settings, the attributes it asks for, the filter it sends and the answer.
  Module \<open>mailutils\<close>: which messages fit into a quota, and with which identity mailboxes are read.
  Logs: which lines reach the log of traces.  Privileges: no success is reported while root can be regained.  Session: one packet per request with the answer of
  the dispatcher.  Client: one packet per query, and between client and server what was typed is answered by the dispatcher.  Server manager: the counters of children and their limits in
  every reachable state, and what opening the sockets leaves in the kernel (\<open>effects\<close>).  A few theorems record what
  the code does where it was probably meant to do something else (negated conditions,
  pipelined packets, released servers, growth of the debug table).

  \<^bold>\<open>Bounds.\<close>  \<open>size_t\<close> has 64 bits (\<open>SIZE_MAX\<close>); subtractions that may wrap around are written
  with \<open>size_sub\<close>; flags are 32 bit words.  Texts in the round trips are shorter than
  \<open>2 ^ 61\<close> bytes so that the buffer sizes do not wrap around.  Replies of the modules and requests of the client are formatted by \<open>smap_stream_printf\<close>, which from 512 bytes on, the newline included, reads its
  arguments again after they have been consumed: such lines are faults (\<open>None\<close>), and the theorems on answers say so or assume shorter lines.  The only fuel is
  the number of words of a dispatch line in \<open>parse_complex_loop\<close>: every clause
  consumes a word, so that their number is enough.

  \<^bold>\<open>Not modelled.\<close>  Messages for the log, signal masks, the writing of the pid file, and memory exhaustion in the functions that exit on it (\<open>src/mem.c\<close>);
  the editing and the history of input lines in the client; the start-up and the log stream of the library of the module \<open>mailutils\<close>; the
  module \<open>guile\<close>, which is glue to an interpreter outside the repository; and the vendored and generated files
  (\<open>libltdl\<close>, \<open>gint\<close>, the parsers of command lines).
\<close>

text \<open>C4. From the configuration file to the running daemon.  Let the set-up of \<open>main\<close> succeed for a configuration text that the splitter can treat and that has none of the
  statements that can fault (\<open>conf_text_ok\<close>: \<open>allgroups\<close> in a text with server blocks, \<open>debug\<close> with the name of a category, faulting addresses), with modules of a positive version.  Then
  every sequence of queries is answered, one answer for each, by the tables it leaves, and starting the daemon cannot fault, whatever the kernel and the name services do; if the daemon
  starts, then in every state its server manager can reach, the counters of children agree with the tables, no server has more children than its own limit, and the number of all
  children stays below the global limit plus the number of servers (the global limit itself can be exceeded).\<close>

theorem configured_daemon:
  assumes "conf_inv c0" "conf_text_ok ev t" "\<forall>nm pmod. dlopen nm = Some (Some pmod) \<longrightarrow> 0 < smap_version pmod"
    and "main_setup ev dlopen tty (Some t) lint oc c0 = Some (Inr c)"
  shows "(\<forall>qe qs. \<exists>ms' outs. dispatch_queries qe (sc_rules c) qs (sc_modules c) = Some (ms', outs) \<and> length outs = length qs)
    \<and> (\<exists>r. smap_daemon_start ev ops detached gid oes c cr = Some r
        \<and> (\<forall>calls c' cr' sm. r = Inr (calls, c', cr') \<and> srvman_reachable (sc_param c') (sc_srvman c') sm \<longrightarrow>
            (\<forall>srv \<in> set (sm_servers sm). srv_num_children srv = live srv
               \<and> (srv_max_children srv \<noteq> 0 \<longrightarrow> live srv \<le> srv_max_children srv))
            \<and> (sp_max_children (sc_param c') \<noteq> 0 \<longrightarrow>
                 sm_num_children sm < sp_max_children (sc_param c') + length (sm_servers (sc_srvman c')))))"
proof -
  from main_setup_ready [OF assms(1,2,4)] obtain c1 where
    c1: "conf_inv c1" "start_modules dlopen (sc_modules c1) (sc_rules c1) = Some (sc_modules c, sc_rules c)"
    "c = c1\<lparr>sc_modules := sc_modules c, sc_rules := sc_rules c\<rparr>" by blast
  note q = dispatch_queries_linked [OF start_modules_linked [OF c1(1) assms(3) c1(2)]]
  have "sc_global_privs c = sc_global_privs c1" "sc_srvman c = sc_srvman c1" by (subst c1(3), simp)+
  from daemon_start_returns [OF c1(1) this, of ev ops detached gid oes cr] obtain r where
    r: "smap_daemon_start ev ops detached gid oes c cr = Some r"
    "\<forall>calls c' cr'. r = Inr (calls, c', cr') \<longrightarrow> within (sc_param c') (length (sm_servers (sc_srvman c'))) (sc_srvman c')"
    by blast
  show ?thesis
  proof (intro conjI allI exI [of _ r] impI; (elim conjE)?)
    show "\<exists>ms' outs. dispatch_queries qe (sc_rules c) qs (sc_modules c) = Some (ms', outs) \<and> length outs = length qs"
      for qe qs using q by blast
    show "smap_daemon_start ev ops detached gid oes c cr = Some r" by (rule r(1))
    fix calls c' cr' sm
    assume "r = Inr (calls, c', cr')" and s: "srvman_reachable (sc_param c') (sc_srvman c') sm"
    with r(2) have w: "within (sc_param c') (length (sm_servers (sc_srvman c'))) (sc_srvman c')" by blast
    note lim = reachable_limits [OF w s]
    show "\<forall>srv \<in> set (sm_servers sm). srv_num_children srv = live srv
        \<and> (srv_max_children srv \<noteq> 0 \<longrightarrow> live srv \<le> srv_max_children srv)" using lim by blast
    show "sm_num_children sm < sp_max_children (sc_param c') + length (sm_servers (sc_srvman c'))"
      if "sp_max_children (sc_param c') \<noteq> 0" using lim that by blast
  qed
qed

theorem configured_daemon_witness:
  "\<exists>c. main_setup demo_conf_env echo_dlopen True (Some setup_text) False no_opts demo_conf = Some (Inr c)
    \<and> (\<exists>ms' outs. dispatch_queries no_env (sc_rules c) [(''s'', no_conn, ''users'', ''bob'')] (sc_modules c) = Some (ms', outs)
         \<and> length outs = 1)
    \<and> (\<exists>r. smap_daemon_start demo_conf_env posix_ops True 0
          (\<lambda>_. \<lparr>oe_socket = 5, oe_stat = StatOther, oe_unlink_ok = True, oe_umask = 18, oe_bind_ok = True, oe_euid = 0, oe_listen_ok = True\<rparr>)
          c \<lparr>cr_uids = (0, 0, 0), cr_gids = (0, 0, 0), cr_groups = [0]\<rparr> = Some r)"
proof -
  from setup_main obtain c where c: "main_setup demo_conf_env echo_dlopen True (Some setup_text) False no_opts demo_conf = Some (Inr c)"
    by blast
  have v: "\<forall>nm pmod. echo_dlopen nm = Some (Some pmod) \<longrightarrow> 0 < smap_version pmod"
    by (simp add: echo_dlopen_def echo_module_def)
  from configured_daemon [OF demo_conf_inv setup_text_ok v c, of posix_ops True 0
      "\<lambda>_. \<lparr>oe_socket = 5, oe_stat = StatOther, oe_unlink_ok = True, oe_umask = 18, oe_bind_ok = True, oe_euid = 0, oe_listen_ok = True\<rparr>"
      "\<lparr>cr_uids = (0, 0, 0), cr_gids = (0, 0, 0), cr_groups = [0]\<rparr>"] c
  show ?thesis by fastforce
qed

end
